(* ===== verification/Ko_Prelude.thy ===== *)
theory Ko_Prelude
  imports Main "HOL-Library.Word"
begin

text \<open>
  Shared vocabulary of the development: the machine integers of the eBPF program
  (\<open>u8\<close> to \<open>u64\<close>), little-endian loads and stores of byte arrays (what
  \<^verbatim>\<open>__builtin_memcpy\<close> between a word and a byte array does on the bpfel target), the
  generic lemmas on words and lists that the components use, and the collections that
  carry their automation.
\<close>

unbundle bit_operations_syntax

named_theorems le_simps \<open>little-endian loads and stores\<close>
named_theorems shift_eq \<open>comparisons of shifted words as comparisons of low bits\<close>

type_synonym u8 = "8 word"
type_synonym u16 = "16 word"
type_synonym u32 = "32 word"
type_synonym u64 = "64 word"
type_synonym bytes = "u8 list"

subsection \<open>Little-endian loads and stores\<close>

text \<open>\<^verbatim>\<open>le_word bs\<close> is the word a little-endian machine loads from the bytes \<open>bs\<close>,
  \<^verbatim>\<open>le_bytes n w\<close> the \<open>n\<close> bytes it stores.\<close>

primrec le_word :: "bytes \<Rightarrow> 'a::len word" where
  "le_word [] = 0"
| "le_word (b # bs) = ucast b OR push_bit 8 (le_word bs)"

primrec le_bytes :: "nat \<Rightarrow> 'a::len word \<Rightarrow> bytes" where
  "le_bytes 0 w = []"
| "le_bytes (Suc n) w = ucast w # le_bytes n (drop_bit 8 w)"

lemma length_le_bytes [simp]: "length (le_bytes n w) = n"
  by (induction n arbitrary: w) auto

lemma bit_le_word [le_simps]:
  "bit (le_word bs :: 'a::len word) n \<longleftrightarrow>
     n < LENGTH('a) \<and> n div 8 < length bs \<and> bit (bs ! (n div 8)) (n mod 8)"
proof (induction bs arbitrary: n)
  case Nil
  then show ?case by simp
next
  case (Cons b bs)
  show ?case
  proof (cases "n < 8")
    case True
    then show ?thesis by (auto simp: bit_or_iff bit_push_bit_iff bit_ucast_iff)
  next
    case False
    then obtain m where n: "n = m + 8" by (metis add.commute le_Suc_ex not_less)
    then have "\<not> bit b n" and "n div 8 = Suc (m div 8)" by (auto dest: bit_imp_le_length)
    with n Cons.IH [of m] show ?thesis
      by (auto simp: bit_or_iff bit_push_bit_iff bit_ucast_iff)
  qed
qed

lemma nth_le_bytes [le_simps]:
  "i < n \<Longrightarrow> le_bytes n w ! i = ucast (drop_bit (8 * i) w)"
proof (induction n arbitrary: i w)
  case 0
  then show ?case by simp
next
  case (Suc n)
  then show ?case by (cases i) (auto simp: drop_bit_drop_bit add.commute)
qed

lemma le_word_le_bytes [simp]:
  fixes w :: "'a::len word"
  assumes "LENGTH('a) = 8 * n"
  shows "le_word (le_bytes n w) = w"
proof (rule bit_word_eqI)
  fix i assume "i < LENGTH('a)"
  moreover from this assms have "i div 8 < n" by simp
  ultimately show "bit (le_word (le_bytes n w) :: 'a word) i = bit w i"
    by (simp add: bit_le_word nth_le_bytes bit_ucast_iff bit_drop_bit_eq)
qed

lemma le_bytes_le_word [simp]:
  assumes "LENGTH('a) = 8 * length bs"
  shows "le_bytes (length bs) (le_word bs :: 'a::len word) = bs"
proof (rule nth_equalityI)
  fix i assume "i < length (le_bytes (length bs) (le_word bs :: 'a word))"
  then have i: "i < length bs" by simp
  show "le_bytes (length bs) (le_word bs :: 'a word) ! i = bs ! i"
  proof (rule bit_word_eqI)
    fix j assume "j < LENGTH(8)"
    with i assms show "bit (le_bytes (length bs) (le_word bs :: 'a word) ! i) j = bit (bs ! i) j"
      by (auto simp: nth_le_bytes bit_ucast_iff bit_drop_bit_eq bit_le_word)
  qed
qed simp

subsection \<open>Comparing the low bits of a word\<close>

lemma unat_ucast_up [simp]:
  assumes "LENGTH('a) \<le> LENGTH('b)"
  shows "unat (ucast (x :: 'a::len word) :: 'b::len word) = unat x"
proof -
  have "unat x < 2 ^ LENGTH('a)" by (rule unsigned_less)
  also have "\<dots> \<le> 2 ^ LENGTH('b)" using assms by (rule power_increasing) simp
  finally show ?thesis by (simp add: unsigned_ucast_eq take_bit_nat_eq_self)
qed

lemma push_bit_eq_0_iff [shift_eq]:
  fixes w :: "'a::len word"
  assumes "n \<le> LENGTH('a)"
  shows "push_bit (LENGTH('a) - n) w = 0 \<longleftrightarrow> take_bit n w = 0"
proof
  assume eq: "push_bit (LENGTH('a) - n) w = 0"
  show "take_bit n w = 0"
  proof (rule bit_word_eqI)
    fix i assume "i < LENGTH('a)"
    have "\<not> bit (push_bit (LENGTH('a) - n) w) (LENGTH('a) - n + i)"
      by (simp add: eq)
    with assms show "bit (take_bit n w) i = bit (0 :: 'a word) i"
      by (auto simp: bit_push_bit_iff bit_take_bit_iff)
  qed
next
  assume eq: "take_bit n w = 0"
  show "push_bit (LENGTH('a) - n) w = 0"
  proof (rule bit_word_eqI)
    fix i assume "i < LENGTH('a)"
    have "\<not> bit (take_bit n w) (i - (LENGTH('a) - n))"
      by (simp add: eq)
    with assms \<open>i < LENGTH('a)\<close>
    show "bit (push_bit (LENGTH('a) - n) w) i = bit (0 :: 'a word) i"
      by (auto simp: bit_push_bit_iff bit_take_bit_iff)
  qed
qed

lemma xor_eq_0_iff_eq: "x XOR y = 0 \<longleftrightarrow> x = y" for x y :: "'a::len word"
  by (metis xor.assoc xor.right_neutral xor_self_eq)

lemma take_bit_eq_0_iff_bits: "take_bit n (w :: 'a::len word) = 0 \<longleftrightarrow> (\<forall>j < n. \<not> bit w j)"
proof
  assume eq: "take_bit n w = 0"
  show "\<forall>j < n. \<not> bit w j"
  proof (intro allI impI)
    fix j assume "j < n"
    moreover have "\<not> bit (take_bit n w) j" by (simp add: eq)
    ultimately show "\<not> bit w j" by (simp add: bit_take_bit_iff)
  qed
next
  assume "\<forall>j < n. \<not> bit w j"
  then show "take_bit n w = 0" by (auto intro!: bit_word_eqI simp: bit_take_bit_iff)
qed

text \<open>
  Two byte arrays agree on the first \<open>n\<close> address bits, in the two orders in which a byte's
  bits can be counted: network order (most significant bit first, what a CIDR prefix
  means) and the order of a little-endian word (least significant bit first).
\<close>

definition prefix_bits :: "nat \<Rightarrow> bytes \<Rightarrow> bytes \<Rightarrow> bool" where
  "prefix_bits n a b \<longleftrightarrow>
     (\<forall>j < n. bit (a ! (j div 8)) (7 - j mod 8) = bit (b ! (j div 8)) (7 - j mod 8))"

definition prefix_bits_le :: "nat \<Rightarrow> bytes \<Rightarrow> bytes \<Rightarrow> bool" where
  "prefix_bits_le n a b \<longleftrightarrow>
     (\<forall>j < n. bit (a ! (j div 8)) (j mod 8) = bit (b ! (j div 8)) (j mod 8))"

lemma prefix_bits_0 [simp]: "prefix_bits 0 a b" "prefix_bits_le 0 a b"
  by (simp_all add: prefix_bits_def prefix_bits_le_def)

text \<open>On whole bytes the two orders compare the same set of bits.\<close>

lemma prefix_bits_aligned:
  assumes "8 dvd n"
  shows "prefix_bits_le n a b \<longleftrightarrow> prefix_bits n a b"
proof -
  have flip: "8 * (j div 8) + (7 - j mod 8) < n" if "j < n" for j
  proof -
    obtain m where "n = 8 * m" using assms by blast
    with that have "j div 8 < m" by (simp add: div_less_iff_less_mult)
    then have "8 * Suc (j div 8) \<le> 8 * m" by (intro mult_le_mono2) simp
    then show ?thesis using \<open>n = 8 * m\<close> by simp
  qed
  have gen: "(8 * q + s) div 8 = q" "(8 * q + s) mod 8 = s" if "s < 8" for q s :: nat
    using that by simp_all
  have dm: "(8 * (j div 8) + (7 - j mod 8)) div 8 = j div 8"
    "(8 * (j div 8) + (7 - j mod 8)) mod 8 = 7 - j mod 8" for j :: nat
    by (rule gen, simp)+
  have "7 - (7 - j mod 8) = j mod 8" for j :: nat
    using mod_less_divisor [of 8 j] by linarith
  with flip dm show ?thesis
    unfolding prefix_bits_def prefix_bits_le_def by metis
qed

lemma prefix_bits_le_drop [le_simps]:
  fixes a b :: bytes
  assumes "LENGTH('a::len) = 8 * L" and "n \<le> 8 * L" and "L \<le> length a" and "L \<le> length b"
  shows "push_bit (8 * L - n) ((le_word a :: 'a word) XOR le_word b) = 0 \<longleftrightarrow> prefix_bits_le n a b"
proof -
  have "push_bit (8 * L - n) ((le_word a :: 'a word) XOR le_word b) = 0 \<longleftrightarrow>
      take_bit n ((le_word a :: 'a word) XOR le_word b) = 0"
    using push_bit_eq_0_iff [where 'a = 'a, of n] assms by metis
  also have "\<dots> \<longleftrightarrow> prefix_bits_le n a b"
    unfolding take_bit_eq_0_iff_bits using assms
    by (auto simp: prefix_bits_le_def bit_xor_iff bit_le_word)
  finally show ?thesis .
qed

lemma prefix_bits_le_take:
  "n \<le> 8 * L \<Longrightarrow> prefix_bits_le n (take L a) b = prefix_bits_le n a b"
  "n \<le> 8 * L \<Longrightarrow> prefix_bits_le n a (take L b) = prefix_bits_le n a b"
  by (auto simp: prefix_bits_le_def)

lemma prefix_bits_le_split:
  "prefix_bits_le (8 * L + n) a b \<longleftrightarrow>
     prefix_bits_le (8 * L) a b \<and> (\<forall>j < n. bit (a ! (L + j div 8)) (j mod 8) = bit (b ! (L + j div 8)) (j mod 8))"
  (is "?l \<longleftrightarrow> ?r1 \<and> ?r2")
proof -
  have "?l \<longleftrightarrow> ?r1 \<and> (\<forall>j. 8 * L \<le> j \<and> j < 8 * L + n \<longrightarrow>
      bit (a ! (j div 8)) (j mod 8) = bit (b ! (j div 8)) (j mod 8))"
    unfolding prefix_bits_le_def by (meson le_add1 less_le_trans not_le)
  also have "(\<forall>j. 8 * L \<le> j \<and> j < 8 * L + n \<longrightarrow>
      bit (a ! (j div 8)) (j mod 8) = bit (b ! (j div 8)) (j mod 8)) \<longleftrightarrow> ?r2"
    by (auto simp: le_iff_add)
  finally show ?thesis .
qed

end
