(* ===== verification/Bpf_Helpers.thy ===== *)
theory Bpf_Helpers
  imports Ko_Prelude
begin

text \<open>
  What the tracer uses of the BPF run-time, from \<^verbatim>\<open>bpf_helper_defs.h\<close> and \<^verbatim>\<open>bpf_endian.h\<close>
  under \<^verbatim>\<open>pkg/tracer/c/headers/bpf\<close>: map lookup, update and delete, the per-CPU counters,
  and the byte swaps. The choices the kernel makes (which entries an LRU map evicts, whether
  an insertion fails, whether the ring buffer has room) are arguments. The locale
  \<open>lossy_map\<close> is what the tracer relies on of an LRU hash map.
\<close>

subsection \<open>Maps\<close>

text \<open>An array map holds a value for every index below its size.\<close>

definition array_lookup :: "'v list \<Rightarrow> u32 \<Rightarrow> 'v option" where
  "array_lookup m k = (if unat k < length m then Some (m ! unat k) else None)"

text \<open>An LRU hash map. An update may evict other entries to make room and may fail.\<close>

record lru_choice =
  lru_victims :: "u64 list"
  lru_fails :: bool

definition hash_lookup :: "(u64 \<rightharpoonup> 'v) \<Rightarrow> u64 \<Rightarrow> 'v option" where
  "hash_lookup m k = m k"

definition lru_update :: "lru_choice \<Rightarrow> u64 \<Rightarrow> 'v \<Rightarrow> (u64 \<rightharpoonup> 'v) \<Rightarrow> (u64 \<rightharpoonup> 'v)" where
  "lru_update c k v m =
     (let m' = (\<lambda>x. if x \<in> set (lru_victims c) then None else m x)
      in if lru_fails c then m' else m'(k \<mapsto> v))"

definition hash_delete :: "u64 \<Rightarrow> (u64 \<rightharpoonup> 'v) \<Rightarrow> (u64 \<rightharpoonup> 'v)" where
  "hash_delete k m = m(k := None)"

text \<open>A store through the pointer that a lookup returned.\<close>

definition hash_store :: "u64 \<Rightarrow> 'v \<Rightarrow> (u64 \<rightharpoonup> 'v) \<Rightarrow> (u64 \<rightharpoonup> 'v)" where
  "hash_store k v m = m(k \<mapsto> v)"

lemmas map_defs = hash_lookup_def lru_update_def hash_delete_def hash_store_def

text \<open>A one-element per-CPU array of counters, as \<^verbatim>\<open>*counter += 1\<close> changes it.\<close>

type_synonym percpu = "nat \<Rightarrow> u64 list"

definition percpu_incr :: "nat \<Rightarrow> percpu \<Rightarrow> percpu" where
  "percpu_incr cpu m =
     (case array_lookup (m cpu) 0 of None \<Rightarrow> m | Some c \<Rightarrow> m(cpu := (m cpu)[0 := c + 1]))"

locale lossy_map =
  fixes lookup :: "'m \<Rightarrow> 'k \<Rightarrow> 'v option"
    and update :: "'c \<Rightarrow> 'k \<Rightarrow> 'v \<Rightarrow> 'm \<Rightarrow> 'm"
    and delete :: "'k \<Rightarrow> 'm \<Rightarrow> 'm"
    and store :: "'k \<Rightarrow> 'v \<Rightarrow> 'm \<Rightarrow> 'm"
  assumes update_same: "lookup (update c k v m) k = Some w \<Longrightarrow> w = v \<or> lookup m k = Some w"
    and update_other: "j \<noteq> k \<Longrightarrow> lookup (update c k v m) j = Some w \<Longrightarrow> lookup m j = Some w"
    and delete_same: "lookup (delete k m) k = None"
    and delete_other: "j \<noteq> k \<Longrightarrow> lookup (delete k m) j = lookup m j"
    and store_same: "lookup (store k v m) k = Some v"
    and store_other: "j \<noteq> k \<Longrightarrow> lookup (store k v m) j = lookup m j"
begin

text \<open>A property of every entry survives deletions and evictions, and an insertion or a
  store of a value that has it.\<close>

definition entries :: "('k \<Rightarrow> 'v \<Rightarrow> bool) \<Rightarrow> 'm \<Rightarrow> bool" where
  "entries Q m \<longleftrightarrow> (\<forall>k v. lookup m k = Some v \<longrightarrow> Q k v)"

lemma entriesD: "entries Q m \<Longrightarrow> lookup m k = Some v \<Longrightarrow> Q k v"
  by (simp add: entries_def)

lemma entries_update: "entries Q m \<Longrightarrow> Q k v \<Longrightarrow> entries Q (update c k v m)"
  unfolding entries_def by (metis update_same update_other)

lemma entries_delete: "entries Q m \<Longrightarrow> entries Q (delete k m)"
  unfolding entries_def by (metis delete_same delete_other option.distinct(1))

lemma entries_store: "entries Q m \<Longrightarrow> Q k v \<Longrightarrow> entries Q (store k v m)"
  unfolding entries_def by (metis store_same store_other option.inject)

lemma entries_mono: "entries Q m \<Longrightarrow> (\<And>k v. Q k v \<Longrightarrow> R k v) \<Longrightarrow> entries R m"
  by (simp add: entries_def)

end

interpretation lru: lossy_map hash_lookup lru_update hash_delete hash_store
  by unfold_locales (auto simp: map_defs Let_def split: if_splits)

lemma lru_entries_iff: "lru.entries Q m \<longleftrightarrow> (\<forall>k v. m k = Some v \<longrightarrow> Q k v)"
  by (simp add: lru.entries_def hash_lookup_def)

subsection \<open>Byte order\<close>

text \<open>Isolate byte \<open>n\<close> of a \<open>b\<close>-bit value and put it into byte \<open>m\<close>. The shifts run in the type
  the operand is promoted to, which for the 16-bit values is the 32-bit \<open>int\<close>.\<close>

definition bpf_mvb :: "nat \<Rightarrow> 'a::len word \<Rightarrow> nat \<Rightarrow> nat \<Rightarrow> 'a word" where
  "bpf_mvb b x n m = push_bit (m * 8) (drop_bit (b - 8) (push_bit (b - (n + 1) * 8) x))"

definition bpf_swab16 :: "u16 \<Rightarrow> u16" where
  "bpf_swab16 x = ucast (bpf_mvb 16 (ucast x :: u32) 0 1 OR bpf_mvb 16 (ucast x :: u32) 1 0)"

definition bpf_swab32 :: "u32 \<Rightarrow> u32" where
  "bpf_swab32 x = bpf_mvb 32 x 0 3 OR bpf_mvb 32 x 1 2 OR bpf_mvb 32 x 2 1 OR bpf_mvb 32 x 3 0"

definition bpf_swab64 :: "u64 \<Rightarrow> u64" where
  "bpf_swab64 x = bpf_mvb 64 x 0 7 OR bpf_mvb 64 x 1 6 OR bpf_mvb 64 x 2 5 OR bpf_mvb 64 x 3 4 OR
     bpf_mvb 64 x 4 3 OR bpf_mvb 64 x 5 2 OR bpf_mvb 64 x 6 1 OR bpf_mvb 64 x 7 0"

text \<open>The compiler's \<open>__builtin_bswap\<close> family: the bytes reversed.\<close>

definition builtin_bswap :: "nat \<Rightarrow> 'a::len word \<Rightarrow> 'a word" where
  "builtin_bswap n x = le_word (rev (le_bytes n x))"

text \<open>The conversions on the little-endian targets. The first argument is
  \<open>__builtin_constant_p(x)\<close>.\<close>

definition bpf_htons :: "bool \<Rightarrow> u16 \<Rightarrow> u16" where
  "bpf_htons const x = (if const then bpf_swab16 x else builtin_bswap 2 x)"

definition bpf_ntohs :: "bool \<Rightarrow> u16 \<Rightarrow> u16" where
  "bpf_ntohs const x = (if const then bpf_swab16 x else builtin_bswap 2 x)"

definition bpf_htonl :: "bool \<Rightarrow> u32 \<Rightarrow> u32" where
  "bpf_htonl const x = (if const then bpf_swab32 x else builtin_bswap 4 x)"

definition bpf_ntohl :: "bool \<Rightarrow> u32 \<Rightarrow> u32" where
  "bpf_ntohl const x = (if const then bpf_swab32 x else builtin_bswap 4 x)"

definition bpf_cpu_to_be64 :: "bool \<Rightarrow> u64 \<Rightarrow> u64" where
  "bpf_cpu_to_be64 const x = (if const then bpf_swab64 x else builtin_bswap 8 x)"

definition bpf_be64_to_cpu :: "bool \<Rightarrow> u64 \<Rightarrow> u64" where
  "bpf_be64_to_cpu const x = (if const then bpf_swab64 x else builtin_bswap 8 x)"

lemmas bpf_endian = bpf_htons_def bpf_ntohs_def bpf_htonl_def bpf_ntohl_def bpf_cpu_to_be64_def bpf_be64_to_cpu_def

lemma bit_bpf_mvb:
  fixes x :: "'a::len word"
  assumes "b = LENGTH('a)" and "8 * n + 8 \<le> b" and "8 * m + 8 \<le> b"
  shows "bit (bpf_mvb b x n m) i \<longleftrightarrow> 8 * m \<le> i \<and> i < 8 * m + 8 \<and> bit x (8 * n + (i - 8 * m))"
proof (cases "8 * m \<le> i \<and> i < 8 * m + 8")
  case True
  then obtain d where i: "i = 8 * m + d" and d: "d < 8" using le_Suc_ex by auto
  have "LENGTH('a) - 8 + d - (LENGTH('a) - (n + 1) * 8) = 8 * n + d"
    using assms d by simp
  then show ?thesis
    using assms i d by (auto simp: bpf_mvb_def bit_push_bit_iff bit_drop_bit_eq ac_simps)
next
  case False
  moreover have "\<not> bit (bpf_mvb b x n m) i"
  proof (cases "i < 8 * m")
    case True
    then show ?thesis by (simp add: bpf_mvb_def bit_push_bit_iff)
  next
    case ge: False
    with False have "LENGTH('a) \<le> LENGTH('a) - 8 + (i - 8 * m)" using assms by simp
    then show ?thesis
      by (auto simp: bpf_mvb_def bit_push_bit_iff bit_drop_bit_eq mult.commute assms(1))
  qed
  ultimately show ?thesis by blast
qed

lemma bit_builtin_bswap:
  fixes x :: "'a::len word"
  assumes "LENGTH('a) = 8 * n"
  shows "bit (builtin_bswap n x) i \<longleftrightarrow> i < 8 * n \<and> bit x (8 * (n - 1 - i div 8) + i mod 8)"
  using assms by (auto simp: builtin_bswap_def bit_le_word rev_nth nth_le_bytes bit_ucast_iff bit_drop_bit_eq div_less_iff_less_mult)

lemma byte_split:
  fixes i :: nat
  obtains k r where "i = 8 * k + r" and "r < 8"
  using that [of "i div 8" "i mod 8"] by simp

lemma swab_bswap:
  "bpf_swab16 x16 = builtin_bswap 2 x16" "bpf_swab32 x32 = builtin_bswap 4 x32" "bpf_swab64 x64 = builtin_bswap 8 x64"
proof -
  show "bpf_swab16 x16 = builtin_bswap 2 x16"
  proof (rule bit_word_eqI)
    fix i assume i: "i < LENGTH(16)"
    obtain k r where kr: "i = 8 * k + r" "r < 8" by (rule byte_split)
    with i have "k \<in> {0, 1}" by auto
    with kr bit_imp_le_length [of x16 "16 + r"] show "bit (bpf_swab16 x16) i = bit (builtin_bswap 2 x16) i"
      by (auto simp: bpf_swab16_def bpf_mvb_def bit_builtin_bswap bit_or_iff bit_ucast_iff bit_push_bit_iff bit_drop_bit_eq)
  qed
  show "bpf_swab32 x32 = builtin_bswap 4 x32"
  proof (rule bit_word_eqI)
    fix i assume i: "i < LENGTH(32)"
    obtain k r where kr: "i = 8 * k + r" "r < 8" by (rule byte_split)
    with i have "k \<in> {0, 1, 2, 3}" by auto
    with kr show "bit (bpf_swab32 x32) i = bit (builtin_bswap 4 x32) i"
      by (auto simp: bpf_swab32_def bit_bpf_mvb bit_builtin_bswap bit_or_iff)
  qed
  show "bpf_swab64 x64 = builtin_bswap 8 x64"
  proof (rule bit_word_eqI)
    fix i assume i: "i < LENGTH(64)"
    obtain k r where kr: "i = 8 * k + r" "r < 8" by (rule byte_split)
    with i have "k < 8" by simp
    then consider "k = 0" | "k = 1" | "k = 2" | "k = 3" | "k = 4" | "k = 5" | "k = 6" | "k = 7" by linarith
    then have "bit (bpf_swab64 x64) i \<longleftrightarrow> bit x64 (8 * (7 - k) + r)"
      using kr(2) by cases (simp_all add: kr(1) bpf_swab64_def bit_bpf_mvb bit_or_iff)
    then show "bit (bpf_swab64 x64) i = bit (builtin_bswap 8 x64) i"
      using kr i by (simp add: bit_builtin_bswap)
  qed
qed

lemma le_bytes_bswap: "LENGTH('a) = 8 * n \<Longrightarrow> le_bytes n (builtin_bswap n (x :: 'a::len word)) = rev (le_bytes n x)"
  using le_bytes_le_word [where 'a = 'a, of "rev (le_bytes n x)"] by (simp add: builtin_bswap_def)

lemma bswap_involutive: "LENGTH('a) = 8 * n \<Longrightarrow> builtin_bswap n (builtin_bswap n (x :: 'a::len word)) = x"
  unfolding builtin_bswap_def [of n "builtin_bswap n x"] by (simp add: le_bytes_bswap)

text \<open>C24: the byte-order conversions. On the little-endian targets every conversion reverses the
  bytes in memory, whether the compiler folds its constant form or emits the builtin, and the
  conversions to and from network order undo each other.\<close>

theorem byte_order_conversions:
  "le_bytes 2 (bpf_ntohs c s) = rev (le_bytes 2 s) \<and> bpf_ntohs c (bpf_htons d s) = s \<and>
   le_bytes 4 (bpf_ntohl c l) = rev (le_bytes 4 l) \<and> bpf_ntohl c (bpf_htonl d l) = l \<and>
   le_bytes 8 (bpf_be64_to_cpu c q) = rev (le_bytes 8 q) \<and> bpf_be64_to_cpu c (bpf_cpu_to_be64 d q) = q"
  by (simp add: bpf_endian swab_bswap le_bytes_bswap bswap_involutive)

end
