(* ===== verification/Filter_Spec.thy ===== *)
theory Filter_Spec
  imports Ko_Prelude
begin

text \<open>
  The abstract specification of an event filter: an ordered list of filters, each a
  three-valued conjunction, decided first match first. \<open>decide\<close> is the specification over
  whole filters, \<open>walk\<close> the walk of the flat stream in which a filter is its clauses
  followed by an end marker. The locale \<open>filter_machine\<close> is the contract that the kernel
  walker (theory \<open>Ko_Filter\<close>) and the userspace walker (theory \<open>Filter_Vm\<close>) both
  implement; what follows from the contract is proved here once.
\<close>

subsection \<open>Three-valued conjunctions\<close>

datatype tri = KO_TRI_FALSE | KO_TRI_TRUE | KO_TRI_UNKNOWN

text \<open>What one predicate of a stream contributes, once it is evaluated on an event.\<close>

datatype clause =
    Decided bool      \<comment> \<open>a predicate whose truth is known\<close>
  | Unknown           \<comment> \<open>an attribute predicate of a cgroup without verdict\<close>
  | EndOf bool u8     \<comment> \<open>the end of a filter: userspace flag and filter index\<close>
  | Invalid           \<comment> \<open>a predicate of no known kind\<close>

fun tri_and :: "tri \<Rightarrow> clause \<Rightarrow> tri" where
  "tri_and r (Decided b) = (if b then r else KO_TRI_FALSE)"
| "tri_and r Unknown = (if r = KO_TRI_TRUE then KO_TRI_UNKNOWN else r)"
| "tri_and r (EndOf us i) = r"
| "tri_and r Invalid = r"

definition tri_conj :: "clause list \<Rightarrow> tri" where
  "tri_conj cs = foldl tri_and KO_TRI_TRUE cs"

definition KO_FILTER_DROP :: u16 where "KO_FILTER_DROP = 0xfffd"
definition KO_FILTER_UNDECIDED :: u16 where "KO_FILTER_UNDECIDED = 0xfffe"
definition KO_FILTER_UNFILTERED :: u16 where "KO_FILTER_UNFILTERED = 0xffff"

lemmas verdict_codes = KO_FILTER_DROP_def KO_FILTER_UNDECIDED_def KO_FILTER_UNFILTERED_def

lemma verdict_codes_distinct [simp]:
  "KO_FILTER_DROP \<noteq> KO_FILTER_UNDECIDED" "KO_FILTER_UNDECIDED \<noteq> KO_FILTER_DROP" "KO_FILTER_DROP \<noteq> KO_FILTER_UNFILTERED" "KO_FILTER_UNFILTERED \<noteq> KO_FILTER_DROP"
  "KO_FILTER_UNDECIDED \<noteq> KO_FILTER_UNFILTERED" "KO_FILTER_UNFILTERED \<noteq> KO_FILTER_UNDECIDED"
  by (simp_all add: verdict_codes)

text \<open>A filter index is a byte, so it never collides with a verdict code.\<close>

lemma unat_ucast_idx: "unat (ucast (i :: u8) :: u16) = unat i"
  by simp

lemma idx_less_codes [simp]:
  "ucast (i :: u8) \<noteq> KO_FILTER_DROP" "ucast (i :: u8) \<noteq> KO_FILTER_UNDECIDED" "ucast (i :: u8) \<noteq> KO_FILTER_UNFILTERED"
proof -
  have "unat (ucast i :: u16) < 256" using unsigned_less [of i] by (simp add: unat_ucast_idx)
  then show "ucast i \<noteq> KO_FILTER_DROP" "ucast i \<noteq> KO_FILTER_UNDECIDED" "ucast i \<noteq> KO_FILTER_UNFILTERED"
    by (auto simp: verdict_codes simp del: unat_ucast_up)
qed

lemma idx_neq_codes [simp]:
  "KO_FILTER_DROP \<noteq> ucast (i :: u8)" "KO_FILTER_UNDECIDED \<noteq> ucast (i :: u8)" "KO_FILTER_UNFILTERED \<noteq> ucast (i :: u8)"
  using idx_less_codes by metis+

lemma idx_inject [simp]: "(ucast (i :: u8) :: u16) = ucast j \<longleftrightarrow> i = j"
  by (metis unat_ucast_idx word_unat_eq_iff)

subsection \<open>Deciding whole filters\<close>

record flt =
  flt_conj :: "clause list"
  flt_userspace :: bool
  flt_index :: u8

fun decide :: "flt list \<Rightarrow> u16" where
  "decide [] = KO_FILTER_DROP"
| "decide (f # fs) =
     (if flt_userspace f then KO_FILTER_UNDECIDED
      else case tri_conj (flt_conj f) of
             KO_TRI_TRUE \<Rightarrow> ucast (flt_index f)
           | KO_TRI_UNKNOWN \<Rightarrow> KO_FILTER_UNDECIDED
           | KO_TRI_FALSE \<Rightarrow> decide fs)"

definition flt_false :: "flt \<Rightarrow> bool" where
  "flt_false f \<longleftrightarrow> \<not> flt_userspace f \<and> tri_conj (flt_conj f) = KO_TRI_FALSE"

definition flt_true :: "flt \<Rightarrow> bool" where
  "flt_true f \<longleftrightarrow> \<not> flt_userspace f \<and> tri_conj (flt_conj f) = KO_TRI_TRUE"

lemma decide_drop_iff: "decide fs = KO_FILTER_DROP \<longleftrightarrow> list_all flt_false fs"
  by (induction fs) (auto simp: flt_false_def split: tri.splits)

text \<open>An index is answered exactly when some filter is true and every earlier one false.\<close>

lemma decide_index_iff:
  "decide fs = ucast i \<longleftrightarrow>
     (\<exists>pre f post. fs = pre @ f # post \<and> list_all flt_false pre \<and> flt_true f \<and> flt_index f = i)"
  (is "_ \<longleftrightarrow> (\<exists>pre f post. ?split fs pre f post)")
proof (induction fs)
  case Nil
  then show ?case by simp
next
  case (Cons g fs)
  show ?case
  proof (cases "flt_false g")
    case True
    then have "decide (g # fs) = decide fs" and ng: "\<not> flt_true g"
      by (auto simp: flt_false_def flt_true_def)
    moreover have "(\<exists>pre f post. ?split (g # fs) pre f post) \<longleftrightarrow> (\<exists>pre f post. ?split fs pre f post)" (is "?L = ?R")
    proof
      assume ?L
      with ng show ?R by (auto simp: Cons_eq_append_conv) blast
    next
      assume ?R
      then obtain pre f post where "?split fs pre f post" by blast
      with True have "?split (g # fs) (g # pre) f post" by simp
      then show ?L by blast
    qed
    ultimately show ?thesis using Cons.IH by simp
  next
    case False
    have "(\<exists>pre f post. ?split (g # fs) pre f post) \<longleftrightarrow> flt_true g \<and> flt_index g = i" (is "?L = ?R")
    proof
      assume ?L
      with False show ?R by (auto simp: Cons_eq_append_conv)
    next
      assume ?R
      then have "?split (g # fs) [] g fs" by simp
      then show ?L by blast
    qed
    with False show ?thesis
      by (auto simp: flt_false_def flt_true_def split: tri.splits)
  qed
qed

text \<open>A conjunction is false when a clause is, and true when every clause is.\<close>

lemma foldl_tri_and_false: "foldl tri_and r cs = KO_TRI_FALSE \<longleftrightarrow> r = KO_TRI_FALSE \<or> Decided False \<in> set cs"
proof (induction cs arbitrary: r)
  case Nil
  then show ?case by simp
next
  case (Cons c cs)
  then show ?case by (cases c) auto
qed

lemma foldl_tri_and_true:
  "foldl tri_and r cs = KO_TRI_TRUE \<longleftrightarrow> r = KO_TRI_TRUE \<and> Decided False \<notin> set cs \<and> Unknown \<notin> set cs"
proof (induction cs arbitrary: r)
  case Nil
  then show ?case by simp
next
  case (Cons c cs)
  then show ?case by (cases c) auto
qed

lemmas tri_conj_false_iff = foldl_tri_and_false [of KO_TRI_TRUE, folded tri_conj_def, simplified]
lemmas tri_conj_true_iff = foldl_tri_and_true [of KO_TRI_TRUE, folded tri_conj_def, simplified]

text \<open>Filters numbered by their position.\<close>

lemma decide_nth:
  assumes "\<And>k. k < length fs \<Longrightarrow> flt_index (fs ! k) = of_nat k" and "length fs \<le> 256" and "i < length fs"
  shows "decide fs = ucast (of_nat i :: u8) \<longleftrightarrow> flt_true (fs ! i) \<and> (\<forall>j < i. flt_false (fs ! j))"
proof
  assume "decide fs = ucast (of_nat i :: u8)"
  then obtain pre f post where fs: "fs = pre @ f # post" and f: "list_all flt_false pre" "flt_true f" "flt_index f = of_nat i"
    unfolding decide_index_iff by blast
  have "(of_nat (length pre) :: u8) = of_nat i" using f(3) assms(1) [of "length pre"] fs by simp
  then have "unat (of_nat (length pre) :: u8) = unat (of_nat i :: u8)" by simp
  then have "length pre = i" using assms(2,3) fs by (simp add: unat_of_nat)
  then show "flt_true (fs ! i) \<and> (\<forall>j < i. flt_false (fs ! j))"
    using f fs by (auto simp: list_all_length nth_append)
next
  assume "flt_true (fs ! i) \<and> (\<forall>j < i. flt_false (fs ! j))"
  then have "fs = take i fs @ fs ! i # drop (Suc i) fs" "list_all flt_false (take i fs)"
    "flt_true (fs ! i)" "flt_index (fs ! i) = of_nat i"
    using assms by (auto simp: id_take_nth_drop list_all_length)
  then show "decide fs = ucast (of_nat i :: u8)" unfolding decide_index_iff by blast
qed

subsection \<open>Walking the flat stream\<close>

fun walk :: "clause list \<Rightarrow> tri \<Rightarrow> u16" where
  "walk [] r = KO_FILTER_DROP"
| "walk (EndOf us i # cs) r =
     (if us then KO_FILTER_UNDECIDED
      else case r of KO_TRI_TRUE \<Rightarrow> ucast i | KO_TRI_UNKNOWN \<Rightarrow> KO_FILTER_UNDECIDED | KO_TRI_FALSE \<Rightarrow> walk cs KO_TRI_TRUE)"
| "walk (Invalid # cs) r = KO_FILTER_UNDECIDED"
| "walk (c # cs) r = walk cs (tri_and r c)"

fun plain :: "clause \<Rightarrow> bool" where
  "plain (Decided b) = True"
| "plain Unknown = True"
| "plain _ = False"

definition flatten :: "flt list \<Rightarrow> clause list" where
  "flatten fs = concat (map (\<lambda>f. flt_conj f @ [EndOf (flt_userspace f) (flt_index f)]) fs)"

lemma flatten_simps [simp]:
  "flatten [] = []"
  "flatten (f # fs) = flt_conj f @ EndOf (flt_userspace f) (flt_index f) # flatten fs"
  by (simp_all add: flatten_def)

lemma walk_plain:
  "list_all plain cs \<Longrightarrow> walk (cs @ ds) r = walk ds (foldl tri_and r cs)"
proof (induction cs arbitrary: r)
  case Nil
  then show ?case by simp
next
  case (Cons c cs)
  then show ?case by (cases c) auto
qed

lemma walk_flatten:
  "list_all (\<lambda>f. list_all plain (flt_conj f)) fs \<Longrightarrow> walk (flatten fs) KO_TRI_TRUE = decide fs"
  by (induction fs) (auto simp: walk_plain tri_conj_def split: tri.splits)

text \<open>Every answer is \<open>KO_FILTER_DROP\<close>, \<open>KO_FILTER_UNDECIDED\<close> or the index of an end marker of the stream.\<close>

lemma walk_cases:
  "walk cs r = KO_FILTER_DROP \<or> walk cs r = KO_FILTER_UNDECIDED \<or>
     (\<exists>i. EndOf False i \<in> set cs \<and> walk cs r = ucast i)"
  by (induction cs r rule: walk.induct) (auto split: tri.splits)

subsection \<open>Learning a verdict\<close>

text \<open>\<open>c\<close> tells less than \<open>d\<close> when they agree or \<open>c\<close> is unknown and \<open>d\<close> decided.\<close>

fun clause_le :: "clause \<Rightarrow> clause \<Rightarrow> bool" where
  "clause_le Unknown d \<longleftrightarrow> (d = Unknown \<or> (\<exists>b. d = Decided b))"
| "clause_le c d \<longleftrightarrow> c = d"

definition tri_le :: "tri \<Rightarrow> tri \<Rightarrow> bool" where
  "tri_le r s \<longleftrightarrow> r = KO_TRI_UNKNOWN \<or> r = s"

lemma tri_and_mono:
  "tri_le r s \<Longrightarrow> clause_le c d \<Longrightarrow> tri_le (tri_and r c) (tri_and s d)"
  by (cases c; cases d; cases s) (auto simp: tri_le_def)

lemma walk_mono:
  "list_all2 clause_le cs ds \<Longrightarrow> tri_le r s \<Longrightarrow>
     walk cs r = KO_FILTER_UNDECIDED \<or> walk cs r = walk ds s"
proof (induction cs arbitrary: r s ds)
  case Nil
  then show ?case by simp
next
  case (Cons c cs)
  then obtain d ds' where ds: "ds = d # ds'" and cd: "clause_le c d"
    and rest: "list_all2 clause_le cs ds'"
    by (auto simp: list_all2_Cons1)
  show ?case
  proof (cases "plain c")
    case True
    then have "plain d" using cd by (cases c; cases d) auto
    with True ds Cons.IH [OF rest tri_and_mono [OF Cons.prems(2) cd]] show ?thesis
      by (cases c; cases d) auto
  next
    case False
    then have d: "d = c" using cd by (cases c) auto
    have "tri_le KO_TRI_TRUE KO_TRI_TRUE" by (simp add: tri_le_def)
    with False d ds Cons.prems(2) Cons.IH [OF rest] show ?thesis
      by (cases c; cases r; cases s) (auto simp: tri_le_def)
  qed
qed

subsection \<open>The contract of a filter machine\<close>

text \<open>
  A filter machine answers an event \<open>e\<close> given what is known of the cgroup's verdict; a
  machine that stops with a run-time panic answers \<open>None\<close>. On valid inputs the answer is the
  walk of a clause stream, and learning the verdict only decides clauses that were unknown.
\<close>

locale filter_machine =
  fixes valid :: "'e \<Rightarrow> bool"
    and answer :: "'e \<Rightarrow> u64 option \<Rightarrow> u16 option"
    and clauses :: "'e \<Rightarrow> u64 option \<Rightarrow> clause list"
  assumes answer_walk: "valid e \<Longrightarrow> answer e v = Some (walk (clauses e v) KO_TRI_TRUE)"
    and clauses_learn: "list_all2 clause_le (clauses e None) (clauses e (Some m))"
begin

lemma answer_returns: "valid e \<Longrightarrow> \<exists>r. answer e v = Some r"
  by (simp add: answer_walk)

lemma answer_stable:
  assumes "valid e" and "answer e None \<noteq> Some KO_FILTER_UNDECIDED"
  shows "answer e (Some m) = answer e None"
proof -
  have "tri_le KO_TRI_TRUE KO_TRI_TRUE" by (simp add: tri_le_def)
  from walk_mono [OF clauses_learn [of e m] this] assms show ?thesis
    by (auto simp: answer_walk)
qed

lemma answer_cases:
  assumes "valid e" and "answer e v = Some r"
  shows "r = KO_FILTER_DROP \<or> r = KO_FILTER_UNDECIDED \<or>
     (\<exists>i. EndOf False i \<in> set (clauses e v) \<and> r = ucast i)"
  using assms walk_cases [of "clauses e v" KO_TRI_TRUE] by (auto simp: answer_walk)

lemma answer_decide:
  assumes "valid e" and "clauses e v = flatten fs"
    and "list_all (\<lambda>f. list_all plain (flt_conj f)) fs"
  shows "answer e v = Some (decide fs)"
  using assms by (simp add: answer_walk walk_flatten)

end

end
