(* ===== verification/Ko_Filter.thy ===== *)
theory Ko_Filter
  imports Filter_Spec
begin

text \<open>
  The filter program of the eBPF tracer (\<^verbatim>\<open>pkg/tracer/c/tracer.bpf.c\<close>): the predicate
  stream \<open>ko_pred\<close>/\<open>ko_prog\<close>, CIDR set membership \<open>ko_ip_in_set\<close> and the three-valued
  walk \<open>ko_filter_eval\<close>. The two loops run over index lists, as the C loops run over
  their bounded counters. The lemmas give the exact set of addresses each prefix
  comparison accepts and show that the walker is a \<open>filter_machine\<close>.
\<close>

subsection \<open>Constants and data\<close>

definition AF_INET :: u16 where "AF_INET = 2"
definition AF_INET6 :: u16 where "AF_INET6 = 10"

abbreviation (input) "KO_MAX_PREDS \<equiv> (32 :: nat)"
abbreviation (input) "KO_MAX_IPSET \<equiv> (4 :: nat)"

text \<open>Predicate kinds, field ids and comparison ids.\<close>

abbreviation (input) "KO_PRED_CMP \<equiv> (1 :: u8)"
abbreviation (input) "KO_PRED_IPSET \<equiv> (2 :: u8)"
abbreviation (input) "KO_PRED_ATTR \<equiv> (4 :: u8)"
abbreviation (input) "KO_PRED_END \<equiv> (5 :: u8)"

abbreviation (input) "KO_FLD_RTT_US \<equiv> (0 :: u8)"
abbreviation (input) "KO_FLD_LIFE_US \<equiv> (1 :: u8)"
abbreviation (input) "KO_FLD_RETRANSMITS \<equiv> (2 :: u8)"
abbreviation (input) "KO_FLD_SEGS_OUT \<equiv> (3 :: u8)"
abbreviation (input) "KO_FLD_TYPE \<equiv> (4 :: u8)"
abbreviation (input) "KO_FLD_ERRNO \<equiv> (5 :: u8)"

abbreviation (input) "KO_CMP_EQ \<equiv> (0 :: u8)"
abbreviation (input) "KO_CMP_NEQ \<equiv> (1 :: u8)"
abbreviation (input) "KO_CMP_LT \<equiv> (2 :: u8)"
abbreviation (input) "KO_CMP_LE \<equiv> (3 :: u8)"
abbreviation (input) "KO_CMP_GT \<equiv> (4 :: u8)"
abbreviation (input) "KO_CMP_GE \<equiv> (5 :: u8)"
abbreviation (input) "KO_CMP_IN \<equiv> (6 :: u8)"
abbreviation (input) "KO_CMP_NOT_IN \<equiv> (7 :: u8)"

record sock_addrs =
  sa_local :: bytes
  sa_remote :: bytes

record ko_pred =
  p_val :: u64
  p_kind :: u8
  p_a :: u8
  p_b :: u8
  p_n :: u8
  p_plen :: "u16 list"
  p_fam :: "u8 list"
  p_addr :: "bytes list"

record ko_prog =
  nfilters :: u32
  npreds :: u32
  preds :: "ko_pred list"

text \<open>The fixed array sizes of the C structs.\<close>

definition addrs_ok :: "sock_addrs \<Rightarrow> bool" where
  "addrs_ok a \<longleftrightarrow> length (sa_local a) = 16 \<and> length (sa_remote a) = 16"

definition pred_ok :: "ko_pred \<Rightarrow> bool" where
  "pred_ok p \<longleftrightarrow> length (p_plen p) = KO_MAX_IPSET \<and> length (p_fam p) = KO_MAX_IPSET \<and>
     length (p_addr p) = KO_MAX_IPSET \<and> list_all (\<lambda>ad. length ad = 16) (p_addr p)"

definition prog_ok :: "ko_prog \<Rightarrow> bool" where
  "prog_ok g \<longleftrightarrow> length (preds g) = KO_MAX_PREDS \<and> list_all pred_ok (preds g)"

subsection \<open>CIDR set membership\<close>

text \<open>The address words normalised: v4-mapped IPv6 addresses act as IPv4. \<open>None\<close> is the
  early \<^verbatim>\<open>return false\<close> of an unknown family.\<close>

definition ko_ip_norm :: "u16 \<Rightarrow> u64 \<Rightarrow> u64 \<Rightarrow> (bool \<times> u64) option" where
  "ko_ip_norm family aw0 aw1 =
     (if family = AF_INET then Some (True, aw0)
      else if family = AF_INET6 then
        (let is4 = (aw0 = 0 \<and> aw1 AND 0xffff = 0 \<and>
                    (ucast (drop_bit 16 aw1 AND 0xffff) :: u32) = 0xffff)
         in Some (is4, if is4 then drop_bit 32 aw1 else aw0))
      else None)"

text \<open>One iteration of the loop over the prefixes: whether it returns true. An iteration
  that does not either continues or falls through, which is the same.\<close>

definition ko_ip_entry :: "bool \<Rightarrow> u64 \<Rightarrow> u64 \<Rightarrow> ko_pred \<Rightarrow> nat \<Rightarrow> bool" where
  "ko_ip_entry is4 aw0 aw1 p i =
     (let plen = ucast (p_plen p ! i) :: u32 in
      if p_fam p ! i = 4 then
        (if \<not> is4 then False
         else if plen = 0 then True
         else if plen > 32 then False
         else let pw = le_word (take 8 (p_addr p ! i)) :: u64;
                  x = (ucast pw :: u32) XOR ucast aw0
              in push_bit (unat (32 - plen)) x = 0)
      else if p_fam p ! i = 6 then
        (if is4 then False
         else if plen = 0 then True
         else if plen > 128 then False
         else let pw0 = le_word (take 8 (p_addr p ! i)) :: u64;
                  pw1 = le_word (take 8 (drop 8 (p_addr p ! i))) :: u64
              in if plen \<le> 64 then push_bit (unat (64 - plen)) (pw0 XOR aw0) = 0
                 else pw0 = aw0 \<and> push_bit (unat (128 - plen)) (pw1 XOR aw1) = 0)
      else False)"

fun ko_ip_loop :: "bool \<Rightarrow> u64 \<Rightarrow> u64 \<Rightarrow> ko_pred \<Rightarrow> nat list \<Rightarrow> bool" where
  "ko_ip_loop is4 aw0 aw1 p [] = False"
| "ko_ip_loop is4 aw0 aw1 p (i # is) =
     (if i \<ge> unat (p_n p) then False
      else if ko_ip_entry is4 aw0 aw1 p i then True
      else ko_ip_loop is4 aw0 aw1 p is)"

definition ko_ip_in_set :: "u8 \<Rightarrow> u16 \<Rightarrow> sock_addrs \<Rightarrow> ko_pred \<Rightarrow> bool" where
  "ko_ip_in_set which family a p =
     (let ip = if which = 0 then sa_local a else sa_remote a;
          aw0 = le_word (take 8 ip);
          aw1 = le_word (take 8 (drop 8 ip))
      in case ko_ip_norm family aw0 aw1 of
           None \<Rightarrow> False
         | Some (is4, w0) \<Rightarrow> ko_ip_loop is4 w0 aw1 p [0..<KO_MAX_IPSET])"

subsection \<open>The predicate walk\<close>

text \<open>The event fields that \<^verbatim>\<open>ko_filter_eval\<close> takes as its arguments.\<close>

record ko_args =
  g_cgroup_id :: u64
  g_rtt_us :: u32
  g_life_us :: u64
  g_retransmits :: u32
  g_segs_out :: u32
  g_sk_err :: u32
  g_type :: u16
  g_family :: u16
  g_addrs :: sock_addrs

definition ko_field :: "ko_args \<Rightarrow> u8 \<Rightarrow> u64" where
  "ko_field g fld =
     (if fld = KO_FLD_RTT_US then ucast (g_rtt_us g)
      else if fld = KO_FLD_LIFE_US then g_life_us g
      else if fld = KO_FLD_RETRANSMITS then ucast (g_retransmits g)
      else if fld = KO_FLD_SEGS_OUT then ucast (g_segs_out g)
      else if fld = KO_FLD_TYPE then push_bit (unat (g_type g)) 1
      else if fld = KO_FLD_ERRNO then ucast (g_sk_err g)
      else 0)"

definition ko_cmp :: "u8 \<Rightarrow> u64 \<Rightarrow> u64 \<Rightarrow> bool" where
  "ko_cmp b v val =
     (if b = KO_CMP_EQ then v = val
      else if b = KO_CMP_NEQ then v \<noteq> val
      else if b = KO_CMP_LT then v < val
      else if b = KO_CMP_LE then v \<le> val
      else if b = KO_CMP_GT then v > val
      else if b = KO_CMP_GE then v \<ge> val
      else if b = KO_CMP_IN then v AND val \<noteq> 0
      else if b = KO_CMP_NOT_IN then v AND val = 0
      else False)"

text \<open>The body of the loop: \<open>Inl\<close> is a \<^verbatim>\<open>return\<close>, \<open>Inr\<close> the value of \<open>res\<close> for the next
  iteration. The verdict of the cgroup is the result of the map lookup.\<close>

definition ko_pred_step :: "u64 option \<Rightarrow> ko_args \<Rightarrow> ko_pred \<Rightarrow> tri \<Rightarrow> u16 + tri" where
  "ko_pred_step verdict g p res =
     (if p_kind p = KO_PRED_CMP then
        Inr (if ko_cmp (p_b p) (ko_field g (p_a p)) (p_val p) then res else KO_TRI_FALSE)
      else if p_kind p = KO_PRED_IPSET then
        Inr (if ko_ip_in_set (p_a p) (g_family g) (g_addrs g) p = (p_b p = 0)
             then res else KO_TRI_FALSE)
      else if p_kind p = KO_PRED_ATTR then
        (case verdict of
           None \<Rightarrow> Inr (if res = KO_TRI_TRUE then KO_TRI_UNKNOWN else res)
         | Some m \<Rightarrow>
             Inr (if (drop_bit (unat (p_a p)) m AND 1 = 1) = (p_b p = 0)
                  then res else KO_TRI_FALSE))
      else if p_kind p = KO_PRED_END then
        (if p_b p \<noteq> 0 then Inl KO_FILTER_UNDECIDED
         else case res of
                KO_TRI_TRUE \<Rightarrow> Inl (ucast (p_a p))
              | KO_TRI_UNKNOWN \<Rightarrow> Inl KO_FILTER_UNDECIDED
              | KO_TRI_FALSE \<Rightarrow> Inr KO_TRI_TRUE)
      else Inl KO_FILTER_UNDECIDED)"

fun ko_filter_loop :: "u64 option \<Rightarrow> ko_args \<Rightarrow> ko_prog \<Rightarrow> nat list \<Rightarrow> tri \<Rightarrow> u16" where
  "ko_filter_loop verdict g prog [] res = KO_FILTER_DROP"
| "ko_filter_loop verdict g prog (k # ks) res =
     (if k \<ge> unat (npreds prog) then KO_FILTER_DROP
      else case ko_pred_step verdict g (preds prog ! k) res of
             Inl r \<Rightarrow> r
           | Inr res' \<Rightarrow> ko_filter_loop verdict g prog ks res')"

text \<open>\<open>cfg\<close> and \<open>prog\<close> are the results of the lookups in the array maps
  \<^verbatim>\<open>ko_filter_cfg\<close> and \<^verbatim>\<open>ko_filter_prog\<close>, \<open>verdicts\<close> is the map \<^verbatim>\<open>ko_cgroup_verdict\<close>.\<close>

definition ko_filter_eval ::
    "u64 option \<Rightarrow> ko_prog option \<Rightarrow> (u64 \<rightharpoonup> u64) \<Rightarrow> ko_args \<Rightarrow> u16" where
  "ko_filter_eval cfg prog verdicts g =
     (case cfg of
        None \<Rightarrow> KO_FILTER_UNFILTERED
      | Some c \<Rightarrow>
          if c = 0 then KO_FILTER_UNFILTERED
          else case prog of
                 None \<Rightarrow> KO_FILTER_UNFILTERED
               | Some pr \<Rightarrow>
                   if nfilters pr = 0 then KO_FILTER_DROP
                   else ko_filter_loop (verdicts (g_cgroup_id g)) g pr [0..<KO_MAX_PREDS] KO_TRI_TRUE)"

subsection \<open>What the prefix comparisons accept\<close>

text \<open>The IPv4 address behind an endpoint: the endpoint itself, or the last four bytes of a
  v4-mapped IPv6 address.\<close>

definition unmap4 :: "u16 \<Rightarrow> bytes \<Rightarrow> bytes option" where
  "unmap4 family ip =
     (if family = AF_INET then Some (take 4 ip)
      else if family = AF_INET6 \<and> take 12 ip = replicate 10 0 @ [0xff, 0xff] then Some (drop 12 ip)
      else None)"

text \<open>The specification of one prefix of a set, with the order of the compared bits as a
  parameter.\<close>

definition entry_spec ::
    "(nat \<Rightarrow> bytes \<Rightarrow> bytes \<Rightarrow> bool) \<Rightarrow> u16 \<Rightarrow> bytes \<Rightarrow> u8 \<Rightarrow> u16 \<Rightarrow> bytes \<Rightarrow> bool" where
  "entry_spec agree family ip fam plen ad =
     (case unmap4 family ip of
        Some v4 \<Rightarrow> fam = 4 \<and> unat plen \<le> 32 \<and> agree (unat plen) ad v4
      | None \<Rightarrow> fam = 6 \<and> unat plen \<le> 128 \<and> agree (unat plen) ad ip)"

definition set_spec ::
    "(nat \<Rightarrow> bytes \<Rightarrow> bytes \<Rightarrow> bool) \<Rightarrow> u16 \<Rightarrow> bytes \<Rightarrow> ko_pred \<Rightarrow> bool" where
  "set_spec agree family ip p \<longleftrightarrow>
     (\<exists>i < min KO_MAX_IPSET (unat (p_n p)).
        entry_spec agree family ip (p_fam p ! i) (p_plen p ! i) (p_addr p ! i))"

lemma length_16_cases:
  assumes "length xs = 16"
  obtains a b c d e f g h i j k l m n r q where "xs = [a, b, c, d, e, f, g, h, i, j, k, l, m, n, r, q]"
  using assms by (auto simp: numeral_eq_Suc length_Suc_conv)

lemma le_bytes_0: "le_bytes n (0 :: 'a::len word) = replicate n 0"
  by (rule nth_equalityI) (simp_all add: nth_le_bytes)

lemma le_word_eq_0_iff:
  "LENGTH('a) = 8 * length bs \<Longrightarrow> (le_word bs :: 'a::len word) = 0 \<longleftrightarrow> bs = replicate (length bs) 0"
  using le_bytes_le_word [where 'a = 'a, of bs] le_word_le_bytes [of "length bs" "0 :: 'a word"]
    le_bytes_0 [of "length bs", where 'a = 'a] by metis

lemma ucast_le_word [le_simps]:
  "LENGTH('b) \<le> LENGTH('a) \<Longrightarrow>
     (ucast (le_word bs :: 'a::len word) :: 'b::len word) = le_word bs"
  by (rule bit_word_eqI) (auto simp: bit_ucast_iff bit_le_word)

lemma drop_bit_le_word [le_simps]:
  assumes L: "LENGTH('a) = 8 * L"
  shows "drop_bit (8 * k) (le_word bs :: 'a::len word) = le_word (drop k (take L bs))"
proof (rule bit_word_eqI)
  fix n assume "n < LENGTH('a)"
  have "(8 * k + n) div 8 = k + n div 8" "(8 * k + n) mod 8 = n mod 8" by simp_all
  moreover have "8 * k + n < 8 * L \<longleftrightarrow> k + n div 8 < L" by auto
  ultimately show "bit (drop_bit (8 * k) (le_word bs :: 'a word)) n =
      bit (le_word (drop k (take L bs)) :: 'a word) n"
    using L \<open>n < LENGTH('a)\<close> by (auto simp: bit_drop_bit_eq bit_le_word)
qed

lemma and_ffff_u64: "w AND 0xffff = ucast (ucast w :: u16)" for w :: u64
proof -
  have m: "(0xffff :: u64) = mask 16" by (simp add: mask_eq_exp_minus_1)
  show ?thesis unfolding m
    by (rule bit_word_eqI) (auto simp: bit_and_iff bit_mask_iff bit_ucast_iff)
qed

lemma ucast_u16_eq:
  "(ucast (x :: u16) :: 'a::len word) = ucast y \<longleftrightarrow> x = y" if "16 \<le> LENGTH('a)"
proof
  assume eq: "(ucast x :: 'a word) = ucast y"
  show "x = y"
  proof (rule bit_word_eqI)
    fix n assume "n < LENGTH(16)"
    have "bit (ucast x :: 'a word) n = bit (ucast y :: 'a word) n" by (simp add: eq)
    with \<open>n < LENGTH(16)\<close> that show "bit x n = bit y n" by (simp add: bit_ucast_iff)
  qed
qed simp

lemma le_word_u16_eq:
  "(le_word (b0 # b1 # bs) :: u16) = le_word [c0, c1] \<longleftrightarrow> b0 = c0 \<and> b1 = c1"
proof -
  have "(le_word (b0 # b1 # bs) :: u16) = le_word [b0, b1]"
    by (rule bit_word_eqI) (auto simp: bit_le_word nth_Cons' less_Suc_eq div_less_iff_less_mult)
  moreover have "le_bytes 2 (le_word [x, y] :: u16) = [x, y]" for x y
    using le_bytes_le_word [where 'a = 16, of "[x, y]"] by (simp add: numeral_2_eq_2)
  ultimately show ?thesis by (metis list.inject)
qed

lemma v4mapped_words:
  assumes "length ip = 16"
  defines "aw0 \<equiv> le_word (take 8 ip) :: u64" and "aw1 \<equiv> le_word (take 8 (drop 8 ip)) :: u64"
  shows "(aw0 = 0 \<and> aw1 AND 0xffff = 0 \<and> (ucast (drop_bit 16 aw1 AND 0xffff) :: u32) = 0xffff) \<longleftrightarrow>
    take 12 ip = replicate 10 0 @ [0xff, 0xff]"
proof -
  obtain a b c d e f g h i j k l m n r q where
    ip: "ip = [a, b, c, d, e, f, g, h, i, j, k, l, m, n, r, q]"
    using assms(1) by (rule length_16_cases)
  have z: "aw0 = 0 \<longleftrightarrow> take 8 ip = replicate 8 0"
    unfolding aw0_def using le_word_eq_0_iff [where 'a = 64, of "take 8 ip"] assms(1) by simp
  have u1: "(ucast aw1 :: u16) = le_word (i # j # [k, l, m, n, r, q])"
    by (simp add: aw1_def ip ucast_le_word del: le_word.simps)
  have u2: "(ucast (drop_bit 16 aw1) :: u16) = le_word (k # l # [m, n, r, q])"
    using drop_bit_le_word [where 'a = 64 and L = 8 and k = 2, of "take 8 (drop 8 ip)"]
    by (simp add: aw1_def ip ucast_le_word del: le_word.simps)
  have s: "aw1 AND 0xffff = 0 \<longleftrightarrow> i = 0 \<and> j = 0"
  proof -
    have "aw1 AND 0xffff = 0 \<longleftrightarrow> (ucast aw1 :: u16) = le_word [0, 0]"
      using ucast_u16_eq [where 'a = 64, of "ucast aw1" 0] by (simp add: and_ffff_u64)
    then show ?thesis unfolding u1 le_word_u16_eq .
  qed
  have f: "(ucast (drop_bit 16 aw1 AND 0xffff) :: u32) = 0xffff \<longleftrightarrow> k = 0xff \<and> l = 0xff"
  proof -
    have l: "(ucast (drop_bit 16 aw1 AND 0xffff) :: u32) = ucast (ucast (drop_bit 16 aw1) :: u16)"
      unfolding and_ffff_u64 by (rule bit_word_eqI) (auto simp: bit_ucast_iff)
    have r: "(0xffff :: u32) = ucast (le_word [0xff, 0xff] :: u16)" by simp
    have "(ucast (drop_bit 16 aw1 AND 0xffff) :: u32) = 0xffff \<longleftrightarrow>
        (ucast (drop_bit 16 aw1) :: u16) = le_word [0xff, 0xff]"
      unfolding l r by (rule ucast_u16_eq) simp
    then show ?thesis unfolding u2 le_word_u16_eq .
  qed
  show ?thesis unfolding z s f by (auto simp: ip numeral_eq_Suc)
qed

lemma ko_ip_norm_Some4:
  assumes "length ip = 16" and "unmap4 family ip = Some v4"
  obtains w where "ko_ip_norm family (le_word (take 8 ip)) (le_word (take 8 (drop 8 ip))) = Some (True, w)"
    and "(ucast w :: u32) = le_word v4" and "length v4 = 4"
proof (cases "family = AF_INET")
  case True
  have "(ucast (le_word (take 8 ip) :: u64) :: u32) = le_word (take 4 ip)"
    using assms(1) by (intro bit_word_eqI) (auto simp: bit_ucast_iff bit_le_word div_less_iff_less_mult)
  with True assms that [of "le_word (take 8 ip)"] show thesis
    by (auto simp: unmap4_def ko_ip_norm_def)
next
  case False
  with assms have f: "family = AF_INET6" and m: "take 12 ip = replicate 10 0 @ [0xff, 0xff]"
    and v4: "v4 = drop 12 ip"
    by (auto simp: unmap4_def split: if_splits)
  have "drop_bit 32 (le_word (take 8 (drop 8 ip)) :: u64) = le_word (drop 12 ip)"
    using drop_bit_le_word [where 'a = 64 and L = 8 and k = 4, of "take 8 (drop 8 ip)"] assms(1)
    by simp
  then have "(ucast (drop_bit 32 (le_word (take 8 (drop 8 ip)) :: u64)) :: u32) = le_word v4"
    by (simp add: v4 ucast_le_word)
  moreover have "length v4 = 4" using v4 assms(1) by simp
  ultimately show thesis
    using False f v4mapped_words [OF assms(1)] m
      that [of "drop_bit 32 (le_word (take 8 (drop 8 ip)))"]
    by (simp add: ko_ip_norm_def)
qed

lemma ko_ip_norm_None4:
  assumes "length ip = 16" and "family = AF_INET \<or> family = AF_INET6" and "unmap4 family ip = None"
  shows "ko_ip_norm family (le_word (take 8 ip)) (le_word (take 8 (drop 8 ip))) =
    Some (False, le_word (take 8 ip))"
  using assms v4mapped_words [OF assms(1)]
  by (auto simp: unmap4_def ko_ip_norm_def Let_def split: if_splits)

lemma ko_ip_loop_iff:
  "ko_ip_loop is4 w0 w1 p [k..<m] \<longleftrightarrow> (\<exists>i. k \<le> i \<and> i < min m (unat (p_n p)) \<and> ko_ip_entry is4 w0 w1 p i)"
proof (induction "m - k" arbitrary: k)
  case 0
  then show ?case by auto
next
  case (Suc d)
  then have k: "k < m" and IH: "ko_ip_loop is4 w0 w1 p [Suc k..<m] \<longleftrightarrow>
      (\<exists>i. Suc k \<le> i \<and> i < min m (unat (p_n p)) \<and> ko_ip_entry is4 w0 w1 p i)"
    by auto
  have split: "(\<exists>i. k \<le> i \<and> Q i) \<longleftrightarrow> Q k \<or> (\<exists>i. Suc k \<le> i \<and> Q i)" for Q
    by (metis Suc_leD Suc_le_eq le_eq_less_or_eq)
  have "i < min m (unat (p_n p)) \<Longrightarrow> k \<le> i \<Longrightarrow> k < unat (p_n p)" for i by simp
  with k show ?case
    unfolding upt_conv_Cons [OF k] ko_ip_loop.simps IH split [of "\<lambda>i. i < min m (unat (p_n p)) \<and> ko_ip_entry is4 w0 w1 p i"]
    by (auto dest: Suc_leD)
qed

lemma plen_u32:
  fixes x :: u16
  defines "plen \<equiv> ucast x :: u32"
  shows "plen = 0 \<longleftrightarrow> unat x = 0" and "n < plen \<longleftrightarrow> unat n < unat x" and "plen \<le> n \<longleftrightarrow> unat x \<le> unat n"
    and "unat x \<le> unat n \<Longrightarrow> unat (n - plen) = unat n - unat x"
proof -
  have u: "unat plen = unat x"
    by (simp add: plen_def)
  show "plen = 0 \<longleftrightarrow> unat x = 0" by (simp add: u [symmetric] unat_eq_0)
  show "n < plen \<longleftrightarrow> unat n < unat x" "plen \<le> n \<longleftrightarrow> unat x \<le> unat n"
    by (simp_all add: word_less_nat_alt word_le_nat_alt u)
  then show "unat x \<le> unat n \<Longrightarrow> unat (n - plen) = unat n - unat x"
    by (simp add: unat_sub u)
qed

lemma ko_ip_entry_v4:
  assumes "length (p_addr p ! i) = 16" and "length v4 = 4" and "(ucast w :: u32) = le_word v4"
  shows "ko_ip_entry True w w1 p i \<longleftrightarrow>
    p_fam p ! i = 4 \<and> unat (p_plen p ! i) \<le> 32 \<and> prefix_bits_le (unat (p_plen p ! i)) (p_addr p ! i) v4"
proof -
  let ?n = "unat (p_plen p ! i)" and ?ad = "p_addr p ! i"
  have pw: "(ucast (le_word (take 8 ?ad) :: u64) :: u32) = le_word (take 8 ?ad)"
    by (simp add: ucast_le_word)
  have "push_bit (32 - ?n) ((le_word (take 8 ?ad) :: u32) XOR le_word v4) = 0 \<longleftrightarrow> prefix_bits_le ?n ?ad v4"
    if "?n \<le> 32"
    using prefix_bits_le_drop [where 'a = 32 and L = 4 and n = ?n, of "take 8 ?ad" v4] that assms
    by (simp add: prefix_bits_le_take del: push_bit_xor)
  moreover have "unat (32 - (ucast (p_plen p ! i) :: u32)) = 32 - ?n" if "?n \<le> 32"
    using plen_u32(4) [of "p_plen p ! i" 32] that by simp
  ultimately show ?thesis
    by (auto simp: ko_ip_entry_def Let_def plen_u32 pw assms(3) simp del: push_bit_xor)
qed

lemma ko_ip_entry_v6:
  assumes "length (p_addr p ! i) = 16" and "length ip = 16"
  shows "ko_ip_entry False (le_word (take 8 ip)) (le_word (take 8 (drop 8 ip))) p i \<longleftrightarrow>
    p_fam p ! i = 6 \<and> unat (p_plen p ! i) \<le> 128 \<and> prefix_bits_le (unat (p_plen p ! i)) (p_addr p ! i) ip"
proof -
  let ?n = "unat (p_plen p ! i)" and ?ad = "p_addr p ! i"
  let ?p0 = "le_word (take 8 ?ad) :: u64" and ?a0 = "le_word (take 8 ip) :: u64"
  let ?p1 = "le_word (take 8 (drop 8 ?ad)) :: u64" and ?a1 = "le_word (take 8 (drop 8 ip)) :: u64"
  have lo: "push_bit (64 - ?n) (?p0 XOR ?a0) = 0 \<longleftrightarrow> prefix_bits_le ?n ?ad ip" if "?n \<le> 64"
    using prefix_bits_le_drop [where 'a = 64 and L = 8 and n = ?n, of "take 8 ?ad" "take 8 ip"] that assms
    by (simp add: prefix_bits_le_take del: push_bit_xor)
  have eq0: "?p0 = ?a0 \<longleftrightarrow> prefix_bits_le 64 ?ad ip"
    using prefix_bits_le_drop [where 'a = 64 and L = 8 and n = 64, of "take 8 ?ad" "take 8 ip"] assms
    by (simp add: prefix_bits_le_take xor_eq_0_iff_eq)
  have hi: "?p0 = ?a0 \<and> push_bit (128 - ?n) (?p1 XOR ?a1) = 0 \<longleftrightarrow> prefix_bits_le ?n ?ad ip"
    if "64 < ?n" "?n \<le> 128"
  proof -
    have "push_bit (128 - ?n) (?p1 XOR ?a1) = 0 \<longleftrightarrow> prefix_bits_le (?n - 64) (drop 8 ?ad) (drop 8 ip)"
      using prefix_bits_le_drop [where 'a = 64 and L = 8 and n = "?n - 64", of "take 8 (drop 8 ?ad)" "take 8 (drop 8 ip)"]
        that assms by (simp add: prefix_bits_le_take del: push_bit_xor)
    also have "\<dots> \<longleftrightarrow> (\<forall>j < ?n - 64. bit (?ad ! (8 + j div 8)) (j mod 8) = bit (ip ! (8 + j div 8)) (j mod 8))"
      using assms by (simp add: prefix_bits_le_def)
    finally show ?thesis
      using prefix_bits_le_split [of 8 "?n - 64" ?ad ip] that eq0 by simp
  qed
  have sub: "unat (64 - (ucast (p_plen p ! i) :: u32)) = 64 - ?n" if "?n \<le> 64"
    using plen_u32(4) [of "p_plen p ! i" 64] that by simp
  have sub': "unat (128 - (ucast (p_plen p ! i) :: u32)) = 128 - ?n" if "?n \<le> 128"
    using plen_u32(4) [of "p_plen p ! i" 128] that by simp
  show ?thesis
    using lo hi sub sub'
    by (auto simp: ko_ip_entry_def Let_def plen_u32 not_le simp del: push_bit_xor)
qed

lemma ko_ip_in_set_spec:
  assumes "pred_ok p" and "addrs_ok a"
  shows "ko_ip_in_set which family a p \<longleftrightarrow>
    (family = AF_INET \<or> family = AF_INET6) \<and>
    set_spec prefix_bits_le family (if which = 0 then sa_local a else sa_remote a) p"
proof -
  define ip where "ip = (if which = 0 then sa_local a else sa_remote a)"
  have ip: "length ip = 16" using assms(2) by (simp add: ip_def addrs_ok_def)
  have ad: "length (p_addr p ! i) = 16" if "i < min KO_MAX_IPSET (unat (p_n p))" for i
    using assms(1) that by (auto simp: pred_ok_def list_all_length)
  let ?norm = "ko_ip_norm family (le_word (take 8 ip)) (le_word (take 8 (drop 8 ip)))"
  have in_set: "ko_ip_in_set which family a p = (case ?norm of None \<Rightarrow> False
      | Some (is4, w0) \<Rightarrow> ko_ip_loop is4 w0 (le_word (take 8 (drop 8 ip))) p [0..<KO_MAX_IPSET])"
    unfolding ko_ip_in_set_def Let_def ip_def ..
  consider (other) "family \<noteq> AF_INET" "family \<noteq> AF_INET6"
    | (v4) v4 where "unmap4 family ip = Some v4"
    | (v6) "family = AF_INET \<or> family = AF_INET6" "unmap4 family ip = None"
    by auto
  then have "ko_ip_in_set which family a p \<longleftrightarrow>
      (family = AF_INET \<or> family = AF_INET6) \<and> set_spec prefix_bits_le family ip p" (is ?goal)
  proof cases
    case other
    then show ?goal by (simp add: in_set ko_ip_norm_def)
  next
    case v4
    obtain w where norm: "?norm = Some (True, w)" and w: "(ucast w :: u32) = le_word v4" and "length v4 = 4"
      using ko_ip_norm_Some4 [OF ip v4] .
    moreover from v4 have "family = AF_INET \<or> family = AF_INET6" by (auto simp: unmap4_def split: if_splits)
    ultimately show ?goal
      using ko_ip_entry_v4 [OF ad \<open>length v4 = 4\<close> w] v4
      by (auto simp: in_set ko_ip_loop_iff set_spec_def entry_spec_def simp del: upt_rec_numeral)
  next
    case v6
    have norm: "?norm = Some (False, le_word (take 8 ip))" by (rule ko_ip_norm_None4 [OF ip v6])
    then show ?goal
      using ko_ip_entry_v6 [OF ad ip] v6
      by (auto simp: in_set ko_ip_loop_iff set_spec_def entry_spec_def simp del: upt_rec_numeral)
  qed
  then show ?thesis unfolding ip_def .
qed

subsection \<open>The walker as a filter machine\<close>

text \<open>The clause one predicate contributes to the stream.\<close>

definition ko_clause :: "u64 option \<Rightarrow> ko_args \<Rightarrow> ko_pred \<Rightarrow> clause" where
  "ko_clause verdict g p =
     (if p_kind p = KO_PRED_CMP then Decided (ko_cmp (p_b p) (ko_field g (p_a p)) (p_val p))
      else if p_kind p = KO_PRED_IPSET then
        Decided (ko_ip_in_set (p_a p) (g_family g) (g_addrs g) p = (p_b p = 0))
      else if p_kind p = KO_PRED_ATTR then
        (case verdict of
           None \<Rightarrow> Unknown
         | Some m \<Rightarrow> Decided ((drop_bit (unat (p_a p)) m AND 1 = 1) = (p_b p = 0)))
      else if p_kind p = KO_PRED_END then EndOf (p_b p \<noteq> 0) (p_a p)
      else Invalid)"

definition ko_clauses :: "ko_prog \<times> ko_args \<Rightarrow> u64 option \<Rightarrow> clause list" where
  "ko_clauses e verdict = (case e of (prog, g) \<Rightarrow>
     if nfilters prog = 0 then []
     else map (\<lambda>k. ko_clause verdict g (preds prog ! k)) [0..<min KO_MAX_PREDS (unat (npreds prog))])"

definition ko_answer :: "ko_prog \<times> ko_args \<Rightarrow> u64 option \<Rightarrow> u16" where
  "ko_answer e verdict = (case e of (prog, g) \<Rightarrow> ko_filter_eval (Some 1) (Some prog) (\<lambda>_. verdict) g)"

lemma ko_filter_eval_answer:
  "cfg \<noteq> 0 \<Longrightarrow>
     ko_filter_eval (Some cfg) (Some prog) verdicts g = ko_answer (prog, g) (verdicts (g_cgroup_id g))"
  by (simp add: ko_answer_def ko_filter_eval_def)

lemma ko_pred_step_walk:
  "(case ko_pred_step v g p res of Inl r \<Rightarrow> r | Inr res' \<Rightarrow> walk cs res') = walk (ko_clause v g p # cs) res"
  by (auto simp: ko_pred_step_def ko_clause_def split: option.splits tri.splits)

lemma ko_filter_loop_walk:
  "ko_filter_loop v g prog [k..<m] res =
     walk (map (\<lambda>k. ko_clause v g (preds prog ! k)) [k..<min m (unat (npreds prog))]) res"
proof (induction "m - k" arbitrary: k res)
  case 0
  then show ?case by simp
next
  case (Suc d)
  then have k: "k < m" and "d = m - Suc k" by auto
  note IH = Suc.hyps(1) [OF \<open>d = m - Suc k\<close>]
  show ?case
  proof (cases "k < unat (npreds prog)")
    case True
    with k have "[k..<min m (unat (npreds prog))] = k # [Suc k..<min m (unat (npreds prog))]"
      by (simp add: upt_conv_Cons)
    with True k show ?thesis
      by (simp add: upt_conv_Cons IH ko_pred_step_walk [symmetric] cong: sum.case_cong)
  next
    case False
    with k show ?thesis by (simp add: upt_conv_Cons)
  qed
qed

lemma ko_clause_learn: "clause_le (ko_clause None g p) (ko_clause (Some m) g p)"
  by (auto simp: ko_clause_def)

interpretation kf: filter_machine "\<lambda>_. True" "\<lambda>e v. Some (ko_answer e v)" ko_clauses
proof
  fix e :: "ko_prog \<times> ko_args" and v
  obtain prog g where e: "e = (prog, g)" by (cases e)
  show "Some (ko_answer e v) = Some (walk (ko_clauses e v) KO_TRI_TRUE)"
    by (simp add: e ko_answer_def ko_clauses_def ko_filter_eval_def ko_filter_loop_walk del: upt_rec_numeral)
next
  fix e :: "ko_prog \<times> ko_args" and m
  show "list_all2 clause_le (ko_clauses e None) (ko_clauses e (Some m))"
    by (cases e) (auto simp: ko_clauses_def list_all2_conv_all_nth ko_clause_learn)
qed

end
