(* ===== verification/Ko_Tracer.thy ===== *)
theory Ko_Tracer
  imports Bpf_Helpers Ko_Filter
begin

text \<open>
  The eBPF programs of \<^verbatim>\<open>pkg/tracer/c/tracer.bpf.c\<close>: the connection context map, event
  attribution, the endpoint reader, event submission and the four raw-tracepoint handlers.
  \<open>kstate\<close> holds the BPF maps and the ring buffer; \<open>kenv\<close> is what one invocation sees of
  the kernel: the socket fields that the CO-RE reads return, the current task, the clock
  (\<open>ktime n\<close> is the result of the \<open>n\<close>-th call of \<^verbatim>\<open>bpf_ktime_get_ns\<close> in the invocation),
  and the choices of the LRU map and the ring buffer.
\<close>

subsection \<open>Data\<close>

definition TCP_ESTABLISHED :: u32 where "TCP_ESTABLISHED = 1"
definition TCP_SYN_SENT :: u32 where "TCP_SYN_SENT = 2"
definition TCP_TIME_WAIT :: u8 where "TCP_TIME_WAIT = 6"
definition TCP_NEW_SYN_RECV :: u8 where "TCP_NEW_SYN_RECV = 12"
definition IPPROTO_TCP :: u16 where "IPPROTO_TCP = 6"

lemmas tcp_consts = TCP_ESTABLISHED_def TCP_SYN_SENT_def TCP_TIME_WAIT_def TCP_NEW_SYN_RECV_def
  IPPROTO_TCP_def AF_INET_def AF_INET6_def

definition CONN_EVT_CONNECT_FAILED :: u16 where "CONN_EVT_CONNECT_FAILED = 1"
definition CONN_EVT_CLOSED :: u16 where "CONN_EVT_CLOSED = 2"
definition CONN_EVT_RETRANSMIT :: u16 where "CONN_EVT_RETRANSMIT = 3"
definition CONN_EVT_PROBE :: u16 where "CONN_EVT_PROBE = 4"

lemmas conn_evt = CONN_EVT_CONNECT_FAILED_def CONN_EVT_CLOSED_def CONN_EVT_RETRANSMIT_def CONN_EVT_PROBE_def

record conn_ctx_t =
  c_cgroup_id :: u64
  c_start_ts :: u64
  c_pid :: u32
  c_comm :: bytes
  c_last_probe_ns :: u64

record conn_event_t =
  e_ts :: u64
  e_pid :: u32
  e_error :: u32
  e_comm :: bytes
  e_family :: u16
  e_local_port :: u16
  e_remote_port :: u16
  e_type :: u16
  e_local_ip :: bytes
  e_remote_ip :: bytes
  e_cgroup_id :: u64
  e_life_us :: u64
  e_rtt_us :: u32
  e_retransmits :: u32
  e_segs_out :: u32
  e_snd_cwnd :: u32
  e_snd_ssthresh :: u32
  e_snd_wnd :: u32
  e_rcv_wnd :: u32
  e_filter_idx :: u16

record attr_t =
  at_cgroup_id :: u64
  at_pid :: u32
  at_comm :: bytes

text \<open>The socket fields the programs read, each the value its CO-RE read stores.\<close>

record sock =
  skc_family :: u16
  skc_state :: u8
  skc_dport :: u16
  skc_rcv_saddr :: u32
  skc_daddr :: u32
  skc_v6_rcv_saddr :: bytes
  skc_v6_daddr :: bytes
  sk_protocol :: u16
  sk_cgroup :: u64
  sk_err :: u32
  inet_sport :: u16
  srtt_us :: u32
  total_retrans :: u32
  segs_out :: u32
  snd_cwnd :: u32
  snd_ssthresh :: u32
  snd_wnd :: u32
  rcv_wnd :: u32

record kenv =
  socks :: "u64 \<Rightarrow> sock"
  cgroup_kn_id :: "u64 \<Rightarrow> u64"
  ktime :: "nat \<Rightarrow> u64"
  current_pid_tgid :: u64
  current_cgroup_id :: u64
  current_comm :: bytes
  cpu :: nat
  ringbuf_room :: bool
  lru_of :: lru_choice

record kstate =
  ko_sock_ctx :: "u64 \<rightharpoonup> conn_ctx_t"
  ko_events :: "conn_event_t list"
  ko_filter_prog :: "ko_prog list"
  ko_filter_cfg :: "u64 list"
  ko_cgroup_verdict :: "u64 \<rightharpoonup> u64"
  ko_filter_drops :: percpu
  ko_ringbuf_drops :: percpu

subsection \<open>Attribution and endpoints\<close>

definition fill_addrs :: "conn_event_t \<Rightarrow> u16 \<Rightarrow> sock_addrs \<Rightarrow> conn_event_t" where
  "fill_addrs e family a =
     (if family = AF_INET then
        e\<lparr>e_local_ip := take 4 (sa_local a) @ drop 4 (e_local_ip e),
          e_remote_ip := take 4 (sa_remote a) @ drop 4 (e_remote_ip e)\<rparr>
      else if family = AF_INET6 then
        e\<lparr>e_local_ip := take 16 (sa_local a) @ drop 16 (e_local_ip e),
          e_remote_ip := take 16 (sa_remote a) @ drop 16 (e_remote_ip e)\<rparr>
      else e)"

definition sock_cgroup_id :: "kenv \<Rightarrow> u64 \<Rightarrow> u64" where
  "sock_cgroup_id env skaddr =
     (let cgrp = sk_cgroup (socks env skaddr)
      in if cgrp = 0 then 0 else cgroup_kn_id env cgrp)"

definition attr_resolve :: "kenv \<Rightarrow> u64 \<Rightarrow> conn_ctx_t option \<Rightarrow> attr_t" where
  "attr_resolve env skaddr cctx =
     (let at = \<lparr>at_cgroup_id = sock_cgroup_id env skaddr, at_pid = 0, at_comm = replicate 16 0\<rparr>
      in case cctx of
           None \<Rightarrow> at
         | Some c \<Rightarrow>
             at\<lparr>at_pid := c_pid c, at_comm := c_comm c,
                at_cgroup_id := if at_cgroup_id at = 0 then c_cgroup_id c else at_cgroup_id at\<rparr>)"

text \<open>\<open>None\<close> is the return value false; the address arrays start zeroed.\<close>

definition sock_read_endpoints :: "sock \<Rightarrow> (u16 \<times> u16 \<times> u16 \<times> sock_addrs) option" where
  "sock_read_endpoints sk =
     (let family = skc_family sk in
      if family \<noteq> AF_INET \<and> family \<noteq> AF_INET6 then None
      else if skc_state sk = TCP_TIME_WAIT \<or> skc_state sk = TCP_NEW_SYN_RECV then None
      else
        (let sport = bpf_ntohs False (inet_sport sk); dport = bpf_ntohs False (skc_dport sk) in
         if family = AF_INET then
           Some (family, sport, dport,
             \<lparr>sa_local = le_bytes 4 (skc_rcv_saddr sk) @ replicate 12 0,
              sa_remote = le_bytes 4 (skc_daddr sk) @ replicate 12 0\<rparr>)
         else
           Some (family, sport, dport,
             \<lparr>sa_local = skc_v6_rcv_saddr sk, sa_remote = skc_v6_daddr sk\<rparr>)))"

subsection \<open>Event submission\<close>

definition ko_count_filter_drop :: "nat \<Rightarrow> kstate \<Rightarrow> kstate" where
  "ko_count_filter_drop c s = s\<lparr>ko_filter_drops := percpu_incr c (ko_filter_drops s)\<rparr>"

definition zero_event :: conn_event_t where
  "zero_event = \<lparr>e_ts = 0, e_pid = 0, e_error = 0, e_comm = replicate 16 0, e_family = 0,
     e_local_port = 0, e_remote_port = 0, e_type = 0, e_local_ip = replicate 16 0,
     e_remote_ip = replicate 16 0, e_cgroup_id = 0, e_life_us = 0, e_rtt_us = 0,
     e_retransmits = 0, e_segs_out = 0, e_snd_cwnd = 0, e_snd_ssthresh = 0, e_snd_wnd = 0,
     e_rcv_wnd = 0, e_filter_idx = 0\<rparr>"

text \<open>The arguments of the filter evaluation.\<close>

definition filter_args ::
    "kenv \<Rightarrow> u64 \<Rightarrow> u64 \<Rightarrow> conn_ctx_t \<Rightarrow> u16 \<Rightarrow> u16 \<Rightarrow> sock_addrs \<Rightarrow> ko_args" where
  "filter_args env now skaddr cctx type family a =
     (let sk = socks env skaddr in
      \<lparr>g_cgroup_id = at_cgroup_id (attr_resolve env skaddr (Some cctx)),
       g_rtt_us = drop_bit 3 (srtt_us sk),
       g_life_us = (now - c_start_ts cctx) div 1000,
       g_retransmits = total_retrans sk, g_segs_out = segs_out sk, g_sk_err = sk_err sk,
       g_type = type, g_family = family, g_addrs = a\<rparr>)"

definition make_event ::
    "kenv \<Rightarrow> u64 \<Rightarrow> u64 \<Rightarrow> conn_ctx_t \<Rightarrow> u16 \<Rightarrow> u16 \<Rightarrow> u16 \<Rightarrow> u16 \<Rightarrow> sock_addrs \<Rightarrow> u16 \<Rightarrow> conn_event_t" where
  "make_event env now skaddr cctx type family sport dport a filter_idx =
     (let sk = socks env skaddr; at = attr_resolve env skaddr (Some cctx);
          e = zero_event\<lparr>e_ts := now, e_life_us := (now - c_start_ts cctx) div 1000,
                e_type := type, e_pid := at_pid at, e_cgroup_id := at_cgroup_id at,
                e_comm := at_comm at, e_family := family, e_local_port := sport,
                e_remote_port := dport\<rparr>
      in (fill_addrs e family a)\<lparr>e_error := sk_err sk, e_rtt_us := drop_bit 3 (srtt_us sk),
           e_retransmits := total_retrans sk, e_segs_out := segs_out sk, e_snd_cwnd := snd_cwnd sk,
           e_snd_ssthresh := snd_ssthresh sk, e_snd_wnd := snd_wnd sk, e_rcv_wnd := rcv_wnd sk,
           e_filter_idx := filter_idx\<rparr>)"

definition submit_conn_evt ::
    "kenv \<Rightarrow> u64 \<Rightarrow> u64 \<Rightarrow> conn_ctx_t \<Rightarrow> u16 \<Rightarrow> u16 \<Rightarrow> u16 \<Rightarrow> u16 \<Rightarrow> sock_addrs \<Rightarrow> kstate \<Rightarrow> kstate" where
  "submit_conn_evt env now skaddr cctx type family sport dport a s =
     (let filter_idx =
            ko_filter_eval (array_lookup (ko_filter_cfg s) 0) (array_lookup (ko_filter_prog s) 0)
              (ko_cgroup_verdict s) (filter_args env now skaddr cctx type family a)
      in if filter_idx = KO_FILTER_DROP then ko_count_filter_drop (cpu env) s
         else if \<not> ringbuf_room env then
           s\<lparr>ko_ringbuf_drops := percpu_incr (cpu env) (ko_ringbuf_drops s)\<rparr>
         else
           s\<lparr>ko_events := ko_events s @
               [make_event env now skaddr cctx type family sport dport a filter_idx]\<rparr>)"

subsection \<open>The handlers\<close>

definition connect_ctx :: "kenv \<Rightarrow> conn_ctx_t" where
  "connect_ctx env =
     \<lparr>c_cgroup_id = current_cgroup_id env, c_start_ts = ktime env 0,
      c_pid = ucast (drop_bit 32 (current_pid_tgid env)), c_comm = current_comm env,
      c_last_probe_ns = 0\<rparr>"

definition ko_sock_state :: "kenv \<Rightarrow> u64 \<Rightarrow> u64 \<Rightarrow> u64 \<Rightarrow> kstate \<Rightarrow> kstate" where
  "ko_sock_state env skaddr arg1 arg2 s =
     (let oldstate = ucast arg1 :: u32; newstate = ucast arg2 :: u32; sk = socks env skaddr in
      if sk_protocol sk \<noteq> IPPROTO_TCP then s
      else case sock_read_endpoints sk of
        None \<Rightarrow> s
      | Some (family, sport, dport, addrs) \<Rightarrow>
          if newstate = TCP_SYN_SENT \<and> oldstate \<noteq> TCP_SYN_SENT then
            s\<lparr>ko_sock_ctx := lru_update (lru_of env) skaddr (connect_ctx env) (ko_sock_ctx s)\<rparr>
          else case hash_lookup (ko_sock_ctx s) skaddr of
            None \<Rightarrow> s
          | Some cctx \<Rightarrow>
              if oldstate = TCP_ESTABLISHED then
                submit_conn_evt env (ktime env 0) skaddr cctx CONN_EVT_CLOSED family sport dport addrs
                  (s\<lparr>ko_sock_ctx := hash_delete skaddr (ko_sock_ctx s)\<rparr>)
              else if oldstate \<noteq> TCP_SYN_SENT then s
              else if newstate = TCP_ESTABLISHED then s
              else
                submit_conn_evt env (ktime env 0) skaddr cctx CONN_EVT_CONNECT_FAILED family sport dport addrs
                  (s\<lparr>ko_sock_ctx := hash_delete skaddr (ko_sock_ctx s)\<rparr>))"

definition ko_retransmit :: "kenv \<Rightarrow> u64 \<Rightarrow> kstate \<Rightarrow> kstate" where
  "ko_retransmit env skaddr s =
     (case hash_lookup (ko_sock_ctx s) skaddr of
        None \<Rightarrow> s
      | Some cctx \<Rightarrow>
          (case sock_read_endpoints (socks env skaddr) of
             None \<Rightarrow> s
           | Some (family, sport, dport, addrs) \<Rightarrow>
               submit_conn_evt env (ktime env 0) skaddr cctx CONN_EVT_RETRANSMIT family sport dport addrs s))"

definition KO_PROBE_MIN_INTERVAL_NS :: u64 where
  "KO_PROBE_MIN_INTERVAL_NS = 100000000"

definition ko_probe :: "kenv \<Rightarrow> u64 \<Rightarrow> kstate \<Rightarrow> kstate" where
  "ko_probe env skaddr s =
     (case hash_lookup (ko_sock_ctx s) skaddr of
        None \<Rightarrow> s
      | Some c \<Rightarrow>
          (let now = ktime env 0 in
           if now - c_last_probe_ns c < KO_PROBE_MIN_INTERVAL_NS then s
           else
             (let cctx = c\<lparr>c_last_probe_ns := now\<rparr>;
                  s' = s\<lparr>ko_sock_ctx := hash_store skaddr cctx (ko_sock_ctx s)\<rparr>
              in case sock_read_endpoints (socks env skaddr) of
                   None \<Rightarrow> s'
                 | Some (family, sport, dport, addrs) \<Rightarrow>
                     submit_conn_evt env (ktime env 1) skaddr cctx CONN_EVT_PROBE family sport dport addrs s')))"

definition ko_destroy_sock :: "u64 \<Rightarrow> kstate \<Rightarrow> kstate" where
  "ko_destroy_sock skaddr s = s\<lparr>ko_sock_ctx := hash_delete skaddr (ko_sock_ctx s)\<rparr>"

end
