(* ===== verification/Ko_Exec.thy ===== *)
theory Ko_Exec
  imports Ko_Tracer
begin

text \<open>
  Executions of the tracer: tracepoint invocations in any order and on any sockets,
  interleaved with what the agent does from userspace (storing the program, the
  configuration and the verdicts, reading the ring buffer). The theory gives the effect of
  each handler, the type invariant of the maps, and what holds along executions: which
  sockets are reported, to whom events are attributed, how often a connection ends and how
  often it is sampled.
\<close>

subsection \<open>Tracepoints, userspace operations, executions\<close>

datatype tracepoint =
    Inet_sock_set_state u64 u64 u64
  | Tcp_retransmit_skb u64
  | Tcp_probe u64
  | Tcp_destroy_sock u64

datatype user_op =
    Store_prog ko_prog
  | Store_cfg u64
  | Store_verdict lru_choice u64 u64
  | Delete_verdict u64
  | Read_event

datatype action = Trace kenv tracepoint | User user_op

fun run_tp :: "kenv \<Rightarrow> tracepoint \<Rightarrow> kstate \<Rightarrow> kstate" where
  "run_tp env (Inet_sock_set_state sk oldst newst) s = ko_sock_state env sk oldst newst s"
| "run_tp env (Tcp_retransmit_skb sk) s = ko_retransmit env sk s"
| "run_tp env (Tcp_probe sk) s = ko_probe env sk s"
| "run_tp env (Tcp_destroy_sock sk) s = ko_destroy_sock sk s"

fun run_user :: "user_op \<Rightarrow> kstate \<Rightarrow> kstate" where
  "run_user (Store_prog p) s = s\<lparr>ko_filter_prog := (ko_filter_prog s)[0 := p]\<rparr>"
| "run_user (Store_cfg c) s = s\<lparr>ko_filter_cfg := (ko_filter_cfg s)[0 := c]\<rparr>"
| "run_user (Store_verdict ch k v) s = s\<lparr>ko_cgroup_verdict := lru_update ch k v (ko_cgroup_verdict s)\<rparr>"
| "run_user (Delete_verdict k) s = s\<lparr>ko_cgroup_verdict := hash_delete k (ko_cgroup_verdict s)\<rparr>"
| "run_user Read_event s = s\<lparr>ko_events := tl (ko_events s)\<rparr>"

fun act :: "action \<Rightarrow> kstate \<Rightarrow> kstate" where
  "act (Trace env t) s = run_tp env t s"
| "act (User u) s = run_user u s"

fun run :: "action list \<Rightarrow> kstate \<Rightarrow> kstate" where
  "run [] s = s"
| "run (x # xs) s = run xs (act x s)"

lemma run_append [simp]: "run (xs @ ys) s = run ys (run xs s)"
  by (induction xs arbitrary: s) auto

text \<open>The maps as the loader creates them.\<close>

definition zero_prog :: ko_prog where
  "zero_prog = \<lparr>nfilters = 0, npreds = 0, preds = replicate KO_MAX_PREDS
     \<lparr>p_val = 0, p_kind = 0, p_a = 0, p_b = 0, p_n = 0, p_plen = replicate KO_MAX_IPSET 0,
      p_fam = replicate KO_MAX_IPSET 0, p_addr = replicate KO_MAX_IPSET (replicate 16 0)\<rparr>\<rparr>"

definition init_state :: kstate where
  "init_state = \<lparr>ko_sock_ctx = Map.empty, ko_events = [], ko_filter_prog = [zero_prog],
     ko_filter_cfg = [0], ko_cgroup_verdict = Map.empty, ko_filter_drops = (\<lambda>_. [0]),
     ko_ringbuf_drops = (\<lambda>_. [0])\<rparr>"

text \<open>The widths of the arrays the kernel hands out, and of the programs userspace stores.\<close>

definition sock_ok :: "sock \<Rightarrow> bool" where
  "sock_ok sk \<longleftrightarrow> length (skc_v6_rcv_saddr sk) = 16 \<and> length (skc_v6_daddr sk) = 16"

definition env_ok :: "kenv \<Rightarrow> bool" where
  "env_ok env \<longleftrightarrow> (\<forall>a. sock_ok (socks env a)) \<and> length (current_comm env) = 16"

fun action_ok :: "action \<Rightarrow> bool" where
  "action_ok (Trace env t) = env_ok env"
| "action_ok (User (Store_prog p)) = prog_ok p"
| "action_ok (User u) = True"

text \<open>\<open>exec h s\<close>: the actions \<open>h\<close>, newest first, lead from the initial state to \<open>s\<close>.\<close>

inductive exec :: "action list \<Rightarrow> kstate \<Rightarrow> bool" where
  exec_init: "exec [] init_state"
| exec_step: "exec h s \<Longrightarrow> action_ok x \<Longrightarrow> exec (x # h) (act x s)"

inductive_cases exec_ConsE: "exec (x # h) s"

lemma exec_run: "exec h s \<Longrightarrow> s = run (rev h) init_state \<and> list_all action_ok h"
  by (induction rule: exec.induct) auto

subsection \<open>What one submission does\<close>

abbreviation filter_verdict where
  "filter_verdict env now sk c ty fam a s \<equiv>
     ko_filter_eval (array_lookup (ko_filter_cfg s) 0) (array_lookup (ko_filter_prog s) 0)
       (ko_cgroup_verdict s) (filter_args env now sk c ty fam a)"

lemma submit_cases:
  obtains
    (filtered) "filter_verdict env now sk c ty fam a s = KO_FILTER_DROP"
      "submit_conn_evt env now sk c ty fam sp dp a s =
         s\<lparr>ko_filter_drops := percpu_incr (cpu env) (ko_filter_drops s)\<rparr>"
  | (full) "filter_verdict env now sk c ty fam a s \<noteq> KO_FILTER_DROP" "\<not> ringbuf_room env"
      "submit_conn_evt env now sk c ty fam sp dp a s =
         s\<lparr>ko_ringbuf_drops := percpu_incr (cpu env) (ko_ringbuf_drops s)\<rparr>"
  | (sent) "filter_verdict env now sk c ty fam a s \<noteq> KO_FILTER_DROP" "ringbuf_room env"
      "submit_conn_evt env now sk c ty fam sp dp a s =
         s\<lparr>ko_events := ko_events s @ [make_event env now sk c ty fam sp dp a
             (filter_verdict env now sk c ty fam a s)]\<rparr>"
  by (auto simp: submit_conn_evt_def ko_count_filter_drop_def Let_def)

lemma submit_ctx [simp]:
  "ko_sock_ctx (submit_conn_evt env now sk c ty fam sp dp a s) = ko_sock_ctx s"
  "ko_filter_prog (submit_conn_evt env now sk c ty fam sp dp a s) = ko_filter_prog s"
  "ko_filter_cfg (submit_conn_evt env now sk c ty fam sp dp a s) = ko_filter_cfg s"
  "ko_cgroup_verdict (submit_conn_evt env now sk c ty fam sp dp a s) = ko_cgroup_verdict s"
  by (simp_all add: submit_conn_evt_def ko_count_filter_drop_def Let_def)

subsection \<open>Endpoints\<close>

lemma sock_read_endpoints_SomeE:
  assumes "sock_read_endpoints sk = Some (fam, sp, dp, a)" and "sock_ok sk"
  obtains "fam = skc_family sk" "fam = AF_INET \<or> fam = AF_INET6" "addrs_ok a"
    "skc_state sk \<noteq> TCP_TIME_WAIT" "skc_state sk \<noteq> TCP_NEW_SYN_RECV"
  using assms by (auto simp: sock_read_endpoints_def Let_def addrs_ok_def sock_ok_def split: if_splits)

subsection \<open>The type invariant\<close>

definition ctx_ok :: "u64 \<Rightarrow> conn_ctx_t \<Rightarrow> bool" where
  "ctx_ok k c \<longleftrightarrow> length (c_comm c) = 16"

definition event_ok :: "conn_event_t \<Rightarrow> bool" where
  "event_ok e \<longleftrightarrow> length (e_comm e) = 16 \<and> length (e_local_ip e) = 16 \<and> length (e_remote_ip e) = 16 \<and>
     (e_family e = AF_INET \<or> e_family e = AF_INET6) \<and>
     e_type e \<in> {CONN_EVT_CONNECT_FAILED, CONN_EVT_CLOSED, CONN_EVT_RETRANSMIT, CONN_EVT_PROBE} \<and>
     e_filter_idx e \<noteq> KO_FILTER_DROP"

definition state_ok :: "kstate \<Rightarrow> bool" where
  "state_ok s \<longleftrightarrow> lru.entries ctx_ok (ko_sock_ctx s) \<and> list_all event_ok (ko_events s) \<and>
     length (ko_filter_prog s) = 1 \<and> list_all prog_ok (ko_filter_prog s) \<and>
     length (ko_filter_cfg s) = 1 \<and>
     (\<forall>c. length (ko_filter_drops s c) = 1) \<and> (\<forall>c. length (ko_ringbuf_drops s c) = 1)"

lemma length_percpu_incr [simp]: "length (percpu_incr c m d) = length (m d)"
  by (simp add: percpu_incr_def split: option.split)

lemma make_event_ok:
  assumes "ctx_ok k c" and "fam = AF_INET \<or> fam = AF_INET6" and "addrs_ok a"
    and "ty \<in> {CONN_EVT_CONNECT_FAILED, CONN_EVT_CLOSED, CONN_EVT_RETRANSMIT, CONN_EVT_PROBE}"
    and "idx \<noteq> KO_FILTER_DROP"
  shows "event_ok (make_event env now sk c ty fam sp dp a idx)"
  using assms
  by (auto simp: event_ok_def make_event_def fill_addrs_def zero_event_def Let_def attr_resolve_def
      ctx_ok_def addrs_ok_def)

lemma submit_state_ok:
  assumes "state_ok s" and "ctx_ok k c" and "fam = AF_INET \<or> fam = AF_INET6" and "addrs_ok a"
    and "ty \<in> {CONN_EVT_CONNECT_FAILED, CONN_EVT_CLOSED, CONN_EVT_RETRANSMIT, CONN_EVT_PROBE}"
  shows "state_ok (submit_conn_evt env now sk c ty fam sp dp a s)"
proof (cases rule: submit_cases [where env = env and now = now and sk = sk and c = c and ty = ty
      and fam = fam and sp = sp and dp = dp and a = a and s = s])
  case filtered
  with assms(1) show ?thesis by (simp add: state_ok_def)
next
  case full
  with assms(1) show ?thesis by (simp add: state_ok_def)
next
  case sent
  with assms make_event_ok [OF assms(2-5) sent(1)] show ?thesis by (simp add: state_ok_def)
qed

lemma state_ok_ctx:
  "state_ok (s\<lparr>ko_sock_ctx := m\<rparr>) \<longleftrightarrow> state_ok (s\<lparr>ko_sock_ctx := Map.empty\<rparr>) \<and> lru.entries ctx_ok m"
  by (auto simp: state_ok_def lru_entries_iff)

lemma state_ok_ctx_empty: "state_ok s \<Longrightarrow> state_ok (s\<lparr>ko_sock_ctx := Map.empty\<rparr>)"
  by (simp add: state_ok_def lru_entries_iff)

lemma state_ok_delete: "state_ok s \<Longrightarrow> state_ok (s\<lparr>ko_sock_ctx := hash_delete k (ko_sock_ctx s)\<rparr>)"
  by (subst state_ok_ctx) (simp add: state_ok_ctx_empty lru.entries_delete, simp add: state_ok_def lru.entries_delete)

lemma state_ok_lookup: "state_ok s \<Longrightarrow> hash_lookup (ko_sock_ctx s) k = Some c \<Longrightarrow> ctx_ok k c"
  by (auto simp: state_ok_def dest: lru.entriesD)

lemma ko_sock_state_ok:
  assumes "state_ok s" and "env_ok env"
  shows "state_ok (ko_sock_state env sk o1 n1 s)"
proof (cases "sock_read_endpoints (socks env sk)")
  case None
  with assms show ?thesis by (simp add: ko_sock_state_def Let_def)
next
  case (Some ep)
  then obtain fam sp dp a where ep: "sock_read_endpoints (socks env sk) = Some (fam, sp, dp, a)"
    by (cases ep) auto
  have "sock_ok (socks env sk)" using assms(2) by (simp add: env_ok_def)
  with ep have fam: "fam = AF_INET \<or> fam = AF_INET6" and a: "addrs_ok a"
    by (auto elim: sock_read_endpoints_SomeE)
  have new: "state_ok (s\<lparr>ko_sock_ctx := lru_update (lru_of env) sk (connect_ctx env) (ko_sock_ctx s)\<rparr>)"
    using assms by (subst state_ok_ctx)
      (simp add: state_ok_ctx_empty, simp add: state_ok_def lru.entries_update ctx_ok_def connect_ctx_def env_ok_def)
  have sub: "state_ok (submit_conn_evt env (ktime env 0) sk c ty fam sp dp a
      (s\<lparr>ko_sock_ctx := hash_delete sk (ko_sock_ctx s)\<rparr>))"
    if "hash_lookup (ko_sock_ctx s) sk = Some c" "ty \<in> {CONN_EVT_CLOSED, CONN_EVT_CONNECT_FAILED}" for c ty
    using that by (intro submit_state_ok [OF state_ok_delete [OF assms(1)] state_ok_lookup [OF assms(1)] fam a]) auto
  show ?thesis
    using assms(1) new sub
    by (auto simp: ko_sock_state_def Let_def ep split: option.split)
qed

lemma ko_retransmit_ok:
  assumes "state_ok s" and "env_ok env"
  shows "state_ok (ko_retransmit env sk s)"
proof -
  have "sock_ok (socks env sk)" using assms(2) by (simp add: env_ok_def)
  then show ?thesis
    using assms(1) submit_state_ok [OF assms(1) state_ok_lookup [OF assms(1)]]
    by (auto simp: ko_retransmit_def split: option.split elim: sock_read_endpoints_SomeE)
qed

lemma ko_probe_ok:
  assumes "state_ok s" and "env_ok env"
  shows "state_ok (ko_probe env sk s)"
proof (cases "hash_lookup (ko_sock_ctx s) sk")
  case None
  with assms(1) show ?thesis by (simp add: ko_probe_def)
next
  case (Some c)
  define c' where "c' = c\<lparr>c_last_probe_ns := ktime env 0\<rparr>"
  have c': "ctx_ok sk c'" using state_ok_lookup [OF assms(1) Some] by (simp add: ctx_ok_def c'_def)
  have st: "state_ok (s\<lparr>ko_sock_ctx := hash_store sk c' (ko_sock_ctx s)\<rparr>)"
    using assms(1) c' by (subst state_ok_ctx) (simp add: state_ok_ctx_empty, simp add: state_ok_def lru.entries_store)
  have "sock_ok (socks env sk)" using assms(2) by (simp add: env_ok_def)
  then show ?thesis
    using assms(1) st submit_state_ok [OF st c']
    by (auto simp: ko_probe_def Let_def Some c'_def [symmetric] split: option.split elim: sock_read_endpoints_SomeE)
qed

lemma run_tp_ok: "state_ok s \<Longrightarrow> env_ok env \<Longrightarrow> state_ok (run_tp env t s)"
  by (cases t) (simp_all add: ko_sock_state_ok ko_retransmit_ok ko_probe_ok ko_destroy_sock_def state_ok_delete)

lemma run_user_ok: "state_ok s \<Longrightarrow> action_ok (User u) \<Longrightarrow> state_ok (run_user u s)"
  by (cases u) (auto simp: state_ok_def list_all_length nth_list_update length_Suc_conv nth_tl)

lemma init_state_ok: "state_ok init_state"
  by (simp add: state_ok_def init_state_def lru_entries_iff prog_ok_def pred_ok_def zero_prog_def list_all_length)

lemma exec_state_ok: "exec h s \<Longrightarrow> state_ok s"
proof (induction rule: exec.induct)
  case exec_init
  show ?case by (rule init_state_ok)
next
  case (exec_step h s x)
  then show ?case by (cases x) (auto intro: run_tp_ok run_user_ok)
qed

subsection \<open>Tracked and untracked sockets\<close>

fun connects :: "u64 \<Rightarrow> action \<Rightarrow> bool" where
  "connects a (Trace env (Inet_sock_set_state sk o1 n1)) \<longleftrightarrow>
     sk = a \<and> sk_protocol (socks env sk) = IPPROTO_TCP \<and> sock_read_endpoints (socks env sk) \<noteq> None \<and>
     (ucast n1 :: u32) = TCP_SYN_SENT \<and> (ucast o1 :: u32) \<noteq> TCP_SYN_SENT"
| "connects a _ \<longleftrightarrow> False"

fun tp_sock :: "tracepoint \<Rightarrow> u64" where
  "tp_sock (Inet_sock_set_state sk o1 n1) = sk"
| "tp_sock (Tcp_retransmit_skb sk) = sk"
| "tp_sock (Tcp_probe sk) = sk"
| "tp_sock (Tcp_destroy_sock sk) = sk"

fun on_sock :: "u64 \<Rightarrow> action \<Rightarrow> bool" where
  "on_sock a (Trace env t) \<longleftrightarrow> tp_sock t = a"
| "on_sock a (User u) \<longleftrightarrow> False"

fun sampled_at :: "u64 \<Rightarrow> kstate \<Rightarrow> action \<Rightarrow> bool" where
  "sampled_at a s (Trace env (Tcp_probe sk)) \<longleftrightarrow>
     sk = a \<and> (case ko_sock_ctx s a of
       None \<Rightarrow> False
     | Some c \<Rightarrow> \<not> ktime env 0 - c_last_probe_ns c < KO_PROBE_MIN_INTERVAL_NS)"
| "sampled_at a s _ \<longleftrightarrow> False"

fun terminal_at :: "u64 \<Rightarrow> kstate \<Rightarrow> action \<Rightarrow> bool" where
  "terminal_at a s (Trace env (Inet_sock_set_state sk o1 n1)) \<longleftrightarrow>
     sk = a \<and> sk_protocol (socks env sk) = IPPROTO_TCP \<and> sock_read_endpoints (socks env sk) \<noteq> None \<and>
     ko_sock_ctx s a \<noteq> None \<and>
     ((ucast o1 :: u32) = TCP_ESTABLISHED \<and> (ucast n1 :: u32) \<noteq> TCP_SYN_SENT \<or>
      (ucast o1 :: u32) = TCP_SYN_SENT \<and> (ucast n1 :: u32) \<noteq> TCP_ESTABLISHED)"
| "terminal_at a s _ \<longleftrightarrow> False"

lemma state_consts_distinct [simp]: "TCP_ESTABLISHED \<noteq> TCP_SYN_SENT" "TCP_SYN_SENT \<noteq> TCP_ESTABLISHED"
  by (simp_all add: tcp_consts)

text \<open>The three things the state handler can do.\<close>

lemma ko_sock_state_cases:
  fixes env sk o1 n1
  defines "x \<equiv> Trace env (Inet_sock_set_state sk o1 n1)"
  obtains (connect) "connects sk x" "ko_sock_state env sk o1 n1 s =
      s\<lparr>ko_sock_ctx := lru_update (lru_of env) sk (connect_ctx env) (ko_sock_ctx s)\<rparr>"
  | (terminal) c fam sp dp a where "terminal_at sk s x" "ko_sock_ctx s sk = Some c"
      "sock_read_endpoints (socks env sk) = Some (fam, sp, dp, a)"
      "ko_sock_state env sk o1 n1 s = submit_conn_evt env (ktime env 0) sk c
         (if (ucast o1 :: u32) = TCP_ESTABLISHED then CONN_EVT_CLOSED else CONN_EVT_CONNECT_FAILED)
         fam sp dp a (s\<lparr>ko_sock_ctx := hash_delete sk (ko_sock_ctx s)\<rparr>)"
  | (idle) "\<not> connects sk x" "\<not> terminal_at sk s x" "ko_sock_state env sk o1 n1 s = s"
proof -
  consider "connects sk x" | "terminal_at sk s x" | "\<not> connects sk x" "\<not> terminal_at sk s x" by blast
  then show thesis
  proof cases
    case 1
    then show thesis
      by (intro connect) (auto simp: x_def ko_sock_state_def Let_def)
  next
    case 2
    then obtain c fam sp dp a where "ko_sock_ctx s sk = Some c"
      "sock_read_endpoints (socks env sk) = Some (fam, sp, dp, a)" by (auto simp: x_def)
    with 2 show thesis
      by (intro terminal [of c fam sp dp a]) (auto simp: x_def ko_sock_state_def hash_lookup_def Let_def)
  next
    case 3
    then show thesis
      by (intro idle) (auto simp: x_def ko_sock_state_def hash_lookup_def Let_def split: option.split)
  qed
qed

lemma untracked_idle:
  assumes "ko_sock_ctx s a = None" and "on_sock a x" and "\<not> connects a x"
  shows "act x s = s"
proof (cases x)
  case (Trace env t)
  have "(ko_sock_ctx s)(a := None) = ko_sock_ctx s" using assms(1) by (rule fun_upd_idem)
  with Trace assms show ?thesis
    by (cases t)
      (auto simp: ko_sock_state_def ko_retransmit_def ko_probe_def ko_destroy_sock_def map_defs Let_def
        split: option.split)
qed (use assms in simp)

lemma ctx_frame:
  assumes "\<not> connects a x" and "\<not> sampled_at a s x"
  shows "ko_sock_ctx (act x s) a = None \<or> ko_sock_ctx (act x s) a = ko_sock_ctx s a"
proof (cases x)
  case (Trace env t)
  with assms show ?thesis
    by (cases t)
      (auto simp: ko_sock_state_def ko_retransmit_def ko_probe_def ko_destroy_sock_def map_defs Let_def
        split: option.split)
next
  case (User u)
  then show ?thesis by (cases u) simp_all
qed

lemma untracked_stays:
  "ko_sock_ctx s a = None \<Longrightarrow> \<not> connects a x \<Longrightarrow> ko_sock_ctx (act x s) a = None"
  using ctx_frame [of a x s] by (cases "(a, s, x)" rule: sampled_at.cases) auto

lemma terminal_untracks: "terminal_at a s x \<Longrightarrow> ko_sock_ctx (act x s) a = None"
  by (cases "(a, s, x)" rule: terminal_at.cases)
    (auto simp: ko_sock_state_def map_defs Let_def tcp_consts split: option.split)

lemma terminal_tracked: "terminal_at a s x \<Longrightarrow> ko_sock_ctx s a \<noteq> None"
  by (cases "(a, s, x)" rule: terminal_at.cases) auto

lemma untracked_run:
  "ko_sock_ctx s a = None \<Longrightarrow> list_all (\<lambda>x. \<not> connects a x) xs \<Longrightarrow>
     run xs s = run (filter (\<lambda>x. \<not> on_sock a x) xs) s"
proof (induction xs arbitrary: s)
  case Nil
  then show ?case by simp
next
  case (Cons x xs)
  then show ?case
    using untracked_idle [of s a x] untracked_stays [of s a x] by (cases "on_sock a x") auto
qed

fun terminals :: "u64 \<Rightarrow> kstate \<Rightarrow> action list \<Rightarrow> nat" where
  "terminals a s [] = 0"
| "terminals a s (x # xs) = (if terminal_at a s x then 1 else 0) + terminals a (act x s) xs"

lemma terminals_le:
  "terminals a s xs \<le> length (filter (connects a) xs) + (if ko_sock_ctx s a = None then 0 else 1)"
proof (induction xs arbitrary: s)
  case Nil
  then show ?case by simp
next
  case (Cons x xs)
  let ?s = "act x s"
  have IH: "terminals a ?s xs \<le> length (filter (connects a) xs) + (if ko_sock_ctx ?s a = None then 0 else 1)"
    by (rule Cons.IH)
  consider "terminal_at a s x" | "connects a x" "\<not> terminal_at a s x"
    | "\<not> connects a x" "\<not> terminal_at a s x" by blast
  then show ?case
  proof cases
    case 1
    then have "ko_sock_ctx s a \<noteq> None" "ko_sock_ctx ?s a = None"
      by (rule terminal_tracked, rule terminal_untracks)
    with 1 IH show ?thesis by auto
  next
    case 2
    with IH show ?thesis by (auto split: if_splits)
  next
    case 3
    with IH untracked_stays [of s a x] show ?thesis by (auto split: if_splits)
  qed
qed

subsection \<open>Probe sampling\<close>

fun probe_times :: "u64 \<Rightarrow> kstate \<Rightarrow> action list \<Rightarrow> u64 list" where
  "probe_times a s [] = []"
| "probe_times a s (x # xs) =
     (case x of
        Trace env t \<Rightarrow> if sampled_at a s x then ktime env 0 # probe_times a (act x s) xs
                       else probe_times a (act x s) xs
      | User u \<Rightarrow> probe_times a (act x s) xs)"

fun trace_times :: "action list \<Rightarrow> u64 list" where
  "trace_times [] = []"
| "trace_times (Trace env t # xs) = ktime env 0 # trace_times xs"
| "trace_times (User u # xs) = trace_times xs"

definition spaced :: "u64 \<Rightarrow> u64 \<Rightarrow> bool" where
  "spaced t t' \<longleftrightarrow> unat t + unat KO_PROBE_MIN_INTERVAL_NS \<le> unat t'"

lemma spaced_iff: "t \<le> t' \<Longrightarrow> \<not> t' - t < KO_PROBE_MIN_INTERVAL_NS \<longleftrightarrow> spaced t t'"
  by (auto simp: spaced_def word_less_nat_alt word_le_nat_alt unat_sub)

lemma sampled_ctx:
  assumes "sampled_at a s (Trace env t)"
  obtains c where "ko_sock_ctx s a = Some c" "\<not> ktime env 0 - c_last_probe_ns c < KO_PROBE_MIN_INTERVAL_NS"
    "ko_sock_ctx (act (Trace env t) s) a = Some (c\<lparr>c_last_probe_ns := ktime env 0\<rparr>)"
  using assms
  by (cases "(a, s, Trace env t)" rule: sampled_at.cases)
    (auto simp: ko_probe_def map_defs Let_def split: option.splits)

lemma probe_spacing:
  assumes "\<And>c. ko_sock_ctx s a = Some c \<Longrightarrow> c_last_probe_ns c = t0"
    and "list_all (\<lambda>x. \<not> connects a x) xs" and "sorted (t0 # trace_times xs)"
  shows "successively spaced (t0 # probe_times a s xs)"
  using assms
proof (induction xs arbitrary: s t0)
  case Nil
  then show ?case by simp
next
  case (Cons x xs)
  show ?case
  proof (cases "sampled_at a s x")
    case True
    then obtain env t where x: "x = Trace env t" by (cases x) auto
    from True obtain c where c: "ko_sock_ctx s a = Some c"
      "\<not> ktime env 0 - c_last_probe_ns c < KO_PROBE_MIN_INTERVAL_NS"
      "ko_sock_ctx (act x s) a = Some (c\<lparr>c_last_probe_ns := ktime env 0\<rparr>)"
      unfolding x by (rule sampled_ctx)
    have "spaced t0 (ktime env 0)"
      using c Cons.prems x spaced_iff [of t0 "ktime env 0"] by auto
    moreover have "successively spaced (ktime env 0 # probe_times a (act x s) xs)"
      using Cons.prems c by (intro Cons.IH) (auto simp: x)
    ultimately show ?thesis using True by (simp add: x)
  next
    case False
    have "\<not> connects a x" using Cons.prems by simp
    from ctx_frame [OF this False] have "\<And>c. ko_sock_ctx (act x s) a = Some c \<Longrightarrow> c_last_probe_ns c = t0"
      using Cons.prems(1) by auto
    moreover have "sorted (t0 # trace_times xs)" using Cons.prems(3) by (cases x) auto
    ultimately have "successively spaced (t0 # probe_times a (act x s) xs)"
      using Cons.prems(2) by (intro Cons.IH) auto
    with False show ?thesis by (cases x) auto
  qed
qed

subsection \<open>Attribution\<close>

definition ctx_from :: "action list \<Rightarrow> u64 \<Rightarrow> conn_ctx_t \<Rightarrow> bool" where
  "ctx_from h a c \<longleftrightarrow>
     (\<exists>env o1 n1. Trace env (Inet_sock_set_state a o1 n1) \<in> set h \<and>
        connects a (Trace env (Inet_sock_set_state a o1 n1)) \<and> c\<lparr>c_last_probe_ns := 0\<rparr> = connect_ctx env)"

lemma ctx_step:
  assumes "ko_sock_ctx (act x s) k = Some c'"
  obtains (old) c t where "ko_sock_ctx s k = Some c" "c' = c\<lparr>c_last_probe_ns := t\<rparr>"
  | (new) env o1 n1 where "x = Trace env (Inet_sock_set_state k o1 n1)" "connects k x" "c' = connect_ctx env"
proof (cases "connects k x")
  case True
  then obtain env o1 n1 where x: "x = Trace env (Inet_sock_set_state k o1 n1)"
    by (cases "(k, x)" rule: connects.cases) auto
  with True assms have "c' = connect_ctx env \<or> ko_sock_ctx s k = Some c'"
    by (auto simp: ko_sock_state_def map_defs Let_def split: option.splits if_splits)
  then show thesis
  proof
    assume "c' = connect_ctx env" with x True show thesis by (intro new)
  next
    assume "ko_sock_ctx s k = Some c'"
    moreover have "c' = c'\<lparr>c_last_probe_ns := c_last_probe_ns c'\<rparr>" by simp
    ultimately show thesis by (rule old)
  qed
next
  case False
  show thesis
  proof (cases "sampled_at k s x")
    case True
    then obtain env t where x: "x = Trace env t" by (cases x) auto
    from True obtain c where "ko_sock_ctx s k = Some c"
      "ko_sock_ctx (act x s) k = Some (c\<lparr>c_last_probe_ns := ktime env 0\<rparr>)"
      unfolding x by (rule sampled_ctx)
    with assms show thesis by (intro old) auto
  next
    case unsampled: False
    have "ko_sock_ctx s k = Some c'" using ctx_frame [OF False unsampled] assms by auto
    moreover have "c' = c'\<lparr>c_last_probe_ns := c_last_probe_ns c'\<rparr>" by simp
    ultimately show thesis by (rule old)
  qed
qed

lemma ctx_from_probe [simp]: "ctx_from h a (c\<lparr>c_last_probe_ns := t\<rparr>) = ctx_from h a c"
  by (simp add: ctx_from_def)

lemma ctx_from_mono: "ctx_from h a c \<Longrightarrow> ctx_from (x # h) a c"
  unfolding ctx_from_def by (metis list.set_intros(2))

lemma exec_ctx_from: "exec h s \<Longrightarrow> ko_sock_ctx s a = Some c \<Longrightarrow> ctx_from h a c"
proof (induction arbitrary: a c rule: exec.induct)
  case exec_init
  then show ?case by (simp add: init_state_def)
next
  case (exec_step h s x)
  from exec_step.prems show ?case
  proof (cases rule: ctx_step)
    case (old c0 t)
    from exec_step.IH [OF old(1)] show ?thesis by (simp add: old(2) ctx_from_mono)
  next
    case (new env o1 n1)
    then have "c\<lparr>c_last_probe_ns := 0\<rparr> = connect_ctx env" by (simp add: connect_ctx_def)
    with new show ?thesis unfolding ctx_from_def by (metis list.set_intros(1))
  qed
qed

lemma make_event_probe_time [simp]:
  "make_event env now sk (c\<lparr>c_last_probe_ns := t\<rparr>) = make_event env now sk c"
  "filter_args env now sk (c\<lparr>c_last_probe_ns := t\<rparr>) = filter_args env now sk c"
  by (simp_all add: fun_eq_iff make_event_def filter_args_def attr_resolve_def Let_def)

fun tp_types :: "tracepoint \<Rightarrow> u16 set" where
  "tp_types (Inet_sock_set_state sk o1 n1) = {CONN_EVT_CLOSED, CONN_EVT_CONNECT_FAILED}"
| "tp_types (Tcp_retransmit_skb sk) = {CONN_EVT_RETRANSMIT}"
| "tp_types (Tcp_probe sk) = {CONN_EVT_PROBE}"
| "tp_types (Tcp_destroy_sock sk) = {}"

lemma submit_events:
  "ko_events (submit_conn_evt env now sk c ty fam sp dp a s) = ko_events s \<or>
   (filter_verdict env now sk c ty fam a s \<noteq> KO_FILTER_DROP \<and>
    ko_events (submit_conn_evt env now sk c ty fam sp dp a s) =
      ko_events s @ [make_event env now sk c ty fam sp dp a (filter_verdict env now sk c ty fam a s)])"
  by (cases rule: submit_cases [where env = env and now = now and sk = sk and c = c and ty = ty
      and fam = fam and sp = sp and dp = dp and a = a and s = s]) simp_all

lemma run_tp_emits:
  assumes "ko_events (run_tp env t s) \<noteq> ko_events s"
  obtains c n ty fam sp dp a where "ko_sock_ctx s (tp_sock t) = Some c"
    "sock_read_endpoints (socks env (tp_sock t)) = Some (fam, sp, dp, a)" "ty \<in> tp_types t"
    "filter_verdict env (ktime env n) (tp_sock t) c ty fam a s \<noteq> KO_FILTER_DROP"
    "ko_events (run_tp env t s) = ko_events s @
       [make_event env (ktime env n) (tp_sock t) c ty fam sp dp a
          (filter_verdict env (ktime env n) (tp_sock t) c ty fam a s)]"
    "ty \<in> {CONN_EVT_CLOSED, CONN_EVT_CONNECT_FAILED} \<Longrightarrow> terminal_at (tp_sock t) s (Trace env t)"
proof -
  let ?P = "\<lambda>c n ty fam sp dp a. ko_sock_ctx s (tp_sock t) = Some c \<and>
    sock_read_endpoints (socks env (tp_sock t)) = Some (fam, sp, dp, a) \<and> ty \<in> tp_types t \<and>
    filter_verdict env (ktime env n) (tp_sock t) c ty fam a s \<noteq> KO_FILTER_DROP \<and>
    ko_events (run_tp env t s) = ko_events s @
       [make_event env (ktime env n) (tp_sock t) c ty fam sp dp a
          (filter_verdict env (ktime env n) (tp_sock t) c ty fam a s)] \<and>
    (ty \<in> {CONN_EVT_CLOSED, CONN_EVT_CONNECT_FAILED} \<longrightarrow> terminal_at (tp_sock t) s (Trace env t))"
  have "\<exists>c n ty fam sp dp a. ?P c n ty fam sp dp a"
  proof (cases t)
    case (Inet_sock_set_state sk o1 n1)
    let ?s = "s\<lparr>ko_sock_ctx := hash_delete sk (ko_sock_ctx s)\<rparr>"
    let ?ty = "if (ucast o1 :: u32) = TCP_ESTABLISHED then CONN_EVT_CLOSED else CONN_EVT_CONNECT_FAILED"
    show ?thesis
    proof (cases rule: ko_sock_state_cases [where env = env and sk = sk and ?o1.0 = o1 and ?n1.0 = n1 and s = s])
      case (terminal c fam sp dp a)
      with assms submit_events [of env "ktime env 0" sk c ?ty fam sp dp a ?s] Inet_sock_set_state
      have "?P c 0 ?ty fam sp dp a" by simp
      then show ?thesis by blast
    qed (use assms Inet_sock_set_state in simp_all)
  next
    case (Tcp_retransmit_skb sk)
    from assms Tcp_retransmit_skb obtain c fam sp dp a where
      st: "ko_sock_ctx s sk = Some c" "sock_read_endpoints (socks env sk) = Some (fam, sp, dp, a)"
      "run_tp env t s = submit_conn_evt env (ktime env 0) sk c CONN_EVT_RETRANSMIT fam sp dp a s"
      by (auto simp: ko_retransmit_def hash_lookup_def split: option.splits)
    with assms submit_events [of env "ktime env 0" sk c CONN_EVT_RETRANSMIT fam sp dp a s] Tcp_retransmit_skb
    have "?P c 0 CONN_EVT_RETRANSMIT fam sp dp a" by (simp add: conn_evt)
    then show ?thesis by blast
  next
    case (Tcp_probe sk)
    from assms Tcp_probe obtain c fam sp dp a where
      st: "ko_sock_ctx s sk = Some c" "sock_read_endpoints (socks env sk) = Some (fam, sp, dp, a)"
      "run_tp env t s = submit_conn_evt env (ktime env 1) sk (c\<lparr>c_last_probe_ns := ktime env 0\<rparr>)
         CONN_EVT_PROBE fam sp dp a
         (s\<lparr>ko_sock_ctx := hash_store sk (c\<lparr>c_last_probe_ns := ktime env 0\<rparr>) (ko_sock_ctx s)\<rparr>)"
      (is "_ = submit_conn_evt _ _ _ ?c _ _ _ _ _ ?s")
      by (auto simp: ko_probe_def hash_lookup_def Let_def split: option.splits if_splits)
    with assms submit_events [of env "ktime env 1" sk ?c CONN_EVT_PROBE fam sp dp a ?s] Tcp_probe
    have "?P c 1 CONN_EVT_PROBE fam sp dp a" by (simp add: conn_evt)
    then show ?thesis by blast
  next
    case (Tcp_destroy_sock sk)
    with assms show ?thesis by (simp add: ko_destroy_sock_def)
  qed
  then show thesis using that by blast
qed

end
