(* ===== verification/Filter_Vm.thy ===== *)
theory Filter_Vm
  imports Filter_Spec "HOL-Library.Monad_Syntax"
begin

text \<open>
  The userspace side of the filter program (\<^verbatim>\<open>pkg/filter/filter.go\<close> and
  \<^verbatim>\<open>pkg/filter/vm.go\<close>): the data types of the package, the verdict mask of a cgroup, the
  byte-wise prefix matchers and \<open>RunPreds\<close>, the Go mirror of the kernel walk. A Go run-time
  panic (an index out of range) is \<open>None\<close>.
\<close>

subsection \<open>Data types of package filter\<close>

abbreviation (input) "EvtConnFailed \<equiv> (1 :: u16)"
abbreviation (input) "EvtConnClosed \<equiv> (2 :: u16)"
abbreviation (input) "EvtRetransmit \<equiv> (3 :: u16)"
abbreviation (input) "EvtProbe \<equiv> (4 :: u16)"

abbreviation (input) "PredCmp \<equiv> (1 :: u8)"
abbreviation (input) "PredIPSet \<equiv> (2 :: u8)"
abbreviation (input) "PredAttr \<equiv> (4 :: u8)"
abbreviation (input) "PredEnd \<equiv> (5 :: u8)"

abbreviation (input) "FldRTT \<equiv> (0 :: u8)"
abbreviation (input) "FldLife \<equiv> (1 :: u8)"
abbreviation (input) "FldRetrans \<equiv> (2 :: u8)"
abbreviation (input) "FldSegs \<equiv> (3 :: u8)"
abbreviation (input) "FldType \<equiv> (4 :: u8)"
abbreviation (input) "FldErrno \<equiv> (5 :: u8)"

abbreviation (input) "AttrNamespace \<equiv> (0 :: u8)"
abbreviation (input) "AttrContainer \<equiv> (1 :: u8)"
abbreviation (input) "AttrPod \<equiv> (2 :: u8)"

abbreviation (input) "AttrEq \<equiv> (0 :: u8)"
abbreviation (input) "AttrNeq \<equiv> (1 :: u8)"
abbreviation (input) "AttrIn \<equiv> (2 :: u8)"

abbreviation (input) "CmpEq \<equiv> (0 :: u8)"
abbreviation (input) "CmpNeq \<equiv> (1 :: u8)"
abbreviation (input) "CmpLt \<equiv> (2 :: u8)"
abbreviation (input) "CmpLe \<equiv> (3 :: u8)"
abbreviation (input) "CmpGt \<equiv> (4 :: u8)"
abbreviation (input) "CmpGe \<equiv> (5 :: u8)"
abbreviation (input) "CmpIn \<equiv> (6 :: u8)"
abbreviation (input) "CmpNotIn \<equiv> (7 :: u8)"

abbreviation (input) "MaxIPSet \<equiv> (4 :: nat)"
abbreviation (input) "MaxFilters \<equiv> (32 :: nat)"
abbreviation (input) "MaxPreds \<equiv> (32 :: nat)"

record Pred =
  Val :: u64
  Kind :: u8
  fldA :: u8
  fldB :: u8
  fldN :: u8
  Plen :: "u16 list"
  Fam :: "u8 list"
  Addr :: "bytes list"

record Prog =
  NFilters :: u32
  NPreds :: u32
  Preds :: "Pred list"

record Atom =
  atom_Field :: u8
  atom_Op :: u8
  atom_Values :: "string list"

record CgroupAttrs =
  attr_Namespace :: string
  attr_Container :: string
  attr_Pod :: string

record Event =
  ev_Type :: u16
  ev_Namespace :: string
  ev_Container :: string
  ev_Pod :: string
  ev_RTTUS :: u32
  ev_LifeUS :: u64
  ev_Retransmits :: u32
  ev_SegsOut :: u32
  ev_Errno :: u32
  ev_LocalIP :: bytes
  ev_LocalPort :: u16
  ev_RemoteIP :: bytes
  ev_RemotePort :: u16

text \<open>The zero value of \<open>Pred\<close>, of which a composite literal sets some fields.\<close>

definition zeroPred :: Pred where
  "zeroPred = \<lparr>Val = 0, Kind = 0, fldA = 0, fldB = 0, fldN = 0,
     Plen = replicate MaxIPSet 0, Fam = replicate MaxIPSet 0,
     Addr = replicate MaxIPSet (replicate 16 0)\<rparr>"

text \<open>A checked index into a Go slice or array.\<close>

definition go_idx :: "'a list \<Rightarrow> nat \<Rightarrow> 'a option" where
  "go_idx xs i = (if i < length xs then Some (xs ! i) else None)"

lemma go_idx_Some [simp]: "i < length xs \<Longrightarrow> go_idx xs i = Some (xs ! i)"
  by (simp add: go_idx_def)

subsection \<open>Verdict masks\<close>

definition attrValue :: "u8 \<Rightarrow> CgroupAttrs \<Rightarrow> string" where
  "attrValue field attrs =
     (if field = AttrNamespace then attr_Namespace attrs
      else if field = AttrContainer then attr_Container attrs
      else if field = AttrPod then attr_Pod attrs
      else [])"

definition atomEval :: "Atom \<Rightarrow> CgroupAttrs \<Rightarrow> bool option" where
  "atomEval a attrs =
     (let v = attrValue (atom_Field a) attrs in
      if atom_Op a = AttrEq then do { x \<leftarrow> go_idx (atom_Values a) 0; Some (v = x) }
      else if atom_Op a = AttrNeq then do { x \<leftarrow> go_idx (atom_Values a) 0; Some (v \<noteq> x) }
      else if atom_Op a = AttrIn then Some (list_ex (\<lambda>x. v = x) (atom_Values a))
      else Some False)"

fun VerdictMask_loop :: "CgroupAttrs \<Rightarrow> nat \<Rightarrow> Atom list \<Rightarrow> u64 \<Rightarrow> u64 option" where
  "VerdictMask_loop attrs i [] msk = Some msk"
| "VerdictMask_loop attrs i (a # as) msk = do {
     b \<leftarrow> atomEval a attrs;
     VerdictMask_loop attrs (Suc i) as (if b then msk OR push_bit i 1 else msk)
   }"

definition VerdictMask :: "Atom list \<Rightarrow> CgroupAttrs \<Rightarrow> u64 option" where
  "VerdictMask atoms attrs = VerdictMask_loop attrs 0 atoms 0"

subsection \<open>Prefix matching\<close>

text \<open>\<open>net.IP.To4\<close> and \<open>net.IP.To16\<close> of the standard library; \<open>None\<close> is nil.\<close>

definition To4 :: "bytes \<Rightarrow> bytes option" where
  "To4 ip =
     (if length ip = 4 then Some ip
      else if length ip = 16 \<and> take 10 ip = replicate 10 0 \<and> ip ! 10 = 0xff \<and> ip ! 11 = 0xff
        then Some (drop 12 ip)
      else None)"

definition To16 :: "bytes \<Rightarrow> bytes option" where
  "To16 ip =
     (if length ip = 4 then Some (replicate 10 0 @ [0xff, 0xff] @ ip)
      else if length ip = 16 then Some ip
      else None)"

fun eqBytes_loop :: "bytes \<Rightarrow> bytes \<Rightarrow> nat list \<Rightarrow> bool option" where
  "eqBytes_loop a b [] = Some True"
| "eqBytes_loop a b (i # is) = do {
     x \<leftarrow> go_idx a i;
     y \<leftarrow> go_idx b i;
     if x \<noteq> y then Some False else eqBytes_loop a b is
   }"

definition prefixBody :: "bytes \<Rightarrow> bytes \<Rightarrow> nat \<Rightarrow> bool option" where
  "prefixBody a b plen =
     (let full = plen div 8; rem = plen mod 8 in do {
        eq \<leftarrow> eqBytes_loop a b [0..<full];
        if \<not> eq then Some False
        else if rem > 0 then
          (let m = push_bit (8 - rem) (0xff :: u8) in do {
             x \<leftarrow> go_idx a full;
             y \<leftarrow> go_idx b full;
             Some (x AND m = y AND m)
           })
        else Some True
      })"

definition prefixMatch4 :: "bytes \<Rightarrow> bytes \<Rightarrow> nat \<Rightarrow> bool option" where
  "prefixMatch4 a b plen = (if plen > 32 then Some False else prefixBody a b plen)"

definition prefixMatch :: "bytes \<Rightarrow> bytes \<Rightarrow> nat \<Rightarrow> bool option" where
  "prefixMatch a b plen = (if plen > 128 then Some False else prefixBody a b plen)"

text \<open>A nil slice has length 0.\<close>

abbreviation (input) "nilbytes ob \<equiv> (case ob of None \<Rightarrow> [] | Some b \<Rightarrow> b)"

fun evIPInSet_loop :: "bytes \<Rightarrow> bool \<Rightarrow> Pred \<Rightarrow> nat list \<Rightarrow> bool option" where
  "evIPInSet_loop ip is4 p [] = Some False"
| "evIPInSet_loop ip is4 p (i # is) = do {
     fam \<leftarrow> go_idx (Fam p) i;
     if fam = 4 then
       (if \<not> is4 then evIPInSet_loop ip is4 p is
        else do {
          ad \<leftarrow> go_idx (Addr p) i;
          plen \<leftarrow> go_idx (Plen p) i;
          m \<leftarrow> prefixMatch4 ad (nilbytes (To4 ip)) (unat plen);
          if m then Some True else evIPInSet_loop ip is4 p is
        })
     else
       (if is4 then evIPInSet_loop ip is4 p is
        else do {
          ad \<leftarrow> go_idx (Addr p) i;
          plen \<leftarrow> go_idx (Plen p) i;
          m \<leftarrow> prefixMatch ad (nilbytes (To16 ip)) (unat plen);
          if m then Some True else evIPInSet_loop ip is4 p is
        })
   }"

definition evIPInSet :: "Event \<Rightarrow> Pred \<Rightarrow> bool option" where
  "evIPInSet ev p =
     (let ip = if fldA p = 1 then ev_RemoteIP ev else ev_LocalIP ev in
      if length ip = 0 then Some False
      else evIPInSet_loop ip (To4 ip \<noteq> None) p [0..<unat (fldN p)])"

subsection \<open>The predicate walk\<close>

definition eventField :: "u8 \<Rightarrow> Event \<Rightarrow> u64" where
  "eventField f ev =
     (if f = FldRTT then ucast (ev_RTTUS ev)
      else if f = FldLife then ev_LifeUS ev
      else if f = FldRetrans then ucast (ev_Retransmits ev)
      else if f = FldSegs then ucast (ev_SegsOut ev)
      else if f = FldType then push_bit (unat (ev_Type ev)) 1
      else if f = FldErrno then ucast (ev_Errno ev)
      else 0)"

definition cmpField :: "u8 \<Rightarrow> u64 \<Rightarrow> u64 \<Rightarrow> bool" where
  "cmpField kind a b =
     (if kind = CmpEq then a = b
      else if kind = CmpNeq then a \<noteq> b
      else if kind = CmpLt then a < b
      else if kind = CmpLe then a \<le> b
      else if kind = CmpGt then a > b
      else if kind = CmpGe then a \<ge> b
      else if kind = CmpIn then a AND b \<noteq> 0
      else if kind = CmpNotIn then a AND b = 0
      else False)"

fun RunPreds_loop :: "Event \<Rightarrow> u64 option \<Rightarrow> Pred list \<Rightarrow> tri \<Rightarrow> u16 option" where
  "RunPreds_loop ev verdict [] res = Some KO_FILTER_DROP"
| "RunPreds_loop ev verdict (p # ps) res =
     (if Kind p = PredCmp then
        RunPreds_loop ev verdict ps
          (if cmpField (fldB p) (eventField (fldA p) ev) (Val p) then res else KO_TRI_FALSE)
      else if Kind p = PredIPSet then do {
        m \<leftarrow> evIPInSet ev p;
        RunPreds_loop ev verdict ps (if m = (fldB p = 0) then res else KO_TRI_FALSE)
      }
      else if Kind p = PredAttr then
        (case verdict of
           None \<Rightarrow> RunPreds_loop ev verdict ps (if res = KO_TRI_TRUE then KO_TRI_UNKNOWN else res)
         | Some m \<Rightarrow>
             RunPreds_loop ev verdict ps
               (if (drop_bit (unat (fldA p)) m AND 1 = 1) = (fldB p = 0) then res else KO_TRI_FALSE))
      else if Kind p = PredEnd then
        (if fldB p = 1 then Some KO_FILTER_UNDECIDED
         else case res of
                KO_TRI_TRUE \<Rightarrow> Some (ucast (fldA p))
              | KO_TRI_UNKNOWN \<Rightarrow> Some KO_FILTER_UNDECIDED
              | KO_TRI_FALSE \<Rightarrow> RunPreds_loop ev verdict ps KO_TRI_TRUE)
      else Some KO_FILTER_UNDECIDED)"

definition RunPreds :: "Pred list \<Rightarrow> Event \<Rightarrow> u64 option \<Rightarrow> u16 option" where
  "RunPreds flat ev verdict = RunPreds_loop ev verdict flat KO_TRI_TRUE"

text \<open>The flat stream that \<^verbatim>\<open>Compile\<close> builds from the predicates of each filter and its
  userspace flag: filter \<open>i\<close> is its predicates and an end marker of index \<open>uint8(i)\<close>.\<close>

fun flat_loop :: "nat \<Rightarrow> (Pred list \<times> bool) list \<Rightarrow> Pred list" where
  "flat_loop i [] = []"
| "flat_loop i ((ps, us) # fs) =
     ps @ [zeroPred\<lparr>Kind := PredEnd, fldA := of_nat i, fldB := if us then 1 else 0\<rparr>] @ flat_loop (Suc i) fs"

subsection \<open>Verdict masks hold the atoms\<close>

lemma bit_VerdictMask_loop:
  assumes "VerdictMask_loop attrs i as msk = Some m" and "i + length as \<le> 64"
    and "\<And>j. i \<le> j \<Longrightarrow> \<not> bit msk j"
  shows "bit m j \<longleftrightarrow> (if j < i then bit msk j else j < i + length as \<and> atomEval (as ! (j - i)) attrs = Some True)"
  using assms
proof (induction as arbitrary: i msk)
  case Nil
  then show ?case by auto
next
  case (Cons a as)
  then obtain b where b: "atomEval a attrs = Some b"
    and rest: "VerdictMask_loop attrs (Suc i) as (if b then msk OR push_bit i 1 else msk) = Some m"
    by (auto simp: bind_eq_Some_conv)
  have i: "i < 64" using Cons.prems(2) by simp
  have new: "bit (if b then msk OR push_bit i 1 else msk) k \<longleftrightarrow> bit msk k \<or> (b \<and> k = i)" for k
    using i by (auto simp: bit_or_iff bit_exp_iff possible_bit_word)
  have clear: "\<not> bit (if b then msk OR push_bit i 1 else msk) k" if "Suc i \<le> k" for k
    unfolding new using Cons.prems(3) [of k] that by simp
  have len: "Suc i + length as \<le> 64" using Cons.prems(2) by simp
  show ?case
    using Cons.IH [OF rest len clear] Cons.prems(3) [of i] b unfolding new
    by (cases "j < i"; cases "j = i") (auto simp: nth_Cons')
qed

lemma bit_VerdictMask:
  assumes "VerdictMask atoms attrs = Some m" and "length atoms \<le> 64"
  shows "bit m j \<longleftrightarrow> j < length atoms \<and> atomEval (atoms ! j) attrs = Some True"
  using bit_VerdictMask_loop [OF assms(1) [unfolded VerdictMask_def], of j] assms(2) by simp

subsection \<open>The prefix matchers compare network-order prefixes\<close>

lemma eqBytes_loop_upt:
  "n \<le> length a \<Longrightarrow> n \<le> length b \<Longrightarrow>
     eqBytes_loop a b [k..<n] = Some (\<forall>i. k \<le> i \<and> i < n \<longrightarrow> a ! i = b ! i)"
proof (induction "n - k" arbitrary: k)
  case 0
  then show ?case by auto
next
  case (Suc d)
  then have k: "k < n" by simp
  have "(\<forall>i. k \<le> i \<and> i < n \<longrightarrow> a ! i = b ! i) \<longleftrightarrow>
      a ! k = b ! k \<and> (\<forall>i. Suc k \<le> i \<and> i < n \<longrightarrow> a ! i = b ! i)"
    using k by (metis Suc_leD Suc_le_eq le_eq_less_or_eq)
  with Suc k show ?case by (simp add: upt_conv_Cons)
qed

lemma prefix_bits_bytes:
  "prefix_bits (8 * k) a b \<longleftrightarrow> (\<forall>i < k. a ! i = b ! i)"
proof
  assume eq: "prefix_bits (8 * k) a b"
  show "\<forall>i < k. a ! i = b ! i"
  proof (intro allI impI bit_word_eqI)
    fix i n :: nat assume "i < k" "n < LENGTH(8)"
    then have "8 * i + (7 - n) < 8 * k" "(8 * i + (7 - n)) div 8 = i" "7 - (8 * i + (7 - n)) mod 8 = n"
      by (simp_all add: mod_mult_self4 del: add_diff_assoc)
    with eq show "bit (a ! i) n = bit (b ! i) n"
      unfolding prefix_bits_def by metis
  qed
next
  assume "\<forall>i < k. a ! i = b ! i"
  then show "prefix_bits (8 * k) a b"
    by (simp add: prefix_bits_def div_less_iff_less_mult)
qed

lemma prefix_bits_split:
  "rem < 8 \<Longrightarrow> prefix_bits (8 * k + rem) a b \<longleftrightarrow>
     prefix_bits (8 * k) a b \<and> (\<forall>j < rem. bit (a ! k) (7 - j) = bit (b ! k) (7 - j))"
  (is "_ \<Longrightarrow> ?l \<longleftrightarrow> ?r1 \<and> ?r2")
proof -
  assume rem: "rem < 8"
  have "?l \<longleftrightarrow> ?r1 \<and> (\<forall>j. 8 * k \<le> j \<and> j < 8 * k + rem \<longrightarrow>
      bit (a ! (j div 8)) (7 - j mod 8) = bit (b ! (j div 8)) (7 - j mod 8))"
    unfolding prefix_bits_def by (meson le_add1 less_le_trans not_le)
  also have "(\<forall>j. 8 * k \<le> j \<and> j < 8 * k + rem \<longrightarrow>
      bit (a ! (j div 8)) (7 - j mod 8) = bit (b ! (j div 8)) (7 - j mod 8)) \<longleftrightarrow> ?r2"
    using rem by (auto simp: le_iff_add)
  finally show ?thesis .
qed

lemma high_mask_eq_iff:
  fixes x y :: u8
  assumes "rem \<le> 8"
  shows "x AND push_bit (8 - rem) 0xff = y AND push_bit (8 - rem) 0xff \<longleftrightarrow>
    (\<forall>j < rem. bit x (7 - j) = bit y (7 - j))" (is "?l \<longleftrightarrow> ?r")
proof -
  have ff: "(0xff :: u8) = mask 8" by (simp add: mask_eq_exp_minus_1)
  have m: "bit (push_bit (8 - rem) (0xff :: u8)) n \<longleftrightarrow> 8 - rem \<le> n \<and> n < 8" for n
    unfolding ff by (auto simp: bit_push_bit_iff bit_mask_iff)
  have "?l \<longleftrightarrow> (\<forall>n. 8 - rem \<le> n \<and> n < 8 \<longrightarrow> bit x n = bit y n)"
    by (auto simp: bit_eq_iff bit_and_iff m)
  also have "\<dots> \<longleftrightarrow> ?r"
  proof
    assume n: "\<forall>n. 8 - rem \<le> n \<and> n < 8 \<longrightarrow> bit x n = bit y n"
    show ?r
    proof (intro allI impI)
      fix j assume "j < rem"
      with assms show "bit x (7 - j) = bit y (7 - j)" by (intro n [rule_format]) linarith
    qed
  next
    assume r: ?r
    show "\<forall>n. 8 - rem \<le> n \<and> n < 8 \<longrightarrow> bit x n = bit y n"
    proof (intro allI impI)
      fix n assume n: "8 - rem \<le> n \<and> n < 8"
      with assms have "7 - n < rem" "7 - (7 - n) = n" by linarith+
      with r show "bit x n = bit y n" by metis
    qed
  qed
  finally show ?thesis .
qed

lemma prefixBody_bits:
  assumes "plen \<le> 8 * length a" and "plen \<le> 8 * length b"
  shows "prefixBody a b plen = Some (prefix_bits plen a b)"
proof -
  let ?f = "plen div 8" and ?r = "plen mod 8"
  have plen: "plen = 8 * ?f + ?r" by simp
  have le: "?f \<le> length a" "?f \<le> length b" using assms by auto
  have lt: "?f < length a" "?f < length b" if "0 < ?r" using assms that plen by linarith+
  have eq: "eqBytes_loop a b [0..<?f] = Some (prefix_bits (8 * ?f) a b)"
    using le by (simp add: eqBytes_loop_upt prefix_bits_bytes)
  have "prefix_bits plen a b \<longleftrightarrow>
      prefix_bits (8 * ?f) a b \<and> (\<forall>j < ?r. bit (a ! ?f) (7 - j) = bit (b ! ?f) (7 - j))"
    using prefix_bits_split [of ?r ?f a b] plen by simp
  with lt high_mask_eq_iff [of ?r "a ! ?f" "b ! ?f"] show ?thesis
    by (auto simp: prefixBody_def Let_def eq simp del: push_bit_numeral)
qed

text \<open>The array sizes of the Go struct, and the bound the compiler keeps on \<open>N\<close>.\<close>

definition Pred_ok :: "Pred \<Rightarrow> bool" where
  "Pred_ok p \<longleftrightarrow> length (Plen p) = MaxIPSet \<and> length (Fam p) = MaxIPSet \<and>
     length (Addr p) = MaxIPSet \<and> list_all (\<lambda>ad. length ad = 16) (Addr p) \<and>
     unat (fldN p) \<le> MaxIPSet"

definition Event_ok :: "Event \<Rightarrow> bool" where
  "Event_ok ev \<longleftrightarrow> length (ev_LocalIP ev) \<in> {0, 4, 16} \<and> length (ev_RemoteIP ev) \<in> {0, 4, 16}"

definition ip_set_spec :: "bytes \<Rightarrow> Pred \<Rightarrow> nat \<Rightarrow> bool" where
  "ip_set_spec ip p i =
     (case To4 ip of
        Some v4 \<Rightarrow> Fam p ! i = 4 \<and> unat (Plen p ! i) \<le> 32 \<and> prefix_bits (unat (Plen p ! i)) (Addr p ! i) v4
      | None \<Rightarrow> Fam p ! i \<noteq> 4 \<and> unat (Plen p ! i) \<le> 128 \<and> prefix_bits (unat (Plen p ! i)) (Addr p ! i) ip)"

lemma To4_length: "To4 ip = Some v4 \<Longrightarrow> length v4 = 4"
  by (auto simp: To4_def split: if_splits)

lemma To16_v6: "length ip \<in> {4, 16} \<Longrightarrow> To4 ip = None \<Longrightarrow> To16 ip = Some ip \<and> length ip = 16"
  by (auto simp: To4_def To16_def split: if_splits)

lemma evIPInSet_loop_Cons:
  assumes "Pred_ok p" and "length ip \<in> {4, 16}" and "i < MaxIPSet"
  shows "evIPInSet_loop ip (To4 ip \<noteq> None) p (i # is) =
    (if ip_set_spec ip p i then Some True else evIPInSet_loop ip (To4 ip \<noteq> None) p is)"
proof -
  have idx: "go_idx (Fam p) i = Some (Fam p ! i)" "go_idx (Addr p) i = Some (Addr p ! i)"
    "go_idx (Plen p) i = Some (Plen p ! i)" and ad: "length (Addr p ! i) = 16"
    using assms by (auto simp: Pred_ok_def list_all_length)
  show ?thesis
  proof (cases "To4 ip")
    case None
    then have "To16 ip = Some ip" "length ip = 16" using To16_v6 [OF assms(2)] by auto
    with None ad show ?thesis
      by (auto simp: idx ip_set_spec_def prefixMatch_def prefixBody_bits)
  next
    case (Some v4)
    then have "length v4 = 4" by (rule To4_length)
    with Some ad show ?thesis
      by (auto simp: idx ip_set_spec_def prefixMatch4_def prefixBody_bits)
  qed
qed

lemma evIPInSet_loop_upt:
  assumes "Pred_ok p" and "length ip \<in> {4, 16}" and "n \<le> MaxIPSet"
  shows "evIPInSet_loop ip (To4 ip \<noteq> None) p [k..<n] = Some (\<exists>i. k \<le> i \<and> i < n \<and> ip_set_spec ip p i)"
proof (induction "n - k" arbitrary: k)
  case 0
  then show ?case by auto
next
  case (Suc d)
  then have k: "k < n" by simp
  have split: "(\<exists>i. k \<le> i \<and> i < n \<and> ip_set_spec ip p i) \<longleftrightarrow>
      ip_set_spec ip p k \<or> (\<exists>i. Suc k \<le> i \<and> i < n \<and> ip_set_spec ip p i)"
    using k by (metis Suc_leD Suc_le_eq le_eq_less_or_eq)
  have IH: "evIPInSet_loop ip (To4 ip \<noteq> None) p [Suc k..<n] =
      Some (\<exists>i. Suc k \<le> i \<and> i < n \<and> ip_set_spec ip p i)"
    using Suc by simp
  have "k < MaxIPSet" using k assms(3) by simp
  from evIPInSet_loop_Cons [OF assms(1,2) this] show ?case
    unfolding upt_conv_Cons [OF k] split by (simp only: IH) simp
qed

lemma evIPInSet_spec:
  assumes "Pred_ok p" and "Event_ok ev"
  defines "ip \<equiv> if fldA p = 1 then ev_RemoteIP ev else ev_LocalIP ev"
  shows "evIPInSet ev p = Some (ip \<noteq> [] \<and> (\<exists>i < unat (fldN p). ip_set_spec ip p i))"
proof (cases "ip = []")
  case True
  then show ?thesis by (simp add: evIPInSet_def ip_def)
next
  case False
  then have "length ip \<in> {4, 16}" using assms(2) by (auto simp: ip_def Event_ok_def)
  moreover have "unat (fldN p) \<le> MaxIPSet" using assms(1) by (simp add: Pred_ok_def)
  ultimately have "evIPInSet_loop ip (To4 ip \<noteq> None) p [0..<unat (fldN p)] =
      Some (\<exists>i. 0 \<le> i \<and> i < unat (fldN p) \<and> ip_set_spec ip p i)"
    by (rule evIPInSet_loop_upt [OF assms(1)])
  with False show ?thesis unfolding evIPInSet_def ip_def [symmetric] by simp
qed

subsection \<open>The walker as a filter machine\<close>

definition Pred_clause :: "u64 option \<Rightarrow> Event \<Rightarrow> Pred \<Rightarrow> clause" where
  "Pred_clause verdict ev p =
     (if Kind p = PredCmp then Decided (cmpField (fldB p) (eventField (fldA p) ev) (Val p))
      else if Kind p = PredIPSet then Decided (evIPInSet ev p = Some (fldB p = 0))
      else if Kind p = PredAttr then
        (case verdict of
           None \<Rightarrow> Unknown
         | Some m \<Rightarrow> Decided ((drop_bit (unat (fldA p)) m AND 1 = 1) = (fldB p = 0)))
      else if Kind p = PredEnd then EndOf (fldB p = 1) (fldA p)
      else Invalid)"

lemma RunPreds_loop_walk:
  "list_all Pred_ok ps \<Longrightarrow> Event_ok ev \<Longrightarrow>
     RunPreds_loop ev verdict ps res = Some (walk (map (Pred_clause verdict ev) ps) res)"
proof (induction ps arbitrary: res)
  case Nil
  then show ?case by simp
next
  case (Cons p ps)
  then have IH: "RunPreds_loop ev verdict ps r = Some (walk (map (Pred_clause verdict ev) ps) r)" for r
    by simp
  have "Pred_ok p" "Event_ok ev" using Cons.prems by simp_all
  then obtain b where ipset_b: "evIPInSet ev p = Some b" using evIPInSet_spec by blast
  consider (cmp) "Kind p = PredCmp" | (ipset) "Kind p = PredIPSet" | (attr) "Kind p = PredAttr"
    | (fin) "Kind p = PredEnd" | (bad) "Kind p \<notin> {PredCmp, PredIPSet, PredAttr, PredEnd}"
    by auto
  then show ?case
  proof cases
    case cmp
    then show ?thesis by (simp add: Pred_clause_def [of verdict ev p] IH)
  next
    case ipset
    then show ?thesis by (simp add: Pred_clause_def [of verdict ev p] IH ipset_b)
  next
    case attr
    then show ?thesis
      using IH by (cases verdict) (simp_all add: Pred_clause_def [of _ ev p])
  next
    case fin
    then show ?thesis by (simp add: Pred_clause_def [of verdict ev p] IH split: tri.split)
  next
    case bad
    then show ?thesis by (simp add: Pred_clause_def [of verdict ev p])
  qed
qed

interpretation gv: filter_machine
  "\<lambda>(flat, ev). list_all Pred_ok flat \<and> Event_ok ev"
  "\<lambda>(flat, ev) v. RunPreds flat ev v"
  "\<lambda>(flat, ev) v. map (Pred_clause v ev) flat"
proof
  fix e :: "Pred list \<times> Event" and v
  assume "case e of (flat, ev) \<Rightarrow> list_all Pred_ok flat \<and> Event_ok ev"
  then show "(case e of (flat, ev) \<Rightarrow> RunPreds flat ev) v =
      Some (walk ((case e of (flat, ev) \<Rightarrow> \<lambda>v. map (Pred_clause v ev) flat) v) KO_TRI_TRUE)"
    by (auto simp: RunPreds_def RunPreds_loop_walk)
next
  fix e :: "Pred list \<times> Event" and m
  show "list_all2 clause_le ((case e of (flat, ev) \<Rightarrow> \<lambda>v. map (Pred_clause v ev) flat) None)
      ((case e of (flat, ev) \<Rightarrow> \<lambda>v. map (Pred_clause v ev) flat) (Some m))"
    by (cases e) (auto simp: list_all2_conv_all_nth Pred_clause_def)
qed

end
