(* ===== verification/Filter_Equiv.thy ===== *)
theory Filter_Equiv
  imports Ko_Filter Filter_Vm
begin

text \<open>
  The kernel walker and its userspace mirror compared. \<open>BPFProg\<close> is the Go function that
  lays the stream out for the map \<^verbatim>\<open>ko_filter_prog\<close>, \<open>ko_prog_of\<close> the kernel's view of the
  stored bytes. The two walkers agree on every stream of at most \<open>KO_MAX_PREDS\<close> predicates
  whose prefix lengths are whole bytes.
\<close>

definition BPFProg :: "string list \<Rightarrow> Pred list \<Rightarrow> Prog" where
  "BPFProg names flat =
     \<lparr>NFilters = of_nat (length names), NPreds = of_nat (length flat),
      Preds = take MaxPreds flat @ replicate (MaxPreds - length flat) zeroPred\<rparr>"

definition ko_pred_of :: "Pred \<Rightarrow> ko_pred" where
  "ko_pred_of p = \<lparr>p_val = Val p, p_kind = Kind p, p_a = fldA p, p_b = fldB p, p_n = fldN p,
     p_plen = Plen p, p_fam = Fam p, p_addr = Addr p\<rparr>"

definition ko_prog_of :: "Prog \<Rightarrow> ko_prog" where
  "ko_prog_of pr = \<lparr>nfilters = NFilters pr, npreds = NPreds pr, preds = map ko_pred_of (Preds pr)\<rparr>"

text \<open>\<^verbatim>\<open>decodeIP\<close> of \<^verbatim>\<open>pkg/tracer/cel.go\<close>.\<close>

definition decodeIP :: "u16 \<Rightarrow> bytes \<Rightarrow> bytes" where
  "decodeIP family raw = (if family = AF_INET then take 4 raw else raw)"

text \<open>The userspace event that describes the same connection as the kernel's arguments. The
  event type is a shift count below the width of the shifted word.\<close>

definition same_event :: "ko_args \<Rightarrow> Event \<Rightarrow> bool" where
  "same_event g ev \<longleftrightarrow>
     (g_family g = AF_INET \<or> g_family g = AF_INET6) \<and> addrs_ok (g_addrs g) \<and> g_type g < 64 \<and>
     ev_Type ev = g_type g \<and> ev_RTTUS ev = g_rtt_us g \<and> ev_LifeUS ev = g_life_us g \<and>
     ev_Retransmits ev = g_retransmits g \<and> ev_SegsOut ev = g_segs_out g \<and> ev_Errno ev = g_sk_err g \<and>
     ev_LocalIP ev = decodeIP (g_family g) (sa_local (g_addrs g)) \<and>
     ev_RemoteIP ev = decodeIP (g_family g) (sa_remote (g_addrs g))"

text \<open>What the compiler keeps true of the predicates it emits: an attribute predicate names
  one of at most 64 atoms, so that its shift count is below the width of the mask.\<close>

definition wf_pred :: "Pred \<Rightarrow> bool" where
  "wf_pred p \<longleftrightarrow> Pred_ok p \<and>
     (Kind p = PredIPSet \<longrightarrow> fldA p \<in> {0, 1} \<and> (\<forall>i < unat (fldN p). Fam p ! i \<in> {4, 6})) \<and>
     (Kind p = PredAttr \<longrightarrow> fldA p < 64) \<and>
     (Kind p = PredEnd \<longrightarrow> fldB p \<in> {0, 1})"

text \<open>The predicates between two end markers.\<close>

definition body_pred :: "Pred \<Rightarrow> bool" where
  "body_pred p \<longleftrightarrow> Kind p \<in> {PredCmp, PredIPSet, PredAttr}"

definition byte_prefixes :: "Pred \<Rightarrow> bool" where
  "byte_prefixes p \<longleftrightarrow> (\<forall>i < unat (fldN p). 8 dvd unat (Plen p ! i))"

lemma decodeIP_unmap4:
  assumes "length raw = 16" and "family = AF_INET \<or> family = AF_INET6"
  shows "To4 (decodeIP family raw) = unmap4 family raw"
    and "unmap4 family raw = None \<Longrightarrow> decodeIP family raw = raw"
    and "length (decodeIP family raw) \<in> {4, 16}"
proof -
  obtain a b c d e f g h i j k l m n r q where
    "raw = [a, b, c, d, e, f, g, h, i, j, k, l, m, n, r, q]"
    using assms(1) by (rule length_16_cases)
  moreover have "AF_INET \<noteq> AF_INET6" by (simp add: AF_INET_def AF_INET6_def)
  ultimately show "To4 (decodeIP family raw) = unmap4 family raw"
    using assms(2) by (auto simp: decodeIP_def To4_def unmap4_def numeral_eq_Suc)
  show "unmap4 family raw = None \<Longrightarrow> decodeIP family raw = raw"
    by (auto simp: unmap4_def decodeIP_def split: if_splits)
  show "length (decodeIP family raw) \<in> {4, 16}"
    using assms(1) by (simp add: decodeIP_def)
qed

lemma same_event_ok: "same_event g ev \<Longrightarrow> Event_ok ev"
  using decodeIP_unmap4(3) by (auto simp: same_event_def Event_ok_def addrs_ok_def)

lemma ko_pred_of_ok: "Pred_ok p \<Longrightarrow> pred_ok (ko_pred_of p)"
  by (simp add: Pred_ok_def pred_ok_def ko_pred_of_def)

text \<open>One prefix set: the kernel and the userspace matcher agree on whole-byte prefixes.\<close>

lemma ipset_agree:
  assumes "same_event g ev" and "wf_pred p" and "Kind p = PredIPSet" and "byte_prefixes p"
  shows "evIPInSet ev p = Some (ko_ip_in_set (fldA p) (g_family g) (g_addrs g) (ko_pred_of p))"
proof -
  let ?fam = "g_family g"
  let ?raw = "if fldA p = 0 then sa_local (g_addrs g) else sa_remote (g_addrs g)"
  have ok: "Pred_ok p" and a01: "fldA p \<in> {0, 1}" and fam: "?fam = AF_INET \<or> ?fam = AF_INET6"
    and len: "length ?raw = 16"
    using assms by (auto simp: wf_pred_def same_event_def addrs_ok_def)
  have ip: "(if fldA p = 1 then ev_RemoteIP ev else ev_LocalIP ev) = decodeIP ?fam ?raw"
    using assms(1) a01 by (auto simp: same_event_def)
  note dec = decodeIP_unmap4 [OF len fam]
  have "ip_set_spec (decodeIP ?fam ?raw) p i \<longleftrightarrow>
      entry_spec prefix_bits_le ?fam ?raw (Fam p ! i) (Plen p ! i) (Addr p ! i)"
    if "i < unat (fldN p)" for i
  proof -
    have "8 dvd unat (Plen p ! i)" and "Fam p ! i \<in> {4, 6}"
      using that assms by (simp_all add: byte_prefixes_def wf_pred_def)
    then show ?thesis
      unfolding ip_set_spec_def entry_spec_def dec(1) using dec(2)
      by (auto simp: prefix_bits_aligned split: option.split)
  qed
  moreover have "min KO_MAX_IPSET (unat (fldN p)) = unat (fldN p)"
    using ok by (simp add: Pred_ok_def)
  moreover have "decodeIP ?fam ?raw \<noteq> []" using dec(3) by auto
  ultimately have "evIPInSet ev p = Some (set_spec prefix_bits_le ?fam ?raw (ko_pred_of p))"
    unfolding evIPInSet_spec [OF ok same_event_ok [OF assms(1)]] ip set_spec_def
    by (auto simp: ko_pred_of_def)
  also have "set_spec prefix_bits_le ?fam ?raw (ko_pred_of p) =
      ko_ip_in_set (fldA p) ?fam (g_addrs g) (ko_pred_of p)"
    using ko_ip_in_set_spec [OF ko_pred_of_ok [OF ok]] assms(1) fam by (simp add: same_event_def)
  finally show ?thesis .
qed

lemma cmp_agree:
  "same_event g ev \<Longrightarrow> cmpField b (eventField f ev) v = ko_cmp b (ko_field g f) v"
  unfolding ko_cmp_def cmpField_def by (simp add: same_event_def eventField_def ko_field_def)

lemma clause_agree:
  assumes "same_event g ev" and "wf_pred p" and "Kind p = PredIPSet \<longrightarrow> byte_prefixes p"
  shows "Pred_clause v ev p = ko_clause v g (ko_pred_of p)"
proof -
  have f: "p_kind (ko_pred_of p) = Kind p" "p_a (ko_pred_of p) = fldA p" "p_b (ko_pred_of p) = fldB p"
    "p_val (ko_pred_of p) = Val p" by (simp_all add: ko_pred_of_def)
  have e: "Kind p = PredEnd \<Longrightarrow> (fldB p = 1) = (fldB p \<noteq> 0)"
    using assms(2) by (auto simp: wf_pred_def)
  have i: "Kind p = PredIPSet \<Longrightarrow>
      evIPInSet ev p = Some (ko_ip_in_set (fldA p) (g_family g) (g_addrs g) (ko_pred_of p))"
    using ipset_agree [OF assms(1,2)] assms(3) by blast
  show ?thesis
    unfolding Pred_clause_def ko_clause_def f cmp_agree [OF assms(1)] using e i by auto
qed

lemma BPFProg_clauses:
  assumes "same_event g ev" and "list_all wf_pred flat"
    and "list_all (\<lambda>p. Kind p = PredIPSet \<longrightarrow> byte_prefixes p) flat"
    and "length flat \<le> MaxPreds" and "names \<noteq> []" and "length names \<le> MaxFilters"
  shows "ko_clauses (ko_prog_of (BPFProg names flat), g) v = map (Pred_clause v ev) flat"
proof -
  have "unat (of_nat (length flat) :: u32) = length flat" "unat (of_nat (length names) :: u32) = length names"
    using assms by (simp_all add: unat_of_nat)
  then have n: "unat (npreds (ko_prog_of (BPFProg names flat))) = length flat"
      "nfilters (ko_prog_of (BPFProg names flat)) \<noteq> 0"
    using assms(5) by (auto simp: ko_prog_of_def BPFProg_def unat_eq_0 [symmetric])
  have "min KO_MAX_PREDS (length flat) = length flat" using assms(4) by simp
  moreover have "preds (ko_prog_of (BPFProg names flat)) ! k = ko_pred_of (flat ! k)"
    if "k < length flat" for k
    using that assms(4) by (simp add: ko_prog_of_def BPFProg_def nth_append)
  moreover have "Pred_clause v ev (flat ! k) = ko_clause v g (ko_pred_of (flat ! k))"
    if "k < length flat" for k
    using clause_agree [OF assms(1)] assms(2,3) that by (auto simp: list_all_length)
  ultimately show ?thesis
    by (intro nth_equalityI) (simp_all add: ko_clauses_def n)
qed

end
