(* ===== verification/Ko_Example.thy ===== *)
theory Ko_Example
  imports Ko_Exec Filter_Equiv
begin

text \<open>
  A concrete connection on which the properties are exercised: an IPv4 socket of a process
  with pid 4242 that connects to 172.17.0.2:443, its tracepoints, and small filter streams.
\<close>

definition ex_sock :: sock where
  "ex_sock = \<lparr>skc_family = AF_INET, skc_state = 2, skc_dport = 0xbb01, skc_rcv_saddr = 0x0500000a,
     skc_daddr = 0x020011ac, skc_v6_rcv_saddr = replicate 16 0, skc_v6_daddr = replicate 16 0,
     sk_protocol = IPPROTO_TCP, sk_cgroup = 0, sk_err = 0, inet_sport = 0x3412, srtt_us = 800,
     total_retrans = 1, segs_out = 9, snd_cwnd = 10, snd_ssthresh = 7, snd_wnd = 64, rcv_wnd = 64\<rparr>"

text \<open>The environment of an invocation at time \<open>t\<close>, in the process \<open>pid\<close>.\<close>

definition ex_env :: "u64 \<Rightarrow> u64 \<Rightarrow> kenv" where
  "ex_env t pid = \<lparr>socks = (\<lambda>_. ex_sock), cgroup_kn_id = (\<lambda>_. 0), ktime = (\<lambda>_. t),
     current_pid_tgid = push_bit 32 pid, current_cgroup_id = 77, current_comm = replicate 16 97,
     cpu = 0, ringbuf_room = True, lru_of = \<lparr>lru_victims = [], lru_fails = False\<rparr>\<rparr>"

definition ex_connect :: action where
  "ex_connect = Trace (ex_env 1000000 4242) (Inet_sock_set_state 1 7 2)"

definition ex_established :: action where
  "ex_established = Trace (ex_env 2000000 0) (Inet_sock_set_state 1 2 1)"

definition ex_close :: tracepoint where
  "ex_close = Inet_sock_set_state 1 1 4"

definition ex_tracked :: kstate where
  "ex_tracked = act ex_established (act ex_connect init_state)"

lemma ex_env_sel [simp]:
  "socks (ex_env t pid) sk = ex_sock" "ktime (ex_env t pid) n = t" "cpu (ex_env t pid) = 0"
  "ringbuf_room (ex_env t pid)" "lru_of (ex_env t pid) = \<lparr>lru_victims = [], lru_fails = False\<rparr>"
  "current_pid_tgid (ex_env t pid) = push_bit 32 pid" "current_comm (ex_env t pid) = replicate 16 97"
  "current_cgroup_id (ex_env t pid) = 77"
  by (simp_all add: ex_env_def)

lemma ex_sock_protocol [simp]: "sk_protocol ex_sock = IPPROTO_TCP"
  by (simp add: ex_sock_def)

lemma ex_env_ok [simp]: "env_ok (ex_env t pid)"
  by (simp add: env_ok_def sock_ok_def ex_sock_def)

lemma ex_endpoints [simp]:
  "sock_read_endpoints ex_sock = Some (AF_INET, bpf_ntohs False 0x3412, bpf_ntohs False 0xbb01,
     \<lparr>sa_local = [10, 0, 0, 5] @ replicate 12 0, sa_remote = [172, 17, 0, 2] @ replicate 12 0\<rparr>)"
  by code_simp

lemma ex_tracked_eq:
  "ex_tracked = init_state\<lparr>ko_sock_ctx := [1 \<mapsto> connect_ctx (ex_env 1000000 4242)]\<rparr>"
  by (simp add: ex_tracked_def ex_connect_def ex_established_def ko_sock_state_def Let_def map_defs
      TCP_SYN_SENT_def TCP_ESTABLISHED_def init_state_def)

end
