(* ===== verification/Tracer_Props.thy ===== *)
theory Tracer_Props
  imports Ko_Example
begin

text \<open>
  The properties of the eBPF handlers along executions, each with a witness on the concrete
  connection of theory \<open>Ko_Example\<close>.
\<close>

lemma ex_tracked_exec: "exec [ex_established, ex_connect] ex_tracked"
  unfolding ex_tracked_def
  by (intro exec.intros) (simp_all add: ex_connect_def ex_established_def)

lemma ex_tracked_sel [simp]:
  "ko_sock_ctx ex_tracked 1 = Some (connect_ctx (ex_env 1000000 4242))"
  "ko_events ex_tracked = []" "ko_filter_cfg ex_tracked = [0]" "ko_filter_prog ex_tracked = [zero_prog]"
  by (simp_all add: ex_tracked_eq init_state_def)

lemma ex_close_terminal [simp]: "terminal_at 1 ex_tracked (Trace (ex_env 5000000 0) ex_close)"
  by (simp add: ex_close_def TCP_ESTABLISHED_def TCP_SYN_SENT_def)

lemma ex_close_emits: "ko_events (run_tp (ex_env 5000000 0) ex_close ex_tracked) \<noteq> ko_events ex_tracked"
  by (simp add: ex_close_def ko_sock_state_def Let_def hash_lookup_def TCP_ESTABLISHED_def TCP_SYN_SENT_def
      submit_conn_evt_def ko_filter_eval_def array_lookup_def)

text \<open>C23: along every execution the maps keep their types: every tracked context has a 16-byte
  command name, the array maps keep their single element and the stored program its 32
  well-formed predicates, and every event in the ring buffer has 16-byte addresses and
  command name, an IPv4 or IPv6 family, one of the four event types and a filter index that
  is not the drop code.\<close>

theorem exec_keeps_types: "exec h s \<Longrightarrow> state_ok s"
  by (rule exec_state_ok)

theorem exec_keeps_types_witness: "state_ok ex_tracked"
  by (rule exec_keeps_types [OF ex_tracked_exec])

text \<open>C9: attribution. Every event that a tracepoint puts into the ring buffer belongs to a
  socket on which an earlier \<^verbatim>\<open>* -> TCP_SYN_SENT\<close> transition was seen, and carries the pid and the
  command name of the task that was current at that transition (not of the task current at
  the event), the lifetime since that transition, and the type of its tracepoint.\<close>

theorem events_attributed_to_connect:
  assumes "exec h s" and "ko_events (run_tp env t s) \<noteq> ko_events s"
  shows "\<exists>e cenv o1 n1. ko_events (run_tp env t s) = ko_events s @ [e] \<and>
    Trace cenv (Inet_sock_set_state (tp_sock t) o1 n1) \<in> set h \<and>
    connects (tp_sock t) (Trace cenv (Inet_sock_set_state (tp_sock t) o1 n1)) \<and>
    e_pid e = ucast (drop_bit 32 (current_pid_tgid cenv)) \<and> e_comm e = current_comm cenv \<and>
    e_life_us e = (e_ts e - ktime cenv 0) div 1000 \<and> e_type e \<in> tp_types t"
proof -
  obtain c n ty fam sp dp a where c: "ko_sock_ctx s (tp_sock t) = Some c" and ty: "ty \<in> tp_types t"
    and ev: "ko_events (run_tp env t s) = ko_events s @
       [make_event env (ktime env n) (tp_sock t) c ty fam sp dp a
          (filter_verdict env (ktime env n) (tp_sock t) c ty fam a s)]"
    using run_tp_emits [OF assms(2)] by metis
  obtain cenv o1 n1 where h: "Trace cenv (Inet_sock_set_state (tp_sock t) o1 n1) \<in> set h"
    and conn: "connects (tp_sock t) (Trace cenv (Inet_sock_set_state (tp_sock t) o1 n1))"
    and cc: "c\<lparr>c_last_probe_ns := 0\<rparr> = connect_ctx cenv"
    using exec_ctx_from [OF assms(1) c] unfolding ctx_from_def by blast
  from cc have "c_pid c = ucast (drop_bit 32 (current_pid_tgid cenv))"
    "c_comm c = current_comm cenv" "c_start_ts c = ktime cenv 0"
    by (cases c; simp add: connect_ctx_def)+
  then have "e_pid e = ucast (drop_bit 32 (current_pid_tgid cenv)) \<and> e_comm e = current_comm cenv \<and>
      e_life_us e = (e_ts e - ktime cenv 0) div 1000 \<and> e_type e = ty"
    if "e = make_event env (ktime env n) (tp_sock t) c ty fam sp dp a idx" for e idx
    using that by (simp add: make_event_def fill_addrs_def attr_resolve_def Let_def)
  from this [OF refl] ev ty h conn show ?thesis
    by (intro exI [of _ "make_event env (ktime env n) (tp_sock t) c ty fam sp dp a
          (filter_verdict env (ktime env n) (tp_sock t) c ty fam a s)"]
        exI [of _ cenv] exI [of _ o1] exI [of _ n1]) (simp only: simp_thms)
qed

theorem events_attributed_to_connect_witness:
  "\<exists>e cenv o1 n1. ko_events (run_tp (ex_env 5000000 0) ex_close ex_tracked) = ko_events ex_tracked @ [e] \<and>
    Trace cenv (Inet_sock_set_state 1 o1 n1) \<in> set [ex_established, ex_connect] \<and>
    connects 1 (Trace cenv (Inet_sock_set_state 1 o1 n1)) \<and>
    e_pid e = ucast (drop_bit 32 (current_pid_tgid cenv)) \<and> e_comm e = current_comm cenv \<and>
    e_life_us e = (e_ts e - ktime cenv 0) div 1000 \<and> e_type e \<in> tp_types ex_close"
  using events_attributed_to_connect [OF ex_tracked_exec ex_close_emits]
  by (simp only: ex_close_def tp_sock.simps)

text \<open>C22: only sockets seen connecting are reported. While a socket is untracked and no
  connect of it occurs, its tracepoints have no effect at all: the run equals the run from
  which every tracepoint of that socket is removed. Accepted and pre-existing sockets are
  such sockets.\<close>

theorem untracked_sockets_silent:
  assumes "ko_sock_ctx s a = None" and "list_all (\<lambda>x. \<not> connects a x) xs"
  shows "run xs s = run (filter (\<lambda>x. \<not> on_sock a x) xs) s"
  using assms by (rule untracked_run)

theorem untracked_sockets_silent_witness:
  "run [Trace (ex_env 1 2) (Inet_sock_set_state 9 1 4), Trace (ex_env 3 4) (Tcp_probe 9)] ex_tracked =
    run [] ex_tracked"
proof -
  have "ko_sock_ctx ex_tracked 9 = None" by (simp add: ex_tracked_eq)
  moreover have "list_all (\<lambda>x. \<not> connects 9 x)
      [Trace (ex_env 1 2) (Inet_sock_set_state 9 1 4), Trace (ex_env 3 4) (Tcp_probe 9)]"
    by (simp add: TCP_SYN_SENT_def)
  ultimately have "run [Trace (ex_env 1 2) (Inet_sock_set_state 9 1 4), Trace (ex_env 3 4) (Tcp_probe 9)] ex_tracked =
      run (filter (\<lambda>x. \<not> on_sock 9 x)
        [Trace (ex_env 1 2) (Inet_sock_set_state 9 1 4), Trace (ex_env 3 4) (Tcp_probe 9)]) ex_tracked"
    by (rule untracked_sockets_silent)
  also have "filter (\<lambda>x. \<not> on_sock 9 x)
        [Trace (ex_env 1 2) (Inet_sock_set_state 9 1 4), Trace (ex_env 3 4) (Tcp_probe 9)] = []" by simp
  finally show ?thesis .
qed


text \<open>C10: every end of a tracked connection is accounted for. Leaving TCP_ESTABLISHED, or
  leaving TCP_SYN_SENT for anything but TCP_ESTABLISHED, untracks the socket and does exactly
  one of three things: it appends one event, of type conn_closed in the first case and
  conn_failed in the second; it adds one to this CPU's filter-drop counter; or it adds one to
  this CPU's ring-buffer-drop counter. Nothing else changes.\<close>

theorem every_end_accounted:
  assumes "terminal_at sk s (Trace env (Inet_sock_set_state sk o1 n1))"
  defines "s' \<equiv> run_tp env (Inet_sock_set_state sk o1 n1) s"
    and "s0 \<equiv> s\<lparr>ko_sock_ctx := (ko_sock_ctx s)(sk := None)\<rparr>"
  shows "(\<exists>e. s' = s0\<lparr>ko_events := ko_events s @ [e]\<rparr> \<and> ringbuf_room env \<and>
      e_type e = (if (ucast o1 :: u32) = TCP_ESTABLISHED then CONN_EVT_CLOSED else CONN_EVT_CONNECT_FAILED)) \<or>
    s' = s0\<lparr>ko_filter_drops := percpu_incr (cpu env) (ko_filter_drops s)\<rparr> \<or>
    s' = s0\<lparr>ko_ringbuf_drops := percpu_incr (cpu env) (ko_ringbuf_drops s)\<rparr> \<and> \<not> ringbuf_room env"
proof (cases rule: ko_sock_state_cases [where env = env and sk = sk and ?o1.0 = o1 and ?n1.0 = n1 and s = s])
  case connect
  with assms(1) show ?thesis by auto
next
  case idle
  with assms(1) show ?thesis by simp
next
  case (terminal c fam sp dp a)
  have s0: "s\<lparr>ko_sock_ctx := hash_delete sk (ko_sock_ctx s)\<rparr> = s0" by (simp add: s0_def hash_delete_def)
  let ?ty = "if (ucast o1 :: u32) = TCP_ESTABLISHED then CONN_EVT_CLOSED else CONN_EVT_CONNECT_FAILED"
  have s': "s' = submit_conn_evt env (ktime env 0) sk c ?ty fam sp dp a s0"
    using terminal(4) by (simp only: s'_def run_tp.simps s0)
  have ty: "e_type (make_event env t0 sk c ty fam sp dp a idx) = ty" for t0 ty idx
    by (simp add: make_event_def fill_addrs_def Let_def)
  have sel: "ko_events s0 = ko_events s" "ko_filter_drops s0 = ko_filter_drops s"
    "ko_ringbuf_drops s0 = ko_ringbuf_drops s" by (simp_all add: s0_def)
  show ?thesis
    by (cases rule: submit_cases [where env = env and now = "ktime env 0" and sk = sk and c = c and ty = ?ty
          and fam = fam and sp = sp and dp = dp and a = a and s = s0])
      (use ty in \<open>auto simp only: s' sel\<close>)
qed

theorem every_end_accounted_witness:
  "terminal_at 1 ex_tracked (Trace (ex_env 5000000 0) (Inet_sock_set_state 1 1 4)) \<and>
   (\<exists>e. run_tp (ex_env 5000000 0) (Inet_sock_set_state 1 1 4) ex_tracked =
      ex_tracked\<lparr>ko_sock_ctx := (ko_sock_ctx ex_tracked)(1 := None)\<rparr>\<lparr>ko_events := ko_events ex_tracked @ [e]\<rparr> \<and>
      e_type e = CONN_EVT_CLOSED)"
proof -
  have t: "terminal_at 1 ex_tracked (Trace (ex_env 5000000 0) (Inet_sock_set_state 1 1 4))"
    using ex_close_terminal by (simp add: ex_close_def)
  have "ko_events (run_tp (ex_env 5000000 0) (Inet_sock_set_state 1 1 4) ex_tracked) \<noteq> ko_events ex_tracked"
    using ex_close_emits by (simp add: ex_close_def)
  with every_end_accounted [OF t] t show ?thesis by (auto simp: TCP_ESTABLISHED_def)
qed



subsection \<open>The filter gate\<close>

lemma e_filter_idx_make_event [simp]: "e_filter_idx (make_event env t0 sk c ty fam sp dp a idx) = idx"
  by (simp add: make_event_def Let_def)

lemma ko_clauses_EndOf:
  "EndOf False i \<in> set (ko_clauses (p, g) v) \<Longrightarrow>
     \<exists>k < min KO_MAX_PREDS (unat (npreds p)). p_kind (preds p ! k) = KO_PRED_END \<and> p_b (preds p ! k) = 0 \<and> p_a (preds p ! k) = i"
  by (auto simp: ko_clauses_def ko_clause_def split: if_splits option.splits)

lemma filter_eval_cases:
  "ko_filter_eval cfg prog vs g \<in> {KO_FILTER_DROP, KO_FILTER_UNDECIDED} \<or>
   (ko_filter_eval cfg prog vs g = KO_FILTER_UNFILTERED \<and> (cfg = None \<or> cfg = Some 0 \<or> prog = None)) \<or>
   (\<exists>p. prog = Some p \<and> nfilters p \<noteq> 0 \<and> (\<exists>k < min KO_MAX_PREDS (unat (npreds p)).
      p_kind (preds p ! k) = KO_PRED_END \<and> p_b (preds p ! k) = 0 \<and>
      ko_filter_eval cfg prog vs g = ucast (p_a (preds p ! k))))"
proof (cases "cfg = None \<or> cfg = Some 0 \<or> prog = None")
  case True
  then show ?thesis by (auto simp: ko_filter_eval_def split: option.split)
next
  case False
  then obtain c p where cp: "cfg = Some c" "c \<noteq> 0" "prog = Some p" by auto
  show ?thesis
  proof (cases "nfilters p = 0")
    case True
    with cp show ?thesis by (simp add: ko_filter_eval_def)
  next
    case nf: False
    have e: "ko_filter_eval cfg prog vs g = ko_answer (p, g) (vs (g_cgroup_id g))"
      using cp by (simp add: ko_filter_eval_answer)
    from kf.answer_cases [OF _ refl, of "(p, g)" "vs (g_cgroup_id g)"] nf cp(3) show ?thesis
      unfolding e by (auto dest!: ko_clauses_EndOf)
  qed
qed

text \<open>C21: the filter gates every event. An event in the ring buffer carries the answer of the filter
  program that was loaded when it was produced: a filter index, taken from the end marker of
  one of the loaded pushed-down filters, or the undecided code, or the unfiltered code, the
  latter only while filtering is not enabled.\<close>

theorem events_pass_filter:
  assumes "exec h s" and "ko_events (run_tp env t s) \<noteq> ko_events s"
  defines "p \<equiv> ko_filter_prog s ! 0"
  shows "\<exists>e. ko_events (run_tp env t s) = ko_events s @ [e] \<and>
    (e_filter_idx e = KO_FILTER_UNDECIDED \<or>
     (e_filter_idx e = KO_FILTER_UNFILTERED \<and> ko_filter_cfg s ! 0 = 0) \<or>
     (nfilters p \<noteq> 0 \<and> (\<exists>k < min KO_MAX_PREDS (unat (npreds p)).
        p_kind (preds p ! k) = KO_PRED_END \<and> p_b (preds p ! k) = 0 \<and> e_filter_idx e = ucast (p_a (preds p ! k)))))"
proof -
  have "length (ko_filter_cfg s) = 1" "length (ko_filter_prog s) = 1"
    using exec_state_ok [OF assms(1)] by (simp_all add: state_ok_def)
  then have look: "array_lookup (ko_filter_cfg s) 0 = Some (ko_filter_cfg s ! 0)"
    "array_lookup (ko_filter_prog s) 0 = Some p"
    by (simp_all add: array_lookup_def p_def)
  obtain c n ty fam sp dp a where
    nd: "filter_verdict env (ktime env n) (tp_sock t) c ty fam a s \<noteq> KO_FILTER_DROP" and
    ev: "ko_events (run_tp env t s) = ko_events s @
       [make_event env (ktime env n) (tp_sock t) c ty fam sp dp a
          (filter_verdict env (ktime env n) (tp_sock t) c ty fam a s)]"
    using run_tp_emits [OF assms(2)] by metis
  from filter_eval_cases [of "Some (ko_filter_cfg s ! 0)" "Some p" "ko_cgroup_verdict s"
      "filter_args env (ktime env n) (tp_sock t) c ty fam a"] nd
  show ?thesis unfolding ev look by auto
qed

theorem events_pass_filter_witness:
  "\<exists>e. ko_events (run_tp (ex_env 5000000 0) ex_close ex_tracked) = [e] \<and> e_filter_idx e \<noteq> KO_FILTER_DROP"
  using events_pass_filter [OF ex_tracked_exec ex_close_emits] by auto

text \<open>Actions that leave the filter program and its switch alone.\<close>

fun keeps_filter :: "action \<Rightarrow> bool" where
  "keeps_filter (User (Store_prog p)) = False"
| "keeps_filter (User (Store_cfg c)) = False"
| "keeps_filter _ = True"

lemma run_tp_keeps_filter:
  "ko_filter_prog (run_tp env t s) = ko_filter_prog s \<and> ko_filter_cfg (run_tp env t s) = ko_filter_cfg s"
  by (cases t) (auto simp: ko_sock_state_def ko_retransmit_def ko_probe_def ko_destroy_sock_def Let_def
      split: option.split)

lemma keeps_filter_act:
  "keeps_filter x \<Longrightarrow> ko_filter_prog (act x s) = ko_filter_prog s \<and> ko_filter_cfg (act x s) = ko_filter_cfg s"
  by (cases x rule: keeps_filter.cases) (auto simp: run_tp_keeps_filter)

text \<open>Without filters nothing is reported. Once filtering is enabled and the loaded program has no
  filter, no sequence of tracepoints, verdict updates and ring-buffer reads produces an
  event: the ring buffer only drains.\<close>

theorem no_filters_no_events:
  assumes "ko_filter_cfg s = [c]" and "c \<noteq> 0" and "ko_filter_prog s = [p]" and "nfilters p = 0"
    and "list_all keeps_filter xs"
  shows "\<exists>n. ko_events (run xs s) = drop n (ko_events s)"
  using assms
proof (induction xs arbitrary: s)
  case Nil
  then show ?case by (auto intro: exI [of _ 0])
next
  case (Cons x xs)
  have drop: "filter_verdict env now sk ctx ty fam a s = KO_FILTER_DROP" for env now sk ctx ty fam a
    using Cons.prems by (simp add: array_lookup_def ko_filter_eval_def)
  have x: "\<exists>m. ko_events (act x s) = drop m (ko_events s)"
  proof (cases x)
    case (Trace env t)
    have "ko_events (run_tp env t s) = ko_events s"
      using run_tp_emits [of env t s] drop by metis
    with Trace show ?thesis by (auto intro: exI [of _ 0])
  next
    case (User u)
    then show ?thesis
      by (cases u) (auto intro: exI [of _ 0] exI [of _ 1] simp: drop_Suc)
  qed
  have "\<exists>n. ko_events (run xs (act x s)) = drop n (ko_events (act x s))"
    using Cons.prems keeps_filter_act [of x s] by (intro Cons.IH) auto
  with x show ?case by auto
qed

theorem no_filters_no_events_witness:
  "ko_events (run [User (Delete_verdict 5), Trace (ex_env 5000000 0) ex_close] (ex_tracked\<lparr>ko_filter_cfg := [1]\<rparr>)) = []"
  using no_filters_no_events [of "ex_tracked\<lparr>ko_filter_cfg := [1]\<rparr>" 1 zero_prog
      "[User (Delete_verdict 5), Trace (ex_env 5000000 0) ex_close]"]
  by (simp add: zero_prog_def del: run.simps)

end
