(* ===== verification/Filter_Props.thy ===== *)
theory Filter_Props
  imports Ko_Example
begin

text \<open>
  The properties of the filter: that the kernel walker and its userspace mirror give the same
  answer, what set of addresses a prefix comparison accepts, that filters are decided first
  match first, that a decision made without a cgroup verdict is final, and what reaches the
  ring buffer.
\<close>

subsection \<open>A concrete event and streams\<close>

definition ex_args :: ko_args where
  "ex_args = \<lparr>g_cgroup_id = 77, g_rtt_us = 100, g_life_us = 4000, g_retransmits = 1, g_segs_out = 9,
     g_sk_err = 0, g_type = 2, g_family = AF_INET,
     g_addrs = \<lparr>sa_local = [10, 0, 0, 5] @ replicate 12 0, sa_remote = [172, 17, 0, 2] @ replicate 12 0\<rparr>\<rparr>"

definition ex_event :: Event where
  "ex_event = \<lparr>ev_Type = 2, ev_Namespace = ''default'', ev_Container = ''web'', ev_Pod = ''web-0'',
     ev_RTTUS = 100, ev_LifeUS = 4000, ev_Retransmits = 1, ev_SegsOut = 9, ev_Errno = 0,
     ev_LocalIP = [10, 0, 0, 5], ev_LocalPort = 4660, ev_RemoteIP = [172, 17, 0, 2], ev_RemotePort = 443\<rparr>"

text \<open>\<open>ip_in(ko_remote_addr, ["a.b.c.d/n"])\<close>, as the compiler lays it out.\<close>

definition ex_cidr :: "bytes \<Rightarrow> u16 \<Rightarrow> Pred" where
  "ex_cidr ad n = zeroPred\<lparr>Kind := PredIPSet, fldA := 1, fldN := 1, Plen := [n, 0, 0, 0],
     Fam := [4, 0, 0, 0], Addr := [ad @ replicate 12 0, replicate 16 0, replicate 16 0, replicate 16 0]\<rparr>"

definition ex_slow :: Pred where
  "ex_slow = zeroPred\<lparr>Kind := PredCmp, fldA := FldRTT, fldB := CmpGt, Val := 5000\<rparr>"

text \<open>Two filters: slow connections of atom 0's namespace, and connections to 172.0.0.0/8.\<close>

definition ex_filters :: "(Pred list \<times> bool) list" where
  "ex_filters = [([zeroPred\<lparr>Kind := PredAttr\<rparr>, ex_slow], False), ([ex_cidr [172, 0, 0, 0] 8], False)]"

lemma ex_same_event: "same_event ex_args ex_event"
  by (simp add: same_event_def ex_args_def ex_event_def addrs_ok_def decodeIP_def AF_INET_def)

lemma ex_filters_wf:
  "list_all wf_pred (flat_loop 0 ex_filters)"
  "list_all (\<lambda>p. Kind p = PredIPSet \<longrightarrow> byte_prefixes p) (flat_loop 0 ex_filters)"
  "length (flat_loop 0 ex_filters) = 5"
  by code_simp+

subsection \<open>Kernel and userspace\<close>

text \<open>C3: the eBPF walker and the userspace \<^verbatim>\<open>RunPreds\<close> agree. For the program that \<^verbatim>\<open>BPFProg\<close> lays
  out from a stream of at most 32 well-formed predicates whose prefix lengths are whole bytes, on the
  same event and with the same cgroup verdict (or none), the kernel returns the filter index,
  drop or undecided code that \<^verbatim>\<open>RunPreds\<close> returns, and \<^verbatim>\<open>RunPreds\<close> does not panic.\<close>

theorem kernel_matches_userspace:
  assumes "same_event g ev" and "list_all wf_pred flat"
    and "list_all (\<lambda>p. Kind p = PredIPSet \<longrightarrow> byte_prefixes p) flat"
    and "length flat \<le> MaxPreds" and "names \<noteq> []" and "length names \<le> MaxFilters" and "cfg \<noteq> 0"
  shows "RunPreds flat ev (verdicts (g_cgroup_id g)) =
    Some (ko_filter_eval (Some cfg) (Some (ko_prog_of (BPFProg names flat))) verdicts g)"
proof -
  let ?v = "verdicts (g_cgroup_id g)"
  have "list_all Pred_ok flat" using assms(2) by (simp add: list_all_length wf_pred_def)
  with same_event_ok [OF assms(1)]
  have "RunPreds flat ev ?v = Some (walk (map (Pred_clause ?v ev) flat) KO_TRI_TRUE)"
    using gv.answer_walk [of "(flat, ev)" ?v] by simp
  also have "map (Pred_clause ?v ev) flat = ko_clauses (ko_prog_of (BPFProg names flat), g) ?v"
    using BPFProg_clauses [OF assms(1-6)] by simp
  also have "walk \<dots> KO_TRI_TRUE = ko_filter_eval (Some cfg) (Some (ko_prog_of (BPFProg names flat))) verdicts g"
    using kf.answer_walk [of "(ko_prog_of (BPFProg names flat), g)" ?v]
    by (simp add: ko_filter_eval_answer [OF assms(7)])
  finally show ?thesis .
qed

theorem kernel_matches_userspace_witness:
  "RunPreds (flat_loop 0 ex_filters) ex_event None =
     Some (ko_filter_eval (Some 1) (Some (ko_prog_of (BPFProg [''slow'', ''docker''] (flat_loop 0 ex_filters))))
       Map.empty ex_args)"
  using kernel_matches_userspace [OF ex_same_event ex_filters_wf(1,2), of "[''slow'', ''docker'']" 1 Map.empty]
  by (simp add: ex_filters_wf(3))



text \<open>A prefix whose length is not a whole number of bytes is matched wrongly by the kernel.
  172.17.0.2 is in 172.16.0.0/12, one of the built-in private prefixes: the network-order
  comparison and the userspace matcher accept it, the kernel matcher rejects it; and the
  kernel accepts 172.32.0.2, which is outside the prefix.\<close>

theorem private_prefix_divergence:
  "prefix_bits 12 [172, 16, 0, 0] [172, 17, 0, 2] \<and>
   evIPInSet ex_event (ex_cidr [172, 16, 0, 0] 12) = Some True \<and>
   \<not> ko_ip_in_set 1 AF_INET (g_addrs ex_args) (ko_pred_of (ex_cidr [172, 16, 0, 0] 12)) \<and>
   \<not> prefix_bits 12 [172, 16, 0, 0] [172, 32, 0, 2] \<and>
   ko_ip_in_set 1 AF_INET \<lparr>sa_local = replicate 16 0, sa_remote = [172, 32, 0, 2] @ replicate 12 0\<rparr>
     (ko_pred_of (ex_cidr [172, 16, 0, 0] 12))"
  by code_simp

subsection \<open>First match\<close>

text \<open>A filter of the stream as the specification sees it on an event.\<close>

definition as_flt :: "u64 option \<Rightarrow> Event \<Rightarrow> nat \<times> Pred list \<times> bool \<Rightarrow> flt" where
  "as_flt v ev = (\<lambda>(i, ps, us). \<lparr>flt_conj = map (Pred_clause v ev) ps, flt_userspace = us, flt_index = of_nat i\<rparr>)"

lemma flat_loop_flatten:
  "map (Pred_clause v ev) (flat_loop i fs) = flatten (map (as_flt v ev) (zip [i..<i + length fs] fs))"
proof (induction i fs rule: flat_loop.induct)
  case (1 i)
  then show ?case by simp
next
  case (2 i ps us fs)
  have "[i..<i + length ((ps, us) # fs)] = i # [Suc i..<Suc i + length fs]"
    using upt_conv_Cons [of i "i + length ((ps, us) # fs)"] by simp
  with 2 show ?case by (simp add: as_flt_def Pred_clause_def [of v ev "zeroPred\<lparr>Kind := _, fldA := _, fldB := _\<rparr>"])
qed

lemma body_pred_plain: "body_pred p \<Longrightarrow> plain (Pred_clause v ev p)"
  by (auto simp: body_pred_def Pred_clause_def split: option.split)

text \<open>What is certain of a filter from the event and the cgroup verdict, if there is one.\<close>

definition certain :: "u64 option \<Rightarrow> Event \<Rightarrow> Pred list \<times> bool \<Rightarrow> bool" where
  "certain v ev = (\<lambda>(ps, us). \<not> us \<and> list_all (\<lambda>p. Pred_clause v ev p = Decided True) ps)"

definition refuted :: "u64 option \<Rightarrow> Event \<Rightarrow> Pred list \<times> bool \<Rightarrow> bool" where
  "refuted v ev = (\<lambda>(ps, us). \<not> us \<and> list_ex (\<lambda>p. Pred_clause v ev p = Decided False) ps)"

lemma flt_true_certain:
  "list_all body_pred ps \<Longrightarrow> flt_true (as_flt v ev (i, ps, us)) \<longleftrightarrow> certain v ev (ps, us)"
proof -
  assume "list_all body_pred ps"
  then have "plain (Pred_clause v ev p)" if "p \<in> set ps" for p
    using that body_pred_plain by (auto simp: list_all_iff)
  then have "Decided False \<notin> Pred_clause v ev ` set ps \<and> Unknown \<notin> Pred_clause v ev ` set ps \<longleftrightarrow>
      (\<forall>p \<in> set ps. Pred_clause v ev p = Decided True)"
    by (auto simp: image_iff) (metis (full_types) plain.elims(2))+
  then show ?thesis
    by (simp add: flt_true_def as_flt_def certain_def tri_conj_true_iff list_all_iff)
qed

lemma flt_false_refuted: "flt_false (as_flt v ev (i, f)) \<longleftrightarrow> refuted v ev f"
  unfolding flt_false_def as_flt_def refuted_def tri_conj_false_iff list_ex_iff
  by (cases f, auto simp: image_iff) metis

lemma RunPreds_decide:
  assumes "list_all (\<lambda>(ps, us). list_all body_pred ps \<and> list_all Pred_ok ps) fs" and "Event_ok ev"
  shows "RunPreds (flat_loop 0 fs) ev v = Some (decide (map (as_flt v ev) (zip [0..<length fs] fs)))"
proof -
  have "Pred_ok (zeroPred\<lparr>Kind := k, fldA := x, fldB := y\<rparr>)" for k x y
    by (simp add: Pred_ok_def zeroPred_def list_all_length)
  then have "list_all Pred_ok (flat_loop i fs)" for i
    using assms(1) by (induction i fs rule: flat_loop.induct) auto
  moreover have "list_all (\<lambda>f. list_all plain (flt_conj f)) (map (as_flt v ev) (zip [0..<length fs] fs))"
    using assms(1) body_pred_plain by (fastforce simp: list_all_iff as_flt_def dest: set_zip_rightD)
  ultimately show ?thesis
    using gv.answer_decide [of "(flat_loop 0 fs, ev)" v "map (as_flt v ev) (zip [0..<length fs] fs)"] assms(2)
    by (simp add: flat_loop_flatten)
qed

text \<open>Filters are decided first match first. On the stream that \<^verbatim>\<open>Compile\<close> lays out, \<^verbatim>\<open>RunPreds\<close> answers
  index \<open>i\<close> exactly when all predicates of filter \<open>i\<close> hold for certain and every earlier
  filter is refuted by one of its predicates; it drops exactly when every filter is refuted.
  A filter that is left to userspace is neither.\<close>

theorem RunPreds_first_match:
  assumes "list_all (\<lambda>(ps, us). list_all body_pred ps \<and> list_all Pred_ok ps) fs" and "Event_ok ev"
    and "i < length fs" and "length fs \<le> MaxFilters"
  shows "(RunPreds (flat_loop 0 fs) ev v = Some (of_nat i) \<longleftrightarrow>
      certain v ev (fs ! i) \<and> (\<forall>j < i. refuted v ev (fs ! j))) \<and>
    (RunPreds (flat_loop 0 fs) ev v = Some KO_FILTER_DROP \<longleftrightarrow> list_all (refuted v ev) fs)"
proof -
  let ?fl = "map (as_flt v ev) (zip [0..<length fs] fs)"
  have nth: "?fl ! k = as_flt v ev (k, fs ! k)" if "k < length fs" for k
    using that by simp
  have "list_all body_pred (fst (fs ! i))"
    using assms(1,3) by (auto simp: list_all_length split_def)
  then have true: "flt_true (as_flt v ev (i, fs ! i)) \<longleftrightarrow> certain v ev (fs ! i)"
    using flt_true_certain [of "fst (fs ! i)" v ev i "snd (fs ! i)"] by simp
  have "(of_nat i :: u16) = ucast (of_nat i :: u8)"
    using assms(3,4) by (intro word_unat_eq_iff [THEN iffD2]) (simp add: unat_of_nat)
  moreover have "decide ?fl = ucast (of_nat i :: u8) \<longleftrightarrow> flt_true (?fl ! i) \<and> (\<forall>j < i. flt_false (?fl ! j))"
    using assms(3,4) by (intro decide_nth) (auto simp: as_flt_def split_def)
  moreover have "list_all flt_false ?fl \<longleftrightarrow> list_all (refuted v ev) fs"
    by (simp add: list_all_length nth flt_false_refuted del: nth_map)
  ultimately show ?thesis
    using assms(3) unfolding RunPreds_decide [OF assms(1,2)] option.inject decide_drop_iff
    by (simp add: nth true flt_false_refuted del: nth_map)
qed

theorem RunPreds_first_match_witness:
  "RunPreds (flat_loop 0 ex_filters) ex_event None = Some 1 \<longleftrightarrow>
     certain None ex_event ([ex_cidr [172, 0, 0, 0] 8], False) \<and>
     refuted None ex_event ([zeroPred\<lparr>Kind := PredAttr\<rparr>, ex_slow], False)"
proof -
  have "list_all (\<lambda>(ps, us). list_all body_pred ps \<and> list_all Pred_ok ps) ex_filters" "Event_ok ex_event"
    "1 < length ex_filters" "length ex_filters \<le> MaxFilters"
    by code_simp+
  from RunPreds_first_match [OF this, of None] show ?thesis by (simp add: ex_filters_def)
qed

subsection \<open>Decisions without a verdict\<close>

text \<open>A decision the kernel makes without a cgroup verdict is final. If the walk returns a filter
  index or drops while the cgroup has no entry in the verdict map, it returns the same
  whatever verdict is stored for it; only an undecided event can be decided by learning the
  verdict.\<close>

theorem decided_without_verdict_is_final:
  assumes "verdicts (g_cgroup_id g) = None"
    and "ko_filter_eval cfg prog verdicts g \<noteq> KO_FILTER_UNDECIDED"
  shows "ko_filter_eval cfg prog (verdicts(g_cgroup_id g \<mapsto> m)) g = ko_filter_eval cfg prog verdicts g"
proof (cases "cfg = None \<or> cfg = Some 0 \<or> prog = None")
  case True
  then show ?thesis by (auto simp: ko_filter_eval_def split: option.split)
next
  case False
  then obtain c p where cp: "cfg = Some c" "c \<noteq> 0" "prog = Some p" by auto
  then show ?thesis
    using kf.answer_stable [of "(p, g)" m] assms by (simp add: ko_filter_eval_answer)
qed

theorem decided_without_verdict_is_final_witness:
  "ko_filter_eval (Some 1) (Some (ko_prog_of (BPFProg [''slow'', ''docker''] (flat_loop 0 ex_filters)))) [77 \<mapsto> 1] ex_args = 1"
proof -
  let ?p = "Some (ko_prog_of (BPFProg [''slow'', ''docker''] (flat_loop 0 ex_filters)))"
  have e: "ko_filter_eval (Some 1) ?p Map.empty ex_args = 1" by code_simp
  then have "ko_filter_eval (Some 1) ?p Map.empty ex_args \<noteq> KO_FILTER_UNDECIDED"
    by (simp add: KO_FILTER_UNDECIDED_def)
  from decided_without_verdict_is_final [OF _ this, of 1] e show ?thesis by (simp add: ex_args_def)
qed

text \<open>Attribute predicates mean what they say. With the verdict mask that \<^verbatim>\<open>VerdictMask\<close> computes for
  the cgroup's attributes, the kernel decides an attribute predicate on atom \<open>j\<close> exactly by
  whether that atom holds of the attributes, negated when the predicate is.\<close>

theorem attr_pred_decides_atom:
  assumes "VerdictMask atoms attrs = Some m" and "length atoms \<le> 64" and "j < length atoms"
    and "p_kind p = KO_PRED_ATTR" and "p_a p = of_nat j"
  shows "ko_clause (Some m) g p = Decided ((atomEval (atoms ! j) attrs = Some True) = (p_b p = 0))"
proof -
  have "unat (p_a p) = j" using assms(2,3,5) by (simp add: unat_of_nat)
  moreover have "drop_bit j m AND 1 = 1 \<longleftrightarrow> bit m j"
    by (simp add: and_one_eq bit_iff_odd_drop_bit odd_iff_mod_2_eq_one)
  ultimately show ?thesis
    using bit_VerdictMask [OF assms(1,2), of j] assms(3,4) by (simp add: ko_clause_def)
qed

theorem attr_pred_decides_atom_witness:
  "ko_clause (Some 1) ex_args (ko_pred_of (zeroPred\<lparr>Kind := PredAttr\<rparr>)) =
     Decided (atomEval \<lparr>atom_Field = AttrNamespace, atom_Op = AttrEq, atom_Values = [''default'']\<rparr>
       \<lparr>attr_Namespace = ''default'', attr_Container = [], attr_Pod = []\<rparr> = Some True)"
proof -
  have "VerdictMask [\<lparr>atom_Field = AttrNamespace, atom_Op = AttrEq, atom_Values = [''default'']\<rparr>]
      \<lparr>attr_Namespace = ''default'', attr_Container = [], attr_Pod = []\<rparr> = Some 1" by code_simp
  from attr_pred_decides_atom [OF this, of 0 "ko_pred_of (zeroPred\<lparr>Kind := PredAttr\<rparr>)" ex_args]
  show ?thesis by (simp add: ko_pred_of_def zeroPred_def)
qed

end
