(* ===== verification/C_Layout.thy ===== *)
theory C_Layout
  imports Ko_Prelude
begin

text \<open>
  The memory layout of C types on the LP64 targets of the tracer, as the compiler lays out
  the records of \<^verbatim>\<open>vmlinux.h\<close> and of \<^verbatim>\<open>tracer.bpf.c\<close>: sizes, alignments, bit-fields, unions,
  arrays and the members of anonymous records. Positions are counted in bits, sizes and
  alignments in bytes. \<open>offset_of\<close> resolves a member designator to its byte offset and
  type. The lemmas show that the members of a record are aligned, disjoint and inside it.
\<close>

subsection \<open>Types\<close>

text \<open>A scalar is given by its size, which is its alignment. A member with an empty name is
  an anonymous record; a bit-field carries its width.\<close>

datatype ctype =
    Scalar int
  | Array ctype int
  | Struct "cfield list"
  | Union "cfield list"
and cfield =
    Field string ctype
  | Bits string ctype int

abbreviation (input) "c_char \<equiv> Scalar 1"
abbreviation (input) "c_short \<equiv> Scalar 2"
abbreviation (input) "c_int \<equiv> Scalar 4"
abbreviation (input) "c_long \<equiv> Scalar 8"
abbreviation (input) "c_ptr \<equiv> Scalar 8"
abbreviation (input) "c_enum \<equiv> Scalar 4"

subsection \<open>Sizes and positions\<close>

definition align_up :: "int \<Rightarrow> int \<Rightarrow> int" where
  "align_up x a = (x + a - 1) div a * a"

text \<open>A bit-field of width \<open>w\<close> whose unit has \<open>u\<close> bits does not straddle a unit.\<close>

definition bit_pos :: "int \<Rightarrow> int \<Rightarrow> int \<Rightarrow> int" where
  "bit_pos p u w = (if p div u = (p + w - 1) div u then p else align_up p u)"

text \<open>The alignment of a record is the strictest of its members: alignments are powers of two,
  of which the least common multiple is the largest.\<close>

fun alignof :: "ctype \<Rightarrow> int" and aligns :: "cfield list \<Rightarrow> int" where
  "alignof (Scalar n) = n"
| "alignof (Array t n) = alignof t"
| "alignof (Struct fs) = aligns fs"
| "alignof (Union fs) = aligns fs"
| "aligns [] = 1"
| "aligns (Field n t # fs) = lcm (alignof t) (aligns fs)"
| "aligns (Bits n t w # fs) = lcm (alignof t) (aligns fs)"

fun sizeof :: "ctype \<Rightarrow> int" and struct_end :: "int \<Rightarrow> cfield list \<Rightarrow> int" and union_end :: "cfield list \<Rightarrow> int" where
  "sizeof (Scalar n) = n"
| "sizeof (Array t n) = n * sizeof t"
| "sizeof (Struct fs) = align_up ((struct_end 0 fs + 7) div 8) (aligns fs)"
| "sizeof (Union fs) = align_up ((union_end fs + 7) div 8) (aligns fs)"
| "struct_end p [] = p"
| "struct_end p (Field n t # fs) = struct_end (align_up p (8 * alignof t) + 8 * sizeof t) fs"
| "struct_end p (Bits n t w # fs) = struct_end (bit_pos p (8 * sizeof t) w + w) fs"
| "union_end [] = 0"
| "union_end (Field n t # fs) = max (8 * sizeof t) (union_end fs)"
| "union_end (Bits n t w # fs) = max w (union_end fs)"

text \<open>The start and the width of each member of a record, in bits.\<close>

fun placed :: "int \<Rightarrow> cfield list \<Rightarrow> (int \<times> int) list" where
  "placed p [] = []"
| "placed p (Field n t # fs) =
     (let q = align_up p (8 * alignof t) in (q, 8 * sizeof t) # placed (q + 8 * sizeof t) fs)"
| "placed p (Bits n t w # fs) =
     (let q = bit_pos p (8 * sizeof t) w in (q, w) # placed (q + w) fs)"

text \<open>The addressable members of a type with their positions, those of anonymous records
  included.\<close>

fun members :: "int \<Rightarrow> ctype \<Rightarrow> (string \<times> int \<times> ctype) list"
  and smembers :: "int \<Rightarrow> int \<Rightarrow> cfield list \<Rightarrow> (string \<times> int \<times> ctype) list"
  and umembers :: "int \<Rightarrow> cfield list \<Rightarrow> (string \<times> int \<times> ctype) list" where
  "members b (Scalar n) = []"
| "members b (Array t n) = []"
| "members b (Struct fs) = smembers b 0 fs"
| "members b (Union fs) = umembers b fs"
| "smembers b p [] = []"
| "smembers b p (Field n t # fs) =
     (let q = align_up p (8 * alignof t)
      in (if n = [] then members (b + q) t else [(n, b + q, t)]) @ smembers b (q + 8 * sizeof t) fs)"
| "smembers b p (Bits n t w # fs) = smembers b (bit_pos p (8 * sizeof t) w + w) fs"
| "umembers b [] = []"
| "umembers b (Field n t # fs) = (if n = [] then members b t else [(n, b, t)]) @ umembers b fs"
| "umembers b (Bits n t w # fs) = umembers b fs"

text \<open>\<open>offsetof(t, n.n'.n'')\<close> with the type of the designated member.\<close>

fun offset_of :: "ctype \<Rightarrow> string list \<Rightarrow> (int \<times> ctype) option" where
  "offset_of t [] = Some (0, t)"
| "offset_of t (n # ns) =
     (case map_of (members 0 t) n of
        None \<Rightarrow> None
      | Some (q, t') \<Rightarrow>
          (case offset_of t' ns of
             None \<Rightarrow> None
           | Some (r, t'') \<Rightarrow> Some (q div 8 + r, t'')))"

subsection \<open>Well-formed types\<close>

fun wf_type :: "ctype \<Rightarrow> bool" and wf_fields :: "cfield list \<Rightarrow> bool" where
  "wf_type (Scalar n) \<longleftrightarrow> 0 < n"
| "wf_type (Array t n) \<longleftrightarrow> wf_type t \<and> 0 \<le> n"
| "wf_type (Struct fs) \<longleftrightarrow> wf_fields fs"
| "wf_type (Union fs) \<longleftrightarrow> wf_fields fs"
| "wf_fields [] \<longleftrightarrow> True"
| "wf_fields (Field n t # fs) \<longleftrightarrow> wf_type t \<and> wf_fields fs"
| "wf_fields (Bits n t w # fs) \<longleftrightarrow> wf_type t \<and> 0 < w \<and> w \<le> 8 * sizeof t \<and> wf_fields fs"

lemma align_up_ge: "0 < a \<Longrightarrow> x \<le> align_up x a"
proof -
  assume "0 < a"
  then have "x + a - 1 - (x + a - 1) mod a = align_up x a" "(x + a - 1) mod a < a"
    by (simp_all add: align_up_def minus_mod_eq_div_mult)
  then show ?thesis by linarith
qed

lemma align_up_less: "0 < a \<Longrightarrow> align_up x a < x + a"
proof -
  assume "0 < a"
  then have "align_up x a = x + a - 1 - (x + a - 1) mod a" "0 \<le> (x + a - 1) mod a"
    by (simp_all add: align_up_def minus_mod_eq_div_mult)
  then show ?thesis by linarith
qed

lemma align_up_dvd: "a dvd align_up x a"
  by (simp add: align_up_def)

lemma align_up_id: "0 < a \<Longrightarrow> a dvd x \<Longrightarrow> align_up x a = x"
proof -
  assume a: "0 < a" "a dvd x"
  then obtain k where x: "x = a * k" by blast
  have "a * k - a < align_up x a - a + 1" using align_up_ge [OF a(1), of x] x by linarith
  moreover have "a dvd align_up x a - x" using a(2) align_up_dvd [of a x] by (rule dvd_diff [rotated])
  moreover have "0 \<le> align_up x a - x" "align_up x a - x < a"
    using align_up_ge [OF a(1), of x] align_up_less [OF a(1), of x] by linarith+
  ultimately have "align_up x a - x = 0" using zdvd_not_zless by (metis order_le_less)
  then show ?thesis by simp
qed

lemma bit_pos_ge: "0 < u \<Longrightarrow> p \<le> bit_pos p u w"
  by (simp add: bit_pos_def align_up_ge)

text \<open>A bit-field stays within one unit.\<close>

lemma bit_pos_unit:
  assumes "0 < w" and "w \<le> u"
  shows "bit_pos p u w div u = (bit_pos p u w + w - 1) div u"
proof (cases "p div u = (p + w - 1) div u")
  case True
  then show ?thesis by (simp add: bit_pos_def)
next
  case False
  have "0 < u" using assms by linarith
  obtain k where k: "align_up p u = u * k" using align_up_dvd [of u p] by blast
  have "(u * k + (w - 1)) div u = k + (w - 1) div u" using \<open>0 < u\<close> by (simp add: mult.commute)
  moreover have "(w - 1) div u = 0" using assms by (simp add: div_pos_pos_trivial)
  ultimately show ?thesis using False k \<open>0 < u\<close> by (simp add: bit_pos_def add_diff_eq)
qed

lemma alignof_pos: "wf_type t \<Longrightarrow> 0 < alignof t" "wf_fields fs \<Longrightarrow> 0 < aligns fs"
  by (induction t and fs rule: alignof_aligns.induct) (auto simp: lcm_pos_int)

lemma sizeof_nonneg:
  "wf_type t \<Longrightarrow> 0 \<le> sizeof t" "wf_fields fs \<Longrightarrow> 0 \<le> p \<Longrightarrow> p \<le> struct_end p fs" "wf_fields fs \<Longrightarrow> 0 \<le> union_end fs"
proof (induction t and p fs and fs rule: sizeof_struct_end_union_end.induct)
  case (3 fs)
  then have "0 \<le> (struct_end 0 fs + 7) div 8" by simp
  moreover have "0 < aligns fs" using 3 alignof_pos by simp
  ultimately show ?case using align_up_ge order_trans by simp blast
next
  case (4 fs)
  then have "0 \<le> (union_end fs + 7) div 8" by simp
  moreover have "0 < aligns fs" using 4 alignof_pos by simp
  ultimately show ?case using align_up_ge order_trans by simp blast
next
  case (6 p n t fs)
  have "p \<le> align_up p (8 * alignof t)" using 6 alignof_pos by (intro align_up_ge) simp
  moreover have "0 \<le> sizeof t" using 6 by simp
  ultimately show ?case using 6 by simp
next
  case (7 p n t w fs)
  then have "0 < 8 * sizeof t" by simp
  then have "p \<le> bit_pos p (8 * sizeof t) w" by (rule bit_pos_ge)
  with 7 show ?case by simp
qed auto

lemma alignof_dvd_sizeof: "wf_type t \<Longrightarrow> alignof t dvd sizeof t"
  by (induction t) (auto simp: align_up_dvd)

lemma aligns_dvd: "Field n t \<in> set fs \<Longrightarrow> alignof t dvd aligns fs"
proof (induction fs)
  case (Cons f fs)
  then show ?case by (cases f) (auto intro: dvd_lcmI2)
qed simp

subsection \<open>Members are in order, disjoint and inside\<close>

lemma length_placed [simp]: "length (placed p fs) = length fs"
  by (induction p fs rule: placed.induct) (auto simp: Let_def)

lemma placed_from:
  assumes "wf_fields fs" and "0 \<le> p" and "(q, w) \<in> set (placed p fs)"
  shows "p \<le> q \<and> 0 \<le> w \<and> q + w \<le> struct_end p fs"
  using assms
proof (induction p fs rule: placed.induct)
  case (1 p)
  then show ?case by simp
next
  case (2 p n t fs)
  let ?q = "align_up p (8 * alignof t)"
  have q: "p \<le> ?q" using 2 alignof_pos by (intro align_up_ge) simp
  moreover have s: "0 \<le> sizeof t" using 2 sizeof_nonneg by simp
  moreover have "?q + 8 * sizeof t \<le> struct_end (?q + 8 * sizeof t) fs"
    using 2 q s by (intro sizeof_nonneg) auto
  ultimately show ?case using 2 by (auto simp: Let_def)
next
  case (3 p n t w' fs)
  let ?q = "bit_pos p (8 * sizeof t) w'"
  have q: "p \<le> ?q" using 3 by (intro bit_pos_ge) auto
  moreover have "?q + w' \<le> struct_end (?q + w') fs"
    using 3 q by (intro sizeof_nonneg) auto
  ultimately show ?case using 3 by (auto simp: Let_def)
qed

lemma placed_ordered:
  assumes "wf_fields fs" and "0 \<le> p" and "i < j" and "j < length fs"
  shows "fst (placed p fs ! i) + snd (placed p fs ! i) \<le> fst (placed p fs ! j)"
  using assms
proof (induction p fs arbitrary: i j rule: placed.induct)
  case (1 p)
  then show ?case by simp
next
  case (2 p n t fs)
  let ?q = "align_up p (8 * alignof t)"
  have q: "p \<le> ?q" using 2 alignof_pos by (intro align_up_ge) simp
  have s: "0 \<le> sizeof t" using 2 sizeof_nonneg by simp
  obtain j' where j: "j = Suc j'" using 2 by (cases j) auto
  have "?q + 8 * sizeof t \<le> fst (placed (?q + 8 * sizeof t) fs ! j')"
    using placed_from [of fs "?q + 8 * sizeof t" "fst (placed (?q + 8 * sizeof t) fs ! j')"
        "snd (placed (?q + 8 * sizeof t) fs ! j')"] 2 j q s by (simp del: prod.collapse) (simp add: nth_mem)
  then show ?case using 2 j q s by (cases i) (auto simp: Let_def)
next
  case (3 p n t w fs)
  let ?q = "bit_pos p (8 * sizeof t) w"
  have q: "p \<le> ?q" using 3 by (intro bit_pos_ge) auto
  obtain j' where j: "j = Suc j'" using 3 by (cases j) auto
  have "?q + w \<le> fst (placed (?q + w) fs ! j')"
    using placed_from [of fs "?q + w" "fst (placed (?q + w) fs ! j')" "snd (placed (?q + w) fs ! j')"] 3 j q
    by (simp del: prod.collapse) (simp add: nth_mem)
  then show ?case using 3 j q by (cases i) (auto simp: Let_def)
qed

lemma placed_inside:
  assumes "wf_fields fs" and "j < length fs"
  shows "0 \<le> fst (placed 0 fs ! j) \<and> fst (placed 0 fs ! j) + snd (placed 0 fs ! j) \<le> 8 * sizeof (Struct fs)"
proof -
  let ?e = "struct_end 0 fs"
  have "0 \<le> fst (placed 0 fs ! j) \<and> fst (placed 0 fs ! j) + snd (placed 0 fs ! j) \<le> ?e"
    using placed_from [of fs 0 "fst (placed 0 fs ! j)" "snd (placed 0 fs ! j)"] assms by (simp add: nth_mem)
  moreover have "(?e + 7) div 8 \<le> sizeof (Struct fs)"
    using alignof_pos(2) [OF assms(1)] by (simp add: align_up_ge)
  ultimately show ?thesis by linarith
qed

lemma placed_aligned:
  "i < length fs \<Longrightarrow> fs ! i = Field n t \<Longrightarrow> 8 * alignof t dvd fst (placed p fs ! i)"
proof (induction p fs arbitrary: i rule: placed.induct)
  case (2 p n' t' fs)
  then show ?case by (cases i) (auto simp: Let_def align_up_dvd)
next
  case (3 p n' t' w fs)
  then show ?case by (cases i) (auto simp: Let_def)
qed simp

end
