(* ===== verification/Vmlinux.thy ===== *)
theory Vmlinux
  imports C_Layout
begin

text \<open>
  The kernel records whose fields the tracer reads, transcribed from
  \<^verbatim>\<open>pkg/tracer/c/headers/vmlinux.h\<close>: the socket records from \<^verbatim>\<open>sock_common\<close> to \<^verbatim>\<open>tcp_sock\<close>, the
  mini-sockets (time-wait and request sockets), \<^verbatim>\<open>cgroup\<close>, \<^verbatim>\<open>kernfs_node\<close> and \<^verbatim>\<open>task_struct\<close>, with every type they
  contain by value, in the order of the header. \<open>s_\<close>, \<open>un_\<close> and \<open>t_\<close> stand for struct, union
  and typedef names; pointers of every kind are \<open>c_ptr\<close>, enumerations \<open>c_enum\<close>;
  a bit-field without a name is padding of the header.
\<close>

definition t___u8 :: ctype where "t___u8 = c_char"
definition t___s16 :: ctype where "t___s16 = c_short"
definition t___u16 :: ctype where "t___u16 = c_short"
definition t___s32 :: ctype where "t___s32 = c_int"
definition t___u32 :: ctype where "t___u32 = c_int"
definition t___s64 :: ctype where "t___s64 = c_long"
definition t___u64 :: ctype where "t___u64 = c_long"
definition t_u8 :: ctype where "t_u8 = t___u8"
definition t_u16 :: ctype where "t_u16 = t___u16"
definition t_u32 :: ctype where "t_u32 = t___u32"
definition t_s64 :: ctype where "t_s64 = t___s64"
definition t_u64 :: ctype where "t_u64 = t___u64"
definition t___kernel_ulong_t :: ctype where "t___kernel_ulong_t = c_long"
definition t___kernel_pid_t :: ctype where "t___kernel_pid_t = c_int"
definition t___kernel_uid32_t :: ctype where "t___kernel_uid32_t = c_int"
definition t___kernel_size_t :: ctype where "t___kernel_size_t = t___kernel_ulong_t"
definition t___kernel_loff_t :: ctype where "t___kernel_loff_t = c_long"
definition t___kernel_clockid_t :: ctype where "t___kernel_clockid_t = c_int"
definition t___be16 :: ctype where "t___be16 = t___u16"
definition t___be32 :: ctype where "t___be32 = t___u32"
definition t_umode_t :: ctype where "t_umode_t = c_short"
definition t_pid_t :: ctype where "t_pid_t = t___kernel_pid_t"
definition t_clockid_t :: ctype where "t_clockid_t = t___kernel_clockid_t"
definition t_bool :: ctype where "t_bool = c_char"
definition t_uid_t :: ctype where "t_uid_t = t___kernel_uid32_t"
definition t_loff_t :: ctype where "t_loff_t = t___kernel_loff_t"
definition t_size_t :: ctype where "t_size_t = t___kernel_size_t"
definition t_gfp_t :: ctype where "t_gfp_t = c_int"

definition t_atomic_t :: ctype where
  "t_atomic_t = Struct [
     Field ''counter'' c_int]"

definition t_atomic64_t :: ctype where
  "t_atomic64_t = Struct [
     Field ''counter'' t_s64]"

definition s_list_head :: ctype where
  "s_list_head = Struct [
     Field ''next'' c_ptr, Field ''prev'' c_ptr]"

definition s_hlist_head :: ctype where
  "s_hlist_head = Struct [
     Field ''first'' c_ptr]"

definition s_hlist_node :: ctype where
  "s_hlist_node = Struct [
     Field ''next'' c_ptr, Field ''pprev'' c_ptr]"

definition s_callback_head :: ctype where
  "s_callback_head = Struct [
     Field ''next'' c_ptr, Field ''func'' c_ptr]"

definition t_atomic_long_t :: ctype where "t_atomic_long_t = t_atomic64_t"

definition s_qspinlock :: ctype where
  "s_qspinlock = Struct [
     Field '''' (Union [Field ''val'' t_atomic_t, Field '''' (Struct [Field ''locked'' t_u8, Field ''pending'' t_u8]), Field '''' (Struct [Field ''locked_pending'' t_u16, Field ''tail'' t_u16])])]"

definition t_arch_spinlock_t :: ctype where "t_arch_spinlock_t = s_qspinlock"

definition s_qrwlock :: ctype where
  "s_qrwlock = Struct [
     Field '''' (Union [Field ''cnts'' t_atomic_t, Field '''' (Struct [Field ''wlocked'' t_u8, Field ''__lstate'' (Array t_u8 3)])]),
     Field ''wait_lock'' t_arch_spinlock_t]"

definition t_arch_rwlock_t :: ctype where "t_arch_rwlock_t = s_qrwlock"

definition s_raw_spinlock :: ctype where
  "s_raw_spinlock = Struct [
     Field ''raw_lock'' t_arch_spinlock_t]"

definition t_raw_spinlock_t :: ctype where "t_raw_spinlock_t = s_raw_spinlock"

definition s_spinlock :: ctype where
  "s_spinlock = Struct [
     Field '''' (Union [Field ''rlock'' s_raw_spinlock])]"

definition t_spinlock_t :: ctype where "t_spinlock_t = s_spinlock"

definition t_rwlock_t :: ctype where
  "t_rwlock_t = Struct [
     Field ''raw_lock'' t_arch_rwlock_t]"

definition s_cpumask :: ctype where
  "s_cpumask = Struct [
     Field ''bits'' (Array c_long 4)]"

definition t_cpumask_t :: ctype where "t_cpumask_t = s_cpumask"

definition s_llist_head :: ctype where
  "s_llist_head = Struct [
     Field ''first'' c_ptr]"

definition s_llist_node :: ctype where
  "s_llist_node = Struct [
     Field ''next'' c_ptr]"

definition s___call_single_node :: ctype where
  "s___call_single_node = Struct [
     Field ''llist'' s_llist_node,
     Field '''' (Union [Field ''u_flags'' c_int, Field ''a_flags'' t_atomic_t]), Field ''src'' t_u16,
     Field ''dst'' t_u16]"

definition s_restart_block :: ctype where
  "s_restart_block = Struct [
     Field ''arch_data'' c_long, Field ''fn'' c_ptr,
     Field '''' (Union [Field ''futex'' (Struct [Field ''uaddr'' c_ptr, Field ''val'' t_u32, Field ''flags'' t_u32, Field ''bitset'' t_u32, Field ''time'' t_u64, Field ''uaddr2'' c_ptr]), Field ''nanosleep'' (Struct [Field ''clockid'' t_clockid_t, Field ''type'' c_enum, Field '''' (Union [Field ''rmtp'' c_ptr, Field ''compat_rmtp'' c_ptr]), Field ''expires'' t_u64]), Field ''poll'' (Struct [Field ''ufds'' c_ptr, Field ''nfds'' c_int, Field ''has_timeout'' c_int, Field ''tv_sec'' c_long, Field ''tv_nsec'' c_long])])]"

definition s_thread_info :: ctype where
  "s_thread_info = Struct [
     Field ''flags'' c_long, Field ''ttbr0'' t_u64,
     Field '''' (Union [Field ''preempt_count'' t_u64, Field ''preempt'' (Struct [Field ''count'' t_u32, Field ''need_resched'' t_u32])])]"

definition s_refcount_struct :: ctype where
  "s_refcount_struct = Struct [
     Field ''refs'' t_atomic_t]"

definition t_refcount_t :: ctype where "t_refcount_t = s_refcount_struct"

definition s_load_weight :: ctype where
  "s_load_weight = Struct [
     Field ''weight'' c_long, Field ''inv_weight'' t_u32]"

definition s_rb_node :: ctype where
  "s_rb_node = Struct [
     Field ''__rb_parent_color'' c_long, Field ''rb_right'' c_ptr, Field ''rb_left'' c_ptr]"

definition s_util_est :: ctype where
  "s_util_est = Struct [
     Field ''enqueued'' c_int, Field ''ewma'' c_int]"

definition s_sched_avg :: ctype where
  "s_sched_avg = Struct [
     Field ''last_update_time'' t_u64, Field ''load_sum'' t_u64, Field ''runnable_sum'' t_u64,
     Field ''util_sum'' t_u32, Field ''period_contrib'' t_u32, Field ''load_avg'' c_long,
     Field ''runnable_avg'' c_long, Field ''util_avg'' c_long, Field ''util_est'' s_util_est]"

definition s_sched_entity :: ctype where
  "s_sched_entity = Struct [
     Field ''load'' s_load_weight, Field ''run_node'' s_rb_node, Field ''group_node'' s_list_head,
     Field ''on_rq'' c_int, Field ''exec_start'' t_u64, Field ''sum_exec_runtime'' t_u64,
     Field ''vruntime'' t_u64, Field ''prev_sum_exec_runtime'' t_u64, Field ''nr_migrations'' t_u64,
     Field ''depth'' c_int, Field ''parent'' c_ptr, Field ''cfs_rq'' c_ptr, Field ''my_q'' c_ptr,
     Field ''runnable_weight'' c_long, Bits '''' c_long 64, Bits '''' c_long 64, Bits '''' c_long 64,
     Bits '''' c_long 64, Bits '''' c_long 64, Bits '''' c_long 64, Field ''avg'' s_sched_avg]"

definition s_sched_rt_entity :: ctype where
  "s_sched_rt_entity = Struct [
     Field ''run_list'' s_list_head, Field ''timeout'' c_long, Field ''watchdog_stamp'' c_long,
     Field ''time_slice'' c_int, Field ''on_rq'' c_short, Field ''on_list'' c_short, Field ''back'' c_ptr]"

definition t_ktime_t :: ctype where "t_ktime_t = t_s64"

definition s_timerqueue_node :: ctype where
  "s_timerqueue_node = Struct [
     Field ''node'' s_rb_node, Field ''expires'' t_ktime_t]"

definition s_hrtimer :: ctype where
  "s_hrtimer = Struct [
     Field ''node'' s_timerqueue_node, Field ''_softexpires'' t_ktime_t, Field ''function'' c_ptr,
     Field ''base'' c_ptr, Field ''state'' t_u8, Field ''is_rel'' t_u8, Field ''is_soft'' t_u8,
     Field ''is_hard'' t_u8]"

definition s_sched_dl_entity :: ctype where
  "s_sched_dl_entity = Struct [
     Field ''rb_node'' s_rb_node, Field ''dl_runtime'' t_u64, Field ''dl_deadline'' t_u64,
     Field ''dl_period'' t_u64, Field ''dl_bw'' t_u64, Field ''dl_density'' t_u64,
     Field ''runtime'' t_s64, Field ''deadline'' t_u64, Field ''flags'' c_int,
     Bits ''dl_throttled'' c_int 1, Bits ''dl_yielded'' c_int 1, Bits ''dl_non_contending'' c_int 1,
     Bits ''dl_overrun'' c_int 1, Field ''dl_timer'' s_hrtimer, Field ''inactive_timer'' s_hrtimer,
     Field ''pi_se'' c_ptr]"

definition s_uclamp_se :: ctype where
  "s_uclamp_se = Struct [
     Bits ''value'' c_int 11, Bits ''bucket_id'' c_int 3, Bits ''active'' c_int 1,
     Bits ''user_defined'' c_int 1]"

definition s_sched_statistics :: ctype where
  "s_sched_statistics = Struct [
     Field ''wait_start'' t_u64, Field ''wait_max'' t_u64, Field ''wait_count'' t_u64,
     Field ''wait_sum'' t_u64, Field ''iowait_count'' t_u64, Field ''iowait_sum'' t_u64,
     Field ''sleep_start'' t_u64, Field ''sleep_max'' t_u64, Field ''sum_sleep_runtime'' t_s64,
     Field ''block_start'' t_u64, Field ''block_max'' t_u64, Field ''exec_max'' t_u64,
     Field ''slice_max'' t_u64, Field ''nr_migrations_cold'' t_u64,
     Field ''nr_failed_migrations_affine'' t_u64, Field ''nr_failed_migrations_running'' t_u64,
     Field ''nr_failed_migrations_hot'' t_u64, Field ''nr_forced_migrations'' t_u64,
     Field ''nr_wakeups'' t_u64, Field ''nr_wakeups_sync'' t_u64, Field ''nr_wakeups_migrate'' t_u64,
     Field ''nr_wakeups_local'' t_u64, Field ''nr_wakeups_remote'' t_u64,
     Field ''nr_wakeups_affine'' t_u64, Field ''nr_wakeups_affine_attempts'' t_u64,
     Field ''nr_wakeups_passive'' t_u64, Field ''nr_wakeups_idle'' t_u64, Bits '''' c_long 64,
     Bits '''' c_long 64, Bits '''' c_long 64, Bits '''' c_long 64, Bits '''' c_long 64]"

definition un_rcu_special :: ctype where
  "un_rcu_special = Union [
     Field ''b'' (Struct [Field ''blocked'' t_u8, Field ''need_qs'' t_u8, Field ''exp_hint'' t_u8, Field ''need_mb'' t_u8]),
     Field ''s'' t_u32]"

definition s_sched_info :: ctype where
  "s_sched_info = Struct [
     Field ''pcount'' c_long, Field ''run_delay'' c_long, Field ''last_arrival'' c_long,
     Field ''last_queued'' c_long]"

definition s_plist_node :: ctype where
  "s_plist_node = Struct [
     Field ''prio'' c_int, Field ''prio_list'' s_list_head, Field ''node_list'' s_list_head]"

definition s_vmacache :: ctype where
  "s_vmacache = Struct [
     Field ''seqnum'' t_u64, Field ''vmas'' (Array c_ptr 4)]"

definition s_task_rss_stat :: ctype where
  "s_task_rss_stat = Struct [
     Field ''events'' c_int, Field ''count'' (Array c_int 4)]"

definition s_prev_cputime :: ctype where
  "s_prev_cputime = Struct [
     Field ''utime'' t_u64, Field ''stime'' t_u64, Field ''lock'' t_raw_spinlock_t]"

definition s_rb_root :: ctype where
  "s_rb_root = Struct [
     Field ''rb_node'' c_ptr]"

definition s_rb_root_cached :: ctype where
  "s_rb_root_cached = Struct [
     Field ''rb_root'' s_rb_root, Field ''rb_leftmost'' c_ptr]"

definition s_timerqueue_head :: ctype where
  "s_timerqueue_head = Struct [
     Field ''rb_root'' s_rb_root_cached]"

definition s_posix_cputimer_base :: ctype where
  "s_posix_cputimer_base = Struct [
     Field ''nextevt'' t_u64, Field ''tqhead'' s_timerqueue_head]"

definition s_posix_cputimers :: ctype where
  "s_posix_cputimers = Struct [
     Field ''bases'' (Array s_posix_cputimer_base 3), Field ''timers_active'' c_int,
     Field ''expiry_active'' c_int]"

definition s_sysv_sem :: ctype where
  "s_sysv_sem = Struct [
     Field ''undo_list'' c_ptr]"

definition s_sysv_shm :: ctype where
  "s_sysv_shm = Struct [
     Field ''shm_clist'' s_list_head]"

definition t_sigset_t :: ctype where
  "t_sigset_t = Struct [
     Field ''sig'' (Array c_long 1)]"

definition s_sigpending :: ctype where
  "s_sigpending = Struct [
     Field ''list'' s_list_head, Field ''signal'' t_sigset_t]"

definition t_kuid_t :: ctype where
  "t_kuid_t = Struct [
     Field ''val'' t_uid_t]"

definition s_seccomp :: ctype where
  "s_seccomp = Struct [
     Field ''mode'' c_int, Field ''filter_count'' t_atomic_t, Field ''filter'' c_ptr]"

definition s_syscall_user_dispatch :: ctype where "s_syscall_user_dispatch = Struct []"

definition s_wake_q_node :: ctype where
  "s_wake_q_node = Struct [
     Field ''next'' c_ptr]"

definition s_task_io_accounting :: ctype where
  "s_task_io_accounting = Struct [
     Field ''rchar'' t_u64, Field ''wchar'' t_u64, Field ''syscr'' t_u64, Field ''syscw'' t_u64,
     Field ''read_bytes'' t_u64, Field ''write_bytes'' t_u64, Field ''cancelled_write_bytes'' t_u64]"

definition t_nodemask_t :: ctype where
  "t_nodemask_t = Struct [
     Field ''bits'' (Array c_long 1)]"

definition s_seqcount :: ctype where
  "s_seqcount = Struct [
     Field ''sequence'' c_int]"

definition t_seqcount_t :: ctype where "t_seqcount_t = s_seqcount"

definition s_seqcount_spinlock :: ctype where
  "s_seqcount_spinlock = Struct [
     Field ''seqcount'' t_seqcount_t]"

definition t_seqcount_spinlock_t :: ctype where "t_seqcount_spinlock_t = s_seqcount_spinlock"

definition s_optimistic_spin_queue :: ctype where
  "s_optimistic_spin_queue = Struct [
     Field ''tail'' t_atomic_t]"

definition s_mutex :: ctype where
  "s_mutex = Struct [
     Field ''owner'' t_atomic_long_t, Field ''wait_lock'' t_raw_spinlock_t,
     Field ''osq'' s_optimistic_spin_queue, Field ''wait_list'' s_list_head]"

definition s_tlbflush_unmap_batch :: ctype where "s_tlbflush_unmap_batch = Struct []"

definition s_page_frag :: ctype where
  "s_page_frag = Struct [
     Field ''page'' c_ptr, Field ''offset'' t___u32, Field ''size'' t___u32]"

definition s_kmap_ctrl :: ctype where "s_kmap_ctrl = Struct []"

definition s_timer_list :: ctype where
  "s_timer_list = Struct [
     Field ''entry'' s_hlist_node, Field ''expires'' c_long, Field ''function'' c_ptr,
     Field ''flags'' t_u32]"

definition s_cpu_context :: ctype where
  "s_cpu_context = Struct [
     Field ''x19'' c_long, Field ''x20'' c_long, Field ''x21'' c_long, Field ''x22'' c_long,
     Field ''x23'' c_long, Field ''x24'' c_long, Field ''x25'' c_long, Field ''x26'' c_long,
     Field ''x27'' c_long, Field ''x28'' c_long, Field ''fp'' c_long, Field ''sp'' c_long,
     Field ''pc'' c_long]"

definition s_user_fpsimd_state :: ctype where
  "s_user_fpsimd_state = Struct [
     Field ''vregs'' (Array (Scalar 16) 32), Field ''fpsr'' t___u32, Field ''fpcr'' t___u32,
     Field ''__reserved'' (Array t___u32 2)]"

definition s_debug_info :: ctype where
  "s_debug_info = Struct [
     Field ''suspended_step'' c_int, Field ''bps_disabled'' c_int, Field ''wps_disabled'' c_int,
     Field ''hbp_break'' (Array c_ptr 16), Field ''hbp_watch'' (Array c_ptr 16)]"

definition s_ptrauth_key :: ctype where
  "s_ptrauth_key = Struct [
     Field ''lo'' c_long, Field ''hi'' c_long]"

definition s_ptrauth_keys_user :: ctype where
  "s_ptrauth_keys_user = Struct [
     Field ''apia'' s_ptrauth_key, Field ''apib'' s_ptrauth_key, Field ''apda'' s_ptrauth_key,
     Field ''apdb'' s_ptrauth_key, Field ''apga'' s_ptrauth_key]"

definition s_ptrauth_keys_kernel :: ctype where
  "s_ptrauth_keys_kernel = Struct [
     Field ''apia'' s_ptrauth_key]"

definition s_thread_struct :: ctype where
  "s_thread_struct = Struct [
     Field ''cpu_context'' s_cpu_context, Bits '''' c_long 64,
     Field ''uw'' (Struct [Field ''tp_value'' c_long, Field ''tp2_value'' c_long, Field ''fpsimd_state'' s_user_fpsimd_state]),
     Field ''fp_type'' c_enum, Field ''fpsimd_cpu'' c_int, Field ''sve_state'' c_ptr,
     Field ''sve_vl'' c_int, Field ''sve_vl_onexec'' c_int, Field ''fault_address'' c_long,
     Field ''fault_code'' c_long, Field ''debug'' s_debug_info, Field ''keys_user'' s_ptrauth_keys_user,
     Field ''keys_kernel'' s_ptrauth_keys_kernel, Field ''mte_ctrl'' t_u64, Field ''sctlr_user'' t_u64,
     Bits '''' c_long 64]"

definition s_task_struct :: ctype where
  "s_task_struct = Struct [
     Field ''thread_info'' s_thread_info, Field ''__state'' c_int, Field ''stack'' c_ptr,
     Field ''usage'' t_refcount_t, Field ''flags'' c_int, Field ''ptrace'' c_int,
     Field ''on_cpu'' c_int, Field ''wake_entry'' s___call_single_node, Field ''cpu'' c_int,
     Field ''wakee_flips'' c_int, Field ''wakee_flip_decay_ts'' c_long, Field ''last_wakee'' c_ptr,
     Field ''recent_used_cpu'' c_int, Field ''wake_cpu'' c_int, Field ''on_rq'' c_int,
     Field ''prio'' c_int, Field ''static_prio'' c_int, Field ''normal_prio'' c_int,
     Field ''rt_priority'' c_int, Field ''sched_class'' c_ptr, Bits '''' c_long 64, Bits '''' c_long 64,
     Bits '''' c_long 64, Bits '''' c_long 64, Bits '''' c_long 64, Bits '''' c_long 64,
     Bits '''' c_long 64, Field ''se'' s_sched_entity, Field ''rt'' s_sched_rt_entity,
     Field ''dl'' s_sched_dl_entity, Field ''core_node'' s_rb_node, Field ''core_cookie'' c_long,
     Field ''core_occupation'' c_int, Field ''sched_task_group'' c_ptr,
     Field ''uclamp_req'' (Array s_uclamp_se 2), Field ''uclamp'' (Array s_uclamp_se 2),
     Bits '''' c_long 64, Bits '''' c_long 64, Bits '''' c_long 64, Bits '''' c_long 64,
     Bits '''' c_long 64, Bits '''' c_long 64, Field ''stats'' s_sched_statistics,
     Field ''preempt_notifiers'' s_hlist_head, Field ''btrace_seq'' c_int, Field ''policy'' c_int,
     Field ''nr_cpus_allowed'' c_int, Field ''cpus_ptr'' c_ptr, Field ''user_cpus_ptr'' c_ptr,
     Field ''cpus_mask'' t_cpumask_t, Field ''migration_pending'' c_ptr,
     Field ''migration_disabled'' c_short, Field ''migration_flags'' c_short,
     Field ''trc_reader_nesting'' c_int, Field ''trc_ipi_to_cpu'' c_int,
     Field ''trc_reader_special'' un_rcu_special, Field ''trc_reader_checked'' t_bool,
     Field ''trc_holdout_list'' s_list_head, Field ''sched_info'' s_sched_info,
     Field ''tasks'' s_list_head, Field ''pushable_tasks'' s_plist_node,
     Field ''pushable_dl_tasks'' s_rb_node, Field ''mm'' c_ptr, Field ''active_mm'' c_ptr,
     Field ''vmacache'' s_vmacache, Field ''rss_stat'' s_task_rss_stat, Field ''exit_state'' c_int,
     Field ''exit_code'' c_int, Field ''exit_signal'' c_int, Field ''pdeath_signal'' c_int,
     Field ''jobctl'' c_long, Field ''personality'' c_int, Bits ''sched_reset_on_fork'' c_int 1,
     Bits ''sched_contributes_to_load'' c_int 1, Bits ''sched_migrated'' c_int 1,
     Bits ''sched_task_hot'' c_int 1, Bits '''' c_long 28, Bits ''sched_remote_wakeup'' c_int 1,
     Bits ''user_dumpable'' c_int 1, Bits ''in_execve'' c_int 1, Bits ''in_iowait'' c_int 1,
     Bits ''in_user_fault'' c_int 1, Bits ''no_cgroup_migration'' c_int 1, Bits ''frozen'' c_int 1,
     Bits ''use_memdelay'' c_int 1, Bits ''in_memstall'' c_int 1, Bits ''in_eventfd'' c_int 1,
     Field ''atomic_flags'' c_long, Field ''restart_block'' s_restart_block, Field ''pid'' t_pid_t,
     Field ''tgid'' t_pid_t, Field ''stack_canary'' c_long, Field ''real_parent'' c_ptr,
     Field ''parent'' c_ptr, Field ''children'' s_list_head, Field ''sibling'' s_list_head,
     Field ''group_leader'' c_ptr, Field ''ptraced'' s_list_head, Field ''ptrace_entry'' s_list_head,
     Field ''thread_pid'' c_ptr, Field ''pid_links'' (Array s_hlist_node 4),
     Field ''thread_group'' s_list_head, Field ''thread_node'' s_list_head, Field ''vfork_done'' c_ptr,
     Field ''set_child_tid'' c_ptr, Field ''clear_child_tid'' c_ptr, Field ''pf_io_worker'' c_ptr,
     Field ''utime'' t_u64, Field ''stime'' t_u64, Field ''gtime'' t_u64,
     Field ''prev_cputime'' s_prev_cputime, Field ''nvcsw'' c_long, Field ''nivcsw'' c_long,
     Field ''start_time'' t_u64, Field ''start_boottime'' t_u64, Field ''min_flt'' c_long,
     Field ''maj_flt'' c_long, Field ''posix_cputimers'' s_posix_cputimers,
     Field ''ptracer_cred'' c_ptr, Field ''real_cred'' c_ptr, Field ''cred'' c_ptr,
     Field ''cached_requested_key'' c_ptr, Field ''comm'' (Array c_char 16), Field ''nameidata'' c_ptr,
     Field ''sysvsem'' s_sysv_sem, Field ''sysvshm'' s_sysv_shm, Field ''last_switch_count'' c_long,
     Field ''last_switch_time'' c_long, Field ''fs'' c_ptr, Field ''files'' c_ptr,
     Field ''io_uring'' c_ptr, Field ''nsproxy'' c_ptr, Field ''signal'' c_ptr, Field ''sighand'' c_ptr,
     Field ''blocked'' t_sigset_t, Field ''real_blocked'' t_sigset_t,
     Field ''saved_sigmask'' t_sigset_t, Field ''pending'' s_sigpending, Field ''sas_ss_sp'' c_long,
     Field ''sas_ss_size'' t_size_t, Field ''sas_ss_flags'' c_int, Field ''task_works'' c_ptr,
     Field ''audit_context'' c_ptr, Field ''loginuid'' t_kuid_t, Field ''sessionid'' c_int,
     Field ''seccomp'' s_seccomp, Field ''syscall_dispatch'' s_syscall_user_dispatch,
     Field ''parent_exec_id'' t_u64, Field ''self_exec_id'' t_u64, Field ''alloc_lock'' t_spinlock_t,
     Field ''pi_lock'' t_raw_spinlock_t, Field ''wake_q'' s_wake_q_node,
     Field ''pi_waiters'' s_rb_root_cached, Field ''pi_top_task'' c_ptr, Field ''pi_blocked_on'' c_ptr,
     Field ''in_ubsan'' c_int, Field ''journal_info'' c_ptr, Field ''bio_list'' c_ptr,
     Field ''plug'' c_ptr, Field ''reclaim_state'' c_ptr, Field ''backing_dev_info'' c_ptr,
     Field ''io_context'' c_ptr, Field ''capture_control'' c_ptr, Field ''ptrace_message'' c_long,
     Field ''last_siginfo'' c_ptr, Field ''ioac'' s_task_io_accounting, Field ''psi_flags'' c_int,
     Field ''acct_rss_mem1'' t_u64, Field ''acct_vm_mem1'' t_u64, Field ''acct_timexpd'' t_u64,
     Field ''mems_allowed'' t_nodemask_t, Field ''mems_allowed_seq'' t_seqcount_spinlock_t,
     Field ''cpuset_mem_spread_rotor'' c_int, Field ''cpuset_slab_spread_rotor'' c_int,
     Field ''cgroups'' c_ptr, Field ''cg_list'' s_list_head, Field ''robust_list'' c_ptr,
     Field ''compat_robust_list'' c_ptr, Field ''pi_state_list'' s_list_head,
     Field ''pi_state_cache'' c_ptr, Field ''futex_exit_mutex'' s_mutex, Field ''futex_state'' c_int,
     Field ''perf_event_ctxp'' (Array c_ptr 2), Field ''perf_event_mutex'' s_mutex,
     Field ''perf_event_list'' s_list_head, Field ''mempolicy'' c_ptr, Field ''il_prev'' c_short,
     Field ''pref_node_fork'' c_short, Field ''numa_scan_seq'' c_int, Field ''numa_scan_period'' c_int,
     Field ''numa_scan_period_max'' c_int, Field ''numa_preferred_nid'' c_int,
     Field ''numa_migrate_retry'' c_long, Field ''node_stamp'' t_u64,
     Field ''last_task_numa_placement'' t_u64, Field ''last_sum_exec_runtime'' t_u64,
     Field ''numa_work'' s_callback_head, Field ''numa_group'' c_ptr, Field ''numa_faults'' c_ptr,
     Field ''total_numa_faults'' c_long, Field ''numa_faults_locality'' (Array c_long 3),
     Field ''numa_pages_migrated'' c_long, Field ''rseq'' c_ptr, Field ''rseq_sig'' t_u32,
     Field ''rseq_event_mask'' c_long, Field ''tlb_ubc'' s_tlbflush_unmap_batch,
     Field '''' (Union [Field ''rcu_users'' t_refcount_t, Field ''rcu'' s_callback_head]),
     Field ''splice_pipe'' c_ptr, Field ''task_frag'' s_page_frag, Field ''delays'' c_ptr,
     Field ''nr_dirtied'' c_int, Field ''nr_dirtied_pause'' c_int, Field ''dirty_paused_when'' c_long,
     Field ''timer_slack_ns'' t_u64, Field ''default_timer_slack_ns'' t_u64,
     Field ''curr_ret_stack'' c_int, Field ''curr_ret_depth'' c_int, Field ''ret_stack'' c_ptr,
     Field ''ftrace_timestamp'' c_long, Field ''trace_overrun'' t_atomic_t,
     Field ''tracing_graph_pause'' t_atomic_t, Field ''trace'' c_long, Field ''trace_recursion'' c_long,
     Field ''memcg_in_oom'' c_ptr, Field ''memcg_oom_gfp_mask'' t_gfp_t,
     Field ''memcg_oom_order'' c_int, Field ''memcg_nr_pages_over_high'' c_int,
     Field ''active_memcg'' c_ptr, Field ''throttle_queue'' c_ptr, Field ''utask'' c_ptr,
     Field ''sequential_io'' c_int, Field ''sequential_io_avg'' c_int, Field ''kmap_ctrl'' s_kmap_ctrl,
     Field ''pagefault_disabled'' c_int, Field ''oom_reaper_list'' c_ptr,
     Field ''oom_reaper_timer'' s_timer_list, Field ''stack_vm_area'' c_ptr,
     Field ''stack_refcount'' t_refcount_t, Field ''security'' c_ptr, Field ''bpf_storage'' c_ptr,
     Field ''bpf_ctx'' c_ptr, Field ''kretprobe_instances'' s_llist_head, Bits '''' c_long 64,
     Field ''thread'' s_thread_struct, Bits '''' c_long 64, Bits '''' c_long 64]"

definition s_wait_queue_head :: ctype where
  "s_wait_queue_head = Struct [
     Field ''lock'' t_spinlock_t, Field ''head'' s_list_head]"

definition t_wait_queue_head_t :: ctype where "t_wait_queue_head_t = s_wait_queue_head"
definition t_work_func_t :: ctype where "t_work_func_t = c_ptr"

definition s_work_struct :: ctype where
  "s_work_struct = Struct [
     Field ''data'' t_atomic_long_t, Field ''entry'' s_list_head, Field ''func'' t_work_func_t]"

definition s_delayed_work :: ctype where
  "s_delayed_work = Struct [
     Field ''work'' s_work_struct, Field ''timer'' s_timer_list, Field ''wq'' c_ptr, Field ''cpu'' c_int]"

definition s_rcu_work :: ctype where
  "s_rcu_work = Struct [
     Field ''work'' s_work_struct, Field ''rcu'' s_callback_head, Field ''wq'' c_ptr]"

definition s_task_cputime :: ctype where
  "s_task_cputime = Struct [
     Field ''stime'' t_u64, Field ''utime'' t_u64, Field ''sum_exec_runtime'' c_long]"

definition s_percpu_ref :: ctype where
  "s_percpu_ref = Struct [
     Field ''percpu_count_ptr'' c_long, Field ''data'' c_ptr]"

definition s_cgroup_subsys_state :: ctype where
  "s_cgroup_subsys_state = Struct [
     Field ''cgroup'' c_ptr, Field ''ss'' c_ptr, Field ''refcnt'' s_percpu_ref,
     Field ''sibling'' s_list_head, Field ''children'' s_list_head,
     Field ''rstat_css_node'' s_list_head, Field ''id'' c_int, Field ''flags'' c_int,
     Field ''serial_nr'' t_u64, Field ''online_cnt'' t_atomic_t, Field ''destroy_work'' s_work_struct,
     Field ''destroy_rwork'' s_rcu_work, Field ''parent'' c_ptr]"

definition s_cgroup_file :: ctype where
  "s_cgroup_file = Struct [
     Field ''kn'' c_ptr, Field ''notified_at'' c_long, Field ''notify_timer'' s_timer_list]"

definition s_cgroup_base_stat :: ctype where
  "s_cgroup_base_stat = Struct [
     Field ''cputime'' s_task_cputime]"

definition s_psi_group :: ctype where
  "s_psi_group = Struct [
     Field ''avgs_lock'' s_mutex, Field ''pcpu'' c_ptr, Field ''avg_total'' (Array t_u64 6),
     Field ''avg_last_update'' t_u64, Field ''avg_next_update'' t_u64,
     Field ''avgs_work'' s_delayed_work, Field ''total'' (Array t_u64 12),
     Field ''avg'' (Array c_long 18), Field ''poll_task'' c_ptr, Field ''poll_timer'' s_timer_list,
     Field ''poll_wait'' t_wait_queue_head_t, Field ''poll_wakeup'' t_atomic_t,
     Field ''trigger_lock'' s_mutex, Field ''triggers'' s_list_head,
     Field ''nr_triggers'' (Array t_u32 6), Field ''poll_states'' t_u32,
     Field ''poll_min_period'' t_u64, Field ''polling_total'' (Array t_u64 6),
     Field ''polling_next_update'' t_u64, Field ''polling_until'' t_u64]"

definition s_cgroup_bpf :: ctype where
  "s_cgroup_bpf = Struct [
     Field ''effective'' (Array c_ptr 23), Field ''progs'' (Array s_list_head 23),
     Field ''flags'' (Array t_u32 23), Field ''storages'' s_list_head, Field ''inactive'' c_ptr,
     Field ''refcnt'' s_percpu_ref, Field ''release_work'' s_work_struct]"

definition s_cgroup_freezer_state :: ctype where
  "s_cgroup_freezer_state = Struct [
     Field ''freeze'' t_bool, Field ''e_freeze'' c_int, Field ''nr_frozen_descendants'' c_int,
     Field ''nr_frozen_tasks'' c_int]"

definition s_cgroup :: ctype where
  "s_cgroup = Struct [
     Field ''self'' s_cgroup_subsys_state, Field ''flags'' c_long, Field ''level'' c_int,
     Field ''max_depth'' c_int, Field ''nr_descendants'' c_int, Field ''nr_dying_descendants'' c_int,
     Field ''max_descendants'' c_int, Field ''nr_populated_csets'' c_int,
     Field ''nr_populated_domain_children'' c_int, Field ''nr_populated_threaded_children'' c_int,
     Field ''nr_threaded_children'' c_int, Field ''kill_seq'' c_int, Field ''kn'' c_ptr,
     Field ''procs_file'' s_cgroup_file, Field ''events_file'' s_cgroup_file,
     Field ''subtree_control'' t_u16, Field ''subtree_ss_mask'' t_u16,
     Field ''old_subtree_control'' t_u16, Field ''old_subtree_ss_mask'' t_u16,
     Field ''subsys'' (Array c_ptr 14), Field ''root'' c_ptr, Field ''cset_links'' s_list_head,
     Field ''e_csets'' (Array s_list_head 14), Field ''dom_cgrp'' c_ptr, Field ''old_dom_cgrp'' c_ptr,
     Field ''rstat_cpu'' c_ptr, Field ''rstat_css_list'' s_list_head,
     Field ''last_bstat'' s_cgroup_base_stat, Field ''bstat'' s_cgroup_base_stat,
     Field ''prev_cputime'' s_prev_cputime, Field ''pidlists'' s_list_head,
     Field ''pidlist_mutex'' s_mutex, Field ''offline_waitq'' t_wait_queue_head_t,
     Field ''release_agent_work'' s_work_struct, Field ''psi'' s_psi_group, Field ''bpf'' s_cgroup_bpf,
     Field ''congestion_count'' t_atomic_t, Field ''freezer'' s_cgroup_freezer_state,
     Field ''ancestor_ids'' (Array t_u64 0)]"

definition s_kernfs_elem_dir :: ctype where
  "s_kernfs_elem_dir = Struct [
     Field ''subdirs'' c_long, Field ''children'' s_rb_root, Field ''root'' c_ptr, Field ''rev'' c_long]"

definition s_kernfs_elem_symlink :: ctype where
  "s_kernfs_elem_symlink = Struct [
     Field ''target_kn'' c_ptr]"

definition s_kernfs_elem_attr :: ctype where
  "s_kernfs_elem_attr = Struct [
     Field ''ops'' c_ptr, Field ''open'' c_ptr, Field ''size'' t_loff_t, Field ''notify_next'' c_ptr]"

definition s_kernfs_node :: ctype where
  "s_kernfs_node = Struct [
     Field ''count'' t_atomic_t, Field ''active'' t_atomic_t, Field ''parent'' c_ptr,
     Field ''name'' c_ptr, Field ''rb'' s_rb_node, Field ''ns'' c_ptr, Field ''hash'' c_int,
     Field '''' (Union [Field ''dir'' s_kernfs_elem_dir, Field ''symlink'' s_kernfs_elem_symlink, Field ''attr'' s_kernfs_elem_attr]),
     Field ''priv'' c_ptr, Field ''id'' t_u64, Field ''flags'' c_short, Field ''mode'' t_umode_t,
     Field ''iattr'' c_ptr]"

definition s_sk_buff_head :: ctype where
  "s_sk_buff_head = Struct [
     Field ''next'' c_ptr, Field ''prev'' c_ptr, Field ''qlen'' t___u32, Field ''lock'' t_spinlock_t]"

definition s_in6_addr :: ctype where
  "s_in6_addr = Struct [
     Field ''in6_u'' (Union [Field ''u6_addr8'' (Array t___u8 16), Field ''u6_addr16'' (Array t___be16 8), Field ''u6_addr32'' (Array t___be32 4)])]"

definition s_hlist_nulls_node :: ctype where
  "s_hlist_nulls_node = Struct [
     Field ''next'' c_ptr, Field ''pprev'' c_ptr]"

definition t___be64 :: ctype where "t___be64 = t___u64"
definition t___addrpair :: ctype where "t___addrpair = t___u64"
definition t___portpair :: ctype where "t___portpair = t___u32"

definition t_possible_net_t :: ctype where
  "t_possible_net_t = Struct [
     Field ''net'' c_ptr]"

definition s_sock_common :: ctype where
  "s_sock_common = Struct [
     Field '''' (Union [Field ''skc_addrpair'' t___addrpair, Field '''' (Struct [Field ''skc_daddr'' t___be32, Field ''skc_rcv_saddr'' t___be32])]),
     Field '''' (Union [Field ''skc_hash'' c_int, Field ''skc_u16hashes'' (Array t___u16 2)]),
     Field '''' (Union [Field ''skc_portpair'' t___portpair, Field '''' (Struct [Field ''skc_dport'' t___be16, Field ''skc_num'' t___u16])]),
     Field ''skc_family'' c_short, Field ''skc_state'' c_char, Bits ''skc_reuse'' c_char 4,
     Bits ''skc_reuseport'' c_char 1, Bits ''skc_ipv6only'' c_char 1, Bits ''skc_net_refcnt'' c_char 1,
     Field ''skc_bound_dev_if'' c_int,
     Field '''' (Union [Field ''skc_bind_node'' s_hlist_node, Field ''skc_portaddr_node'' s_hlist_node]),
     Field ''skc_prot'' c_ptr, Field ''skc_net'' t_possible_net_t, Field ''skc_v6_daddr'' s_in6_addr,
     Field ''skc_v6_rcv_saddr'' s_in6_addr, Field ''skc_cookie'' t_atomic64_t,
     Field '''' (Union [Field ''skc_flags'' c_long, Field ''skc_listener'' c_ptr, Field ''skc_tw_dr'' c_ptr]),
     Field ''skc_dontcopy_begin'' (Array c_int 0),
     Field '''' (Union [Field ''skc_node'' s_hlist_node, Field ''skc_nulls_node'' s_hlist_nulls_node]),
     Field ''skc_tx_queue_mapping'' c_short, Field ''skc_rx_queue_mapping'' c_short,
     Field '''' (Union [Field ''skc_incoming_cpu'' c_int, Field ''skc_rcv_wnd'' t_u32, Field ''skc_tw_rcv_nxt'' t_u32]),
     Field ''skc_refcnt'' t_refcount_t, Field ''skc_dontcopy_end'' (Array c_int 0),
     Field '''' (Union [Field ''skc_rxhash'' t_u32, Field ''skc_window_clamp'' t_u32, Field ''skc_tw_snd_nxt'' t_u32])]"

definition t_socket_lock_t :: ctype where
  "t_socket_lock_t = Struct [
     Field ''slock'' t_spinlock_t, Field ''owned'' c_int, Field ''wq'' t_wait_queue_head_t]"

definition t_netdev_features_t :: ctype where "t_netdev_features_t = t_u64"

definition s_sock_cgroup_data :: ctype where
  "s_sock_cgroup_data = Struct [
     Field ''cgroup'' c_ptr, Field ''classid'' t_u32, Field ''prioidx'' t_u16]"

definition s_sock :: ctype where
  "s_sock = Struct [
     Field ''__sk_common'' s_sock_common, Field ''sk_lock'' t_socket_lock_t,
     Field ''sk_drops'' t_atomic_t, Field ''sk_rcvlowat'' c_int,
     Field ''sk_error_queue'' s_sk_buff_head, Field ''sk_rx_skb_cache'' c_ptr,
     Field ''sk_receive_queue'' s_sk_buff_head,
     Field ''sk_backlog'' (Struct [Field ''rmem_alloc'' t_atomic_t, Field ''len'' c_int, Field ''head'' c_ptr, Field ''tail'' c_ptr]),
     Field ''sk_forward_alloc'' c_int, Field ''sk_ll_usec'' c_int, Field ''sk_napi_id'' c_int,
     Field ''sk_rcvbuf'' c_int, Field ''sk_wait_pending'' c_int, Field ''sk_filter'' c_ptr,
     Field '''' (Union [Field ''sk_wq'' c_ptr, Field ''sk_wq_raw'' c_ptr]),
     Field ''sk_policy'' (Array c_ptr 2), Field ''sk_rx_dst'' c_ptr, Field ''sk_rx_dst_ifindex'' c_int,
     Field ''sk_rx_dst_cookie'' t_u32, Field ''sk_dst_cache'' c_ptr, Field ''sk_omem_alloc'' t_atomic_t,
     Field ''sk_sndbuf'' c_int, Field ''sk_wmem_queued'' c_int, Field ''sk_wmem_alloc'' t_refcount_t,
     Field ''sk_tsq_flags'' c_long,
     Field '''' (Union [Field ''sk_send_head'' c_ptr, Field ''tcp_rtx_queue'' s_rb_root]),
     Field ''sk_tx_skb_cache'' c_ptr, Field ''sk_write_queue'' s_sk_buff_head,
     Field ''sk_peek_off'' t___s32, Field ''sk_write_pending'' c_int,
     Field ''sk_dst_pending_confirm'' t___u32, Field ''sk_pacing_status'' t_u32,
     Field ''sk_sndtimeo'' c_long, Field ''sk_timer'' s_timer_list, Field ''sk_priority'' t___u32,
     Field ''sk_mark'' t___u32, Field ''sk_pacing_rate'' c_long, Field ''sk_max_pacing_rate'' c_long,
     Field ''sk_frag'' s_page_frag, Field ''sk_route_caps'' t_netdev_features_t,
     Field ''sk_route_nocaps'' t_netdev_features_t, Field ''sk_route_forced_caps'' t_netdev_features_t,
     Field ''sk_gso_type'' c_int, Field ''sk_gso_max_size'' c_int, Field ''sk_allocation'' t_gfp_t,
     Field ''sk_txhash'' t___u32, Bits ''sk_padding'' t_u8 1, Bits ''sk_kern_sock'' t_u8 1,
     Bits ''sk_no_check_tx'' t_u8 1, Bits ''sk_no_check_rx'' t_u8 1, Bits ''sk_userlocks'' t_u8 4,
     Field ''sk_pacing_shift'' t_u8, Field ''sk_type'' t_u16, Field ''sk_protocol'' t_u16,
     Field ''sk_gso_max_segs'' t_u16, Field ''sk_lingertime'' c_long, Field ''sk_prot_creator'' c_ptr,
     Field ''sk_callback_lock'' t_rwlock_t, Field ''sk_err'' c_int, Field ''sk_err_soft'' c_int,
     Field ''sk_ack_backlog'' t_u32, Field ''sk_max_ack_backlog'' t_u32, Field ''sk_uid'' t_kuid_t,
     Field ''sk_prefer_busy_poll'' t_u8, Field ''sk_busy_poll_budget'' t_u16,
     Field ''sk_peer_lock'' t_spinlock_t, Field ''sk_peer_pid'' c_ptr, Field ''sk_peer_cred'' c_ptr,
     Field ''sk_rcvtimeo'' c_long, Field ''sk_stamp'' t_ktime_t, Field ''sk_tsflags'' t_u16,
     Field ''sk_bind_phc'' c_int, Field ''sk_shutdown'' t_u8, Field ''sk_tskey'' t_atomic_t,
     Field ''sk_zckey'' t_atomic_t, Field ''sk_clockid'' t_u8, Bits ''sk_txtime_deadline_mode'' t_u8 1,
     Bits ''sk_txtime_report_errors'' t_u8 1, Bits ''sk_txtime_unused'' t_u8 6,
     Field ''sk_socket'' c_ptr, Field ''sk_user_data'' c_ptr, Field ''sk_security'' c_ptr,
     Field ''sk_cgrp_data'' s_sock_cgroup_data, Field ''sk_memcg'' c_ptr,
     Field ''sk_state_change'' c_ptr, Field ''sk_data_ready'' c_ptr, Field ''sk_write_space'' c_ptr,
     Field ''sk_error_report'' c_ptr, Field ''sk_backlog_rcv'' c_ptr,
     Field ''sk_validate_xmit_skb'' c_ptr, Field ''sk_destruct'' c_ptr, Field ''sk_reuseport_cb'' c_ptr,
     Field ''sk_bpf_storage'' c_ptr, Field ''sk_rcu'' s_callback_head]"

definition s_flowi_tunnel :: ctype where
  "s_flowi_tunnel = Struct [
     Field ''tun_id'' t___be64]"

definition s_flowi_common :: ctype where
  "s_flowi_common = Struct [
     Field ''flowic_oif'' c_int, Field ''flowic_iif'' c_int, Field ''flowic_l3mdev'' c_int,
     Field ''flowic_mark'' t___u32, Field ''flowic_tos'' t___u8, Field ''flowic_scope'' t___u8,
     Field ''flowic_proto'' t___u8, Field ''flowic_flags'' t___u8, Field ''flowic_secid'' t___u32,
     Field ''flowic_uid'' t_kuid_t, Field ''flowic_multipath_hash'' t___u32,
     Field ''flowic_tun_key'' s_flowi_tunnel]"

definition un_flowi_uli :: ctype where
  "un_flowi_uli = Union [
     Field ''ports'' (Struct [Field ''dport'' t___be16, Field ''sport'' t___be16]),
     Field ''icmpt'' (Struct [Field ''type'' t___u8, Field ''code'' t___u8]),
     Field ''gre_key'' t___be32, Field ''mht'' (Struct [Field ''type'' t___u8])]"

definition s_flowi4 :: ctype where
  "s_flowi4 = Struct [
     Field ''__fl_common'' s_flowi_common, Field ''saddr'' t___be32, Field ''daddr'' t___be32,
     Field ''uli'' un_flowi_uli]"

definition s_flowi6 :: ctype where
  "s_flowi6 = Struct [
     Field ''__fl_common'' s_flowi_common, Field ''daddr'' s_in6_addr, Field ''saddr'' s_in6_addr,
     Field ''flowlabel'' t___be32, Field ''uli'' un_flowi_uli, Field ''mp_hash'' t___u32]"

definition s_flowi :: ctype where
  "s_flowi = Struct [
     Field ''u'' (Union [Field ''__fl_common'' s_flowi_common, Field ''ip4'' s_flowi4, Field ''ip6'' s_flowi6])]"

definition s_request_sock :: ctype where
  "s_request_sock = Struct [
     Field ''__req_common'' s_sock_common, Field ''dl_next'' c_ptr, Field ''mss'' t_u16,
     Field ''num_retrans'' t_u8, Bits ''syncookie'' t_u8 1, Bits ''num_timeout'' t_u8 7,
     Field ''ts_recent'' t_u32, Field ''rsk_timer'' s_timer_list, Field ''rsk_ops'' c_ptr,
     Field ''sk'' c_ptr, Field ''saved_syn'' c_ptr, Field ''secid'' t_u32, Field ''peer_secid'' t_u32,
     Field ''timeout'' t_u32]"

definition s_inet_cork :: ctype where
  "s_inet_cork = Struct [
     Field ''flags'' c_int, Field ''addr'' t___be32, Field ''opt'' c_ptr, Field ''fragsize'' c_int,
     Field ''length'' c_int, Field ''dst'' c_ptr, Field ''tx_flags'' t_u8, Field ''ttl'' t___u8,
     Field ''tos'' t___s16, Field ''priority'' c_char, Field ''gso_size'' t___u16,
     Field ''transmit_time'' t_u64, Field ''mark'' t_u32]"

definition s_inet_cork_full :: ctype where
  "s_inet_cork_full = Struct [
     Field ''base'' s_inet_cork, Field ''fl'' s_flowi]"

definition s_inet_sock :: ctype where
  "s_inet_sock = Struct [
     Field ''sk'' s_sock, Field ''pinet6'' c_ptr, Field ''inet_saddr'' t___be32,
     Field ''uc_ttl'' t___s16, Field ''cmsg_flags'' t___u16, Field ''inet_opt'' c_ptr,
     Field ''inet_sport'' t___be16, Field ''inet_id'' t___u16, Field ''tos'' t___u8,
     Field ''min_ttl'' t___u8, Field ''mc_ttl'' t___u8, Field ''pmtudisc'' t___u8,
     Bits ''recverr'' t___u8 1, Bits ''is_icsk'' t___u8 1, Bits ''freebind'' t___u8 1,
     Bits ''hdrincl'' t___u8 1, Bits ''mc_loop'' t___u8 1, Bits ''transparent'' t___u8 1,
     Bits ''mc_all'' t___u8 1, Bits ''nodefrag'' t___u8 1, Bits ''bind_address_no_port'' t___u8 1,
     Bits ''recverr_rfc4884'' t___u8 1, Bits ''defer_connect'' t___u8 1, Field ''rcv_tos'' t___u8,
     Field ''convert_csum'' t___u8, Field ''uc_index'' c_int, Field ''mc_index'' c_int,
     Field ''mc_addr'' t___be32, Field ''mc_list'' c_ptr, Field ''cork'' s_inet_cork_full]"

definition s_in6_pktinfo :: ctype where
  "s_in6_pktinfo = Struct [
     Field ''ipi6_addr'' s_in6_addr, Field ''ipi6_ifindex'' c_int]"

definition s_inet6_cork :: ctype where
  "s_inet6_cork = Struct [
     Field ''opt'' c_ptr, Field ''hop_limit'' t_u8, Field ''tclass'' t_u8]"

definition s_ipv6_pinfo :: ctype where
  "s_ipv6_pinfo = Struct [
     Field ''saddr'' s_in6_addr, Field ''sticky_pktinfo'' s_in6_pktinfo, Field ''daddr_cache'' c_ptr,
     Field ''saddr_cache'' c_ptr, Field ''flow_label'' t___be32, Field ''frag_size'' t___u32,
     Bits ''__unused_1'' t___u16 7, Bits ''hop_limit'' t___s16 9, Bits ''mc_loop'' t___u16 1,
     Bits ''__unused_2'' t___u16 6, Bits ''mcast_hops'' t___s16 9, Field ''ucast_oif'' c_int,
     Field ''mcast_oif'' c_int,
     Field ''rxopt'' (Union [Field ''bits'' (Struct [Bits ''srcrt'' t___u16 1, Bits ''osrcrt'' t___u16 1, Bits ''rxinfo'' t___u16 1, Bits ''rxoinfo'' t___u16 1, Bits ''rxhlim'' t___u16 1, Bits ''rxohlim'' t___u16 1, Bits ''hopopts'' t___u16 1, Bits ''ohopopts'' t___u16 1, Bits ''dstopts'' t___u16 1, Bits ''odstopts'' t___u16 1, Bits ''rxflow'' t___u16 1, Bits ''rxtclass'' t___u16 1, Bits ''rxpmtu'' t___u16 1, Bits ''rxorigdstaddr'' t___u16 1, Bits ''recvfragsize'' t___u16 1]), Field ''all'' t___u16]),
     Bits ''recverr'' t___u16 1, Bits ''sndflow'' t___u16 1, Bits ''repflow'' t___u16 1,
     Bits ''pmtudisc'' t___u16 3, Bits ''padding'' t___u16 1, Bits ''srcprefs'' t___u16 3,
     Bits ''dontfrag'' t___u16 1, Bits ''autoflowlabel'' t___u16 1,
     Bits ''autoflowlabel_set'' t___u16 1, Bits ''mc_all'' t___u16 1,
     Bits ''recverr_rfc4884'' t___u16 1, Bits ''rtalert_isolate'' t___u16 1,
     Field ''min_hopcount'' t___u8, Field ''tclass'' t___u8, Field ''rcv_flowinfo'' t___be32,
     Field ''dst_cookie'' t___u32, Field ''ipv6_mc_list'' c_ptr, Field ''ipv6_ac_list'' c_ptr,
     Field ''ipv6_fl_list'' c_ptr, Field ''opt'' c_ptr, Field ''pktoptions'' c_ptr,
     Field ''rxpmtu'' c_ptr, Field ''cork'' s_inet6_cork]"

definition s_minmax_sample :: ctype where
  "s_minmax_sample = Struct [
     Field ''t'' t_u32, Field ''v'' t_u32]"

definition s_minmax :: ctype where
  "s_minmax = Struct [
     Field ''s'' (Array s_minmax_sample 3)]"

definition s_fastopen_queue :: ctype where
  "s_fastopen_queue = Struct [
     Field ''rskq_rst_head'' c_ptr, Field ''rskq_rst_tail'' c_ptr, Field ''lock'' t_spinlock_t,
     Field ''qlen'' c_int, Field ''max_qlen'' c_int, Field ''ctx'' c_ptr]"

definition s_request_sock_queue :: ctype where
  "s_request_sock_queue = Struct [
     Field ''rskq_lock'' t_spinlock_t, Field ''rskq_defer_accept'' t_u8,
     Field ''synflood_warned'' t_u32, Field ''qlen'' t_atomic_t, Field ''young'' t_atomic_t,
     Field ''rskq_accept_head'' c_ptr, Field ''rskq_accept_tail'' c_ptr,
     Field ''fastopenq'' s_fastopen_queue]"

definition s_inet_connection_sock :: ctype where
  "s_inet_connection_sock = Struct [
     Field ''icsk_inet'' s_inet_sock, Field ''icsk_accept_queue'' s_request_sock_queue,
     Field ''icsk_bind_hash'' c_ptr, Field ''icsk_timeout'' c_long,
     Field ''icsk_retransmit_timer'' s_timer_list, Field ''icsk_delack_timer'' s_timer_list,
     Field ''icsk_rto'' t___u32, Field ''icsk_rto_min'' t___u32, Field ''icsk_delack_max'' t___u32,
     Field ''icsk_pmtu_cookie'' t___u32, Field ''icsk_ca_ops'' c_ptr, Field ''icsk_af_ops'' c_ptr,
     Field ''icsk_ulp_ops'' c_ptr, Field ''icsk_ulp_data'' c_ptr, Field ''icsk_clean_acked'' c_ptr,
     Field ''icsk_sync_mss'' c_ptr, Bits ''icsk_ca_state'' t___u8 5,
     Bits ''icsk_ca_initialized'' t___u8 1, Bits ''icsk_ca_setsockopt'' t___u8 1,
     Bits ''icsk_ca_dst_locked'' t___u8 1, Field ''icsk_retransmits'' t___u8,
     Field ''icsk_pending'' t___u8, Field ''icsk_backoff'' t___u8, Field ''icsk_syn_retries'' t___u8,
     Field ''icsk_probes_out'' t___u8, Field ''icsk_ext_hdr_len'' t___u16,
     Field ''icsk_ack'' (Struct [Field ''pending'' t___u8, Field ''quick'' t___u8, Field ''pingpong'' t___u8, Field ''retry'' t___u8, Field ''ato'' t___u32, Field ''timeout'' c_long, Field ''lrcvtime'' t___u32, Field ''last_seg_size'' t___u16, Field ''rcv_mss'' t___u16]),
     Field ''icsk_mtup'' (Struct [Field ''search_high'' c_int, Field ''search_low'' c_int, Bits ''probe_size'' t_u32 31, Bits ''enabled'' t_u32 1, Field ''probe_timestamp'' t_u32]),
     Field ''icsk_probes_tstamp'' t_u32, Field ''icsk_user_timeout'' t_u32,
     Field ''icsk_ca_priv'' (Array t_u64 13)]"

definition s_tcp_sack_block :: ctype where
  "s_tcp_sack_block = Struct [
     Field ''start_seq'' t_u32, Field ''end_seq'' t_u32]"

definition s_tcp_options_received :: ctype where
  "s_tcp_options_received = Struct [
     Field ''ts_recent_stamp'' c_int, Field ''ts_recent'' t_u32, Field ''rcv_tsval'' t_u32,
     Field ''rcv_tsecr'' t_u32, Bits ''saw_tstamp'' t_u16 1, Bits ''tstamp_ok'' t_u16 1,
     Bits ''dsack'' t_u16 1, Bits ''wscale_ok'' t_u16 1, Bits ''sack_ok'' t_u16 3,
     Bits ''smc_ok'' t_u16 1, Bits ''snd_wscale'' t_u16 4, Bits ''rcv_wscale'' t_u16 4,
     Bits ''saw_unknown'' t_u8 1, Bits ''unused'' t_u8 7, Field ''num_sacks'' t_u8,
     Field ''user_mss'' t_u16, Field ''mss_clamp'' t_u16]"

definition s_tcp_rack :: ctype where
  "s_tcp_rack = Struct [
     Field ''mstamp'' t_u64, Field ''rtt_us'' t_u32, Field ''end_seq'' t_u32,
     Field ''last_delivered'' t_u32, Field ''reo_wnd_steps'' t_u8, Bits ''reo_wnd_persist'' t_u8 5,
     Bits ''dsack_seen'' t_u8 1, Bits ''advanced'' t_u8 1]"

definition s_tcp_sock :: ctype where
  "s_tcp_sock = Struct [
     Field ''inet_conn'' s_inet_connection_sock, Field ''tcp_header_len'' t_u16,
     Field ''gso_segs'' t_u16, Field ''pred_flags'' t___be32, Field ''bytes_received'' t_u64,
     Field ''segs_in'' t_u32, Field ''data_segs_in'' t_u32, Field ''rcv_nxt'' t_u32,
     Field ''copied_seq'' t_u32, Field ''rcv_wup'' t_u32, Field ''snd_nxt'' t_u32,
     Field ''segs_out'' t_u32, Field ''data_segs_out'' t_u32, Field ''bytes_sent'' t_u64,
     Field ''bytes_acked'' t_u64, Field ''dsack_dups'' t_u32, Field ''snd_una'' t_u32,
     Field ''snd_sml'' t_u32, Field ''rcv_tstamp'' t_u32, Field ''lsndtime'' t_u32,
     Field ''last_oow_ack_time'' t_u32, Field ''compressed_ack_rcv_nxt'' t_u32,
     Field ''tsoffset'' t_u32, Field ''tsq_node'' s_list_head, Field ''tsorted_sent_queue'' s_list_head,
     Field ''snd_wl1'' t_u32, Field ''snd_wnd'' t_u32, Field ''max_window'' t_u32,
     Field ''mss_cache'' t_u32, Field ''window_clamp'' t_u32, Field ''rcv_ssthresh'' t_u32,
     Field ''rack'' s_tcp_rack, Field ''advmss'' t_u16, Field ''compressed_ack'' t_u8,
     Bits ''dup_ack_counter'' t_u8 2, Bits ''tlp_retrans'' t_u8 1, Bits ''unused'' t_u8 5,
     Field ''chrono_start'' t_u32, Field ''chrono_stat'' (Array t_u32 3), Bits ''chrono_type'' t_u8 2,
     Bits ''rate_app_limited'' t_u8 1, Bits ''fastopen_connect'' t_u8 1,
     Bits ''fastopen_no_cookie'' t_u8 1, Bits ''is_sack_reneg'' t_u8 1,
     Bits ''fastopen_client_fail'' t_u8 2, Bits ''nonagle'' t_u8 4, Bits ''thin_lto'' t_u8 1,
     Bits ''recvmsg_inq'' t_u8 1, Bits ''repair'' t_u8 1, Bits ''frto'' t_u8 1,
     Field ''repair_queue'' t_u8, Bits ''save_syn'' t_u8 2, Bits ''syn_data'' t_u8 1,
     Bits ''syn_fastopen'' t_u8 1, Bits ''syn_fastopen_exp'' t_u8 1, Bits ''syn_fastopen_ch'' t_u8 1,
     Bits ''syn_data_acked'' t_u8 1, Bits ''is_cwnd_limited'' t_u8 1, Field ''tlp_high_seq'' t_u32,
     Field ''tcp_tx_delay'' t_u32, Field ''tcp_wstamp_ns'' t_u64, Field ''tcp_clock_cache'' t_u64,
     Field ''tcp_mstamp'' t_u64, Field ''srtt_us'' t_u32, Field ''mdev_us'' t_u32,
     Field ''mdev_max_us'' t_u32, Field ''rttvar_us'' t_u32, Field ''rtt_seq'' t_u32,
     Field ''rtt_min'' s_minmax, Field ''packets_out'' t_u32, Field ''retrans_out'' t_u32,
     Field ''max_packets_out'' t_u32, Field ''cwnd_usage_seq'' t_u32, Field ''urg_data'' t_u16,
     Field ''ecn_flags'' t_u8, Field ''keepalive_probes'' t_u8, Field ''reordering'' t_u32,
     Field ''reord_seen'' t_u32, Field ''snd_up'' t_u32, Field ''rx_opt'' s_tcp_options_received,
     Field ''snd_ssthresh'' t_u32, Field ''snd_cwnd'' t_u32, Field ''snd_cwnd_cnt'' t_u32,
     Field ''snd_cwnd_clamp'' t_u32, Field ''snd_cwnd_used'' t_u32, Field ''snd_cwnd_stamp'' t_u32,
     Field ''prior_cwnd'' t_u32, Field ''prr_delivered'' t_u32, Field ''prr_out'' t_u32,
     Field ''delivered'' t_u32, Field ''delivered_ce'' t_u32, Field ''lost'' t_u32,
     Field ''app_limited'' t_u32, Field ''first_tx_mstamp'' t_u64, Field ''delivered_mstamp'' t_u64,
     Field ''rate_delivered'' t_u32, Field ''rate_interval_us'' t_u32, Field ''rcv_wnd'' t_u32,
     Field ''write_seq'' t_u32, Field ''notsent_lowat'' t_u32, Field ''pushed_seq'' t_u32,
     Field ''lost_out'' t_u32, Field ''sacked_out'' t_u32, Field ''pacing_timer'' s_hrtimer,
     Field ''compressed_ack_timer'' s_hrtimer, Field ''lost_skb_hint'' c_ptr,
     Field ''retransmit_skb_hint'' c_ptr, Field ''out_of_order_queue'' s_rb_root,
     Field ''ooo_last_skb'' c_ptr, Field ''duplicate_sack'' (Array s_tcp_sack_block 1),
     Field ''selective_acks'' (Array s_tcp_sack_block 4),
     Field ''recv_sack_cache'' (Array s_tcp_sack_block 4), Field ''highest_sack'' c_ptr,
     Field ''lost_cnt_hint'' c_int, Field ''prior_ssthresh'' t_u32, Field ''high_seq'' t_u32,
     Field ''retrans_stamp'' t_u32, Field ''undo_marker'' t_u32, Field ''undo_retrans'' c_int,
     Field ''bytes_retrans'' t_u64, Field ''total_retrans'' t_u32, Field ''urg_seq'' t_u32,
     Field ''keepalive_time'' c_int, Field ''keepalive_intvl'' c_int, Field ''linger2'' c_int,
     Field ''bpf_sock_ops_cb_flags'' t_u8, Field ''timeout_rehash'' t_u16, Field ''rcv_ooopack'' t_u32,
     Field ''rcv_rtt_last_tsecr'' t_u32,
     Field ''rcv_rtt_est'' (Struct [Field ''rtt_us'' t_u32, Field ''seq'' t_u32, Field ''time'' t_u64]),
     Field ''rcvq_space'' (Struct [Field ''space'' t_u32, Field ''seq'' t_u32, Field ''time'' t_u64]),
     Field ''mtu_probe'' (Struct [Field ''probe_seq_start'' t_u32, Field ''probe_seq_end'' t_u32]),
     Field ''mtu_info'' t_u32, Field ''is_mptcp'' t_bool, Field ''syn_smc'' t_bool,
     Field ''af_specific'' c_ptr, Field ''md5sig_info'' c_ptr, Field ''fastopen_req'' c_ptr,
     Field ''fastopen_rsk'' c_ptr, Field ''saved_syn'' c_ptr]"

definition s_inet_request_sock :: ctype where
  "s_inet_request_sock = Struct [
     Field ''req'' s_request_sock, Bits ''snd_wscale'' t_u16 4, Bits ''rcv_wscale'' t_u16 4,
     Bits ''tstamp_ok'' t_u16 1, Bits ''sack_ok'' t_u16 1, Bits ''wscale_ok'' t_u16 1,
     Bits ''ecn_ok'' t_u16 1, Bits ''acked'' t_u16 1, Bits ''no_srccheck'' t_u16 1,
     Bits ''smc_ok'' t_u16 1, Field ''ir_mark'' t_u32,
     Field '''' (Union [Field ''ireq_opt'' c_ptr, Field '''' (Struct [Field ''ipv6_opt'' c_ptr, Field ''pktopts'' c_ptr])])]"

definition s_tcp_request_sock :: ctype where
  "s_tcp_request_sock = Struct [
     Field ''req'' s_inet_request_sock, Field ''af_specific'' c_ptr, Field ''snt_synack'' t_u64,
     Field ''tfo_listener'' t_bool, Field ''is_mptcp'' t_bool, Field ''drop_req'' t_bool,
     Field ''txhash'' t_u32, Field ''rcv_isn'' t_u32, Field ''snt_isn'' t_u32, Field ''ts_off'' t_u32,
     Field ''last_oow_ack_time'' t_u32, Field ''rcv_nxt'' t_u32, Field ''syn_tos'' t_u8]"

definition s_inet_timewait_sock :: ctype where
  "s_inet_timewait_sock = Struct [
     Field ''__tw_common'' s_sock_common, Field ''tw_mark'' t___u32, Field ''tw_substate'' c_char,
     Field ''tw_rcv_wscale'' c_char, Field ''tw_sport'' t___be16, Bits ''tw_kill'' c_int 1,
     Bits ''tw_transparent'' c_int 1, Bits ''tw_flowlabel'' c_int 20, Bits ''tw_pad'' c_int 2,
     Bits ''tw_tos'' c_int 8, Field ''tw_txhash'' t_u32, Field ''tw_priority'' t_u32,
     Field ''tw_timer'' s_timer_list, Field ''tw_tb'' c_ptr]"

definition s_tcp_timewait_sock :: ctype where
  "s_tcp_timewait_sock = Struct [
     Field ''tw_sk'' s_inet_timewait_sock, Field ''tw_rcv_wnd'' t_u32, Field ''tw_ts_offset'' t_u32,
     Field ''tw_ts_recent'' t_u32, Field ''tw_last_oow_ack_time'' t_u32,
     Field ''tw_ts_recent_stamp'' c_int, Field ''tw_tx_delay'' t_u32, Field ''tw_md5_key'' c_ptr]"

definition s_tcp6_sock :: ctype where
  "s_tcp6_sock = Struct [
     Field ''tcp'' s_tcp_sock, Field ''inet6'' s_ipv6_pinfo]"

definition s_icmp_filter :: ctype where
  "s_icmp_filter = Struct [
     Field ''data'' t___u32]"

definition s_raw_sock :: ctype where
  "s_raw_sock = Struct [
     Field ''inet'' s_inet_sock, Field ''filter'' s_icmp_filter, Field ''ipmr_table'' t_u32]"


lemmas vmlinux_defs =
  t___u8_def t___s16_def t___u16_def t___s32_def t___u32_def t___s64_def
  t___u64_def t_u8_def t_u16_def t_u32_def t_s64_def t_u64_def
  t___kernel_ulong_t_def t___kernel_pid_t_def t___kernel_uid32_t_def t___kernel_size_t_def t___kernel_loff_t_def t___kernel_clockid_t_def
  t___be16_def t___be32_def t_umode_t_def t_pid_t_def t_clockid_t_def t_bool_def
  t_uid_t_def t_loff_t_def t_size_t_def t_gfp_t_def t_atomic_t_def t_atomic64_t_def
  s_list_head_def s_hlist_head_def s_hlist_node_def s_callback_head_def t_atomic_long_t_def s_qspinlock_def
  t_arch_spinlock_t_def s_qrwlock_def t_arch_rwlock_t_def s_raw_spinlock_def t_raw_spinlock_t_def s_spinlock_def
  t_spinlock_t_def t_rwlock_t_def s_cpumask_def t_cpumask_t_def s_llist_head_def s_llist_node_def
  s___call_single_node_def s_restart_block_def s_thread_info_def s_refcount_struct_def t_refcount_t_def s_load_weight_def
  s_rb_node_def s_util_est_def s_sched_avg_def s_sched_entity_def s_sched_rt_entity_def t_ktime_t_def
  s_timerqueue_node_def s_hrtimer_def s_sched_dl_entity_def s_uclamp_se_def s_sched_statistics_def un_rcu_special_def
  s_sched_info_def s_plist_node_def s_vmacache_def s_task_rss_stat_def s_prev_cputime_def s_rb_root_def
  s_rb_root_cached_def s_timerqueue_head_def s_posix_cputimer_base_def s_posix_cputimers_def s_sysv_sem_def s_sysv_shm_def
  t_sigset_t_def s_sigpending_def t_kuid_t_def s_seccomp_def s_syscall_user_dispatch_def s_wake_q_node_def
  s_task_io_accounting_def t_nodemask_t_def s_seqcount_def t_seqcount_t_def s_seqcount_spinlock_def t_seqcount_spinlock_t_def
  s_optimistic_spin_queue_def s_mutex_def s_tlbflush_unmap_batch_def s_page_frag_def s_kmap_ctrl_def s_timer_list_def
  s_cpu_context_def s_user_fpsimd_state_def s_debug_info_def s_ptrauth_key_def s_ptrauth_keys_user_def s_ptrauth_keys_kernel_def
  s_thread_struct_def s_task_struct_def s_wait_queue_head_def t_wait_queue_head_t_def t_work_func_t_def s_work_struct_def
  s_delayed_work_def s_rcu_work_def s_task_cputime_def s_percpu_ref_def s_cgroup_subsys_state_def s_cgroup_file_def
  s_cgroup_base_stat_def s_psi_group_def s_cgroup_bpf_def s_cgroup_freezer_state_def s_cgroup_def s_kernfs_elem_dir_def
  s_kernfs_elem_symlink_def s_kernfs_elem_attr_def s_kernfs_node_def s_sk_buff_head_def s_in6_addr_def s_hlist_nulls_node_def
  t___be64_def t___addrpair_def t___portpair_def t_possible_net_t_def s_sock_common_def t_socket_lock_t_def
  t_netdev_features_t_def s_sock_cgroup_data_def s_sock_def s_flowi_tunnel_def s_flowi_common_def un_flowi_uli_def
  s_flowi4_def s_flowi6_def s_flowi_def s_request_sock_def s_inet_cork_def s_inet_cork_full_def
  s_inet_sock_def s_in6_pktinfo_def s_inet6_cork_def s_ipv6_pinfo_def s_minmax_sample_def s_minmax_def
  s_fastopen_queue_def s_request_sock_queue_def s_inet_connection_sock_def s_tcp_sack_block_def s_tcp_options_received_def s_tcp_rack_def
  s_tcp_sock_def s_inet_request_sock_def s_tcp_request_sock_def s_inet_timewait_sock_def s_tcp_timewait_sock_def s_tcp6_sock_def
  s_icmp_filter_def s_raw_sock_def

end
