(* ===== verification/Core_Read.thy ===== *)
theory Core_Read
  imports Vmlinux Ko_Tracer "HOL-Library.Monad_Syntax"
begin

text \<open>
  The CO-RE reads of \<^verbatim>\<open>bpf_core_read.h\<close> over kernel memory, and the socket and cgroup fields
  the tracer reads with them, at the offsets of the records of \<^verbatim>\<open>vmlinux.h\<close>. \<open>kmem\<close> is the
  byte that a probe read stores for an address. An accessor is the record that a pointer
  points to and the member designator after its arrow; \<open>None\<close> stands for a designator that
  does not name a member, which the compiler rejects. On another kernel the loader rewrites
  the offsets; what is shown here is shown for the layout of the header.
\<close>

type_synonym kmem = "u64 \<Rightarrow> u8"
type_synonym accessor = "ctype \<times> string list"

definition bpf_probe_read_kernel :: "kmem \<Rightarrow> nat \<Rightarrow> u64 \<Rightarrow> bytes" where
  "bpf_probe_read_kernel mem sz src = map (\<lambda>i. mem (src + of_nat i)) [0..<sz]"

definition core_read1 :: "kmem \<Rightarrow> nat \<Rightarrow> u64 \<Rightarrow> accessor \<Rightarrow> bytes option" where
  "core_read1 mem sz src acc =
     (case offset_of (fst acc) (snd acc) of
        None \<Rightarrow> None
      | Some (off, t) \<Rightarrow> Some (bpf_probe_read_kernel mem sz (src + of_int off)))"

text \<open>\<^verbatim>\<open>___read_ptrs\<close>: chase the inner pointers through the local \<^verbatim>\<open>__t\<close>.\<close>

fun read_ptrs :: "kmem \<Rightarrow> u64 \<Rightarrow> accessor list \<Rightarrow> u64 option" where
  "read_ptrs mem src [] = Some src"
| "read_ptrs mem src (a # as) = do { t \<leftarrow> core_read1 mem 8 src a; read_ptrs mem (le_word t) as }"

text \<open>\<^verbatim>\<open>BPF_CORE_READ_INTO\<close> of at least one accessor, for a destination of \<open>sz\<close> bytes.\<close>

definition BPF_CORE_READ_INTO :: "kmem \<Rightarrow> nat \<Rightarrow> u64 \<Rightarrow> accessor list \<Rightarrow> bytes option" where
  "BPF_CORE_READ_INTO mem sz src as =
     do { t \<leftarrow> read_ptrs mem src (butlast as); core_read1 mem sz t (last as) }"

text \<open>A read into a zero-initialised integer or array.\<close>

definition core_int :: "kmem \<Rightarrow> nat \<Rightarrow> u64 \<Rightarrow> accessor list \<Rightarrow> 'a::len word" where
  "core_int mem sz src as = (case BPF_CORE_READ_INTO mem sz src as of None \<Rightarrow> 0 | Some bs \<Rightarrow> le_word bs)"

definition core_bytes :: "kmem \<Rightarrow> nat \<Rightarrow> u64 \<Rightarrow> accessor list \<Rightarrow> bytes" where
  "core_bytes mem sz src as = (case BPF_CORE_READ_INTO mem sz src as of None \<Rightarrow> replicate sz 0 | Some bs \<Rightarrow> bs)"

subsection \<open>The reads of the tracer\<close>

definition sock_at :: "kmem \<Rightarrow> u64 \<Rightarrow> sock" where
  "sock_at mem skaddr = \<lparr>
     skc_family = core_int mem 2 skaddr [(s_sock, [''__sk_common'', ''skc_family''])],
     skc_state = core_int mem 1 skaddr [(s_sock, [''__sk_common'', ''skc_state''])],
     skc_dport = core_int mem 2 skaddr [(s_sock, [''__sk_common'', ''skc_dport''])],
     skc_rcv_saddr = core_int mem 4 skaddr [(s_sock, [''__sk_common'', ''skc_rcv_saddr''])],
     skc_daddr = core_int mem 4 skaddr [(s_sock, [''__sk_common'', ''skc_daddr''])],
     skc_v6_rcv_saddr = core_bytes mem 16 skaddr [(s_sock, [''__sk_common'', ''skc_v6_rcv_saddr''])],
     skc_v6_daddr = core_bytes mem 16 skaddr [(s_sock, [''__sk_common'', ''skc_v6_daddr''])],
     sk_protocol = core_int mem 2 skaddr [(s_sock, [''sk_protocol''])],
     sk_cgroup = core_int mem 8 skaddr [(s_sock, [''sk_cgrp_data'', ''cgroup''])],
     sk_err = core_int mem 4 skaddr [(s_sock, [''sk_err''])],
     inet_sport = core_int mem 2 skaddr [(s_inet_sock, [''inet_sport''])],
     srtt_us = core_int mem 4 skaddr [(s_tcp_sock, [''srtt_us''])],
     total_retrans = core_int mem 4 skaddr [(s_tcp_sock, [''total_retrans''])],
     segs_out = core_int mem 4 skaddr [(s_tcp_sock, [''segs_out''])],
     snd_cwnd = core_int mem 4 skaddr [(s_tcp_sock, [''snd_cwnd''])],
     snd_ssthresh = core_int mem 4 skaddr [(s_tcp_sock, [''snd_ssthresh''])],
     snd_wnd = core_int mem 4 skaddr [(s_tcp_sock, [''snd_wnd''])],
     rcv_wnd = core_int mem 4 skaddr [(s_tcp_sock, [''rcv_wnd''])]\<rparr>"

definition cgroup_id_at :: "kmem \<Rightarrow> u64 \<Rightarrow> u64" where
  "cgroup_id_at mem cgrp = core_int mem 8 cgrp [(s_cgroup, [''kn'']), (s_kernfs_node, [''id''])]"

text \<open>What an invocation sees of a kernel whose memory is \<open>mem\<close>.\<close>

definition env_of_mem :: "kmem \<Rightarrow> kenv \<Rightarrow> kenv" where
  "env_of_mem mem env = env\<lparr>socks := sock_at mem, cgroup_kn_id := cgroup_id_at mem\<rparr>"

text \<open>Every accessor the tracer reads, as record, designator and size of the destination.\<close>

definition sock_reads :: "(ctype \<times> string list \<times> int) list" where
  "sock_reads = [
     (s_sock, [''sk_cgrp_data'', ''cgroup''], 8), (s_sock, [''__sk_common'', ''skc_family''], 2),
     (s_sock, [''__sk_common'', ''skc_state''], 1), (s_inet_sock, [''inet_sport''], 2),
     (s_sock, [''__sk_common'', ''skc_dport''], 2), (s_sock, [''__sk_common'', ''skc_rcv_saddr''], 4),
     (s_sock, [''__sk_common'', ''skc_daddr''], 4), (s_sock, [''__sk_common'', ''skc_v6_rcv_saddr''], 16),
     (s_sock, [''__sk_common'', ''skc_v6_daddr''], 16), (s_sock, [''sk_err''], 4),
     (s_tcp_sock, [''srtt_us''], 4), (s_tcp_sock, [''total_retrans''], 4), (s_tcp_sock, [''segs_out''], 4),
     (s_tcp_sock, [''snd_cwnd''], 4), (s_tcp_sock, [''snd_ssthresh''], 4), (s_tcp_sock, [''snd_wnd''], 4),
     (s_tcp_sock, [''rcv_wnd''], 4), (s_sock, [''sk_protocol''], 2)]"

definition cgroup_reads :: "(ctype \<times> string list \<times> int) list" where
  "cgroup_reads = [(s_cgroup, [''kn''], 8), (s_kernfs_node, [''id''], 8)]"

text \<open>The sockets that carry \<^verbatim>\<open>sock_common\<close> only.\<close>

definition mini_sockets :: "ctype list" where
  "mini_sockets = [s_inet_timewait_sock, s_tcp_timewait_sock, s_request_sock, s_inet_request_sock, s_tcp_request_sock]"

subsection \<open>Offsets\<close>

lemma tcp_sock_members:
  "map (map_of (members 0 s_tcp_sock))
     [''srtt_us'', ''total_retrans'', ''segs_out'', ''snd_cwnd'', ''snd_ssthresh'', ''snd_wnd'', ''rcv_wnd'', ''inet_conn''] =
   [Some (13056, t_u32), Some (16832, t_u32), Some (11520, t_u32), Some (13888, t_u32), Some (13856, t_u32),
    Some (12256, t_u32), Some (14464, t_u32), Some (0, s_inet_connection_sock)]"
  by code_simp

lemma icsk_members: "map_of (members 0 s_inet_connection_sock) ''icsk_inet'' = Some (0, s_inet_sock)"
  by code_simp

lemma inet_sock_members:
  "map (map_of (members 0 s_inet_sock)) [''inet_sport'', ''sk''] = [Some (6592, t___be16), Some (0, s_sock)]"
  by code_simp

lemma sock_members:
  "map (map_of (members 0 s_sock)) [''__sk_common'', ''sk_cgrp_data'', ''sk_err'', ''sk_protocol''] =
   [Some (0, s_sock_common), Some (5504, s_sock_cgroup_data), Some (4608, c_int), Some (4384, t_u16)]"
  by code_simp

lemma sock_common_members:
  "map (map_of (members 0 s_sock_common))
     [''skc_family'', ''skc_state'', ''skc_dport'', ''skc_rcv_saddr'', ''skc_daddr'', ''skc_v6_rcv_saddr'', ''skc_v6_daddr''] =
   [Some (128, c_short), Some (144, c_char), Some (96, t___be16), Some (32, t___be32), Some (0, t___be32),
    Some (576, s_in6_addr), Some (448, s_in6_addr)]"
  by code_simp

lemma cgroup_members:
  "map_of (members 0 s_sock_cgroup_data) ''cgroup'' = Some (0, c_ptr)"
  "map_of (members 0 s_cgroup) ''kn'' = Some (1984, c_ptr)"
  "map_of (members 0 s_kernfs_node) ''id'' = Some (832, t_u64)"
  by code_simp+

lemma offset_of_Cons:
  "map_of (members 0 t) n = Some (q, t') \<Longrightarrow>
     offset_of t (n # ns) = map_option (\<lambda>(r, t''). (q div 8 + r, t'')) (offset_of t' ns)"
  by (auto split: option.split)

lemmas member_facts = tcp_sock_members [unfolded list.map list.inject] inet_sock_members [unfolded list.map list.inject]
  sock_members [unfolded list.map list.inject] sock_common_members [unfolded list.map list.inject]

lemma core_offsets:
  "offset_of s_sock [''__sk_common'', ''skc_family''] = Some (16, c_short)"
  "offset_of s_sock [''__sk_common'', ''skc_state''] = Some (18, c_char)"
  "offset_of s_sock [''__sk_common'', ''skc_dport''] = Some (12, t___be16)"
  "offset_of s_sock [''__sk_common'', ''skc_rcv_saddr''] = Some (4, t___be32)"
  "offset_of s_sock [''__sk_common'', ''skc_daddr''] = Some (0, t___be32)"
  "offset_of s_sock [''__sk_common'', ''skc_v6_rcv_saddr''] = Some (72, s_in6_addr)"
  "offset_of s_sock [''__sk_common'', ''skc_v6_daddr''] = Some (56, s_in6_addr)"
  "offset_of s_sock [''sk_protocol''] = Some (548, t_u16)"
  "offset_of s_sock [''sk_cgrp_data'', ''cgroup''] = Some (688, c_ptr)"
  "offset_of s_sock [''sk_err''] = Some (576, c_int)"
  "offset_of s_inet_sock [''inet_sport''] = Some (824, t___be16)"
  "offset_of s_tcp_sock [''srtt_us''] = Some (1632, t_u32)"
  "offset_of s_tcp_sock [''total_retrans''] = Some (2104, t_u32)"
  "offset_of s_tcp_sock [''segs_out''] = Some (1440, t_u32)"
  "offset_of s_tcp_sock [''snd_cwnd''] = Some (1736, t_u32)"
  "offset_of s_tcp_sock [''snd_ssthresh''] = Some (1732, t_u32)"
  "offset_of s_tcp_sock [''snd_wnd''] = Some (1532, t_u32)"
  "offset_of s_tcp_sock [''rcv_wnd''] = Some (1808, t_u32)"
  "offset_of s_cgroup [''kn''] = Some (248, c_ptr)"
  "offset_of s_kernfs_node [''id''] = Some (104, t_u64)"
  using member_facts cgroup_members by (simp_all only: offset_of_Cons offset_of.simps(1)) simp_all

lemma core_sizes:
  "sizeof s_sock = 800" "sizeof s_inet_sock = 1000" "sizeof s_tcp_sock = 2224" "sizeof s_cgroup = 2360" "sizeof s_kernfs_node = 128"
  "sizeof s_sock_common = 136" "sizeof t_u16 = 2" "sizeof t_u32 = 4" "sizeof t_u64 = 8" "sizeof t___be16 = 2" "sizeof t___be32 = 4" "sizeof s_in6_addr = 16"
  by code_simp+


lemma mini_socket_sizes: "map sizeof mini_sockets = [208, 240, 232, 256, 304]"
  by code_simp

text \<open>The casts of the tracer are sound. A pointer to a \<^verbatim>\<open>tcp_sock\<close> is a pointer to an \<^verbatim>\<open>inet_sock\<close> and to a
  \<^verbatim>\<open>sock\<close>: every member of the inner record has the same offset and type in the outer one.\<close>

theorem sock_casts_sound:
  "offset_of s_tcp_sock (''inet_conn'' # ''icsk_inet'' # ''sk'' # path) = offset_of s_sock path \<and>
   offset_of s_tcp_sock (''inet_conn'' # ''icsk_inet'' # path) = offset_of s_inet_sock path \<and>
   offset_of s_inet_sock (''sk'' # path) = offset_of s_sock path"
  using member_facts icsk_members
  by (simp only: offset_of_Cons) (simp add: option.map_comp comp_def case_prod_unfold option.map_ident)

text \<open>Why mini-sockets are skipped. Time-wait and request sockets are smaller than the offset of
  every field the tracer reads outside \<^verbatim>\<open>sock_common\<close> (the local port, the protocol, the error, the
  cgroup and the TCP statistics), so those reads would be past their end, while the family,
  the state, the ports and the addresses of \<^verbatim>\<open>sock_common\<close>, with which each of them begins, are
  inside.\<close>

theorem mini_sockets_end_before_sock_fields:
  "list_all (\<lambda>m. list_all (\<lambda>(t, path, sz). \<exists>off f. offset_of t path = Some (off, f) \<and>
      (if hd path = ''__sk_common'' then off + sz \<le> sizeof m else sizeof m \<le> off)) sock_reads) mini_sockets"
proof -
  have "list_all (\<lambda>n. list_all (\<lambda>(t, path, sz). \<exists>off f. offset_of t path = Some (off, f) \<and>
      (if hd path = ''__sk_common'' then off + sz \<le> n else n \<le> off)) sock_reads) (map sizeof mini_sockets)"
    unfolding mini_socket_sizes by (simp add: sock_reads_def core_offsets del: offset_of.simps)
  then show ?thesis unfolding list.pred_map comp_def .
qed

text \<open>The records that the reads go through.\<close>

definition kernel_records :: "ctype list" where
  "kernel_records = [s_sock_common, s_sock_cgroup_data, s_sock, s_inet_sock, s_inet_connection_sock, s_tcp_sock,
     s_inet_timewait_sock, s_tcp_timewait_sock, s_request_sock, s_inet_request_sock, s_tcp_request_sock,
     s_cgroup, s_kernfs_node]"

lemma kernel_records_wf: "list_all wf_type kernel_records"
  by code_simp

text \<open>The members of a kernel record do not overlap. Each member of a record that the tracer reads through
  ends before the next begins, and inside the record; a member that is not a bit-field starts
  at a multiple of its alignment.\<close>

theorem kernel_record_members_disjoint:
  assumes "Struct fs \<in> set kernel_records" and "i < j" and "j < length fs"
  shows "fst (placed 0 fs ! i) + snd (placed 0 fs ! i) \<le> fst (placed 0 fs ! j) \<and>
    fst (placed 0 fs ! j) + snd (placed 0 fs ! j) \<le> 8 * sizeof (Struct fs) \<and>
    (\<forall>n t. fs ! j = Field n t \<longrightarrow> 8 * alignof t dvd fst (placed 0 fs ! j))"
proof -
  have "wf_type (Struct fs)" using kernel_records_wf assms(1) unfolding list_all_iff by blast
  then have "wf_fields fs" by simp
  with assms(2,3) show ?thesis
    using placed_ordered [of fs 0 i j] placed_inside [of fs j] placed_aligned [of j fs _ _ 0] by blast
qed

theorem kernel_record_members_disjoint_witness:
  "placed 0 [Field ''cgroup'' c_ptr, Field ''classid'' t_u32, Field ''prioidx'' t_u16] = [(0, 64), (64, 32), (96, 16)] \<and>
   64 + 32 \<le> (96 :: int) \<and> 96 + 16 \<le> 8 * sizeof s_sock_cgroup_data"
proof -
  let ?fs = "[Field ''cgroup'' c_ptr, Field ''classid'' t_u32, Field ''prioidx'' t_u16]"
  have p: "placed 0 ?fs = [(0, 64), (64, 32), (96, 16)]" by code_simp
  have s: "s_sock_cgroup_data = Struct ?fs" by (simp add: s_sock_cgroup_data_def)
  have "Struct ?fs \<in> set kernel_records" by (simp add: kernel_records_def s)
  from kernel_record_members_disjoint [OF this, of 1 2] show ?thesis unfolding p s by (simp add: numeral_2_eq_2)
qed

subsection \<open>Endpoints in memory\<close>

lemma core_int_offset:
  "offset_of t path = Some (off, m) \<Longrightarrow>
     core_int mem sz src [(t, path)] = le_word (bpf_probe_read_kernel mem sz (src + of_int off))"
  "offset_of t path = Some (off, m) \<Longrightarrow>
     core_bytes mem sz src [(t, path)] = bpf_probe_read_kernel mem sz (src + of_int off)"
  by (simp_all add: core_int_def core_bytes_def BPF_CORE_READ_INTO_def core_read1_def)

lemmas sock_at_mem = sock_at_def core_int_offset [OF core_offsets(1)] core_int_offset [OF core_offsets(2)]
  core_int_offset [OF core_offsets(3)] core_int_offset [OF core_offsets(4)] core_int_offset [OF core_offsets(5)]
  core_int_offset [OF core_offsets(6)] core_int_offset [OF core_offsets(7)] core_int_offset [OF core_offsets(11)]

lemma probe_read_upt: "bpf_probe_read_kernel mem n a = map (\<lambda>i. mem (a + of_nat i)) [0..<n]"
  by (simp add: bpf_probe_read_kernel_def)

lemma le_word_add: "le_word (b # bs) = ucast b + push_bit 8 (le_word bs :: 'a::len word)"
proof -
  have "\<not> bit (ucast b :: 'a word) n \<or> \<not> bit (push_bit 8 (le_word bs) :: 'a word) n" for n
    using bit_imp_le_length [of b n] by (auto simp: bit_ucast_iff bit_push_bit_iff)
  then have "ucast b + push_bit 8 (le_word bs :: 'a word) = ucast b OR push_bit 8 (le_word bs)"
    by (rule disjunctive_add)
  then show ?thesis by simp
qed

lemma unat_le_word2: "unat (le_word [x, y] :: u16) = unat x + 256 * unat y"
proof -
  have "unat x < 256" "unat y < 256" using unsigned_less [of x] unsigned_less [of y] by simp_all
  then have less: "unat x + 256 * unat y < 2 ^ 16" by simp
  have "(le_word [x, y] :: u16) = of_nat (unat x + 256 * unat y)"
    by (simp add: le_word_add push_bit_eq_mult ac_simps del: le_word.simps(2))
  then have "unat (le_word [x, y] :: u16) = unat (of_nat (unat x + 256 * unat y) :: u16)" by (simp only:)
  also have "\<dots> = unat x + 256 * unat y"
    using less unfolding unsigned_of_nat of_nat_id by (intro take_bit_nat_eq_self) simp
  finally show ?thesis .
qed

lemma ntohs_bytes: "unat (bpf_ntohs c (le_word [x, y])) = unat y + 256 * unat x"
proof -
  have "le_bytes 2 (le_word [x, y] :: u16) = [x, y]"
    using le_bytes_le_word [where 'a = 16, of "[x, y]"] by (simp add: numeral_2_eq_2 del: le_word.simps)
  then have "bpf_ntohs c (le_word [x, y]) = le_word [y, x]"
    by (simp add: bpf_endian swab_bswap builtin_bswap_def del: le_word.simps)
  then show ?thesis by (simp only: unat_le_word2)
qed

text \<open>C38: the endpoints of an IPv4 socket, from its bytes. For a socket at address \<open>a\<close> whose family field
  holds \<^verbatim>\<open>AF_INET\<close> and which is neither in \<^verbatim>\<open>TCP_TIME_WAIT\<close> nor \<^verbatim>\<open>TCP_NEW_SYN_RECV\<close>, the reader succeeds; the
  ports are the big-endian numbers at \<open>a + 824\<close> (\<^verbatim>\<open>inet_sport\<close>) and \<open>a + 12\<close> (\<^verbatim>\<open>skc_dport\<close>), and the
  addresses are the four bytes at \<open>a + 4\<close> (\<^verbatim>\<open>skc_rcv_saddr\<close>) and at \<open>a\<close> (\<^verbatim>\<open>skc_daddr\<close>) in memory order,
  padded with zeros.\<close>

theorem ipv4_endpoints_from_memory:
  assumes "mem (a + 16) = 2" and "mem (a + 17) = 0" and "mem (a + 18) \<notin> {6, 12}"
  shows "\<exists>sp dp. sock_read_endpoints (sock_at mem a) = Some (AF_INET, sp, dp,
      \<lparr>sa_local = map mem [a + 4, a + 5, a + 6, a + 7] @ replicate 12 0,
       sa_remote = map mem [a, a + 1, a + 2, a + 3] @ replicate 12 0\<rparr>) \<and>
    unat sp = 256 * unat (mem (a + 824)) + unat (mem (a + 825)) \<and>
    unat dp = 256 * unat (mem (a + 12)) + unat (mem (a + 13))"
proof -
  have fam: "skc_family (sock_at mem a) = AF_INET"
    using assms(1,2) by (simp add: sock_at_mem probe_read_upt upt_rec AF_INET_def add.assoc)
  have st: "skc_state (sock_at mem a) = mem (a + 18)"
    by (simp add: sock_at_mem probe_read_upt)
  have four: "le_bytes 4 (le_word [b0, b1, b2, b3] :: u32) = [b0, b1, b2, b3]" for b0 b1 b2 b3
    using le_bytes_le_word [where 'a = 32, of "[b0, b1, b2, b3]"] by (simp add: numeral_eq_Suc del: le_word.simps le_bytes.simps)
  have adr: "le_bytes 4 (skc_rcv_saddr (sock_at mem a)) = map mem [a + 4, a + 5, a + 6, a + 7]"
    "le_bytes 4 (skc_daddr (sock_at mem a)) = map mem [a, a + 1, a + 2, a + 3]"
    by (simp_all add: sock_at_mem probe_read_upt upt_rec four add.assoc del: le_word.simps)
  have "unat (bpf_ntohs False (inet_sport (sock_at mem a))) = unat (mem (a + 825)) + 256 * unat (mem (a + 824))"
    "unat (bpf_ntohs False (skc_dport (sock_at mem a))) = unat (mem (a + 13)) + 256 * unat (mem (a + 12))"
    by (simp_all add: sock_at_mem probe_read_upt upt_rec ntohs_bytes add.assoc del: le_word.simps)
  with assms(3) show ?thesis
    by (simp add: sock_read_endpoints_def Let_def fam st adr tcp_consts)
qed

text \<open>An IPv4 and an IPv6 socket of a memory that is zero elsewhere.\<close>

definition ex_mem :: "u8 \<Rightarrow> kmem" where
  "ex_mem fam x = (if x = 16 then fam else if x = 18 then 1 else if x = 824 then 0x12 else if x = 825 then 0x34
     else if x = 12 then 1 else if x = 13 then 0xbb else if x < 4 \<or> 56 \<le> x \<and> x < 72 then 7 else 0)"

theorem ipv4_endpoints_from_memory_witness:
  "\<exists>sp dp. sock_read_endpoints (sock_at (ex_mem 2) 0) = Some (AF_INET, sp, dp,
      \<lparr>sa_local = replicate 16 0, sa_remote = [7, 7, 7, 7] @ replicate 12 0\<rparr>) \<and> unat sp = 4660 \<and> unat dp = 443"
proof -
  have "map (ex_mem 2) [0 + 4, 0 + 5, 0 + 6, 0 + 7] @ replicate 12 0 = replicate 16 0"
    "map (ex_mem 2) [0, 0 + 1, 0 + 2, 0 + 3] = [7, 7, 7, 7]" by code_simp+
  moreover have "ex_mem 2 (0 + 16) = 2" "ex_mem 2 (0 + 17) = 0" "ex_mem 2 (0 + 18) \<notin> {6, 12}"
    "256 * unat (ex_mem 2 (0 + 824)) + unat (ex_mem 2 (0 + 825)) = 4660"
    "256 * unat (ex_mem 2 (0 + 12)) + unat (ex_mem 2 (0 + 13)) = 443" by (simp_all add: ex_mem_def)
  ultimately show ?thesis using ipv4_endpoints_from_memory [of "ex_mem 2" 0] by (simp only: simp_thms)
qed

text \<open>The endpoints of an IPv6 socket, from its bytes: the ports as for IPv4, the addresses the
  sixteen bytes at \<open>a + 72\<close> (\<^verbatim>\<open>skc_v6_rcv_saddr\<close>) and \<open>a + 56\<close> (\<^verbatim>\<open>skc_v6_daddr\<close>).\<close>

theorem ipv6_endpoints_from_memory:
  assumes "mem (a + 16) = 10" and "mem (a + 17) = 0" and "mem (a + 18) \<notin> {6, 12}"
  shows "\<exists>sp dp. sock_read_endpoints (sock_at mem a) = Some (AF_INET6, sp, dp,
      \<lparr>sa_local = map (\<lambda>i. mem (a + 72 + of_nat i)) [0..<16], sa_remote = map (\<lambda>i. mem (a + 56 + of_nat i)) [0..<16]\<rparr>) \<and>
    unat sp = 256 * unat (mem (a + 824)) + unat (mem (a + 825)) \<and>
    unat dp = 256 * unat (mem (a + 12)) + unat (mem (a + 13))"
proof -
  have fam: "skc_family (sock_at mem a) = AF_INET6"
    using assms(1,2) by (simp add: sock_at_mem probe_read_upt upt_rec AF_INET6_def add.assoc)
  have st: "skc_state (sock_at mem a) = mem (a + 18)"
    by (simp add: sock_at_mem probe_read_upt)
  have adr: "skc_v6_rcv_saddr (sock_at mem a) = map (\<lambda>i. mem (a + 72 + of_nat i)) [0..<16]"
    "skc_v6_daddr (sock_at mem a) = map (\<lambda>i. mem (a + 56 + of_nat i)) [0..<16]"
    by (simp_all add: sock_at_mem probe_read_upt del: upt_rec_numeral)
  have "unat (bpf_ntohs False (inet_sport (sock_at mem a))) = unat (mem (a + 825)) + 256 * unat (mem (a + 824))"
    "unat (bpf_ntohs False (skc_dport (sock_at mem a))) = unat (mem (a + 13)) + 256 * unat (mem (a + 12))"
    by (simp_all add: sock_at_mem probe_read_upt upt_rec ntohs_bytes add.assoc del: le_word.simps)
  with assms(3) show ?thesis
    by (simp add: sock_read_endpoints_def Let_def fam st adr tcp_consts del: upt_rec_numeral)
qed

theorem ipv6_endpoints_from_memory_witness:
  "\<exists>sp dp. sock_read_endpoints (sock_at (ex_mem 10) 0) = Some (AF_INET6, sp, dp,
      \<lparr>sa_local = replicate 16 0, sa_remote = replicate 16 7\<rparr>) \<and> unat sp = 4660 \<and> unat dp = 443"
proof -
  have "map (\<lambda>i. ex_mem 10 (0 + 72 + of_nat i)) [0..<16] = replicate 16 0"
    "map (\<lambda>i. ex_mem 10 (0 + 56 + of_nat i)) [0..<16] = replicate 16 7" by code_simp+
  moreover have "ex_mem 10 (0 + 16) = 10" "ex_mem 10 (0 + 17) = 0" "ex_mem 10 (0 + 18) \<notin> {6, 12}"
    "256 * unat (ex_mem 10 (0 + 824)) + unat (ex_mem 10 (0 + 825)) = 4660"
    "256 * unat (ex_mem 10 (0 + 12)) + unat (ex_mem 10 (0 + 13)) = 443" by (simp_all add: ex_mem_def)
  ultimately show ?thesis using ipv6_endpoints_from_memory [of "ex_mem 10" 0] by (simp only: simp_thms)
qed

end
