(* ===== verification/Go_Netip.thy ===== *)
theory Go_Netip
  imports Ko_Prelude
begin

text \<open>
  What package filter uses of the standard library's \<^verbatim>\<open>net/netip\<close>: parsing of addresses and prefixes.
  A parse error is \<open>None\<close>. An IPv6 address carries its zone.
\<close>

datatype netip_addr = Addr4 bytes | Addr6 bytes string

definition is_digit :: "char \<Rightarrow> bool" where
  "is_digit c \<longleftrightarrow> 48 \<le> (of_char c :: int) \<and> (of_char c :: int) \<le> 57"

definition hex_val :: "char \<Rightarrow> int option" where
  "hex_val c = (let n = of_char c :: int in
     if 48 \<le> n \<and> n \<le> 57 then Some (n - 48)
     else if 97 \<le> n \<and> n \<le> 102 then Some (n - 87)
     else if 65 \<le> n \<and> n \<le> 70 then Some (n - 55)
     else None)"

subsection \<open>IPv4\<close>

text \<open>\<open>dot\<close> holds at the start and after a dot, \<open>digs\<close> is the number of digits of the octet so far.\<close>

fun parseIPv4_loop :: "string \<Rightarrow> bool \<Rightarrow> int \<Rightarrow> nat \<Rightarrow> int list \<Rightarrow> int list option" where
  "parseIPv4_loop [] dot val digs fs = (if length fs < 3 then None else Some (fs @ [val]))"
| "parseIPv4_loop (c # cs) dot val digs fs =
     (if is_digit c then
        (if digs = 1 \<and> val = 0 then None
         else let val' = val * 10 + (of_char c - 48) in
           if val' > 255 then None else parseIPv4_loop cs False val' (digs + 1) fs)
      else if c = CHR ''.'' then
        (if dot \<or> cs = [] then None
         else if length fs = 3 then None
         else parseIPv4_loop cs True 0 0 (fs @ [val]))
      else None)"

definition parseIPv4 :: "string \<Rightarrow> bytes option" where
  "parseIPv4 s = map_option (map of_int) (parseIPv4_loop s True 0 0 [])"

subsection \<open>IPv6\<close>

fun hex_number :: "string \<Rightarrow> int \<Rightarrow> int" where
  "hex_number [] acc = acc"
| "hex_number (c # cs) acc = hex_number cs (16 * acc + the (hex_val c))"

text \<open>The groups after an optional leading ellipsis: the bytes so far, the position of the
  ellipsis and what is left of the string.\<close>

function parseIPv6_loop :: "string \<Rightarrow> bytes \<Rightarrow> nat option \<Rightarrow> (bytes \<times> nat option \<times> string) option" where
  "parseIPv6_loop s ip ell =
     (if length ip \<ge> 16 then Some (ip, ell, s)
      else
        (let hs = takeWhile (\<lambda>c. hex_val c \<noteq> None) s; rest = dropWhile (\<lambda>c. hex_val c \<noteq> None) s in
         if hs = [] \<or> length hs > 4 then None
         else if rest \<noteq> [] \<and> hd rest = CHR ''.'' then
           (if ell = None \<and> length ip \<noteq> 12 then None
            else if length ip + 4 > 16 then None
            else case parseIPv4 s of None \<Rightarrow> None | Some q \<Rightarrow> Some (ip @ q, ell, []))
         else
           (let acc = hex_number hs 0; ip' = ip @ [of_int (acc div 256), of_int acc] in
            case rest of
              [] \<Rightarrow> Some (ip', ell, [])
            | [c] \<Rightarrow> None
            | c # c2 # r \<Rightarrow>
                if c \<noteq> CHR '':'' then None
                else if c2 = CHR '':'' then
                  (if ell \<noteq> None then None
                   else if r = [] then Some (ip', Some (length ip'), [])
                   else parseIPv6_loop r ip' (Some (length ip')))
                else parseIPv6_loop (c2 # r) ip' ell)))"
  by pat_completeness auto

lemma dropWhile_shorter: "dropWhile P xs = c # cs \<Longrightarrow> Suc (length cs) \<le> length xs"
  by (metis length_Cons length_dropWhile_le)

termination parseIPv6_loop
proof (relation "measure (\<lambda>(s, ip, ell). length s)", goal_cases)
  case 1
  then show ?case by simp
next
  case (2 s ip ell hs rest acc ip' c l c2 r)
  then show ?case using dropWhile_shorter [of "\<lambda>c. hex_val c \<noteq> None" s c l] by simp
next
  case (3 s ip ell hs rest acc ip' c l c2 r)
  then show ?case using dropWhile_shorter [of "\<lambda>c. hex_val c \<noteq> None" s c l] by simp
qed

declare parseIPv6_loop.simps [simp del]

text \<open>The address of at most sixteen bytes with the ellipsis filled in.\<close>

definition expand_ellipsis :: "bytes \<Rightarrow> nat option \<Rightarrow> string \<Rightarrow> bytes option" where
  "expand_ellipsis ip ell rest =
     (if rest \<noteq> [] then None
      else if length ip < 16 then
        (case ell of
           None \<Rightarrow> None
         | Some e \<Rightarrow> Some (take e ip @ replicate (16 - length ip) 0 @ drop e ip))
      else if ell \<noteq> None then None
      else Some ip)"

definition parseIPv6 :: "string \<Rightarrow> netip_addr option" where
  "parseIPv6 str =
     (let s = takeWhile (\<lambda>c. c \<noteq> CHR ''%'') str; z = dropWhile (\<lambda>c. c \<noteq> CHR ''%'') str; zone = drop 1 z in
      if z \<noteq> [] \<and> zone = [] then None
      else if take 2 s = ''::'' then
        (if drop 2 s = [] then Some (Addr6 (replicate 16 0) zone)
         else case parseIPv6_loop (drop 2 s) [] (Some 0) of
                None \<Rightarrow> None
              | Some (ip, ell, rest) \<Rightarrow> map_option (\<lambda>b. Addr6 b zone) (expand_ellipsis ip ell rest))
      else case parseIPv6_loop s [] None of
             None \<Rightarrow> None
           | Some (ip, ell, rest) \<Rightarrow> map_option (\<lambda>b. Addr6 b zone) (expand_ellipsis ip ell rest))"

subsection \<open>Addresses and prefixes\<close>

definition ParseAddr :: "string \<Rightarrow> netip_addr option" where
  "ParseAddr s =
     (case dropWhile (\<lambda>c. c \<notin> {CHR ''.'', CHR '':'', CHR ''%''}) s of
        [] \<Rightarrow> None
      | c # _ \<Rightarrow>
          if c = CHR ''.'' then map_option Addr4 (parseIPv4 s)
          else if c = CHR '':'' then parseIPv6 s
          else None)"

text \<open>\<^verbatim>\<open>strconv.Atoi\<close> on the bits of a prefix, whose first character is a digit 1 to 9 when there are
  several; numbers beyond the range of an int are out of range for the prefix anyway.\<close>

fun atoi :: "string \<Rightarrow> int \<Rightarrow> int option" where
  "atoi [] acc = Some acc"
| "atoi (c # cs) acc = (if is_digit c then atoi cs (10 * acc + (of_char c - 48)) else None)"

record prefix =
  pfx_addr :: netip_addr
  pfx_bits :: int

definition is4 :: "netip_addr \<Rightarrow> bool" where
  "is4 a = (case a of Addr4 b \<Rightarrow> True | Addr6 b z \<Rightarrow> False)"

definition has_zone :: "netip_addr \<Rightarrow> bool" where
  "has_zone a = (case a of Addr4 b \<Rightarrow> False | Addr6 b z \<Rightarrow> z \<noteq> [])"

definition addr_bytes :: "netip_addr \<Rightarrow> bytes" where
  "addr_bytes a = (case a of Addr4 b \<Rightarrow> b | Addr6 b z \<Rightarrow> b)"

definition ParsePrefix :: "string \<Rightarrow> prefix option" where
  "ParsePrefix s =
     (let bits = rev (takeWhile (\<lambda>c. c \<noteq> CHR ''/'') (rev s)); front = rev (dropWhile (\<lambda>c. c \<noteq> CHR ''/'') (rev s)) in
      if front = [] then None
      else case ParseAddr (butlast front) of
        None \<Rightarrow> None
      | Some ip \<Rightarrow>
          if has_zone ip then None
          else if bits = [] then None
          else if length bits > 1 \<and> \<not> (49 \<le> (of_char (hd bits) :: int) \<and> (of_char (hd bits) :: int) \<le> 57) then None
          else case atoi bits 0 of
            None \<Rightarrow> None
          | Some n \<Rightarrow> if n > (if is4 ip then 32 else 128) then None else Some \<lparr>pfx_addr = ip, pfx_bits = n\<rparr>)"

subsection \<open>Parsed prefixes are in range\<close>

lemma parseIPv4_loop_length: "parseIPv4_loop s d v n fs = Some r \<Longrightarrow> length fs \<le> 3 \<Longrightarrow> length r = 4"
  by (induction s d v n fs rule: parseIPv4_loop.induct) (auto simp: Let_def split: if_splits)

lemma parseIPv4_length: "parseIPv4 s = Some b \<Longrightarrow> length b = 4"
  by (auto simp: parseIPv4_def dest: parseIPv4_loop_length)

lemma parseIPv6_loop_inv:
  assumes "parseIPv6_loop s ip ell = Some (ip', ell', rest)" and "even (length ip)" and "length ip \<le> 16"
    and "case ell of None \<Rightarrow> True | Some e \<Rightarrow> e \<le> length ip"
  shows "length ip' \<le> 16 \<and> (case ell' of None \<Rightarrow> True | Some e \<Rightarrow> e \<le> length ip')"
  using assms
proof (induction s ip ell rule: parseIPv6_loop.induct)
  case (1 s ip ell)
  let ?hs = "takeWhile (\<lambda>c. hex_val c \<noteq> None) s" and ?rest = "dropWhile (\<lambda>c. hex_val c \<noteq> None) s"
  show ?case
  proof (cases "16 \<le> length ip")
    case True
    with 1 show ?thesis by (auto simp: parseIPv6_loop.simps [of s ip ell])
  next
    case False
    with 1(4) have le: "length ip + 2 \<le> 16" by presburger
    note eq = 1(3) [unfolded parseIPv6_loop.simps [of s ip ell]]
    show ?thesis
      using 1(1,2) [OF False refl refl _ _ refl refl] eq 1(4-6) le False
      by (auto simp: Let_def parseIPv4_length split: if_splits list.splits option.splits)
  qed
qed

lemma expand_ellipsis_length:
  assumes "expand_ellipsis ip ell rest = Some b" and "length ip \<le> 16" and "case ell of None \<Rightarrow> True | Some e \<Rightarrow> e \<le> length ip"
  shows "length b = 16"
  using assms by (auto simp: expand_ellipsis_def split: if_splits option.splits)

lemma parseIPv6_length: "parseIPv6 s = Some a \<Longrightarrow> \<exists>b z. a = Addr6 b z \<and> length b = 16"
  unfolding parseIPv6_def Let_def
  by (auto split: if_splits option.splits prod.splits dest!: parseIPv6_loop_inv expand_ellipsis_length)

lemma ParseAddr_length: "ParseAddr s = Some a \<Longrightarrow> length (addr_bytes a) = (if is4 a then 4 else 16)"
  by (auto simp: ParseAddr_def addr_bytes_def is4_def split: if_splits option.splits list.splits
      dest!: parseIPv4_length parseIPv6_length)

lemma atoi_nonneg: "atoi s acc = Some n \<Longrightarrow> 0 \<le> acc \<Longrightarrow> 0 \<le> n"
  by (induction s acc rule: atoi.induct) (auto simp: is_digit_def split: if_splits)

lemma ParsePrefix_nonneg: "ParsePrefix s = Some p \<Longrightarrow> 0 \<le> pfx_bits p"
  by (auto simp: ParsePrefix_def Let_def split: if_splits option.splits dest!: atoi_nonneg)

lemma ParsePrefix_range:
  assumes "ParsePrefix s = Some p"
  shows "length (addr_bytes (pfx_addr p)) = (if is4 (pfx_addr p) then 4 else 16)"
    and "pfx_bits p \<le> (if is4 (pfx_addr p) then 32 else 128)" and "\<not> has_zone (pfx_addr p)"
  using assms by (auto simp: ParsePrefix_def Let_def ParseAddr_length split: if_splits option.splits)

text \<open>The prefixes of the built-in lists.\<close>

lemma builtin_prefixes:
  "ParsePrefix ''127.0.0.0/8'' = Some \<lparr>pfx_addr = Addr4 [127, 0, 0, 0], pfx_bits = 8\<rparr>"
  "ParsePrefix ''::1/128'' = Some \<lparr>pfx_addr = Addr6 (replicate 15 0 @ [1]) [], pfx_bits = 128\<rparr>"
  "ParsePrefix ''10.0.0.0/8'' = Some \<lparr>pfx_addr = Addr4 [10, 0, 0, 0], pfx_bits = 8\<rparr>"
  "ParsePrefix ''172.16.0.0/12'' = Some \<lparr>pfx_addr = Addr4 [172, 16, 0, 0], pfx_bits = 12\<rparr>"
  "ParsePrefix ''192.168.0.0/16'' = Some \<lparr>pfx_addr = Addr4 [192, 168, 0, 0], pfx_bits = 16\<rparr>"
  "ParsePrefix ''fd00::/8'' = Some \<lparr>pfx_addr = Addr6 (0xfd # replicate 15 0) [], pfx_bits = 8\<rparr>"
  by code_simp+

end
