(* ===== verification/Go_Net.thy ===== *)
theory Go_Net
  imports Go_Netip Filter_Vm
begin

text \<open>
  What package filter uses of the standard library to print an address with its port and to read it back: \<^verbatim>\<open>net.IP.String\<close>,
  \<^verbatim>\<open>net.JoinHostPort\<close>, \<^verbatim>\<open>net.SplitHostPort\<close>, \<^verbatim>\<open>strconv.Itoa\<close> and \<^verbatim>\<open>netip.Prefix.Contains\<close>. The lemmas give the round trip: the
  host of a printed endpoint parses to the address that was printed.
\<close>

subsection \<open>Numbers\<close>

fun decimal :: "nat \<Rightarrow> string" where
  "decimal n = (if n < 10 then [char_of (48 + n)] else decimal (n div 10) @ [char_of (48 + n mod 10)])"

declare decimal.simps [simp del]

definition digit_char :: "nat \<Rightarrow> char" where
  "digit_char d = ''0123456789abcdef'' ! d"

definition appendDecimal :: "nat \<Rightarrow> string" where
  "appendDecimal x =
     (if 100 \<le> x then [digit_char (x div 100)] else []) @ (if 10 \<le> x then [digit_char (x div 10 mod 10)] else []) @
     [digit_char (x mod 10)]"

definition appendHex :: "nat \<Rightarrow> string" where
  "appendHex x =
     (if 0x1000 \<le> x then [digit_char (x div 4096)] else []) @ (if 0x100 \<le> x then [digit_char (x div 256 mod 16)] else []) @
     (if 0x10 \<le> x then [digit_char (x div 16 mod 16)] else []) @ [digit_char (x mod 16)]"

subsection \<open>Printing addresses\<close>

definition string4 :: "bytes \<Rightarrow> string" where
  "string4 b = appendDecimal (unat (b ! 0)) @ ''.'' @ appendDecimal (unat (b ! 1)) @ ''.'' @
     appendDecimal (unat (b ! 2)) @ ''.'' @ appendDecimal (unat (b ! 3))"

text \<open>The eight groups of an IPv6 address, and its longest run of zero groups (\<^verbatim>\<open>zeroStart\<close>, \<^verbatim>\<open>zeroEnd\<close>).\<close>

fun v6u16s :: "bytes \<Rightarrow> nat list" where
  "v6u16s (a # b # bs) = (256 * unat a + unat b) # v6u16s bs"
| "v6u16s _ = []"

fun zero_run :: "nat \<Rightarrow> nat list \<Rightarrow> nat \<times> nat \<Rightarrow> nat \<times> nat" where
  "zero_run i [] r = r"
| "zero_run i (g # gs) (zeroStart, zeroEnd) =
     (let l = length (takeWhile (\<lambda>x. x = 0) (g # gs)) in
      zero_run (Suc i) gs (if 2 \<le> l \<and> zeroEnd - zeroStart < l then (i, i + l) else (zeroStart, zeroEnd)))"

function appendTo6 :: "nat \<Rightarrow> nat \<Rightarrow> nat \<Rightarrow> nat list \<Rightarrow> string" where
  "appendTo6 zeroStart zeroEnd i [] = []"
| "appendTo6 zeroStart zeroEnd i (g # gs) =
     (if i = zeroStart then
        '':'' @ '':'' @
        (case drop (zeroEnd - zeroStart) (g # gs) of
           [] \<Rightarrow> []
         | h # hs \<Rightarrow> appendHex h @ appendTo6 zeroStart zeroEnd (Suc zeroEnd) hs)
      else (if 0 < i then '':'' else []) @ appendHex g @ appendTo6 zeroStart zeroEnd (Suc i) gs)"
  by pat_completeness auto

lemma drop_shorter: "drop n xs = h # hs \<Longrightarrow> length hs < length xs"
  by (metis Suc_le_eq diff_le_self length_Cons length_drop)

termination appendTo6
  by (relation "measure (\<lambda>(s, e, i, gs). length gs)") (auto dest: drop_shorter)

definition string6 :: "bytes \<Rightarrow> string" where
  "string6 b = (case zero_run 0 (v6u16s b) (255, 255) of (s, e) \<Rightarrow> appendTo6 s e 0 (v6u16s b))"

definition hexString :: "bytes \<Rightarrow> string" where
  "hexString b = concat (map (\<lambda>x. [digit_char (unat x div 16), digit_char (unat x mod 16)]) b)"

definition IP_String :: "bytes \<Rightarrow> string" where
  "IP_String ip =
     (if length ip = 0 then ''<nil>''
      else if length ip \<noteq> 4 \<and> length ip \<noteq> 16 then ''?'' @ hexString ip
      else case To4 ip of Some p4 \<Rightarrow> string4 p4 | None \<Rightarrow> string6 ip)"

subsection \<open>Host and port\<close>

definition IndexByte :: "string \<Rightarrow> char \<Rightarrow> nat option" where
  "IndexByte s c = (if c \<in> set s then Some (length (takeWhile (\<lambda>x. x \<noteq> c) s)) else None)"

definition LastIndexByte :: "string \<Rightarrow> char \<Rightarrow> nat option" where
  "LastIndexByte s c = (if c \<in> set s then Some (length s - 1 - length (takeWhile (\<lambda>x. x \<noteq> c) (rev s))) else None)"

definition JoinHostPort :: "string \<Rightarrow> string \<Rightarrow> string" where
  "JoinHostPort host port =
     (if IndexByte host (CHR '':'') \<noteq> None then ''['' @ host @ '']:'' @ port else host @ '':'' @ port)"

text \<open>The host and the port; an error is \<open>None\<close>.\<close>

definition split_rest :: "string \<Rightarrow> string \<Rightarrow> nat \<Rightarrow> nat \<Rightarrow> nat \<Rightarrow> (string \<times> string) option" where
  "split_rest hostport host i j k =
     (if IndexByte (drop j hostport) (CHR ''['') \<noteq> None then None
      else if IndexByte (drop k hostport) (CHR '']'') \<noteq> None then None
      else Some (host, drop (i + 1) hostport))"

definition SplitHostPort :: "string \<Rightarrow> (string \<times> string) option" where
  "SplitHostPort hostport =
     (case LastIndexByte hostport (CHR '':'') of
        None \<Rightarrow> None
      | Some i \<Rightarrow>
          if hd hostport = CHR ''['' then
            (case IndexByte hostport (CHR '']'') of
               None \<Rightarrow> None
             | Some fin \<Rightarrow>
                 if fin + 1 = length hostport then None
                 else if fin + 1 = i then split_rest hostport (drop 1 (take fin hostport)) i 1 (fin + 1)
                 else None)
          else
            (let host = take i hostport in
             if IndexByte host (CHR '':'') \<noteq> None then None else split_rest hostport host i 0 0))"

subsection \<open>Prefixes\<close>

text \<open>The 128 bits of an address, as its two halves.\<close>

definition addr_hi :: "netip_addr \<Rightarrow> u64" where
  "addr_hi a = (case a of Addr4 b \<Rightarrow> 0 | Addr6 b z \<Rightarrow> le_word (rev (take 8 b)))"

definition addr_lo :: "netip_addr \<Rightarrow> u64" where
  "addr_lo a = (case a of Addr4 b \<Rightarrow> 0xffff00000000 OR le_word (rev b) | Addr6 b z \<Rightarrow> le_word (rev (drop 8 b)))"

definition Is4In6 :: "netip_addr \<Rightarrow> bool" where
  "Is4In6 a \<longleftrightarrow> \<not> is4 a \<and> addr_hi a = 0 \<and> drop_bit 32 (addr_lo a) = 0xffff"

definition Unmap :: "netip_addr \<Rightarrow> netip_addr" where
  "Unmap a = (if Is4In6 a then Addr4 (drop 12 (addr_bytes a)) else a)"

definition BitLen :: "netip_addr \<Rightarrow> int" where
  "BitLen a = (if is4 a then 32 else 128)"

text \<open>A prefix with the bits -1 is not valid.\<close>

definition PrefixFrom :: "netip_addr \<Rightarrow> int \<Rightarrow> prefix" where
  "PrefixFrom ip bits = \<lparr>pfx_addr = (case ip of Addr4 b \<Rightarrow> ip | Addr6 b z \<Rightarrow> Addr6 b []),
     pfx_bits = (if 0 \<le> bits \<and> bits \<le> BitLen ip then bits else -1)\<rparr>"

definition Contains :: "prefix \<Rightarrow> netip_addr \<Rightarrow> bool" where
  "Contains p ip =
     (if pfx_bits p < 0 \<or> has_zone ip then False
      else if BitLen (pfx_addr p) \<noteq> BitLen ip then False
      else if is4 ip then
        (ucast (drop_bit (32 - nat (pfx_bits p)) (addr_lo ip XOR addr_lo (pfx_addr p))) :: u32) = 0
      else
        (addr_hi ip XOR addr_hi (pfx_addr p)) AND NOT (drop_bit (nat (pfx_bits p)) (-1)) = 0 \<and>
        (addr_lo ip XOR addr_lo (pfx_addr p)) AND push_bit (128 - nat (pfx_bits p)) (-1) = 0)"

subsection \<open>Digits\<close>

lemma less_16_cases:
  fixes d :: nat
  assumes "d < 16"
  shows "d \<in> {0, 1, 2, 3, 4, 5, 6, 7, 8, 9, 10, 11, 12, 13, 14, 15}"
  using assms by (simp add: less_Suc_eq numeral_eq_Suc)

lemma digit_char_hex: "d < 16 \<Longrightarrow> hex_val (digit_char d) = Some (int d)"
  by (drule less_16_cases) (auto simp: digit_char_def hex_val_def)

lemma digit_char_dec: "d < 10 \<Longrightarrow> is_digit (digit_char d) \<and> of_char (digit_char d) = 48 + int d"
  using less_16_cases [of d] by (auto simp: digit_char_def is_digit_def)

lemma hex_val_special:
  assumes "hex_val c \<noteq> None"
  shows "c \<notin> {CHR ''.'', CHR '':'', CHR ''%'', CHR ''['', CHR '']''}"
  using assms by (auto simp: hex_val_def)

subsection \<open>IPv4 addresses\<close>

lemma appendDecimal_parse:
  assumes "x < 256"
  shows "\<exists>n. parseIPv4_loop (appendDecimal x @ cs) dot 0 0 fs = parseIPv4_loop cs False (int x) (Suc n) fs"
proof -
  have d: "x mod 10 < 10" "x div 10 mod 10 < 10" "x div 100 < 10" using assms by simp_all
  note dig = d [THEN digit_char_dec]
  consider "x < 10" | "10 \<le> x" "x < 100" | "100 \<le> x" by linarith
  then show ?thesis
  proof cases
    case 1
    then show ?thesis using dig assms by (intro exI [of _ 0]) (simp add: appendDecimal_def)
  next
    case 2
    then have "x div 10 mod 10 = x div 10" "0 < x div 10" by simp_all
    moreover have "int (x div 10) * 10 + int (x mod 10) = int x" using div_mult_mod_eq [of x 10] by linarith
    ultimately show ?thesis using 2 dig assms by (intro exI [of _ 1]) (simp add: appendDecimal_def Let_def)
  next
    case 3
    have "0 < x div 100" using 3 by (simp add: div_greater_zero_iff)
    moreover have "int (x div 100) * 10 + int (x div 10 mod 10) = int (x div 10)"
      using div_mult_mod_eq [of "x div 10" 10] by (simp add: div_mult2_eq [symmetric])
    moreover have "int (x div 10) * 10 + int (x mod 10) = int x" using div_mult_mod_eq [of x 10] by linarith
    moreover have "x div 10 \<le> 25" using assms by simp
    ultimately show ?thesis using 3 dig assms by (intro exI [of _ "Suc (Suc 0)"]) (simp add: appendDecimal_def Let_def)
  qed
qed

lemma appendDecimal_dot:
  assumes "x < 256" and "cs \<noteq> []" and "length fs < 3"
  shows "parseIPv4_loop (appendDecimal x @ CHR ''.'' # cs) dot 0 0 fs = parseIPv4_loop cs True 0 0 (fs @ [int x])"
proof -
  obtain n where "parseIPv4_loop (appendDecimal x @ CHR ''.'' # cs) dot 0 0 fs = parseIPv4_loop (CHR ''.'' # cs) False (int x) (Suc n) fs"
    using appendDecimal_parse [OF assms(1)] by blast
  with assms(2,3) show ?thesis by (simp add: is_digit_def)
qed

lemma appendDecimal_chars: "c \<in> set (appendDecimal x) \<Longrightarrow> x < 256 \<Longrightarrow> is_digit c"
  using digit_char_dec by (auto simp: appendDecimal_def split: if_splits)

lemma appendDecimal_nonempty [simp]: "appendDecimal x \<noteq> []"
  by (simp add: appendDecimal_def)

lemma unat_u8 [simp]: "unat (x :: u8) < 256"
  using unsigned_less [of x, where 'a = nat] by simp

lemma parseIPv4_string4:
  assumes "length b = 4"
  shows "parseIPv4 (string4 b) = Some b"
proof -
  obtain w x y z where b: "b = [w, x, y, z]" using assms by (auto simp: length_Suc_conv numeral_eq_Suc)
  obtain n where n: "parseIPv4_loop (appendDecimal (unat z) @ []) True 0 0 [int (unat w), int (unat x), int (unat y)] =
      parseIPv4_loop [] False (int (unat z)) (Suc n) [int (unat w), int (unat x), int (unat y)]"
    using appendDecimal_parse [OF unat_u8] by blast
  have "parseIPv4_loop (string4 b) True 0 0 [] = Some [int (unat w), int (unat x), int (unat y), int (unat z)]"
    using n by (simp add: b string4_def appendDecimal_dot)
  then show ?thesis by (simp add: parseIPv4_def b)
qed

lemma is_digit_special: "is_digit c \<Longrightarrow> c \<notin> {CHR ''.'', CHR '':'', CHR ''%'', CHR ''['', CHR '']''}"
  by (auto simp: is_digit_def)

lemma ParseAddr_string4:
  assumes "length b = 4"
  shows "ParseAddr (string4 b) = Some (Addr4 b)"
proof -
  have "\<forall>c \<in> set (appendDecimal (unat (b ! 0))). c \<notin> {CHR ''.'', CHR '':'', CHR ''%''}"
    using appendDecimal_chars is_digit_special by fastforce
  then show ?thesis
    using parseIPv4_string4 [OF assms] by (simp add: ParseAddr_def string4_def dropWhile_append2)
qed

lemma string4_chars: "c \<in> set (string4 b) \<Longrightarrow> c = CHR ''.'' \<or> is_digit c"
  using appendDecimal_chars [OF _ unat_u8] by (auto simp: string4_def)


subsection \<open>IPv6 addresses\<close>

text \<open>Groups separated by colons, and the bytes of groups.\<close>

fun colons :: "nat list \<Rightarrow> string" where
  "colons [] = []"
| "colons [g] = appendHex g"
| "colons (g # h # gs) = appendHex g @ '':'' @ colons (h # gs)"

definition group_bytes :: "nat list \<Rightarrow> bytes" where
  "group_bytes gs = concat (map (\<lambda>g. [of_nat (g div 256), of_nat g]) gs)"

lemma group_bytes_simps [simp]:
  "group_bytes [] = []" "group_bytes (g # gs) = of_nat (g div 256) # of_nat g # group_bytes gs"
  "group_bytes (gs @ hs) = group_bytes gs @ group_bytes hs" "length (group_bytes gs) = 2 * length gs"
  "group_bytes (replicate n 0) = replicate (2 * n) 0"
  by (simp_all add: group_bytes_def) (induction gs; simp; fail | induction n; simp)+

lemma word_of_nat_256: "(of_nat 256 :: u8) = 0"
  by simp

lemma group_bytes_v6u16s: "even (length b) \<Longrightarrow> group_bytes (v6u16s b) = b"
proof (induction b rule: v6u16s.induct)
  case (1 x y bs)
  have "of_nat (256 * unat x + unat y) = (of_nat 256 :: u8) * of_nat (unat x) + of_nat (unat y)"
    by (simp only: of_nat_add of_nat_mult)
  then have "of_nat (256 * unat x + unat y) = y" by (simp only: word_of_nat_256) simp
  moreover have "(256 * unat x + unat y) div 256 = unat x" by (simp add: div_mult_self2)
  ultimately show ?case using 1 by simp
qed simp_all

lemma v6u16s_range: "g \<in> set (v6u16s b) \<Longrightarrow> g < 65536"
proof (induction b rule: v6u16s.induct)
  case (1 x y bs)
  have "256 * unat x + unat y < 65536" using unat_u8 [of x] unat_u8 [of y] by linarith
  with 1 show ?case by auto
qed simp_all

lemma length_v6u16s: "length (v6u16s b) = length b div 2"
  by (induction b rule: v6u16s.induct) auto

lemma appendHex_chars: "c \<in> set (appendHex g) \<Longrightarrow> g < 65536 \<Longrightarrow> hex_val c \<noteq> None"
  using digit_char_hex by (auto simp: appendHex_def split: if_splits)

lemma appendHex_length: "appendHex g \<noteq> []" "length (appendHex g) \<le> 4"
  by (simp_all add: appendHex_def)

lemma hex_number_append: "hex_number (xs @ ys) acc = hex_number ys (hex_number xs acc)"
  by (induction xs acc rule: hex_number.induct) auto

lemma hex_number_appendHex:
  assumes "g < 65536"
  shows "hex_number (appendHex g) 0 = int g"
proof -
  have d: "g div 4096 < 16" "g div 256 mod 16 < 16" "g div 16 mod 16 < 16" "g mod 16 < 16"
    using assms by simp_all
  note dig = d [THEN digit_char_hex]
  have e: "g = 16 * (g div 16) + g mod 16" "g div 16 = 16 * (g div 256) + g div 16 mod 16"
    "g div 256 = 16 * (g div 4096) + g div 256 mod 16"
    using div_mult_mod_eq [of "g div 16" 16] div_mult_mod_eq [of "g div 256" 16] by (simp_all add: div_mult2_eq [symmetric])
  show ?thesis
    by (auto simp: appendHex_def dig hex_number_append simp del: of_nat_mod) (use e in linarith)+
qed


lemma loop_group:
  assumes "g < 65536" and "length ip < 16" and "rest = [] \<or> hd rest = CHR '':''"
  shows "takeWhile (\<lambda>c. hex_val c \<noteq> None) (appendHex g @ rest) = appendHex g"
    and "dropWhile (\<lambda>c. hex_val c \<noteq> None) (appendHex g @ rest) = rest"
proof -
  have "hex_val (CHR '':'') = None" by (simp add: hex_val_def)
  then have "takeWhile (\<lambda>c. hex_val c \<noteq> None) rest = []" "dropWhile (\<lambda>c. hex_val c \<noteq> None) rest = rest"
    using assms(3) by (cases rest; simp)+
  then show "takeWhile (\<lambda>c. hex_val c \<noteq> None) (appendHex g @ rest) = appendHex g"
    and "dropWhile (\<lambda>c. hex_val c \<noteq> None) (appendHex g @ rest) = rest"
    using appendHex_chars [OF _ assms(1)] by (simp_all add: takeWhile_append2 dropWhile_append2)
qed

lemma parse_group:
  assumes "g < 65536" and "length ip < 16"
  shows "parseIPv6_loop (appendHex g) ip ell = Some (ip @ group_bytes [g], ell, [])"
    and "c \<noteq> CHR '':'' \<Longrightarrow> parseIPv6_loop (appendHex g @ CHR '':'' # c # r) ip ell = parseIPv6_loop (c # r) (ip @ group_bytes [g]) ell"
    and "parseIPv6_loop (appendHex g @ CHR '':'' # CHR '':'' # r) ip None =
      (if r = [] then Some (ip @ group_bytes [g], Some (length ip + 2), [])
       else parseIPv6_loop r (ip @ group_bytes [g]) (Some (length ip + 2)))"
proof -
  have b: "[of_int (hex_number (appendHex g) 0 div 256), of_int (hex_number (appendHex g) 0)] = group_bytes [g]"
    unfolding hex_number_appendHex [OF assms(1)]
    by simp (metis of_int_of_nat_eq of_nat_numeral zdiv_int)
  show "parseIPv6_loop (appendHex g) ip ell = Some (ip @ group_bytes [g], ell, [])"
    using loop_group [OF assms, of "[]"] assms(2) b appendHex_length [of g]
    by (subst parseIPv6_loop.simps) (simp add: Let_def del: not_None_eq takeWhile_eq_all_conv dropWhile_eq_Nil_conv)
  show "c \<noteq> CHR '':'' \<Longrightarrow> parseIPv6_loop (appendHex g @ CHR '':'' # c # r) ip ell = parseIPv6_loop (c # r) (ip @ group_bytes [g]) ell"
    using loop_group [OF assms, of "CHR '':'' # c # r"] assms(2) b appendHex_length [of g]
    by (subst parseIPv6_loop.simps) (simp add: Let_def del: not_None_eq)
  show "parseIPv6_loop (appendHex g @ CHR '':'' # CHR '':'' # r) ip None =
      (if r = [] then Some (ip @ group_bytes [g], Some (length ip + 2), [])
       else parseIPv6_loop r (ip @ group_bytes [g]) (Some (length ip + 2)))"
    using loop_group [OF assms, of "CHR '':'' # CHR '':'' # r"] assms(2) b appendHex_length [of g]
    by (subst parseIPv6_loop.simps) (simp add: Let_def del: not_None_eq)
qed

lemma colons_head:
  assumes "gs \<noteq> []" and "\<forall>g \<in> set gs. g < 65536"
  obtains c r where "colons gs = c # r" and "hex_val c \<noteq> None"
proof -
  obtain g hs where gs: "gs = g # hs" using assms(1) by (cases gs) auto
  obtain c r where c: "appendHex g = c # r" using appendHex_length(1) [of g] by (cases "appendHex g") auto
  then have "hex_val c \<noteq> None" using appendHex_chars [of c g] assms(2) gs by simp
  moreover have "\<exists>r'. colons gs = c # r'" using c gs by (cases hs) auto
  ultimately show thesis using that by blast
qed

lemma colons_nonempty: "gs \<noteq> [] \<Longrightarrow> colons gs \<noteq> []"
  by (cases gs rule: colons.cases) (simp_all add: appendHex_length)

lemma parse_colons:
  assumes "gs \<noteq> []" and "\<forall>g \<in> set gs. g < 65536" and "length ip + 2 * length gs \<le> 16"
  shows "parseIPv6_loop (colons gs) ip ell = Some (ip @ group_bytes gs, ell, [])"
  using assms
proof (induction gs arbitrary: ip rule: colons.induct)
  case (2 g)
  then show ?case using parse_group(1) [of g ip ell] by simp
next
  case (3 g h gs)
  obtain c r where c: "colons (h # gs) = c # r" "hex_val c \<noteq> None" using colons_head [of "h # gs"] "3.prems"(2) by auto
  have "c \<noteq> CHR '':''" using hex_val_special [OF c(2)] by simp
  with parse_group(2) [of g ip c r ell] "3.IH" [of "ip @ group_bytes [g]"] "3.prems" c(1) show ?case by simp
qed simp

lemma parse_colons_ellipsis:
  assumes "pre \<noteq> []" and "\<forall>g \<in> set (pre @ post). g < 65536" and "length ip + 2 * length pre + 2 * length post \<le> 16"
  shows "parseIPv6_loop (colons pre @ ''::'' @ colons post) ip None =
    Some (ip @ group_bytes pre @ group_bytes post, Some (length ip + 2 * length pre), [])"
  using assms
proof (induction pre arbitrary: ip rule: colons.induct)
  case (2 g)
  show ?case
  proof (cases "post = []")
    case True
    with 2 parse_group(3) [of g ip "[]"] show ?thesis by simp
  next
    case False
    then have "colons post \<noteq> []" by (rule colons_nonempty)
    with False 2 parse_group(3) [of g ip "colons post"] parse_colons [of post "ip @ group_bytes [g]" "Some (length ip + 2)"]
    show ?thesis by simp
  qed
next
  case (3 g h pre)
  obtain c r where c: "colons (h # pre) = c # r" "hex_val c \<noteq> None" using colons_head [of "h # pre"] "3.prems"(2) by auto
  have "c \<noteq> CHR '':''" using hex_val_special [OF c(2)] by simp
  with parse_group(2) [of g ip c "r @ ''::'' @ colons post" None] "3.IH" [of "ip @ group_bytes [g]"] "3.prems" c(1)
  show ?case by simp
qed simp


text \<open>The printed groups: all of them, or those before and after the run of zeros.\<close>

lemma colons_Cons: "colons (g # gs) = appendHex g @ concat (map (\<lambda>h. CHR '':'' # appendHex h) gs)"
  by (induction gs arbitrary: g) auto

lemma appendTo6_tail:
  assumes "0 < i" and "s < i \<or> i + length gs \<le> s"
  shows "appendTo6 s e i gs = concat (map (\<lambda>h. CHR '':'' # appendHex h) gs)"
  using assms by (induction gs arbitrary: i) auto

lemma appendTo6_plain: "gs \<noteq> [] \<Longrightarrow> length gs \<le> s \<Longrightarrow> appendTo6 s e 0 gs = colons gs"
  by (cases gs) (auto simp: colons_Cons appendTo6_tail)

lemma appendTo6_run:
  assumes "mid \<noteq> []"
  shows "appendTo6 (i + length pre) (i + length pre + length mid) i (pre @ mid @ post) =
    (if 0 < i \<and> pre \<noteq> [] then '':'' else []) @ colons pre @ ''::'' @ colons post"
proof (induction pre arbitrary: i)
  case Nil
  obtain g gs where "mid @ post = g # gs" using assms by (cases mid) auto
  moreover have "drop (length mid) (mid @ post) = post" by simp
  ultimately show ?case
    by (cases post) (simp_all add: colons_Cons appendTo6_tail)
next
  case (Cons g pre)
  have "appendTo6 (Suc i + length pre) (Suc i + length pre + length mid) (Suc i) (pre @ mid @ post) =
      (if pre \<noteq> [] then '':'' else []) @ colons pre @ ''::'' @ colons post"
    using Cons.IH [of "Suc i"] by simp
  then show ?case by (cases pre) simp_all
qed

definition run_ok :: "nat list \<Rightarrow> nat \<times> nat \<Rightarrow> bool" where
  "run_ok gs = (\<lambda>(s, e). (s, e) = (255, 255) \<or> (s + 2 \<le> e \<and> e \<le> length gs \<and> (\<forall>j. s \<le> j \<and> j < e \<longrightarrow> gs ! j = 0)))"

lemma zero_run_ok: "run_ok (pre @ gs) r \<Longrightarrow> run_ok (pre @ gs) (zero_run (length pre) gs r)"
proof (induction gs arbitrary: pre r)
  case Nil
  then show ?case by simp
next
  case (Cons g gs)
  obtain s e where r: "r = (s, e)" by (cases r)
  let ?t = "takeWhile (\<lambda>x. x = 0) (g # gs)" and ?l = "length (takeWhile (\<lambda>x. x = 0) (g # gs))"
  have "(pre @ g # gs) ! j = 0" if "length pre \<le> j" "j < length pre + ?l" for j
  proof -
    have j: "j - length pre < ?l" using that by simp
    then have "?t ! (j - length pre) = 0" using set_takeWhileD [OF nth_mem [OF j]] by blast
    then have "(g # gs) ! (j - length pre) = 0" unfolding takeWhile_nth [OF j] .
    with that(1) show ?thesis by (simp add: nth_append)
  qed
  moreover have "?l \<le> length (g # gs)" by (rule length_takeWhile_le)
  ultimately have "run_ok (pre @ g # gs) (length pre, length pre + ?l)" if "2 \<le> ?l"
    using that by (simp add: run_ok_def)
  then have "run_ok (pre @ g # gs) (if 2 \<le> ?l \<and> e - s < ?l then (length pre, length pre + ?l) else (s, e))"
    using Cons.prems r by simp
  with Cons.IH [of "pre @ [g]"] show ?case by (simp add: r Let_def del: takeWhile.simps)
qed

lemma string6_cases:
  assumes "length b = 16"
  obtains (plain) "string6 b = colons (v6u16s b)"
  | (run) pre n post where "v6u16s b = pre @ replicate n 0 @ post" and "2 \<le> n" and "string6 b = colons pre @ ''::'' @ colons post"
proof -
  obtain s e where r: "zero_run 0 (v6u16s b) (255, 255) = (s, e)" by (cases "zero_run 0 (v6u16s b) (255, 255)")
  have len: "length (v6u16s b) = 8" using assms by (simp add: length_v6u16s)
  have ok: "run_ok (v6u16s b) (s, e)" using zero_run_ok [of "[]" "v6u16s b" "(255, 255)"] r by (simp add: run_ok_def)
  show thesis
  proof (cases "s = 255")
    case True
    have "v6u16s b \<noteq> []" using len by auto
    with plain True r len show thesis by (simp add: string6_def appendTo6_plain)
  next
    case False
    then have z: "s + 2 \<le> e" "e \<le> 8" "\<forall>j. s \<le> j \<and> j < e \<longrightarrow> v6u16s b ! j = 0" using ok len by (auto simp: run_ok_def)
    define pre post where "pre = take s (v6u16s b)" and "post = drop e (v6u16s b)"
    have "take (e - s) (drop s (v6u16s b)) = replicate (e - s) 0"
      using z len by (intro nth_equalityI) auto
    then have g: "v6u16s b = pre @ replicate (e - s) 0 @ post"
      using z(1) unfolding pre_def post_def by (metis append_take_drop_id drop_drop le_add_diff_inverse2 add_leD1)
    have "length pre = s" using z len by (simp add: pre_def)
    then have "string6 b = colons pre @ ''::'' @ colons post"
      using appendTo6_run [of "replicate (e - s) 0" 0 pre post] z r g by (simp add: string6_def)
    with run g z(1) show thesis by simp
  qed
qed


lemma colons_chars: "c \<in> set (colons gs) \<Longrightarrow> \<forall>g \<in> set gs. g < 65536 \<Longrightarrow> c = CHR '':'' \<or> hex_val c \<noteq> None"
  using appendHex_chars by (induction gs rule: colons.induct) fastforce+

lemma string6_chars:
  assumes "length b = 16"
  shows "c \<in> set (string6 b) \<Longrightarrow> c = CHR '':'' \<or> hex_val c \<noteq> None" and "CHR '':'' \<in> set (string6 b)"
proof -
  have r: "\<forall>g \<in> set (v6u16s b). g < 65536" using v6u16s_range by blast
  show "c = CHR '':'' \<or> hex_val c \<noteq> None" if "c \<in> set (string6 b)"
  proof (rule string6_cases [OF assms])
    assume "string6 b = colons (v6u16s b)"
    with that r show ?thesis using colons_chars by metis
  next
    fix pre n post
    assume "v6u16s b = pre @ replicate n 0 @ post" "string6 b = colons pre @ ''::'' @ colons post"
    with that r show ?thesis using colons_chars [of c pre] colons_chars [of c post] by auto
  qed
  show "CHR '':'' \<in> set (string6 b)"
  proof (rule string6_cases [OF assms])
    assume s: "string6 b = colons (v6u16s b)"
    obtain g h gs where "v6u16s b = g # h # gs"
      using assms length_v6u16s [of b] by (cases "v6u16s b" rule: colons.cases) auto
    with s show ?thesis by simp
  qed simp
qed

lemma parseIPv6_string6:
  assumes "length b = 16"
  shows "parseIPv6 (string6 b) = Some (Addr6 b [])"
proof -
  have noz: "takeWhile (\<lambda>c. c \<noteq> CHR ''%'') (string6 b) = string6 b" "dropWhile (\<lambda>c. c \<noteq> CHR ''%'') (string6 b) = []"
    using string6_chars(1) [OF assms] hex_val_special by fastforce+
  have eq: "parseIPv6 (string6 b) =
      (if take 2 (string6 b) = ''::'' then
        (if drop 2 (string6 b) = [] then Some (Addr6 (replicate 16 0) [])
         else case parseIPv6_loop (drop 2 (string6 b)) [] (Some 0) of
                None \<Rightarrow> None
              | Some (ip, ell, rest) \<Rightarrow> map_option (\<lambda>b. Addr6 b []) (expand_ellipsis ip ell rest))
      else case parseIPv6_loop (string6 b) [] None of
             None \<Rightarrow> None
           | Some (ip, ell, rest) \<Rightarrow> map_option (\<lambda>b. Addr6 b []) (expand_ellipsis ip ell rest))"
    unfolding parseIPv6_def noz Let_def drop_Nil by simp
  have r: "\<forall>g \<in> set (v6u16s b). g < 65536" using v6u16s_range by blast
  have len: "length (v6u16s b) = 8" using assms by (simp add: length_v6u16s)
  have gb: "group_bytes (v6u16s b) = b" using assms by (simp add: group_bytes_v6u16s)
  have hd_no: "take 2 (colons gs @ cs) \<noteq> ''::''" if gs: "gs \<noteq> []" "\<forall>g \<in> set gs. g < 65536" for gs cs
  proof -
    obtain c rst where "colons gs = c # rst" "hex_val c \<noteq> None" by (rule colons_head [OF gs])
    with hex_val_special [of c] show ?thesis by auto
  qed
  show ?thesis
  proof (rule string6_cases [OF assms])
    assume s: "string6 b = colons (v6u16s b)"
    have ne: "v6u16s b \<noteq> []" using len by auto
    with parse_colons [OF ne r, of "[]" None] hd_no [OF ne r, of "[]"] len gb assms show ?thesis
          unfolding eq by (simp add: expand_ellipsis_def s)
  next
    fix pre n post
    assume g: "v6u16s b = pre @ replicate n 0 @ post" and n: "2 \<le> n" and s: "string6 b = colons pre @ ''::'' @ colons post"
    have sum: "length pre + n + length post = 8" using len g by simp
    have rr: "\<forall>g \<in> set (pre @ post). g < 65536" using r g by auto
    have b: "b = group_bytes pre @ replicate (2 * n) 0 @ group_bytes post" using gb g by simp
    have fill: "16 - (2 * length pre + 2 * length post) = 2 * n" using sum by simp
    have ex: "expand_ellipsis (group_bytes pre @ group_bytes post) (Some (2 * length pre)) [] = Some b"
      using sum n fill by (simp add: expand_ellipsis_def b)
    show ?thesis
    proof (cases "pre = []")
      case True
      show ?thesis
      proof (cases "post = []")
        case True
        with \<open>pre = []\<close> b sum show ?thesis
          unfolding eq unfolding s by simp
      next
        case False
        with True parse_colons [OF False, of "[]" "Some 0"] rr sum ex colons_nonempty [OF False] show ?thesis
          unfolding eq unfolding s by simp
      qed
    next
      case False
      have "take 2 (colons pre @ ''::'' @ colons post) \<noteq> ''::''" using hd_no [OF False] rr by simp
      with parse_colons_ellipsis [OF False rr, of "[]"] sum ex show ?thesis
          unfolding eq unfolding s by simp
    qed
  qed
qed

lemma ParseAddr_string6:
  assumes "length b = 16"
  shows "ParseAddr (string6 b) = Some (Addr6 b [])"
proof -
  let ?P = "\<lambda>c. c \<notin> {CHR ''.'', CHR '':'', CHR ''%''}"
  obtain c cs where d: "dropWhile ?P (string6 b) = c # cs" "\<not> ?P c"
    using string6_chars(2) [OF assms] by (cases "dropWhile ?P (string6 b)") (auto dest: dropWhile_eq_Cons_conv [THEN iffD1])
  have "c \<in> set (string6 b)" using d(1) by (metis list.set_intros(1) set_dropWhileD)
  with string6_chars(1) [OF assms] hex_val_special [of c] d(2) have "c = CHR '':''" by blast
  with d(1) parseIPv6_string6 [OF assms] show ?thesis by (simp add: ParseAddr_def)
qed


subsection \<open>Endpoints\<close>

definition addr_of_ip :: "bytes \<Rightarrow> netip_addr" where
  "addr_of_ip ip = (case To4 ip of Some p4 \<Rightarrow> Addr4 p4 | None \<Rightarrow> Addr6 ip [])"

lemma To4_shape: "length ip \<in> {4, 16} \<Longrightarrow> case To4 ip of Some p4 \<Rightarrow> length p4 = 4 | None \<Rightarrow> length ip = 16"
  by (auto simp: To4_def)

lemma ParseAddr_IP_String:
  assumes "length ip \<in> {4, 16}"
  shows "ParseAddr (IP_String ip) = Some (addr_of_ip ip)"
  using assms To4_shape [OF assms]
  by (cases "To4 ip") (auto simp: IP_String_def addr_of_ip_def ParseAddr_string4 ParseAddr_string6)

lemma IP_String_chars:
  assumes "length ip \<in> {4, 16}" and "c \<in> set (IP_String ip)"
  shows "c \<noteq> CHR ''['' \<and> c \<noteq> CHR '']''"
proof (cases "To4 ip")
  case None
  with assms To4_shape [OF assms(1)] have "length ip = 16" "c \<in> set (string6 ip)" by (auto simp: IP_String_def split: if_splits)
  from string6_chars(1) [OF this] hex_val_special [of c] show ?thesis by auto
next
  case (Some p4)
  with assms have "c \<in> set (string4 p4)" by (auto simp: IP_String_def split: if_splits)
  from string4_chars [OF this] is_digit_special [of c] show ?thesis by auto
qed

lemma decimal_chars: "c \<in> set (decimal n) \<Longrightarrow> is_digit c"
proof (induction n rule: decimal.induct)
  case (1 n)
  have "is_digit (char_of (48 + k))" if "k < 10" for k :: nat
    using that less_16_cases [of k] by (auto simp: is_digit_def char_of_def bit_simps)
  with 1 show ?case by (subst (asm) (2) decimal.simps) (auto split: if_splits)
qed

lemma takeWhile_upto: "c \<notin> set xs \<Longrightarrow> takeWhile (\<lambda>x. x \<noteq> c) (xs @ c # ys) = xs"
  by (induction xs) auto

lemma LastIndexByte_append: "c \<notin> set p \<Longrightarrow> LastIndexByte (h @ c # p) c = Some (length h)"
  by (simp add: LastIndexByte_def takeWhile_upto)

lemma IndexByte_append: "c \<notin> set h \<Longrightarrow> IndexByte (h @ c # p) c = Some (length h)"
  by (simp add: IndexByte_def takeWhile_upto)

lemma IndexByte_None: "IndexByte s c = None \<longleftrightarrow> c \<notin> set s"
  by (simp add: IndexByte_def)

lemma Split_Join:
  assumes "\<forall>c \<in> set h. c \<noteq> CHR ''['' \<and> c \<noteq> CHR '']''" and "\<forall>c \<in> set p. c \<notin> {CHR '':'', CHR ''['', CHR '']''}"
  shows "SplitHostPort (JoinHostPort h p) = Some (h, p)"
proof (cases "CHR '':'' \<in> set h")
  case True
  let ?s = "CHR ''['' # h @ '']:'' @ p"
  have "LastIndexByte ?s (CHR '':'') = Some (length h + 2)"
    using LastIndexByte_append [of "CHR '':''" p "CHR ''['' # h @ '']''"] assms(2) by auto
  moreover have "IndexByte ?s (CHR '']'') = Some (length h + 1)"
    using IndexByte_append [of "CHR '']''" "CHR ''['' # h" "'':'' @ p"] assms(1) by auto
  moreover have "split_rest ?s h (length h + 2) 1 (length h + 2) = Some (h, p)"
    using assms by (auto simp: split_rest_def IndexByte_None)
  ultimately show ?thesis
    using True by (auto simp: SplitHostPort_def JoinHostPort_def IndexByte_None)
next
  case False
  have "LastIndexByte (h @ '':'' @ p) (CHR '':'') = Some (length h)"
    using LastIndexByte_append [of "CHR '':''" p h] assms(2) by auto
  moreover have "hd (h @ '':'' @ p) \<noteq> CHR ''[''" using assms(1) by (cases h) auto
  moreover have "split_rest (h @ '':'' @ p) h (length h) 0 0 = Some (h, p)"
    using assms by (auto simp: split_rest_def IndexByte_None)
  ultimately show ?thesis
    using False by (auto simp: SplitHostPort_def JoinHostPort_def IndexByte_None Let_def)
qed

lemma hostport_roundtrip:
  assumes "length ip \<in> {4, 16}"
  shows "SplitHostPort (JoinHostPort (IP_String ip) (decimal n)) = Some (IP_String ip, decimal n)"
  using IP_String_chars [OF assms] decimal_chars is_digit_special by (intro Split_Join) (blast, fastforce)

subsection \<open>Containment\<close>

lemma be_word_bit:
  fixes b :: bytes
  assumes "length b * 8 \<le> LENGTH('a::len)" and "k < 8 * length b"
  shows "bit (le_word (rev b) :: 'a word) (8 * length b - 1 - k) \<longleftrightarrow> bit (b ! (k div 8)) (7 - k mod 8)"
proof -
  let ?n = "8 * length b - 1 - k"
  have q: "k div 8 < length b" using assms(2) by (simp add: div_less_iff_less_mult mult.commute)
  then obtain m where m: "length b = Suc (k div 8 + m)" using less_imp_Suc_add by blast
  define t where "t = 7 - k mod 8"
  have "?n = 8 * m + t" unfolding t_def using m div_mult_mod_eq [of k 8] mod_less_divisor [of 8 k] by arith
  moreover have "t < 8" by (simp add: t_def)
  ultimately have "?n div 8 = length b - 1 - k div 8" "?n mod 8 = 7 - k mod 8" using m by (simp_all flip: t_def)
  moreover have "?n < LENGTH('a)" "rev b ! (length b - 1 - k div 8) = b ! (k div 8)" "length b - 1 - k div 8 < length b"
    using assms q by (simp_all add: rev_nth)
  ultimately show ?thesis by (simp add: bit_le_word)
qed


text \<open>Agreement of the high bits of two big-endian words is agreement of the prefixes.\<close>

lemma be_word_prefix:
  fixes a b :: bytes
  assumes "length a = length b" and "length b * 8 \<le> LENGTH('a::len)" and "n \<le> 8 * length b"
  shows "(\<forall>j < 8 * length b. 8 * length b \<le> j + n \<longrightarrow> bit (le_word (rev a) :: 'a word) j = bit (le_word (rev b) :: 'a word) j) \<longleftrightarrow>
    prefix_bits n a b"
proof -
  let ?L = "8 * length b" and ?x = "le_word (rev a) :: 'a word" and ?y = "le_word (rev b) :: 'a word"
  have "(\<forall>j < ?L. ?L \<le> j + n \<longrightarrow> bit ?x j = bit ?y j) \<longleftrightarrow> (\<forall>k < n. bit ?x (?L - 1 - k) = bit ?y (?L - 1 - k))"
  proof
    assume *: "\<forall>j < ?L. ?L \<le> j + n \<longrightarrow> bit ?x j = bit ?y j"
    show "\<forall>k < n. bit ?x (?L - 1 - k) = bit ?y (?L - 1 - k)"
    proof (intro allI impI)
      fix k assume "k < n"
      with assms(3) have "?L - 1 - k < ?L" "?L \<le> (?L - 1 - k) + n" by linarith+
      with * show "bit ?x (?L - 1 - k) = bit ?y (?L - 1 - k)" by blast
    qed
  next
    assume *: "\<forall>k < n. bit ?x (?L - 1 - k) = bit ?y (?L - 1 - k)"
    show "\<forall>j < ?L. ?L \<le> j + n \<longrightarrow> bit ?x j = bit ?y j"
    proof (intro allI impI)
      fix j assume "j < ?L" "?L \<le> j + n"
      then have "?L - 1 - j < n" "?L - 1 - (?L - 1 - j) = j" by linarith+
      with * show "bit ?x j = bit ?y j" by metis
    qed
  qed
  also have "\<dots> \<longleftrightarrow> prefix_bits n a b"
    unfolding prefix_bits_def using be_word_bit [of b, where 'a = 'a] be_word_bit [of a, where 'a = 'a] assms by simp
  finally show ?thesis .
qed

lemma prefix_bits_sym: "prefix_bits n a b \<longleftrightarrow> prefix_bits n b a"
  by (auto simp: prefix_bits_def)

lemma mapped_bits: "bit (0xffff00000000 :: u64) j \<longleftrightarrow> 32 \<le> j \<and> j < 48"
proof -
  have "(0xffff00000000 :: u64) = push_bit 32 (mask 16)" by (simp add: mask_eq_exp_minus_1)
  then show ?thesis by (simp only: bit_push_bit_iff bit_mask_iff possible_bit_word) auto
qed

lemma ucast_drop_bit_zero: "(ucast (drop_bit n w) :: u32) = 0 \<longleftrightarrow> (\<forall>i < 32. \<not> bit w (n + i))" for w :: u64
  by (simp add: bit_eq_iff bit_ucast_iff bit_drop_bit_eq)

lemma Contains_v4:
  assumes "length a = 4" and "length b = 4" and "0 \<le> n" and "n \<le> 32"
  shows "Contains \<lparr>pfx_addr = Addr4 a, pfx_bits = n\<rparr> (Addr4 b) \<longleftrightarrow> prefix_bits (nat n) a b"
proof -
  let ?x = "le_word (rev b) :: u64" and ?y = "le_word (rev a) :: u64" and ?m = "0xffff00000000 :: u64"
  have hi: "bit ?x j = bit ?y j" if "32 \<le> j" for j
  proof -
    have "\<not> j div 8 < 4" using that by simp
    with assms show ?thesis by (simp add: bit_le_word)
  qed
  have z: "bit ((?m OR ?x) XOR (?m OR ?y)) j \<longleftrightarrow> j < 32 \<and> bit ?x j \<noteq> bit ?y j" for j
    unfolding bit_xor_iff bit_or_iff mapped_bits using hi [of j] by auto
  have "(ucast (drop_bit (32 - nat n) ((?m OR ?x) XOR (?m OR ?y))) :: u32) = 0 \<longleftrightarrow>
      (\<forall>i < 32. \<not> bit ((?m OR ?x) XOR (?m OR ?y)) (32 - nat n + i))"
    by (rule ucast_drop_bit_zero)
  also have "\<dots> \<longleftrightarrow> (\<forall>j < 32. 32 \<le> j + nat n \<longrightarrow> bit ?y j = bit ?x j)"
    unfolding z
  proof (rule iffI; intro allI impI)
    fix j :: nat assume *: "\<forall>i < 32. \<not> (32 - nat n + i < 32 \<and> bit ?x (32 - nat n + i) \<noteq> bit ?y (32 - nat n + i))"
      and j: "j < 32" "32 \<le> j + nat n"
    then have "32 - nat n + (j - (32 - nat n)) = j" by linarith
    with * [rule_format, of "j - (32 - nat n)"] j show "bit ?y j = bit ?x j" by simp
  next
    fix i :: nat assume "\<forall>j < 32. 32 \<le> j + nat n \<longrightarrow> bit ?y j = bit ?x j"
    then show "\<not> (32 - nat n + i < 32 \<and> bit ?x (32 - nat n + i) \<noteq> bit ?y (32 - nat n + i))" by auto
  qed
  also have "\<dots> \<longleftrightarrow> prefix_bits (nat n) a b"
    using be_word_prefix [of a b "nat n", where 'a = 64] assms by simp
  finally show ?thesis using assms(3) by (simp add: Contains_def has_zone_def BitLen_def is4_def addr_lo_def)
qed

lemma prefix_bits_halves:
  assumes "length a = 16" and "length b = 16"
  shows "prefix_bits n a b \<longleftrightarrow> prefix_bits (min n 64) (take 8 a) (take 8 b) \<and> prefix_bits (n - 64) (drop 8 a) (drop 8 b)"
proof -
  have "(\<forall>j < n. P j) \<longleftrightarrow> (\<forall>j < min n 64. P j) \<and> (\<forall>j < n - 64. P (64 + j))" for P :: "nat \<Rightarrow> bool"
    by (auto simp: less_diff_conv add.commute) (metis add_diff_inverse_nat less_diff_conv add.commute)
  moreover have "take 8 a ! (j div 8) = a ! (j div 8)" "take 8 b ! (j div 8) = b ! (j div 8)" if "j < min n 64" for j
    using that by (simp_all add: div_less_iff_less_mult)
  moreover have "(64 + j) div 8 = 8 + j div 8" "(64 + j) mod 8 = j mod 8" for j :: nat by presburger+
  ultimately show ?thesis using assms by (simp add: prefix_bits_def)
qed

lemma Contains_v6:
  assumes "length a = 16" and "length b = 16" and "0 \<le> n" and "n \<le> 128"
  shows "Contains \<lparr>pfx_addr = Addr6 a z, pfx_bits = n\<rparr> (Addr6 b []) \<longleftrightarrow> prefix_bits (nat n) a b"
proof -
  let ?xh = "le_word (rev (take 8 b)) :: u64" and ?yh = "le_word (rev (take 8 a)) :: u64"
  let ?xl = "le_word (rev (drop 8 b)) :: u64" and ?yl = "le_word (rev (drop 8 a)) :: u64"
  have hi: "(?xh XOR ?yh) AND NOT (drop_bit (nat n) (-1)) = 0 \<longleftrightarrow> (\<forall>j < 64. 64 \<le> j + min (nat n) 64 \<longrightarrow> bit ?yh j = bit ?xh j)"
    by (auto simp: bit_eq_iff bit_and_iff bit_xor_iff bit_not_iff bit_drop_bit_eq bit_mask_iff min_def)
  have lo: "(?xl XOR ?yl) AND push_bit (128 - nat n) (-1) = 0 \<longleftrightarrow> (\<forall>j < 64. 64 \<le> j + (nat n - 64) \<longrightarrow> bit ?yl j = bit ?xl j)"
    using assms(4) by (auto simp: bit_eq_iff bit_and_iff bit_xor_iff bit_push_bit_iff bit_not_iff bit_mask_iff)
  show ?thesis
    unfolding prefix_bits_halves [OF assms(1,2)]
    using hi lo be_word_prefix [of "take 8 a" "take 8 b" "min (nat n) 64", where 'a = 64]
      be_word_prefix [of "drop 8 a" "drop 8 b" "nat n - 64", where 'a = 64] assms
    by (simp add: Contains_def has_zone_def BitLen_def is4_def addr_lo_def addr_hi_def)
qed

end
