(* ===== verification/Filter_Env.thy ===== *)
theory Filter_Env
  imports Go_Net Ko_Filter "HOL-Library.Sublist" "HOL-Library.Monad_Syntax"
begin

text \<open>
  The environment of the filter expressions (\<^verbatim>\<open>pkg/filter/env.go\<close>): the address test behind \<open>ip_in\<close> and the rewriting of
  \<open>not in\<close>, which CEL does not have. The regular expression of the rewriting is deterministic: its alternatives
  start with different characters, and what follows a repetition cannot continue it.
\<close>

subsection \<open>Addresses in prefixes\<close>

definition ipString :: "bytes \<Rightarrow> string" where
  "ipString ip = (if ip = [] then [] else IP_String ip)"

definition hostport :: "bytes \<Rightarrow> u16 \<Rightarrow> string" where
  "hostport ip port = JoinHostPort (ipString ip) (decimal (unat port))"

fun cidr_loop :: "netip_addr \<Rightarrow> string list \<Rightarrow> bool" where
  "cidr_loop ip [] = False"
| "cidr_loop ip (c # cidrs) =
     (case ParsePrefix c of
        None \<Rightarrow> cidr_loop ip cidrs
      | Some p \<Rightarrow>
          if Contains (if Is4In6 (pfx_addr p) then PrefixFrom (Unmap (pfx_addr p)) (pfx_bits p) else p) ip then True
          else cidr_loop ip cidrs)"

definition AddrInCIDRs :: "string \<Rightarrow> string list \<Rightarrow> bool" where
  "AddrInCIDRs addr cidrs =
     (let host = (case SplitHostPort addr of Some (h, _) \<Rightarrow> h | None \<Rightarrow> addr) in
      case ParseAddr host of
        None \<Rightarrow> False
      | Some ip \<Rightarrow> cidr_loop (Unmap ip) cidrs)"

text \<open>What it means: an IPv4 or IPv4-mapped address is compared with IPv4 prefixes and with mapped prefixes whose length
  is that of an IPv4 prefix, every other address with the IPv6 prefixes that are not mapped.\<close>

definition in_prefix :: "bytes \<Rightarrow> prefix \<Rightarrow> bool" where
  "in_prefix ip p =
     (let a = addr_bytes (pfx_addr p); n = nat (pfx_bits p) in
      case To4 ip of
        Some v4 \<Rightarrow>
          if is4 (pfx_addr p) then prefix_bits n a v4 else To4 a \<noteq> None \<and> n \<le> 32 \<and> prefix_bits n (drop 12 a) v4
      | None \<Rightarrow> \<not> is4 (pfx_addr p) \<and> To4 a = None \<and> prefix_bits n a ip)"

lemma le_word_rev_zero:
  assumes "length b * 8 \<le> LENGTH('a::len)"
  shows "(le_word (rev b) :: 'a word) = 0 \<longleftrightarrow> b = replicate (length b) 0"
proof -
  have "(le_word (rev b) :: 'a word) = 0 \<longleftrightarrow> (\<forall>j < LENGTH('a). \<not> bit (le_word (rev b) :: 'a word) j)"
    by (auto simp: bit_eq_iff)
  also have "\<dots> \<longleftrightarrow> (\<forall>i < length b. rev b ! i = 0)"
  proof
    assume z: "\<forall>j < LENGTH('a). \<not> bit (le_word (rev b) :: 'a word) j"
    show "\<forall>i < length b. rev b ! i = 0"
    proof (intro allI impI bit_word_eqI)
      fix i n :: nat assume "i < length b" "n < LENGTH(8)"
      then have "8 * i + n < LENGTH('a)" "(8 * i + n) div 8 = i" "(8 * i + n) mod 8 = n" using assms by simp_all
      with z \<open>i < length b\<close> show "bit (rev b ! i) n = bit (0 :: u8) n" by (auto simp: bit_le_word)
    qed
  qed (auto simp: bit_le_word)
  also have "\<dots> \<longleftrightarrow> rev b = replicate (length b) 0" by (auto simp: list_eq_iff_nth_eq)
  also have "\<dots> \<longleftrightarrow> b = replicate (length b) 0" by (metis rev_replicate rev_rev_ident)
  finally show ?thesis .
qed


lemma le_bytes_drop_bit:
  fixes w :: u64
  shows "le_bytes 8 (drop_bit 32 w) = drop 4 (le_bytes 8 w) @ [0, 0, 0, 0]"
proof (rule nth_equalityI)
  fix i assume "i < length (le_bytes 8 (drop_bit 32 w))"
  then have i: "i < 8" by simp
  have high: "drop_bit (8 * i) (drop_bit 32 w) = 0" if "4 \<le> i"
    using that by (intro bit_word_eqI) (auto simp: bit_drop_bit_eq dest: bit_imp_le_length)
  have "[0, 0, 0, 0] ! (i - 4) = (0 :: u8)" if "4 \<le> i" using i that by (auto simp: nth_Cons' less_Suc_eq numeral_eq_Suc)
  with i high show "le_bytes 8 (drop_bit 32 w) ! i = (drop 4 (le_bytes 8 w) @ [0, 0, 0, 0]) ! i"
    by (cases "i < 4") (simp_all add: nth_append nth_le_bytes drop_bit_drop_bit add.commute)
qed simp

lemma le_bytes_inject: "v = w \<longleftrightarrow> le_bytes 8 v = le_bytes 8 w" for v w :: u64
proof
  assume "le_bytes 8 v = le_bytes 8 w"
  then have "(le_word (le_bytes 8 v) :: u64) = le_word (le_bytes 8 w)" by (rule arg_cong)
  then show "v = w" by simp
qed simp

lemma le_bytes_ffff: "le_bytes 8 (0xffff :: u64) = [0xff, 0xff, 0, 0, 0, 0, 0, 0]"
  by code_simp

lemma Is4In6_To4:
  assumes "length b = 16"
  shows "Is4In6 (Addr6 b z) \<longleftrightarrow> To4 b \<noteq> None"
proof -
  let ?w = "le_word (rev (drop 8 b)) :: u64"
  obtain x0 x1 x2 x3 x4 x5 x6 x7 x8 x9 xa xb xc xd xe xf where
    b: "b = [x0, x1, x2, x3, x4, x5, x6, x7, x8, x9, xa, xb, xc, xd, xe, xf]"
    using assms by (rule length_16_cases)
  have "drop_bit 32 ?w = 0xffff \<longleftrightarrow> le_bytes 8 (drop_bit 32 ?w) = le_bytes 8 (0xffff :: u64)"
    by (rule le_bytes_inject)
  also have "le_bytes 8 (drop_bit 32 ?w) = rev (take 4 (drop 8 b)) @ [0, 0, 0, 0]"
    unfolding le_bytes_drop_bit using le_bytes_le_word [of "rev (drop 8 b)", where 'a = 64] assms
    by (simp add: drop_rev)
  finally have "drop_bit 32 ?w = 0xffff \<longleftrightarrow> rev (take 4 (drop 8 b)) = [0xff, 0xff, 0, 0]"
    unfolding le_bytes_ffff by simp
  moreover have "rev (take 4 (drop 8 b)) = [xb, xa, x9, x8]" by (simp add: b)
  moreover have "(le_word (rev (take 8 b)) :: u64) = 0 \<longleftrightarrow> take 8 b = replicate 8 0"
    using le_word_rev_zero [of "take 8 b", where 'a = 64] assms by simp
  moreover have "To4 b \<noteq> None \<longleftrightarrow> [x0, x1, x2, x3, x4, x5, x6, x7] = replicate 8 0 \<and> [xb, xa, x9, x8] = [0xff, 0xff, 0, 0]"
    by (auto simp: To4_def b eval_nat_numeral)
  moreover have "take 8 b = [x0, x1, x2, x3, x4, x5, x6, x7]" by (simp add: b)
  ultimately show ?thesis by (simp add: Is4In6_def is4_def addr_hi_def addr_lo_def)
qed


lemma Unmap_addr_of_ip:
  assumes "length ip \<in> {4, 16}"
  shows "Unmap (addr_of_ip ip) = addr_of_ip ip"
proof (cases "To4 ip")
  case None
  then have "length ip = 16" using To4_shape [OF assms] by simp
  from Is4In6_To4 [OF this, of "[]"] None show ?thesis by (simp add: Unmap_def addr_of_ip_def)
qed (simp add: Unmap_def addr_of_ip_def Is4In6_def is4_def)

lemma cidr_contains:
  assumes "ParsePrefix c = Some p" and "length ip \<in> {4, 16}"
  shows "Contains (if Is4In6 (pfx_addr p) then PrefixFrom (Unmap (pfx_addr p)) (pfx_bits p) else p) (addr_of_ip ip) \<longleftrightarrow> in_prefix ip p"
proof -
  note range = ParsePrefix_range [OF assms(1)] ParsePrefix_nonneg [OF assms(1)]
  obtain a n where p: "p = \<lparr>pfx_addr = a, pfx_bits = n\<rparr>" by (cases p) auto
  have ip: "case To4 ip of Some v4 \<Rightarrow> addr_of_ip ip = Addr4 v4 \<and> length v4 = 4 | None \<Rightarrow> addr_of_ip ip = Addr6 ip [] \<and> length ip = 16"
    using To4_shape [OF assms(2)] by (auto simp: addr_of_ip_def split: option.splits)
  show ?thesis
  proof (cases a)
    case (Addr4 b)
    then have "length b = 4" "\<not> Is4In6 a" "0 \<le> n" "n \<le> 32"
      using range p by (auto simp: addr_bytes_def is4_def Is4In6_def)
    with Addr4 p ip Contains_v4 [of b _ n] show ?thesis
      by (cases "To4 ip") (simp_all add: in_prefix_def Let_def is4_def addr_bytes_def Contains_def BitLen_def has_zone_def)
  next
    case (Addr6 b z)
    then have b: "length b = 16" "0 \<le> n" "n \<le> 128" using range p by (auto simp: addr_bytes_def is4_def)
    show ?thesis
    proof (cases "To4 b")
      case None
      with Is4In6_To4 [OF b(1), of z] Addr6 p ip Contains_v6 [OF b(1) _ b(2,3)] show ?thesis
        by (cases "To4 ip") (simp_all add: in_prefix_def Let_def is4_def addr_bytes_def Contains_def BitLen_def has_zone_def)
    next
      case (Some b4)
      then have m: "Is4In6 (Addr6 b z)" "length (drop 12 b) = 4" using Is4In6_To4 [OF b(1), of z] b(1) by simp_all
      then show ?thesis
        using Addr6 Some p ip b(2) Contains_v4 [OF m(2) _ b(2)]
        by (cases "To4 ip"; cases "n \<le> 32")
          (simp_all add: in_prefix_def Let_def is4_def addr_bytes_def Unmap_def PrefixFrom_def BitLen_def Contains_def has_zone_def nat_le_iff)
    qed
  qed
qed

lemma cidr_loop_iff:
  assumes "length ip \<in> {4, 16}"
  shows "cidr_loop (addr_of_ip ip) cidrs \<longleftrightarrow> (\<exists>c \<in> set cidrs. \<exists>p. ParsePrefix c = Some p \<and> in_prefix ip p)"
proof (induction cidrs)
  case (Cons c cidrs)
  show ?case
  proof (cases "ParsePrefix c")
    case (Some p)
    show ?thesis
      unfolding cidr_loop.simps Some option.case cidr_contains [OF Some assms] using Cons Some by auto
  qed (use Cons in simp)
qed simp

lemma AddrInCIDRs_hostport:
  assumes "length ip \<in> {0, 4, 16}"
  shows "AddrInCIDRs (hostport ip port) cidrs \<longleftrightarrow> ip \<noteq> [] \<and> (\<exists>c \<in> set cidrs. \<exists>p. ParsePrefix c = Some p \<and> in_prefix ip p)"
proof (cases "ip = []")
  case True
  have "SplitHostPort (hostport [] port) = Some ([], decimal (unat port))"
    unfolding hostport_def ipString_def using decimal_chars is_digit_special by (simp, intro Split_Join) (simp, fastforce)
  with True show ?thesis by (simp add: AddrInCIDRs_def ParseAddr_def)
next
  case False
  then have len: "length ip \<in> {4, 16}" using assms by auto
  show ?thesis
    using False hostport_roundtrip [OF len, of "unat port"] ParseAddr_IP_String [OF len] Unmap_addr_of_ip [OF len] cidr_loop_iff [OF len, of cidrs]
    by (simp add: AddrInCIDRs_def hostport_def ipString_def)
qed


text \<open>The address test of the filters. For the printed endpoint of an event, \<^verbatim>\<open>AddrInCIDRs\<close> holds exactly when the address is in one
  of the prefixes that parse: the first bits of the address are those of the prefix, IPv4-mapped addresses
  counting as IPv4; an event without address is in no prefix.\<close>

theorem address_test_exact:
  assumes "length ip \<in> {0, 4, 16}"
  shows "AddrInCIDRs (hostport ip port) cidrs \<longleftrightarrow> ip \<noteq> [] \<and> (\<exists>c \<in> set cidrs. \<exists>p. ParsePrefix c = Some p \<and> in_prefix ip p)"
  by (rule AddrInCIDRs_hostport [OF assms])

theorem address_test_exact_witness:
  "AddrInCIDRs (hostport [172, 17, 0, 2] 443) [''x'', ''172.16.0.0/12''] \<and> \<not> AddrInCIDRs (hostport [172, 32, 0, 2] 443) [''x'', ''172.16.0.0/12'']"
proof -
  have "ParsePrefix ''x'' = None" by code_simp
  moreover have "in_prefix [172, 17, 0, 2] \<lparr>pfx_addr = Addr4 [172, 16, 0, 0], pfx_bits = 12\<rparr>"
    "\<not> in_prefix [172, 32, 0, 2] \<lparr>pfx_addr = Addr4 [172, 16, 0, 0], pfx_bits = 12\<rparr>" by code_simp+
  ultimately show ?thesis
    using address_test_exact [of "[172, 17, 0, 2]" 443] address_test_exact [of "[172, 32, 0, 2]" 443] by (simp add: builtin_prefixes)
qed

subsection \<open>Rewriting of not in\<close>

definition char_in :: "char \<Rightarrow> char \<Rightarrow> char \<Rightarrow> bool" where
  "char_in lo hi c \<longleftrightarrow> (of_char lo :: nat) \<le> of_char c \<and> of_char c \<le> (of_char hi :: nat)"

definition ident_start :: "char \<Rightarrow> bool" where
  "ident_start c \<longleftrightarrow> char_in (CHR ''A'') (CHR ''Z'') c \<or> char_in (CHR ''a'') (CHR ''z'') c \<or> c = CHR ''_''"

definition ident_char :: "char \<Rightarrow> bool" where
  "ident_char c \<longleftrightarrow> ident_start c \<or> char_in (CHR ''0'') (CHR ''9'') c \<or> c = CHR ''.''"

definition is_space :: "char \<Rightarrow> bool" where
  "is_space c \<longleftrightarrow> c \<in> {CHR 0x09, CHR 0x0A, CHR 0x0C, CHR 0x0D, CHR '' ''}"

text \<open>A name, a bracketed list or a quoted string at the front of a text, and what follows it.\<close>

definition closed_by :: "char \<Rightarrow> char \<Rightarrow> string \<Rightarrow> (string \<times> string) option" where
  "closed_by opn close cs =
     (case dropWhile (\<lambda>x. x \<noteq> close) cs of
        [] \<Rightarrow> None
      | d # r \<Rightarrow> Some (opn # takeWhile (\<lambda>x. x \<noteq> close) cs @ [d], r))"

fun operand :: "string \<Rightarrow> (string \<times> string) option" where
  "operand [] = None"
| "operand (c # cs) =
     (if ident_start c then Some (c # takeWhile ident_char cs, dropWhile ident_char cs)
      else if c = CHR ''['' then closed_by c (CHR '']'') cs
      else if c = CHR 0x22 then closed_by c (CHR 0x22) cs
      else None)"

definition spaces :: "string \<Rightarrow> string option" where
  "spaces s = (if takeWhile is_space s = [] then None else Some (dropWhile is_space s))"

definition literal :: "string \<Rightarrow> string \<Rightarrow> string option" where
  "literal w s = (if take (length w) s = w then Some (drop (length w) s) else None)"

definition notInRe :: "string \<Rightarrow> (string \<times> string \<times> string) option" where
  "notInRe s = do {
     (a, r) \<leftarrow> operand s;
     r \<leftarrow> spaces r;
     r \<leftarrow> literal ''not'' r;
     r \<leftarrow> spaces r;
     r \<leftarrow> literal ''in'' r;
     r \<leftarrow> spaces r;
     (b, r) \<leftarrow> operand r;
     Some (a, b, r)
   }"

lemma operand_append: "operand s = Some (a, r) \<Longrightarrow> s = a @ r \<and> a \<noteq> []"
proof (cases s)
  case (Cons c cs)
  have "closed_by q d cs = Some (a, r) \<Longrightarrow> q # cs = a @ r \<and> a \<noteq> []" for q d
    by (auto simp: closed_by_def split: list.splits) (metis takeWhile_dropWhile_id)
  moreover assume "operand s = Some (a, r)"
  ultimately show ?thesis using Cons by (auto split: if_splits)
qed simp

lemma spaces_append: "spaces s = Some r \<Longrightarrow> \<exists>w. s = w @ r \<and> w \<noteq> [] \<and> list_all is_space w \<and> (r = [] \<or> \<not> is_space (hd r))"
proof -
  assume a: "spaces s = Some r"
  then have "s = takeWhile is_space s @ r" "takeWhile is_space s \<noteq> []" "r = dropWhile is_space s"
    by (auto simp: spaces_def split: if_splits)
  moreover have "list_all is_space (takeWhile is_space s)" using set_takeWhileD by (fastforce simp: list_all_iff)
  moreover have "dropWhile is_space s = [] \<or> \<not> is_space (hd (dropWhile is_space s))" using hd_dropWhile by blast
  ultimately show ?thesis by blast
qed

lemma literal_append: "literal w s = Some r \<Longrightarrow> s = w @ r"
  by (auto simp: literal_def split: if_splits) (metis append_take_drop_id)

lemma notInRe_shape:
  assumes "notInRe s = Some (a, b, r)"
  shows "\<exists>v w x. s = a @ v @ ''not'' @ w @ ''in'' @ x @ b @ r \<and> a \<noteq> [] \<and> b \<noteq> [] \<and>
    v \<noteq> [] \<and> w \<noteq> [] \<and> x \<noteq> [] \<and> list_all is_space (v @ w @ x)"
proof -
  obtain r1 r2 r3 r4 r5 r6 where m: "operand s = Some (a, r1)" "spaces r1 = Some r2" "literal ''not'' r2 = Some r3"
    "spaces r3 = Some r4" "literal ''in'' r4 = Some r5" "spaces r5 = Some r6" "operand r6 = Some (b, r)"
    using assms by (auto simp: notInRe_def bind_eq_Some_conv)
  obtain v w x where "r1 = v @ r2" "r3 = w @ r4" "r5 = x @ r6" "v \<noteq> []" "w \<noteq> []" "x \<noteq> []" "list_all is_space (v @ w @ x)"
    using spaces_append [OF m(2)] spaces_append [OF m(4)] spaces_append [OF m(6)] by auto
  with m(1,3,5,7) show ?thesis by (intro exI [of _ v] exI [of _ w] exI [of _ x]) (auto dest!: operand_append literal_append)
qed

lemma notInRe_shorter: "notInRe s = Some (a, b, r) \<Longrightarrow> length r < length s"
  by (drule notInRe_shape) auto

function rewriteNotIn :: "string \<Rightarrow> string" where
  "rewriteNotIn [] = []"
| "rewriteNotIn (c # cs) =
     (case notInRe (c # cs) of
        Some (a, b, r) \<Rightarrow> ''!('' @ a @ '' in '' @ b @ '')'' @ rewriteNotIn r
      | None \<Rightarrow> c # rewriteNotIn cs)"
  by pat_completeness auto

termination rewriteNotIn
  by (relation "measure length") (auto dest: notInRe_shorter)


text \<open>A text that is one operand.\<close>

definition token :: "string \<Rightarrow> bool" where
  "token s \<longleftrightarrow> operand s = Some (s, [])"

lemma space_not_ident: "is_space c \<Longrightarrow> \<not> ident_char c"
  by (auto simp: is_space_def ident_char_def ident_start_def char_in_def)

lemma closed_by_extend: "closed_by q d cs = Some (q # cs, []) \<Longrightarrow> closed_by q d (cs @ r) = Some (q # cs, r)"
proof -
  assume a: "closed_by q d cs = Some (q # cs, [])"
  then obtain e where e: "dropWhile (\<lambda>x. x \<noteq> d) cs = [e]" "takeWhile (\<lambda>x. x \<noteq> d) cs @ [e] = cs"
    by (auto simp: closed_by_def split: list.splits)
  then have "dropWhile (\<lambda>x. x \<noteq> d) cs \<noteq> []" by simp
  then have "\<exists>x \<in> set cs. \<not> x \<noteq> d" unfolding dropWhile_eq_Nil_conv by blast
  then obtain x where x: "x \<in> set cs" "\<not> x \<noteq> d" by blast
  from takeWhile_append1 [of x cs "\<lambda>x. x \<noteq> d" r] dropWhile_append1 [of x cs "\<lambda>x. x \<noteq> d" r] x e show ?thesis
    by (simp add: closed_by_def)
qed

lemma operand_extend:
  assumes "token a" and "r = [] \<or> \<not> ident_char (hd r)"
  shows "operand (a @ r) = Some (a, r)"
proof (cases a)
  case Nil
  with assms(1) show ?thesis by (simp add: token_def)
next
  case (Cons c cs)
  have r: "takeWhile ident_char r = []" "dropWhile ident_char r = r" using assms(2) by (cases r; simp)+
  show ?thesis
  proof (cases "ident_start c")
    case True
    then have "\<forall>x \<in> set cs. ident_char x" using assms(1) Cons by (simp add: token_def)
    with r True Cons show ?thesis by (simp add: takeWhile_append2 dropWhile_append2)
  next
    case False
    with assms(1) Cons closed_by_extend [of c _ cs r] show ?thesis by (auto simp: token_def split: if_splits)
  qed
qed

lemma token_head: "token b \<Longrightarrow> b \<noteq> [] \<and> \<not> is_space (hd b)"
  by (cases b) (auto simp: token_def is_space_def ident_start_def char_in_def split: if_splits)

lemma spaces_skip:
  assumes "v \<noteq> []" and "list_all is_space v" and "r \<noteq> []" and "\<not> is_space (hd r)"
  shows "spaces (v @ r) = Some r"
proof -
  have "takeWhile is_space r = []" "dropWhile is_space r = r" using assms(3,4) by (cases r; simp)+
  with assms(1,2) show ?thesis by (simp add: spaces_def takeWhile_append2 dropWhile_append2 list_all_iff)
qed

lemma notInRe_tokens:
  assumes "token a" and "token b" and "v \<noteq> []" and "w \<noteq> []" and "x \<noteq> []" and "list_all is_space (v @ w @ x)"
    and "r = [] \<or> \<not> ident_char (hd r)"
  shows "notInRe (a @ v @ ''not'' @ w @ ''in'' @ x @ b @ r) = Some (a, b, r)"
proof -
  have v: "\<not> ident_char (hd (v @ s))" for s using assms(3,6) space_not_ident by (cases v) auto
  have "operand (a @ v @ ''not'' @ w @ ''in'' @ x @ b @ r) = Some (a, v @ ''not'' @ w @ ''in'' @ x @ b @ r)"
    by (rule operand_extend [OF assms(1)]) (use v in blast)
  moreover have "spaces (v @ ''not'' @ w @ ''in'' @ x @ b @ r) = Some (''not'' @ w @ ''in'' @ x @ b @ r)"
    "spaces (w @ ''in'' @ x @ b @ r) = Some (''in'' @ x @ b @ r)" "spaces (x @ b @ r) = Some (b @ r)"
    using assms(3-6) token_head [OF assms(2)] by (auto intro!: spaces_skip simp: is_space_def)
  moreover have "literal t (t @ s) = Some s" for t s by (simp add: literal_def)
  moreover have "operand (b @ r) = Some (b, r)" by (rule operand_extend [OF assms(2,7)])
  ultimately show ?thesis by (simp only: notInRe_def Option.bind.bind_lunit prod.case)
qed

lemma rewriteNotIn_other: "\<not> sublist ''not'' s \<Longrightarrow> rewriteNotIn s = s"
proof (induction s)
  case (Cons c cs)
  have "notInRe (c # cs) = None"
  proof (rule ccontr)
    assume "notInRe (c # cs) \<noteq> None"
    then obtain a b r where "notInRe (c # cs) = Some (a, b, r)" by (cases "notInRe (c # cs)") auto
    from notInRe_shape [OF this] obtain v w x where "c # cs = a @ v @ ''not'' @ w @ ''in'' @ x @ b @ r" by blast
    then have s: "c # cs = (a @ v) @ ''not'' @ (w @ ''in'' @ x @ b @ r)" by simp
    have "sublist ''not'' (c # cs)" unfolding s by (rule sublist_appendI)
    with Cons.prems show False by contradiction
  qed
  moreover have "\<not> sublist ''not'' cs" using Cons.prems unfolding sublist_Cons_right by blast
  ultimately show ?case using Cons.IH by simp
qed simp

text \<open>The rewriting of \<open>not in\<close>. A text in which the word \<open>not\<close> does not occur is unchanged. Two operands (names, bracketed
  lists or quoted strings) with \<open>not in\<close> between them, separated by white space, are rewritten into the
  negated membership test, and the rewriting goes on behind them.\<close>

theorem rewriteNotIn_exact:
  assumes "token a" and "token b" and "v \<noteq> []" and "w \<noteq> []" and "x \<noteq> []" and "list_all is_space (v @ w @ x)"
    and "r = [] \<or> \<not> ident_char (hd r)" and "\<not> sublist ''not'' s"
  shows "rewriteNotIn (a @ v @ ''not'' @ w @ ''in'' @ x @ b @ r) = ''!('' @ a @ '' in '' @ b @ '')'' @ rewriteNotIn r \<and>
    rewriteNotIn s = s"
proof -
  obtain c cs where c: "a @ v @ ''not'' @ w @ ''in'' @ x @ b @ r = c # cs"
    using token_head [OF assms(1)] by (cases a) auto
  from notInRe_tokens [OF assms(1-7)] show ?thesis
    unfolding c rewriteNotIn.simps using rewriteNotIn_other [OF assms(8)] by simp
qed

theorem rewriteNotIn_exact_witness:
  "rewriteNotIn (''ko_namespace'' @ '' '' @ ''not'' @ ''  '' @ ''in'' @ '' '' @ ''[kube]'' @ '' && x > 1'') =
     ''!(ko_namespace in [kube]) && x > 1'' \<and> rewriteNotIn ''ko_rtt_us > 100'' = ''ko_rtt_us > 100''"
proof -
  have t: "token ''ko_namespace''" "token ''[kube]''" by code_simp+
  have n: "\<not> sublist ''not'' ''ko_rtt_us > 100''" "\<not> sublist ''not'' '' && x > 1''" by code_simp+
  have "rewriteNotIn (''ko_namespace'' @ '' '' @ ''not'' @ ''  '' @ ''in'' @ '' '' @ ''[kube]'' @ '' && x > 1'') =
      ''!('' @ ''ko_namespace'' @ '' in '' @ ''[kube]'' @ '')'' @ rewriteNotIn '' && x > 1'' \<and>
      rewriteNotIn ''ko_rtt_us > 100'' = ''ko_rtt_us > 100''"
    by (rule rewriteNotIn_exact [OF t _ _ _ _ _ n(1)]) (simp_all add: is_space_def ident_char_def ident_start_def char_in_def)
  then show ?thesis unfolding rewriteNotIn_other [OF n(2)] by (simp del: rewriteNotIn.simps)
qed


text \<open>Parsing and checking of an expression; the parser and the checker of CEL are the argument \<open>check\<close>, an error is \<open>None\<close>.\<close>

definition parseCheck :: "(string \<Rightarrow> 'e option) \<Rightarrow> string \<Rightarrow> 'e option" where
  "parseCheck check expr = check (rewriteNotIn expr)"

end
