(* ===== verification/Filter_Compile.thy ===== *)
theory Filter_Compile
  imports Filter_Equiv Filter_Env
begin

text \<open>
  The compiler of \<^verbatim>\<open>pkg/filter/compile.go\<close> and \<^verbatim>\<open>Compile\<close> of \<^verbatim>\<open>pkg/filter/filter.go\<close>: from the checked CEL
  expression of each filter to the predicate stream. \<open>expr\<close> is what the code sees of a CEL
  AST; the CEL parser and type checker, which are third-party code, are the argument \<open>parse\<close> of
  \<open>Compile\<close>. The compiler state (atoms and their index) is threaded through; \<open>None\<close> is a
  run-time panic, which an argument list shorter than the function's arity would cause.
\<close>

subsection \<open>Expressions and state\<close>

datatype cel_val = VInt int | VString string | VOther

datatype expr =
    EIdent string
  | ELit cel_val
  | EList "expr list"
  | ECall string "expr list"
  | EOther

record compiler =
  atoms :: "Atom list"
  atomIdx :: "u8 \<times> u8 \<times> string \<rightharpoonup> nat"

text \<open>A pushed-down conjunction, or \<open>None\<close> for ok = false.\<close>

type_synonym pushed = "Pred list option"

definition statsFields :: "string \<Rightarrow> u8 option" where
  "statsFields = map_of [(''ko_rtt_us'', FldRTT), (''ko_life_us'', FldLife), (''ko_retransmits'', FldRetrans),
     (''ko_segs_out'', FldSegs), (''ko_error'', FldErrno)]"

definition attrFields :: "string \<Rightarrow> u8 option" where
  "attrFields = map_of [(''ko_namespace'', AttrNamespace), (''ko_container'', AttrContainer), (''ko_pod'', AttrPod)]"

definition LoopbackCIDRs :: "string list" where
  "LoopbackCIDRs = [''127.0.0.0/8'', ''::1/128'']"

definition PrivateCIDRs :: "string list" where
  "PrivateCIDRs = [''10.0.0.0/8'', ''172.16.0.0/12'', ''192.168.0.0/16'', ''fd00::/8'']"

definition builtinLists :: "string \<Rightarrow> string list option" where
  "builtinLists = map_of [(''ko_loopback_cidrs'', LoopbackCIDRs), (''ko_private_cidrs'', PrivateCIDRs)]"

definition typeConsts :: "string \<Rightarrow> u16 option" where
  "typeConsts = map_of [(''ko_type_conn_failed'', EvtConnFailed), (''ko_type_conn_closed'', EvtConnClosed),
     (''ko_type_retransmit'', EvtRetransmit), (''ko_type_probe'', EvtProbe)]"

definition typesByName :: "string \<Rightarrow> u16 option" where
  "typesByName = map_of [(''conn_failed'', EvtConnFailed), (''conn_closed'', EvtConnClosed),
     (''retransmit'', EvtRetransmit), (''probe'', EvtProbe)]"

subsection \<open>Accessors\<close>

definition identOf :: "expr \<Rightarrow> string option" where
  "identOf e = (case e of EIdent n \<Rightarrow> Some n | _ \<Rightarrow> None)"

definition literalOf :: "expr \<Rightarrow> cel_val option" where
  "literalOf e = (case e of ELit v \<Rightarrow> Some v | _ \<Rightarrow> None)"

fun literal_strings :: "expr list \<Rightarrow> string list option" where
  "literal_strings [] = Some []"
| "literal_strings (e # es) =
     (case literalOf e of
        Some (VString s) \<Rightarrow> map_option (\<lambda>ss. s # ss) (literal_strings es)
      | _ \<Rightarrow> None)"

text \<open>The four errors of \<^verbatim>\<open>listOfStrings\<close> are told apart nowhere: an error is \<open>None\<close>.\<close>

definition listOfStrings :: "expr \<Rightarrow> string list option" where
  "listOfStrings e =
     (case identOf e of
        Some n \<Rightarrow> builtinLists n
      | None \<Rightarrow> (case e of EList els \<Rightarrow> literal_strings els | _ \<Rightarrow> None))"

definition typeBitOf :: "expr \<Rightarrow> u64 option" where
  "typeBitOf e =
     (case identOf e of
        Some n \<Rightarrow> map_option (\<lambda>t. push_bit (unat t) 1) (typeConsts n)
      | None \<Rightarrow>
          (case literalOf e of
             Some (VString s) \<Rightarrow> map_option (\<lambda>t. push_bit (unat t) 1) (typesByName s)
           | _ \<Rightarrow> None))"

fun typeMask_loop :: "expr list \<Rightarrow> u64 \<Rightarrow> u64 option" where
  "typeMask_loop [] msk = Some msk"
| "typeMask_loop (e # es) msk = (case typeBitOf e of None \<Rightarrow> None | Some b \<Rightarrow> typeMask_loop es (msk OR b))"

definition typeMaskOf :: "expr \<Rightarrow> u64 option" where
  "typeMaskOf e =
     (case e of
        EList els \<Rightarrow> (case typeMask_loop els 0 of None \<Rightarrow> None | Some m \<Rightarrow> if els = [] then None else Some m)
      | _ \<Rightarrow> None)"

subsection \<open>Atoms\<close>

text \<open>\<^verbatim>\<open>fmt.Sprint\<close> of a string slice: the elements between brackets, separated by single spaces.\<close>

fun join :: "string list \<Rightarrow> string" where
  "join [] = []"
| "join [s] = s"
| "join (s # t # ss) = s @ '' '' @ join (t # ss)"

definition sprint :: "string list \<Rightarrow> string" where
  "sprint ss = ''['' @ join ss @ '']''"

definition attrPred :: "u8 \<Rightarrow> u8 \<Rightarrow> string list \<Rightarrow> u8 \<Rightarrow> compiler \<Rightarrow> Pred \<times> compiler" where
  "attrPred field op values neg c =
     (let k = (field, op, sprint values) in
      case atomIdx c k of
        Some i \<Rightarrow> (zeroPred\<lparr>Kind := PredAttr, fldA := of_nat i, fldB := neg\<rparr>, c)
      | None \<Rightarrow>
          (let i = length (atoms c) in
           (zeroPred\<lparr>Kind := PredAttr, fldA := of_nat i, fldB := neg\<rparr>,
            c\<lparr>atoms := atoms c @ [\<lparr>atom_Field = field, atom_Op = op, atom_Values = values\<rparr>],
              atomIdx := (atomIdx c)(k \<mapsto> i)\<rparr>)))"

fun attrPreds :: "u8 \<Rightarrow> string list \<Rightarrow> compiler \<Rightarrow> Pred list \<times> compiler" where
  "attrPreds f [] c = ([], c)"
| "attrPreds f (v # vs) c =
     (let (p, c') = attrPred f AttrEq [v] 1 c; (ps, c'') = attrPreds f vs c' in (p # ps, c''))"

subsection \<open>Comparisons\<close>

definition cmpKind :: "string \<Rightarrow> u8" where
  "cmpKind fn =
     (if fn = ''_==_'' then CmpEq else if fn = ''_!=_'' then CmpNeq else if fn = ''_<_'' then CmpLt
      else if fn = ''_<=_'' then CmpLe else if fn = ''_>_'' then CmpGt else if fn = ''_>=_'' then CmpGe else CmpEq)"

definition flipCmp :: "u8 \<Rightarrow> u8" where
  "flipCmp kind =
     (if kind = CmpEq then CmpNeq else if kind = CmpNeq then CmpEq else if kind = CmpLt then CmpGe
      else if kind = CmpLe then CmpGt else if kind = CmpGt then CmpLe else if kind = CmpGe then CmpLt else kind)"

definition typePreds :: "u8 \<Rightarrow> u64 \<Rightarrow> Pred list" where
  "typePreds kind tbit =
     (if kind = CmpEq then [zeroPred\<lparr>Kind := PredCmp, fldA := FldType, fldB := CmpIn, Val := tbit\<rparr>]
      else if kind = CmpNeq then [zeroPred\<lparr>Kind := PredCmp, fldA := FldType, fldB := CmpNotIn, Val := tbit\<rparr>]
      else [])"

text \<open>A nil slice is \<open>None\<close>; \<^verbatim>\<open>uint64(int64(i))\<close> is the residue modulo \<open>2 ^ 64\<close>.\<close>

definition cmpFieldPreds :: "string \<Rightarrow> u8 \<Rightarrow> cel_val \<Rightarrow> compiler \<Rightarrow> pushed \<times> compiler" where
  "cmpFieldPreds name kind v c =
     (case statsFields name of
        Some f \<Rightarrow>
          (case v of
             VInt i \<Rightarrow> (Some [zeroPred\<lparr>Kind := PredCmp, fldA := f, fldB := kind, Val := of_int i\<rparr>], c)
           | _ \<Rightarrow> (None, c))
      | None \<Rightarrow>
          (case attrFields name of
             Some f \<Rightarrow>
               (case v of
                  VString s \<Rightarrow>
                    if kind = CmpEq then (let (p, c') = attrPred f AttrEq [s] 0 c in (Some [p], c'))
                    else if kind = CmpNeq then (let (p, c') = attrPred f AttrEq [s] 1 c in (Some [p], c'))
                    else (None, c)
                | _ \<Rightarrow> (None, c))
           | None \<Rightarrow> (None, c)))"

definition cmpPreds :: "expr list \<Rightarrow> u8 \<Rightarrow> compiler \<Rightarrow> pushed \<times> compiler" where
  "cmpPreds args kind c =
     (case args of
        [x, y] \<Rightarrow>
          (case identOf x of
             Some name \<Rightarrow>
               (case typeBitOf y of
                  Some tbit \<Rightarrow>
                    if name = ''ko_type'' then (Some (typePreds kind tbit), c)
                    else (case literalOf y of None \<Rightarrow> (None, c) | Some v \<Rightarrow> cmpFieldPreds name kind v c)
                | None \<Rightarrow> (case literalOf y of None \<Rightarrow> (None, c) | Some v \<Rightarrow> cmpFieldPreds name kind v c))
           | None \<Rightarrow>
               (case identOf y of
                  Some name \<Rightarrow>
                    (case typeBitOf x of
                       Some tbit \<Rightarrow>
                         if name = ''ko_type'' then (Some (typePreds (flipCmp kind) tbit), c)
                         else (case literalOf x of None \<Rightarrow> (None, c) | Some v \<Rightarrow> cmpFieldPreds name (flipCmp kind) v c)
                     | None \<Rightarrow> (case literalOf x of None \<Rightarrow> (None, c) | Some v \<Rightarrow> cmpFieldPreds name (flipCmp kind) v c))
                | None \<Rightarrow> (None, c)))
      | _ \<Rightarrow> (None, c))"

subsection \<open>Membership\<close>

definition inPreds :: "expr list \<Rightarrow> compiler \<Rightarrow> pushed \<times> compiler" where
  "inPreds args c =
     (case args of
        [x, y] \<Rightarrow>
          (case identOf x of
             None \<Rightarrow> (None, c)
           | Some name \<Rightarrow>
               if name = ''ko_type'' then
                 (case typeMaskOf y of
                    None \<Rightarrow> (None, c)
                  | Some m \<Rightarrow> (Some [zeroPred\<lparr>Kind := PredCmp, fldA := FldType, fldB := CmpIn, Val := m\<rparr>], c))
               else
                 (case attrFields name of
                    None \<Rightarrow> (None, c)
                  | Some f \<Rightarrow>
                      (case listOfStrings y of
                         None \<Rightarrow> (None, c)
                       | Some values \<Rightarrow>
                           if values = [] then (None, c)
                           else (let (p, c') = attrPred f AttrIn values 0 c in (Some [p], c')))))
      | _ \<Rightarrow> (None, c))"

definition negInPreds :: "expr list \<Rightarrow> compiler \<Rightarrow> pushed \<times> compiler" where
  "negInPreds args c =
     (case args of
        [x, y] \<Rightarrow>
          (case identOf x of
             None \<Rightarrow> (None, c)
           | Some name \<Rightarrow>
               if name = ''ko_type'' then
                 (case typeMaskOf y of
                    None \<Rightarrow> (None, c)
                  | Some m \<Rightarrow> (Some [zeroPred\<lparr>Kind := PredCmp, fldA := FldType, fldB := CmpNotIn, Val := m\<rparr>], c))
               else
                 (case attrFields name of
                    None \<Rightarrow> (None, c)
                  | Some f \<Rightarrow>
                      (case listOfStrings y of
                         None \<Rightarrow> (None, c)
                       | Some values \<Rightarrow>
                           if values = [] then (None, c)
                           else (let (ps, c') = attrPreds f values c in (Some ps, c')))))
      | _ \<Rightarrow> (None, c))"

text \<open>One prefix written into slot \<open>i\<close> of the predicate; \<^verbatim>\<open>As4\<close> and \<^verbatim>\<open>As16\<close> are copied to the front of
  the sixteen bytes.\<close>

definition set_prefix :: "nat \<Rightarrow> prefix \<Rightarrow> Pred \<Rightarrow> Pred" where
  "set_prefix i pfx p =
     p\<lparr>Plen := (Plen p)[i := of_int (pfx_bits pfx)], Fam := (Fam p)[i := if is4 (pfx_addr pfx) then 4 else 6],
       Addr := (Addr p)[i := addr_bytes (pfx_addr pfx) @ drop (length (addr_bytes (pfx_addr pfx))) (Addr p ! i)]\<rparr>"

fun ipIn_loop :: "nat \<Rightarrow> string list \<Rightarrow> Pred \<Rightarrow> Pred option" where
  "ipIn_loop i [] p = Some p"
| "ipIn_loop i (v # vs) p =
     (case ParsePrefix v of None \<Rightarrow> None | Some pfx \<Rightarrow> ipIn_loop (Suc i) vs (set_prefix i pfx p))"

definition ipInPreds :: "expr list \<Rightarrow> u8 \<Rightarrow> pushed" where
  "ipInPreds args neg =
     (case args of
        [x, y] \<Rightarrow>
          (case identOf x of
             None \<Rightarrow> None
           | Some name \<Rightarrow>
               (case map_of [(''ko_local_addr'', 0), (''ko_remote_addr'', 1)] name of
                  None \<Rightarrow> None
                | Some which \<Rightarrow>
                    (case listOfStrings y of
                       None \<Rightarrow> None
                     | Some values \<Rightarrow>
                         if values = [] then
                           (if neg = 0 then None
                            else Some [zeroPred\<lparr>Kind := PredIPSet, fldA := which, fldB := neg\<rparr>])
                         else if length values > MaxIPSet then None
                         else map_option (\<lambda>p. [p])
                           (ipIn_loop 0 values
                              (zeroPred\<lparr>Kind := PredIPSet, fldA := which, fldB := neg, fldN := of_nat (length values)\<rparr>)))))
      | _ \<Rightarrow> None)"

subsection \<open>Conjunctions\<close>

definition cmpOps :: "string list" where
  "cmpOps = [''_==_'', ''_!=_'', ''_<_'', ''_<=_'', ''_>_'', ''_>=_'']"

fun conj_of :: "expr \<Rightarrow> compiler \<Rightarrow> (pushed \<times> compiler) option"
  and negConj :: "expr \<Rightarrow> compiler \<Rightarrow> (pushed \<times> compiler) option" where
  "conj_of (ECall fn args) c =
     (if fn = ''_&&_'' then
        (case args of
           [] \<Rightarrow> None
         | x # rest \<Rightarrow>
             (case conj_of x c of
                None \<Rightarrow> None
              | Some (None, c') \<Rightarrow> Some (None, c')
              | Some (Some l, c') \<Rightarrow>
                  (case rest of
                     [] \<Rightarrow> None
                   | y # _ \<Rightarrow>
                       (case conj_of y c' of
                          None \<Rightarrow> None
                        | Some (None, c'') \<Rightarrow> Some (None, c'')
                        | Some (Some r, c'') \<Rightarrow> Some (Some (l @ r), c'')))))
      else if fn = ''!_'' then (case args of [] \<Rightarrow> None | x # _ \<Rightarrow> negConj x c)
      else if fn \<in> set cmpOps then Some (cmpPreds args (cmpKind fn) c)
      else if fn = ''@in'' then Some (inPreds args c)
      else if fn = ''ip_in'' then Some (ipInPreds args 0, c)
      else Some (None, c))"
| "conj_of e c = Some (None, c)"
| "negConj (ECall fn args) c =
     (if fn = ''!_'' then (case args of [] \<Rightarrow> None | x # _ \<Rightarrow> conj_of x c)
      else if fn \<in> set cmpOps then Some (cmpPreds args (flipCmp (cmpKind fn)) c)
      else if fn = ''@in'' then Some (negInPreds args c)
      else if fn = ''ip_in'' then Some (ipInPreds args 1, c)
      else Some (None, c))"
| "negConj e c = Some (None, c)"

subsection \<open>Compile\<close>

record Config =
  cfg_Name :: string
  cfg_Expr :: string

text \<open>What \<^verbatim>\<open>Compile\<close> builds, the CEL programs apart, which are third-party values.\<close>

record Set =
  set_names :: "string list"
  set_asts :: "expr list"
  set_atoms :: "Atom list"
  set_preds :: "Pred list list"
  set_flat :: "Pred list"
  set_userspace :: "bool list"

datatype compile_error =
    NoFilters
  | TooManyFilters
  | CelEnv
  | EmptyName
  | DuplicateName string
  | BadExpr string
  | TooLarge string
  | TooManyAtoms
  | CelProgram

text \<open>The loop over the configuration: the filters so far, newest last, and the predicate count.\<close>

record cstate =
  cs_comp :: compiler
  cs_filters :: "(string \<times> expr \<times> Pred list \<times> bool) list"
  cs_npreds :: nat

fun Compile_loop :: "(string \<Rightarrow> expr option) \<Rightarrow> Config list \<Rightarrow> cstate \<Rightarrow> (compile_error + cstate) option" where
  "Compile_loop parse [] st = Some (Inr st)"
| "Compile_loop parse (f # fs) st =
     (if cfg_Name f = [] then Some (Inl EmptyName)
      else if cfg_Name f \<in> fst ` set (cs_filters st) then Some (Inl (DuplicateName (cfg_Name f)))
      else case parseCheck parse (cfg_Expr f) of
        None \<Rightarrow> Some (Inl (BadExpr (cfg_Name f)))
      | Some e \<Rightarrow>
          (case conj_of e (cs_comp st) of
             None \<Rightarrow> None
           | Some (None, c) \<Rightarrow>
               Compile_loop parse fs
                 (st\<lparr>cs_comp := c, cs_filters := cs_filters st @ [(cfg_Name f, e, [], True)]\<rparr>)
           | Some (Some ps, c) \<Rightarrow>
               if cs_npreds st + length ps + 1 > MaxPreds then Some (Inl (TooLarge (cfg_Name f)))
               else Compile_loop parse fs
                 (st\<lparr>cs_comp := c, cs_filters := cs_filters st @ [(cfg_Name f, e, ps, False)],
                     cs_npreds := cs_npreds st + length ps + 1\<rparr>)))"

definition Compile ::
    "bool \<Rightarrow> (string \<Rightarrow> expr option) \<Rightarrow> (expr \<Rightarrow> bool) \<Rightarrow> Config list \<Rightarrow> (compile_error + Set) option" where
  "Compile envok parse program_ok cfg =
     (if cfg = [] then Some (Inl NoFilters)
      else if length cfg > MaxFilters then Some (Inl TooManyFilters)
      else if \<not> envok then Some (Inl CelEnv)
      else case Compile_loop parse cfg
          \<lparr>cs_comp = \<lparr>atoms = [], atomIdx = Map.empty\<rparr>, cs_filters = [], cs_npreds = 0\<rparr> of
        None \<Rightarrow> None
      | Some (Inl e) \<Rightarrow> Some (Inl e)
      | Some (Inr st) \<Rightarrow>
          if length (atoms (cs_comp st)) > 64 then Some (Inl TooManyAtoms)
          else
            (let fs = cs_filters st; names = map fst fs; asts = map (fst \<circ> snd) fs;
                 ps = map (fst \<circ> snd \<circ> snd) fs; us = map (snd \<circ> snd \<circ> snd) fs in
             if \<not> list_all program_ok asts then Some (Inl CelProgram)
             else Some (Inr \<lparr>set_names = names, set_asts = asts, set_atoms = atoms (cs_comp st), set_preds = ps,
               set_flat = flat_loop 0 (zip ps us), set_userspace = us\<rparr>)))"

end
