(* ===== verification/Compile_Wf.thy ===== *)
theory Compile_Wf
  imports Filter_Compile
begin

text \<open>
  The type invariant of the compiler: whatever expression it is given, the predicates it emits
  are well formed, its atom index points into the atom table and holds what was interned, and
  the table only grows. From it follows what \<^verbatim>\<open>Compile\<close> guarantees of a stream.
\<close>

subsection \<open>The atom table\<close>

definition atom_key :: "Atom \<Rightarrow> u8 \<times> u8 \<times> string" where
  "atom_key a = (atom_Field a, atom_Op a, sprint (atom_Values a))"

definition comp_ok :: "compiler \<Rightarrow> bool" where
  "comp_ok c \<longleftrightarrow> (\<forall>k i. atomIdx c k = Some i \<longrightarrow> i < length (atoms c) \<and> atom_key (atoms c ! i) = k) \<and>
     list_all (\<lambda>a. atom_Values a \<noteq> []) (atoms c)"

definition comp_le :: "compiler \<Rightarrow> compiler \<Rightarrow> bool" where
  "comp_le c c' \<longleftrightarrow> (\<exists>as. atoms c' = atoms c @ as)"

lemma comp_le_refl [simp]: "comp_le c c"
  by (simp add: comp_le_def)

lemma comp_le_trans [trans]: "comp_le a b \<Longrightarrow> comp_le b c \<Longrightarrow> comp_le a c"
  by (auto simp: comp_le_def)

lemma comp_le_length: "comp_le c c' \<Longrightarrow> length (atoms c) \<le> length (atoms c')"
  by (auto simp: comp_le_def)

lemma comp_le_nth: "comp_le c c' \<Longrightarrow> i < length (atoms c) \<Longrightarrow> atoms c' ! i = atoms c ! i"
  by (auto simp: comp_le_def nth_append)

subsection \<open>Emitted predicates\<close>

definition emitted :: "compiler \<Rightarrow> Pred \<Rightarrow> bool" where
  "emitted c p \<longleftrightarrow> Pred_ok p \<and> body_pred p \<and>
     (Kind p = PredAttr \<longrightarrow> (\<exists>i < length (atoms c). fldA p = of_nat i)) \<and>
     (Kind p = PredIPSet \<longrightarrow> fldA p \<in> {0, 1} \<and> (\<forall>i < unat (fldN p). Fam p ! i \<in> {4, 6}))"

definition pushed_ok :: "compiler \<Rightarrow> pushed \<times> compiler \<Rightarrow> bool" where
  "pushed_ok c r \<longleftrightarrow> comp_ok (snd r) \<and> comp_le c (snd r) \<and>
     (case fst r of None \<Rightarrow> True | Some ps \<Rightarrow> list_all (emitted (snd r)) ps)"

lemma emitted_mono: "comp_le c c' \<Longrightarrow> emitted c p \<Longrightarrow> emitted c' p"
  using comp_le_length [of c c'] unfolding emitted_def by (meson order_less_le_trans)

lemma emitted_list_mono: "comp_le c c' \<Longrightarrow> list_all (emitted c) ps \<Longrightarrow> list_all (emitted c') ps"
  by (auto simp: list_all_iff emitted_mono)

lemma Pred_ok_zero: "Pred_ok zeroPred"
  by (simp add: Pred_ok_def zeroPred_def list_all_length)

lemma Pred_ok_update:
  "Pred_ok (p\<lparr>Kind := k\<rparr>) = Pred_ok p" "Pred_ok (p\<lparr>fldA := a\<rparr>) = Pred_ok p"
  "Pred_ok (p\<lparr>fldB := b\<rparr>) = Pred_ok p" "Pred_ok (p\<lparr>Val := v\<rparr>) = Pred_ok p"
  by (simp_all add: Pred_ok_def)

lemma emitted_cmp [simp]: "emitted c (zeroPred\<lparr>Kind := PredCmp, fldA := f, fldB := b, Val := v\<rparr>)"
  by (simp add: emitted_def body_pred_def Pred_ok_update Pred_ok_zero)

lemma pushed_none [simp]: "comp_ok c \<Longrightarrow> pushed_ok c (None, c)"
  by (simp add: pushed_ok_def)

lemma attrPred_ok:
  assumes "comp_ok c" and "values \<noteq> []"
  shows "comp_ok (snd (attrPred f op values neg c))" and "comp_le c (snd (attrPred f op values neg c))"
    and "\<exists>i < length (atoms (snd (attrPred f op values neg c))).
      fst (attrPred f op values neg c) = zeroPred\<lparr>Kind := PredAttr, fldA := of_nat i, fldB := neg\<rparr> \<and>
      atom_key (atoms (snd (attrPred f op values neg c)) ! i) = (f, op, sprint values)"
proof -
  let ?k = "(f, op, sprint values)" and ?r = "attrPred f op values neg c"
  show "comp_ok (snd ?r)" "comp_le c (snd ?r)"
    using assms by (auto simp: attrPred_def Let_def comp_ok_def comp_le_def atom_key_def nth_append less_Suc_eq
        split: option.splits)
  show "\<exists>i < length (atoms (snd ?r)). fst ?r = zeroPred\<lparr>Kind := PredAttr, fldA := of_nat i, fldB := neg\<rparr> \<and>
      atom_key (atoms (snd ?r) ! i) = ?k"
  proof (cases "atomIdx c ?k")
    case None
    then show ?thesis
      by (intro exI [of _ "length (atoms c)"]) (simp add: attrPred_def Let_def atom_key_def)
  next
    case (Some i)
    with assms(1) show ?thesis
      by (intro exI [of _ i]) (simp add: attrPred_def comp_ok_def)
  qed
qed

lemma attrPred_emitted:
  assumes "comp_ok c" and "values \<noteq> []"
  shows "emitted (snd (attrPred f op values neg c)) (fst (attrPred f op values neg c))"
  using attrPred_ok(3) [OF assms, of f op neg]
  by (auto simp: emitted_def body_pred_def Pred_ok_update Pred_ok_zero)

lemma attrPreds_ok:
  "comp_ok c \<Longrightarrow> comp_ok (snd (attrPreds f vs c)) \<and> comp_le c (snd (attrPreds f vs c)) \<and>
     list_all (emitted (snd (attrPreds f vs c))) (fst (attrPreds f vs c))"
proof (induction f vs c rule: attrPreds.induct)
  case (1 f c)
  then show ?case by simp
next
  case (2 f v vs c)
  obtain p c' where p: "attrPred f AttrEq [v] 1 c = (p, c')" by (cases "attrPred f AttrEq [v] 1 c")
  obtain ps c'' where ps: "attrPreds f vs c' = (ps, c'')" by (cases "attrPreds f vs c'")
  have 1: "comp_ok c'" "comp_le c c'" "emitted c' p"
    using attrPred_ok(1,2) [OF 2(2), of "[v]"] attrPred_emitted [OF 2(2), of "[v]"] p by (metis list.distinct(1) fst_conv snd_conv)+
  with 2(1) [OF p [symmetric] refl 1(1)] ps have "comp_ok c''" "comp_le c' c''" "list_all (emitted c'') ps" by simp_all
  with 1 p ps show ?case by (auto intro: comp_le_trans emitted_mono)
qed

lemma cmpFieldPreds_ok: "comp_ok c \<Longrightarrow> pushed_ok c (cmpFieldPreds name kind v c)"
  using attrPred_ok(1,2) [of c] attrPred_emitted [of c]
  by (auto simp: cmpFieldPreds_def pushed_ok_def split_def Let_def split: option.split cel_val.split)

lemma typePreds_ok: "comp_ok c \<Longrightarrow> pushed_ok c (Some (typePreds kind b), c)"
  by (simp add: pushed_ok_def typePreds_def)

lemma cmpPreds_ok: "comp_ok c \<Longrightarrow> pushed_ok c (cmpPreds args kind c)"
  using cmpFieldPreds_ok [of c] typePreds_ok [of c]
  by (auto simp: cmpPreds_def split: list.split option.split)

lemma inPreds_ok: "comp_ok c \<Longrightarrow> pushed_ok c (inPreds args c)"
  using attrPred_ok(1,2) [of c] attrPred_emitted [of c]
  by (auto simp: inPreds_def pushed_ok_def split_def Let_def split: list.split option.split)

lemma negInPreds_ok: "comp_ok c \<Longrightarrow> pushed_ok c (negInPreds args c)"
  using attrPreds_ok [of c]
  by (auto simp: negInPreds_def pushed_ok_def split_def Let_def split: list.split option.split)

subsection \<open>Prefix sets\<close>

lemma set_prefix_ok:
  assumes "Pred_ok p" and "ParsePrefix v = Some pfx" and "i < MaxIPSet"
  shows "Pred_ok (set_prefix i pfx p)"
proof -
  have "length (Addr p ! i) = 16" using assms(1,3) by (auto simp: Pred_ok_def list_all_length)
  moreover have "length (addr_bytes (pfx_addr pfx)) \<le> 16" using ParsePrefix_range(1) [OF assms(2)] by simp
  ultimately have "length ((Addr p)[i := addr_bytes (pfx_addr pfx) @ drop (length (addr_bytes (pfx_addr pfx))) (Addr p ! i)] ! n) = 16"
    if "n < 4" for n
    using that assms(1) by (cases "n = i") (auto simp: Pred_ok_def list_all_length)
  then show ?thesis
    using assms(1) by (auto simp: Pred_ok_def set_prefix_def list_all_length)
qed

lemma set_prefix_sel [simp]:
  "Kind (set_prefix i pfx p) = Kind p" "fldA (set_prefix i pfx p) = fldA p" "fldB (set_prefix i pfx p) = fldB p"
  "fldN (set_prefix i pfx p) = fldN p"
  by (simp_all add: set_prefix_def)

lemma ipIn_loop_ok:
  assumes "ipIn_loop i vs p = Some q" and "Pred_ok p" and "i + length vs \<le> MaxIPSet"
    and "\<forall>j < i. Fam p ! j \<in> {4, 6}"
  shows "Pred_ok q \<and> Kind q = Kind p \<and> fldA q = fldA p \<and> fldB q = fldB p \<and> fldN q = fldN p \<and>
    (\<forall>j < i + length vs. Fam q ! j \<in> {4, 6})"
  using assms
proof (induction i vs p rule: ipIn_loop.induct)
  case (1 i p)
  then show ?case by simp
next
  case (2 i v vs p)
  then obtain pfx where pfx: "ParsePrefix v = Some pfx" and rest: "ipIn_loop (Suc i) vs (set_prefix i pfx p) = Some q"
    by (auto split: option.splits)
  have i: "i < MaxIPSet" using 2 by simp
  have "\<forall>j < Suc i. Fam (set_prefix i pfx p) ! j \<in> {4, 6}"
    using 2(5) i 2(3) by (auto simp: set_prefix_def less_Suc_eq Pred_ok_def)
  with 2(1) [OF pfx rest set_prefix_ok [OF 2(3) pfx i]] 2(4) show ?case by simp
qed

lemma ipInPreds_ok:
  assumes "comp_ok c" and "neg \<in> {0, 1}"
  shows "pushed_ok c (ipInPreds args neg, c)"
proof -
  have empty: "emitted c (zeroPred\<lparr>Kind := PredIPSet, fldA := w, fldB := neg\<rparr>)" if "w \<in> {0, 1}" for w
    using that by (auto simp: emitted_def body_pred_def Pred_ok_update Pred_ok_zero) (auto simp: zeroPred_def)
  have loop: "emitted c q"
    if "ipIn_loop 0 vs (zeroPred\<lparr>Kind := PredIPSet, fldA := w, fldB := neg, fldN := of_nat (length vs)\<rparr>) = Some q"
      and "w \<in> {0, 1}" and "length vs \<le> MaxIPSet" for vs q w
  proof -
    have n: "unat (of_nat (length vs) :: u8) = length vs" using that(3) by (simp add: unat_of_nat)
    have "Pred_ok (zeroPred\<lparr>Kind := PredIPSet, fldA := w, fldB := neg, fldN := of_nat (length vs)\<rparr>)"
      using that(3) by (simp add: Pred_ok_def zeroPred_def list_all_length n)
    from ipIn_loop_ok [OF that(1) this] that(2,3) show ?thesis
      by (auto simp: emitted_def body_pred_def n)
  qed
  have which: "w \<in> {0, 1}" if "map_of [(''ko_local_addr'', 0 :: u8), (''ko_remote_addr'', 1)] name = Some w" for name w
    using that by (auto split: if_splits)
  show ?thesis
    using assms empty loop which
    by (auto simp: pushed_ok_def ipInPreds_def simp del: map_of.simps split: list.split option.split)
qed

subsection \<open>Conjunctions\<close>

lemma pushed_trans:
  assumes "pushed_ok c (Some l, c')" and "pushed_ok c' (r, c'')"
  shows "comp_le c c''" and "list_all (emitted c'') l"
  using assms emitted_list_mono [of c' c'' l] comp_le_trans [of c c' c''] by (auto simp: pushed_ok_def)

lemma conj_ok:
  "comp_ok c \<Longrightarrow> conj_of e c = Some r \<Longrightarrow> pushed_ok c r"
  "comp_ok c \<Longrightarrow> negConj e c = Some r \<Longrightarrow> pushed_ok c r"
proof (induction e c and e c arbitrary: r and r rule: conj_of_negConj.induct)
  case (1 fn args c)
  show ?case
  proof (cases "fn = ''_&&_''")
    case False
    with 1(3-) show ?thesis
      by (auto simp: cmpPreds_ok inPreds_ok ipInPreds_ok split: if_splits list.splits intro: 1(3) pushed_none)
  next
    case and_: True
    with 1(5) obtain x rest where args: "args = x # rest" by (auto split: list.splits)
    obtain l c' where l: "conj_of x c = Some (l, c')" using 1(5) and_ args by (auto split: option.splits prod.splits)
    have okl: "pushed_ok c (l, c')" using 1(1) [OF and_ args 1(4) l] .
    show ?thesis
    proof (cases l)
      case None
      with 1(5) and_ args l okl show ?thesis by auto
    next
      case (Some lp)
      obtain y ys where rest: "rest = y # ys" using 1(5) and_ args l Some by (auto split: list.splits)
      obtain rp c'' where rr: "conj_of y c' = Some (rp, c'')" using 1(5) and_ args l Some rest
        by (auto split: option.splits prod.splits)
      have okc: "comp_ok c'" using okl by (simp add: pushed_ok_def)
      have okr: "pushed_ok c' (rp, c'')"
        using 1(2) [OF and_ args l refl Some rest okc rr] .
      from okl okr Some pushed_trans [of c lp c' rp c''] 1(5) and_ args l rest rr show ?thesis
        by (auto simp: pushed_ok_def split: option.splits)
    qed
  qed
next
  case (3 fn args c)
  then show ?case
    by (auto simp: cmpPreds_ok negInPreds_ok ipInPreds_ok split: if_splits list.splits)
qed auto

end
