(* ===== verification/Cel_Semantics.thy ===== *)
theory Cel_Semantics
  imports Compile_Wf
begin

text \<open>
  Exact evaluation of the filters in userspace: the variable bindings of an event (\<^verbatim>\<open>activation\<close>) and the
  first-match loop \<^verbatim>\<open>Evaluate\<close> of \<^verbatim>\<open>pkg/filter/filter.go\<close>. The CEL evaluator is third-party code: it is the
  parameter \<open>eval\<close>, and \<open>cel_laws\<close> states what the language definition says of the operators the
  compiler pushes down. An evaluation error is \<open>None\<close>.
\<close>

datatype rval = RInt int | RString string | RBool bool | RList "string list"

type_synonym cel_eval = "(string \<Rightarrow> rval option) \<Rightarrow> expr \<Rightarrow> rval option"

subsection \<open>Bindings\<close>

definition EventType_String :: "u16 \<Rightarrow> string" where
  "EventType_String t =
     (if t = EvtConnFailed then ''conn_failed'' else if t = EvtConnClosed then ''conn_closed''
      else if t = EvtRetransmit then ''retransmit'' else if t = EvtProbe then ''probe''
      else ''unknown('' @ decimal (unat t) @ '')'')"

definition activation :: "Event \<Rightarrow> string \<Rightarrow> rval option" where
  "activation ev = map_of [
     (''ko_type'', RString (EventType_String (ev_Type ev))),
     (''ko_type_conn_failed'', RString (EventType_String EvtConnFailed)),
     (''ko_type_conn_closed'', RString (EventType_String EvtConnClosed)),
     (''ko_type_retransmit'', RString (EventType_String EvtRetransmit)),
     (''ko_type_probe'', RString (EventType_String EvtProbe)),
     (''ko_namespace'', RString (ev_Namespace ev)),
     (''ko_container'', RString (ev_Container ev)),
     (''ko_pod'', RString (ev_Pod ev)),
     (''ko_rtt_us'', RInt (uint (ev_RTTUS ev))),
     (''ko_life_us'', RInt (sint (ev_LifeUS ev))),
     (''ko_retransmits'', RInt (uint (ev_Retransmits ev))),
     (''ko_segs_out'', RInt (uint (ev_SegsOut ev))),
     (''ko_error'', RInt (uint (ev_Errno ev))),
     (''ko_local_addr'', RString (hostport (ev_LocalIP ev) (ev_LocalPort ev))),
     (''ko_remote_addr'', RString (hostport (ev_RemoteIP ev) (ev_RemotePort ev))),
     (''ko_loopback_cidrs'', RList LoopbackCIDRs),
     (''ko_private_cidrs'', RList PrivateCIDRs)]"

text \<open>The binding of \<open>ip_in\<close>; \<open>None\<close> is an error value. The lists of the language that reach it hold strings only.\<close>

definition ipInVal :: "rval \<Rightarrow> rval \<Rightarrow> rval option" where
  "ipInVal a b =
     (case a of
        RString addr \<Rightarrow> (case b of RList cidrs \<Rightarrow> Some (RBool (AddrInCIDRs addr cidrs)) | _ \<Rightarrow> None)
      | _ \<Rightarrow> None)"

subsection \<open>First match over the programs\<close>

fun Evaluate_loop :: "cel_eval \<Rightarrow> (string \<Rightarrow> rval option) \<Rightarrow> nat \<Rightarrow> expr list \<Rightarrow> nat option" where
  "Evaluate_loop eval act i [] = None"
| "Evaluate_loop eval act i (e # es) =
     (if eval act e = Some (RBool True) then Some i else Evaluate_loop eval act (Suc i) es)"

definition Evaluate :: "cel_eval \<Rightarrow> Set \<Rightarrow> Event \<Rightarrow> nat option" where
  "Evaluate eval s ev = Evaluate_loop eval (activation ev) 0 (set_asts s)"

lemma Evaluate_loop_iff:
  "Evaluate_loop eval act i es = Some k \<longleftrightarrow>
     i \<le> k \<and> k < i + length es \<and> eval act (es ! (k - i)) = Some (RBool True) \<and>
     (\<forall>j < k - i. eval act (es ! j) \<noteq> Some (RBool True))"
proof (induction eval act i es rule: Evaluate_loop.induct)
  case (1 eval act i)
  then show ?case by simp
next
  case (2 eval act i e es)
  show ?case
  proof (cases "eval act e = Some (RBool True)")
    case True
    have "k = i" if "i \<le> k" "\<forall>j < k - i. eval act ((e # es) ! j) \<noteq> Some (RBool True)"
      using that True by (metis diff_is_0_eq' le_antisym not_gr_zero nth_Cons_0 diff_is_0_eq)
    with True show ?thesis by auto
  next
    case False
    have split: "(\<forall>j < Suc n. P j) \<longleftrightarrow> P 0 \<and> (\<forall>j < n. P (Suc j))" for n and P :: "nat \<Rightarrow> bool"
      using less_Suc_eq_0_disj by auto
    show ?thesis
    proof (cases "Suc i \<le> k")
      case True
      then have "k - i = Suc (k - Suc i)" by simp
      with False True 2 show ?thesis by (simp add: split)
    next
      case ik: False
      with False 2 show ?thesis by (cases "k = i") auto
    qed
  qed
qed

subsection \<open>The laws of the evaluator\<close>

definition cel_compare :: "string \<Rightarrow> int \<Rightarrow> int \<Rightarrow> bool" where
  "cel_compare fn a b =
     (if fn = ''_==_'' then a = b else if fn = ''_!=_'' then a \<noteq> b else if fn = ''_<_'' then a < b
      else if fn = ''_<=_'' then a \<le> b else if fn = ''_>_'' then a > b else a \<ge> b)"

definition cel_laws :: "cel_eval \<Rightarrow> bool" where
  "cel_laws eval \<longleftrightarrow>
     (\<forall>act n. eval act (EIdent n) = act n) \<and>
     (\<forall>act i. eval act (ELit (VInt i)) = Some (RInt i)) \<and>
     (\<forall>act s. eval act (ELit (VString s)) = Some (RString s)) \<and>
     (\<forall>act es ss. map (eval act) es = map (\<lambda>s. Some (RString s)) ss \<longrightarrow> eval act (EList es) = Some (RList ss)) \<and>
     (\<forall>act x y. eval act (ECall ''_&&_'' [x, y]) = Some (RBool True) \<longleftrightarrow>
        eval act x = Some (RBool True) \<and> eval act y = Some (RBool True)) \<and>
     (\<forall>act x b. eval act (ECall ''!_'' [x]) = Some (RBool b) \<longleftrightarrow> eval act x = Some (RBool (\<not> b))) \<and>
     (\<forall>act fn x y a b. fn \<in> set cmpOps \<longrightarrow> eval act x = Some (RInt a) \<longrightarrow> eval act y = Some (RInt b) \<longrightarrow>
        eval act (ECall fn [x, y]) = Some (RBool (cel_compare fn a b))) \<and>
     (\<forall>act x y a b. eval act x = Some (RString a) \<longrightarrow> eval act y = Some (RString b) \<longrightarrow>
        eval act (ECall ''_==_'' [x, y]) = Some (RBool (a = b)) \<and> eval act (ECall ''_!=_'' [x, y]) = Some (RBool (a \<noteq> b))) \<and>
     (\<forall>act x y a bs. eval act x = Some (RString a) \<longrightarrow> eval act y = Some (RList bs) \<longrightarrow>
        eval act (ECall ''@in'' [x, y]) = Some (RBool (a \<in> set bs))) \<and>
     (\<forall>act x y a b. eval act x = Some a \<longrightarrow> eval act y = Some b \<longrightarrow> eval act (ECall ''ip_in'' [x, y]) = ipInVal a b)"


lemma cel_values:
  assumes "cel_laws eval"
  shows "eval act (EIdent n) = act n" and "eval act (ELit (VInt i)) = Some (RInt i)"
    and "eval act (ELit (VString s)) = Some (RString s)"
    and "map (eval act) es = map (\<lambda>s. Some (RString s)) ss \<Longrightarrow> eval act (EList es) = Some (RList ss)"
  using assms by (auto simp: cel_laws_def)

lemma cel_connectives:
  assumes "cel_laws eval"
  shows "eval act (ECall ''_&&_'' [x, y]) = Some (RBool True) \<longleftrightarrow> eval act x = Some (RBool True) \<and> eval act y = Some (RBool True)"
    and "eval act (ECall ''!_'' [x]) = Some (RBool b) \<longleftrightarrow> eval act x = Some (RBool (\<not> b))"
  using assms by (auto simp: cel_laws_def)

lemma cel_relations:
  assumes "cel_laws eval"
  shows "fn \<in> set cmpOps \<Longrightarrow> eval act x = Some (RInt a) \<Longrightarrow> eval act y = Some (RInt b) \<Longrightarrow>
      eval act (ECall fn [x, y]) = Some (RBool (cel_compare fn a b))"
    and "eval act x = Some (RString u) \<Longrightarrow> eval act y = Some (RString w) \<Longrightarrow> eval act (ECall ''_==_'' [x, y]) = Some (RBool (u = w))"
    and "eval act x = Some (RString u) \<Longrightarrow> eval act y = Some (RString w) \<Longrightarrow> eval act (ECall ''_!=_'' [x, y]) = Some (RBool (u \<noteq> w))"
    and "eval act x = Some (RString u) \<Longrightarrow> eval act y = Some (RList ws) \<Longrightarrow> eval act (ECall ''@in'' [x, y]) = Some (RBool (u \<in> set ws))"
    and "eval act x = Some (RString u) \<Longrightarrow> eval act y = Some (RList ws) \<Longrightarrow> eval act (ECall ''ip_in'' [x, y]) = Some (RBool (AddrInCIDRs u ws))"
  using assms by (auto simp: cel_laws_def ipInVal_def)

text \<open>An evaluator with these laws, which errs on everything else.\<close>

fun strings_of :: "rval option list \<Rightarrow> string list option" where
  "strings_of [] = Some []"
| "strings_of (Some (RString s) # vs) = map_option (\<lambda>ss. s # ss) (strings_of vs)"
| "strings_of _ = None"

definition apply_op :: "string \<Rightarrow> rval option list \<Rightarrow> rval option" where
  "apply_op fn vs =
     (if fn = ''_&&_'' then
        (if vs = [Some (RBool True), Some (RBool True)] then Some (RBool True)
         else if length vs = 2 \<and> Some (RBool False) \<in> set vs then Some (RBool False) else None)
      else if fn = ''!_'' then (case vs of [Some (RBool b)] \<Rightarrow> Some (RBool (\<not> b)) | _ \<Rightarrow> None)
      else if fn \<in> set cmpOps then
        (case vs of
           [Some (RInt a), Some (RInt b)] \<Rightarrow> Some (RBool (cel_compare fn a b))
         | [Some (RString a), Some (RString b)] \<Rightarrow>
             if fn = ''_==_'' then Some (RBool (a = b)) else if fn = ''_!=_'' then Some (RBool (a \<noteq> b)) else None
         | _ \<Rightarrow> None)
      else if fn = ''@in'' then
        (case vs of [Some (RString a), Some (RList bs)] \<Rightarrow> Some (RBool (a \<in> set bs)) | _ \<Rightarrow> None)
      else if fn = ''ip_in'' then (case vs of [Some a, Some b] \<Rightarrow> ipInVal a b | _ \<Rightarrow> None)
      else None)"

fun ref_eval :: "(string \<Rightarrow> rval option) \<Rightarrow> expr \<Rightarrow> rval option" where
  "ref_eval act (EIdent n) = act n"
| "ref_eval act (ELit (VInt i)) = Some (RInt i)"
| "ref_eval act (ELit (VString s)) = Some (RString s)"
| "ref_eval act (ELit VOther) = None"
| "ref_eval act (EList es) = map_option RList (strings_of (map (ref_eval act) es))"
| "ref_eval act (ECall fn args) = apply_op fn (map (ref_eval act) args)"
| "ref_eval act EOther = None"

lemma strings_of_map: "strings_of (map (\<lambda>s. Some (RString s)) ss) = Some ss"
  by (induction ss) auto

lemma ref_eval_laws: "cel_laws ref_eval"
proof -
  have ops: "''_&&_'' \<notin> set cmpOps" "''!_'' \<notin> set cmpOps" "''@in'' \<notin> set cmpOps" "''ip_in'' \<notin> set cmpOps" "''_==_'' \<in> set cmpOps" "''_!=_'' \<in> set cmpOps"
    by (simp_all add: cmpOps_def)
  have and_: "apply_op ''_&&_'' [u, v] = Some (RBool True) \<longleftrightarrow> u = Some (RBool True) \<and> v = Some (RBool True)" for u v
    by (simp add: apply_op_def)
  have not_: "apply_op ''!_'' [u] = Some (RBool b) \<longleftrightarrow> u = Some (RBool (\<not> b))" for u b
    by (auto simp: apply_op_def split: option.splits rval.splits)
  have cmp: "apply_op fn [Some (RInt a), Some (RInt b)] = Some (RBool (cel_compare fn a b))" if "fn \<in> set cmpOps" for fn a b
    using that ops by (auto simp: apply_op_def)
  show ?thesis
    unfolding cel_laws_def using and_ not_ cmp ops by (auto simp: strings_of_map apply_op_def)
qed

end
