(* ===== verification/Compile_Props.thy ===== *)
theory Compile_Props
  imports Compile_Wf Filter_Props
begin

text \<open>
  What \<^verbatim>\<open>Compile\<close> guarantees: it never panics on checked expressions, its streams are well formed, and the
  kernel and the userspace walker agree on them. The exceptions are stated as theorems on
  concrete configurations: streams longer than the kernel's array, comparisons with the literal
  on the left or with a negative literal, and colliding atom keys.
\<close>

subsection \<open>The loop over the configuration\<close>

definition filter_cost :: "string \<times> expr \<times> Pred list \<times> bool \<Rightarrow> nat" where
  "filter_cost = (\<lambda>(n, e, ps, us). if us then 0 else length ps + 1)"

definition loop_ok :: "cstate \<Rightarrow> bool" where
  "loop_ok st \<longleftrightarrow> comp_ok (cs_comp st) \<and> distinct (map fst (cs_filters st)) \<and>
     list_all (\<lambda>(n, e, ps, us). n \<noteq> [] \<and> list_all (emitted (cs_comp st)) ps \<and> (us \<longrightarrow> ps = [])) (cs_filters st) \<and>
     cs_npreds st = sum_list (map filter_cost (cs_filters st)) \<and> cs_npreds st \<le> MaxPreds"

lemma loop_ok_step:
  assumes "loop_ok st" and "n \<noteq> []" and "n \<notin> fst ` set (cs_filters st)" and "pushed_ok (cs_comp st) (Some ps, c)"
    and "us \<longrightarrow> ps = []" and "cs_npreds st + k \<le> MaxPreds" and "k = filter_cost (n, e, ps, us)"
  shows "loop_ok (st\<lparr>cs_comp := c, cs_filters := cs_filters st @ [(n, e, ps, us)], cs_npreds := cs_npreds st + k\<rparr>)"
proof -
  have "comp_le (cs_comp st) c" using assms(4) by (simp add: pushed_ok_def)
  then have "list_all (\<lambda>(n, e, ps, us). n \<noteq> [] \<and> list_all (emitted c) ps \<and> (us \<longrightarrow> ps = [])) (cs_filters st)"
    using assms(1) emitted_list_mono by (fastforce simp: loop_ok_def list_all_iff)
  with assms show ?thesis by (auto simp: loop_ok_def pushed_ok_def)
qed

lemma Compile_loop_ok:
  assumes "Compile_loop parse cfg st = Some (Inr st')" and "loop_ok st"
  shows "loop_ok st' \<and> map fst (cs_filters st') = map fst (cs_filters st) @ map cfg_Name cfg"
  using assms
proof (induction parse cfg st rule: Compile_loop.induct)
  case (1 parse st)
  then show ?case by simp
next
  case (2 parse f fs st)
  have n: "cfg_Name f \<noteq> []" "cfg_Name f \<notin> fst ` set (cs_filters st)"
    using 2(3) by (auto split: if_splits)
  then obtain e where e: "parseCheck parse (cfg_Expr f) = Some e" using 2(3) by (auto split: if_splits option.splits)
  then obtain ps c where pc: "conj_of e (cs_comp st) = Some (ps, c)"
    using 2(3) n by (auto split: if_splits option.splits)
  have ok: "pushed_ok (cs_comp st) (ps, c)" using conj_ok(1) [OF _ pc] 2(4) by (simp add: loop_ok_def)
  show ?case
  proof (cases ps)
    case None
    let ?st = "st\<lparr>cs_comp := c, cs_filters := cs_filters st @ [(cfg_Name f, e, [], True)]\<rparr>"
    have "pushed_ok (cs_comp st) (Some [], c)" using ok None by (simp add: pushed_ok_def)
    from loop_ok_step [OF 2(4) n this, of True 0 e] have "loop_ok ?st"
      using 2(4) by (simp add: filter_cost_def loop_ok_def)
    from 2(1) [OF n e pc [unfolded None] refl refl _ this] 2(3) n e pc None show ?thesis by simp
  next
    case (Some l)
    let ?st = "st\<lparr>cs_comp := c, cs_filters := cs_filters st @ [(cfg_Name f, e, l, False)], cs_npreds := cs_npreds st + length l + 1\<rparr>"
    have le: "cs_npreds st + (length l + 1) \<le> MaxPreds" using 2(3) n e pc Some by (simp split: if_splits)
    from loop_ok_step [OF 2(4) n ok [unfolded Some] _ le, of False e] have "loop_ok ?st"
      by (simp add: filter_cost_def)
    from 2(2) [OF n e pc [unfolded Some] refl refl _ _ this] 2(3) n e pc Some le show ?thesis by simp
  qed
qed

lemma length_flat_loop: "length (flat_loop i fs) = sum_list (map (\<lambda>(ps, us). length ps + 1) fs)"
  by (induction i fs rule: flat_loop.induct) auto

lemma emitted_wf:
  assumes "emitted c p" and "length (atoms c) \<le> 64"
  shows "wf_pred p"
proof -
  have "(of_nat i :: u8) < 64" if "i < 64" for i
    using that by (simp add: word_less_nat_alt unat_of_nat)
  with assms show ?thesis by (fastforce simp: emitted_def wf_pred_def body_pred_def)
qed

lemma flat_loop_wf:
  "list_all (\<lambda>(ps, us). list_all wf_pred ps) fs \<Longrightarrow> list_all wf_pred (flat_loop i fs)"
proof (induction i fs rule: flat_loop.induct)
  case (2 i ps us fs)
  have "wf_pred (zeroPred\<lparr>Kind := PredEnd, fldA := of_nat i, fldB := if us then 1 else 0\<rparr>)"
    by (simp add: wf_pred_def Pred_ok_def zeroPred_def list_all_length)
  with 2 show ?case by simp
qed simp

text \<open>What is known of a compiled set, in the terms of the walkers.\<close>

definition compiled_ok :: "Set \<Rightarrow> bool" where
  "compiled_ok s \<longleftrightarrow> set_names s \<noteq> [] \<and> length (set_names s) \<le> MaxFilters \<and> distinct (set_names s) \<and>
     [] \<notin> set (set_names s) \<and> length (set_atoms s) \<le> 64 \<and>
     length (set_preds s) = length (set_names s) \<and> length (set_userspace s) = length (set_names s) \<and>
     set_flat s = flat_loop 0 (zip (set_preds s) (set_userspace s)) \<and> list_all wf_pred (set_flat s) \<and>
     list_all (list_all body_pred) (set_preds s) \<and>
     length (set_flat s) \<le> MaxPreds + length (filter id (set_userspace s))"

lemma Compile_compiled_ok:
  assumes "Compile eo parse po cfg = Some (Inr s)"
  shows "compiled_ok s \<and> set_names s = map cfg_Name cfg"
proof -
  obtain st where st: "Compile_loop parse cfg \<lparr>cs_comp = \<lparr>atoms = [], atomIdx = Map.empty\<rparr>, cs_filters = [], cs_npreds = 0\<rparr> = Some (Inr st)"
    and cfg: "cfg \<noteq> []" "length cfg \<le> MaxFilters" and at: "length (atoms (cs_comp st)) \<le> 64"
    and s: "s = \<lparr>set_names = map fst (cs_filters st), set_asts = map (fst \<circ> snd) (cs_filters st), set_atoms = atoms (cs_comp st),
      set_preds = map (fst \<circ> snd \<circ> snd) (cs_filters st),
      set_flat = flat_loop 0 (zip (map (fst \<circ> snd \<circ> snd) (cs_filters st)) (map (snd \<circ> snd \<circ> snd) (cs_filters st))),
      set_userspace = map (snd \<circ> snd \<circ> snd) (cs_filters st)\<rparr>"
    using assms by (auto simp: Compile_def Let_def split: if_splits option.splits sum.splits)
  let ?fs = "cs_filters st"
  have "loop_ok \<lparr>cs_comp = \<lparr>atoms = [], atomIdx = Map.empty\<rparr>, cs_filters = [], cs_npreds = 0\<rparr>"
    by (simp add: loop_ok_def comp_ok_def)
  from Compile_loop_ok [OF st this] have ok: "loop_ok st" and names: "map fst ?fs = map cfg_Name cfg" by simp_all
  have zip: "zip (map (fst \<circ> snd \<circ> snd) ?fs) (map (snd \<circ> snd \<circ> snd) ?fs) = map (snd \<circ> snd) ?fs"
    by (simp add: zip_map_map zip_same_conv_map)
  have em: "list_all (\<lambda>f. list_all (emitted (cs_comp st)) (fst (snd (snd f))) \<and> fst f \<noteq> [] \<and> (snd (snd (snd f)) \<longrightarrow> fst (snd (snd f)) = [])) ?fs"
    using ok by (simp add: loop_ok_def split_def conj_ac)
  have "list_all (\<lambda>(ps, us). list_all wf_pred ps) (map (snd \<circ> snd) ?fs)"
    using em emitted_wf [OF _ at] by (fastforce simp: list_all_iff)
  then have wf: "list_all wf_pred (flat_loop 0 (map (snd \<circ> snd) ?fs))" by (rule flat_loop_wf)
  have "sum_list (map (\<lambda>(ps, us). length ps + 1) (map (snd \<circ> snd) gs)) =
      sum_list (map filter_cost gs) + length (filter id (map (snd \<circ> snd \<circ> snd) gs))"
    if "list_all (\<lambda>f. snd (snd (snd f)) \<longrightarrow> fst (snd (snd f)) = []) gs" for gs :: "(string \<times> expr \<times> Pred list \<times> bool) list"
    using that by (induction gs) (auto simp: filter_cost_def)
  moreover have "list_all (\<lambda>f. snd (snd (snd f)) \<longrightarrow> fst (snd (snd f)) = []) ?fs" using em by (simp add: list_all_iff)
  ultimately have "length (flat_loop 0 (map (snd \<circ> snd) ?fs)) \<le> MaxPreds + length (filter id (map (snd \<circ> snd \<circ> snd) ?fs))"
    using ok by (simp add: length_flat_loop loop_ok_def)
  moreover have "[] \<notin> set (map fst ?fs)" "list_all (list_all body_pred) (map (fst \<circ> snd \<circ> snd) ?fs)"
    using em by (fastforce simp: list_all_iff emitted_def)+
  moreover have "map fst ?fs \<noteq> []" "length (map fst ?fs) \<le> MaxFilters" using cfg unfolding names by simp_all
  ultimately show ?thesis
    using ok wf at zip names map_eq_imp_length_eq [OF names] by (simp add: s compiled_ok_def loop_ok_def)
qed

lemma compiled_ok_length:
  assumes "compiled_ok s" and "True \<notin> set (set_userspace s)"
  shows "length (set_flat s) \<le> MaxPreds"
proof -
  have "length (set_flat s) \<le> MaxPreds + length (filter id (set_userspace s))"
    using assms(1) unfolding compiled_ok_def by blast
  moreover have "filter id (set_userspace s) = []" using assms(2) by (auto simp: filter_empty_conv)
  ultimately show ?thesis by simp
qed

subsection \<open>A configuration\<close>

text \<open>Two filters as the CEL checker delivers them: slow connections of a namespace, and
  connections to a prefix of whole bytes.\<close>

definition ex_parse :: "string \<Rightarrow> expr option" where
  "ex_parse = map_of [
     (''slow'', ECall ''_&&_'' [ECall ''_==_'' [EIdent ''ko_namespace'', ELit (VString ''default'')],
        ECall ''_>_'' [EIdent ''ko_rtt_us'', ELit (VInt 5000)]]),
     (''docker'', ECall ''ip_in'' [EIdent ''ko_remote_addr'', EList [ELit (VString ''172.0.0.0/8'')]])]"

definition ex_config :: "Config list" where
  "ex_config = [\<lparr>cfg_Name = ''s'', cfg_Expr = ''slow''\<rparr>, \<lparr>cfg_Name = ''d'', cfg_Expr = ''docker''\<rparr>]"

definition ex_set :: Set where
  "ex_set = \<lparr>set_names = [''s'', ''d''], set_asts = [the (ex_parse ''slow''), the (ex_parse ''docker'')],
     set_atoms = [\<lparr>atom_Field = AttrNamespace, atom_Op = AttrEq, atom_Values = [''default'']\<rparr>],
     set_preds = map fst ex_filters, set_flat = flat_loop 0 ex_filters, set_userspace = [False, False]\<rparr>"

lemma ex_compiles: "Compile True ex_parse (\<lambda>_. True) ex_config = Some (Inr ex_set)"
  by code_simp

text \<open>What \<^verbatim>\<open>Compile\<close> guarantees of a set it accepts: between 1 and 32 distinct, non-empty names, in the order of
  the configuration; at most 64 atoms; a stream that is the filters' predicates and end
  markers, every predicate well formed (array sizes, at most four prefixes of a known family,
  atom ids below 64), and of at most 32 predicates when no filter is left to userspace.\<close>

theorem compiled_stream_wf:
  assumes "Compile envok parse program_ok cfg = Some (Inr s)"
  shows "set_names s = map cfg_Name cfg \<and> distinct (set_names s) \<and> [] \<notin> set (set_names s) \<and>
    0 < length (set_names s) \<and> length (set_names s) \<le> MaxFilters \<and> length (set_atoms s) \<le> 64 \<and>
    set_flat s = flat_loop 0 (zip (set_preds s) (set_userspace s)) \<and> list_all wf_pred (set_flat s) \<and>
    (True \<in> set (set_userspace s) \<or> length (set_flat s) \<le> MaxPreds)"
proof -
  have ok: "compiled_ok s" "set_names s = map cfg_Name cfg" using Compile_compiled_ok [OF assms] by simp_all
  then show ?thesis using compiled_ok_length [OF ok(1)] unfolding compiled_ok_def by blast
qed

theorem compiled_stream_wf_witness:
  "list_all wf_pred (set_flat ex_set) \<and> length (set_flat ex_set) \<le> MaxPreds"
proof -
  have "True \<notin> set (set_userspace ex_set)" by (simp add: ex_set_def)
  with compiled_stream_wf [OF ex_compiles] show ?thesis by blast
qed

text \<open>The kernel and the userspace walker agree on compiled filters. For a set that \<^verbatim>\<open>Compile\<close> accepts, none of
  whose filters is left to userspace and whose prefixes are whole bytes, the program that
  \<^verbatim>\<open>BPFProg\<close> lays out makes the kernel answer every event as \<^verbatim>\<open>RunPreds\<close> does.\<close>

theorem compiled_kernel_matches_userspace:
  assumes "Compile envok parse program_ok cfg = Some (Inr s)" and "True \<notin> set (set_userspace s)"
    and "list_all (\<lambda>p. Kind p = PredIPSet \<longrightarrow> byte_prefixes p) (set_flat s)" and "same_event g ev" and "cfgv \<noteq> 0"
  shows "RunPreds (set_flat s) ev (verdicts (g_cgroup_id g)) =
    Some (ko_filter_eval (Some cfgv) (Some (ko_prog_of (BPFProg (set_names s) (set_flat s)))) verdicts g)"
proof -
  have ok: "compiled_ok s" using Compile_compiled_ok [OF assms(1)] by simp
  have "length (set_flat s) \<le> MaxPreds" using compiled_ok_length [OF ok assms(2)] .
  with ok have c: "list_all wf_pred (set_flat s)" "length (set_flat s) \<le> MaxPreds" "set_names s \<noteq> []" "length (set_names s) \<le> MaxFilters"
    unfolding compiled_ok_def by blast+
  have "walk (map (Pred_clause v ev) (set_flat s)) KO_TRI_TRUE = walk (ko_clauses (ko_prog_of (BPFProg (set_names s) (set_flat s)), g) v) KO_TRI_TRUE"
    for v using BPFProg_clauses [OF assms(4) c(1) assms(3) c(2-4)] by simp
  moreover have "list_all Pred_ok (set_flat s)" using c(1) by (simp add: list_all_length wf_pred_def)
  ultimately show ?thesis
    using gv.answer_walk [of "(set_flat s, ev)"] kf.answer_walk [of "(ko_prog_of (BPFProg (set_names s) (set_flat s)), g)"]
      same_event_ok [OF assms(4)] by (simp add: ko_filter_eval_answer [OF assms(5)])
qed

theorem compiled_kernel_matches_userspace_witness:
  "RunPreds (set_flat ex_set) ex_event None =
     Some (ko_filter_eval (Some 1) (Some (ko_prog_of (BPFProg (set_names ex_set) (set_flat ex_set)))) Map.empty ex_args)"
proof -
  have "True \<notin> set (set_userspace ex_set)" by (simp add: ex_set_def)
  moreover have "list_all (\<lambda>p. Kind p = PredIPSet \<longrightarrow> byte_prefixes p) (set_flat ex_set)"
    using ex_filters_wf(2) by (simp add: ex_set_def)
  ultimately show ?thesis
    using compiled_kernel_matches_userspace [OF ex_compiles _ _ ex_same_event, of 1 Map.empty] by simp
qed

subsection \<open>No panics\<close>

text \<open>Expressions whose operators have their arity, as the CEL parser builds them.\<close>

fun arity_ok :: "expr \<Rightarrow> bool" where
  "arity_ok (ECall fn args) \<longleftrightarrow>
     (fn = ''_&&_'' \<longrightarrow> length args = 2) \<and> (fn = ''!_'' \<longrightarrow> length args = 1) \<and> list_all arity_ok args"
| "arity_ok (EList es) \<longleftrightarrow> list_all arity_ok es"
| "arity_ok _ \<longleftrightarrow> True"

lemma conj_returns:
  "arity_ok e \<Longrightarrow> \<exists>r. conj_of e c = Some r" "arity_ok e \<Longrightarrow> \<exists>r. negConj e c = Some r"
proof (induction e c and e c rule: conj_of_negConj.induct)
  case (1 fn args c)
  show ?case
  proof (cases "fn = ''_&&_''")
    case True
    then obtain x y where xy: "args = [x, y]" using 1(4) by (auto simp: length_Suc_conv numeral_2_eq_2)
    obtain l c' where l: "conj_of x c = Some (l, c')" using 1(1) [OF True xy] 1(4) xy by auto
    show ?thesis
    proof (cases l)
      case None
      with True xy l show ?thesis by simp
    next
      case (Some lp)
      obtain r c'' where r: "conj_of y c' = Some (r, c'')" using 1(2) [OF True xy l refl Some refl] 1(4) xy by auto
      with True xy l Some show ?thesis by (cases r) simp_all
    qed
  next
    case False
    with 1(3,4) show ?thesis by (cases args) auto
  qed
next
  case (3 fn args c)
  then show ?case by (cases args) auto
qed auto



subsection \<open>Where the compiled stream departs from its filters\<close>

definition empty_comp :: compiler where
  "empty_comp = \<lparr>atoms = [], atomIdx = Map.empty\<rparr>"

text \<open>What \<^verbatim>\<open>RunPreds\<close> answers for a single compiled filter.\<close>

definition run_filter :: "expr \<Rightarrow> Event \<Rightarrow> u16 option" where
  "run_filter e ev = (case conj_of e empty_comp of
     Some (Some ps, c) \<Rightarrow> RunPreds (flat_loop 0 [(ps, False)]) ev None | _ \<Rightarrow> None)"

text \<open>A comparison with the literal on the left is compiled into the negated comparison instead of the
  mirrored one. On an event with a round-trip time of 100, \<open>ko_rtt_us == 100\<close> matches and
  \<open>100 == ko_rtt_us\<close> is dropped; \<open>ko_rtt_us > 100\<close> is dropped and \<open>100 < ko_rtt_us\<close> matches.\<close>

theorem literal_on_the_left_negated:
  "ev_RTTUS ex_event = 100 \<and>
   run_filter (ECall ''_==_'' [EIdent ''ko_rtt_us'', ELit (VInt 100)]) ex_event = Some 0 \<and>
   run_filter (ECall ''_==_'' [ELit (VInt 100), EIdent ''ko_rtt_us'']) ex_event = Some KO_FILTER_DROP \<and>
   run_filter (ECall ''_>_'' [EIdent ''ko_rtt_us'', ELit (VInt 100)]) ex_event = Some KO_FILTER_DROP \<and>
   run_filter (ECall ''_<_'' [ELit (VInt 100), EIdent ''ko_rtt_us'']) ex_event = Some 0"
  by code_simp

text \<open>Negative literals and ordered comparisons of the event type are compiled wrongly. \<open>ko_rtt_us > -1\<close>, true
  of every event, is dropped because the literal is compared as an unsigned number; a filter
  \<open>ko_type < "probe"\<close> is compiled into no predicate at all and matches every event.\<close>

theorem negative_and_type_order_miscompiled:
  "run_filter (ECall ''_>_'' [EIdent ''ko_rtt_us'', ELit (VInt (- 1))]) ex_event = Some KO_FILTER_DROP \<and>
   conj_of (ECall ''_<_'' [EIdent ''ko_type'', ELit (VString ''probe'')]) empty_comp = Some (Some [], empty_comp) \<and>
   run_filter (ECall ''_<_'' [EIdent ''ko_type'', ELit (VString ''probe'')]) (ex_event\<lparr>ev_Type := EvtProbe\<rparr>) = Some 0"
proof (intro conjI)
  show "conj_of (ECall ''_<_'' [EIdent ''ko_type'', ELit (VString ''probe'')]) empty_comp = Some (Some [], empty_comp)"
    by (simp add: cmpOps_def cmpPreds_def identOf_def typeBitOf_def literalOf_def typesByName_def cmpKind_def typePreds_def)
qed code_simp+

definition ex_conjuncts :: "nat \<Rightarrow> expr" where
  "ex_conjuncts n = foldr (\<lambda>_ e. ECall ''_&&_'' [ECall ''_>_'' [EIdent ''ko_rtt_us'', ELit (VInt 5000)], e]) [0..<n]
     (ECall ''_>_'' [EIdent ''ko_rtt_us'', ELit (VInt 5000)])"

definition ex_large_parse :: "string \<Rightarrow> expr option" where
  "ex_large_parse = map_of [(''a'', ex_conjuncts 30), (''b'', ECall ''_||_'' [EOther, EOther])]"

definition ex_large :: "Set" where
  "ex_large = \<lparr>set_names = [''a'', ''b''], set_asts = [ex_conjuncts 30, ECall ''_||_'' [EOther, EOther]], set_atoms = [],
     set_preds = [replicate 31 ex_slow, []], set_flat = flat_loop 0 [(replicate 31 ex_slow, False), ([], True)],
     set_userspace = [False, True]\<rparr>"

text \<open>Streams can outgrow the kernel's array. The end markers of filters left to userspace are not counted against
  the limit of 32 predicates: a filter of 31 comparisons followed by one that is left to
  userspace is accepted, the stream has 33 predicates, and on an event that the first filter
  refutes the kernel drops what \<^verbatim>\<open>RunPreds\<close> leaves undecided, so the second filter is never consulted.\<close>

theorem oversized_stream_dropped:
  "Compile True ex_large_parse (\<lambda>_. True) [\<lparr>cfg_Name = ''a'', cfg_Expr = ''a''\<rparr>, \<lparr>cfg_Name = ''b'', cfg_Expr = ''b''\<rparr>] =
     Some (Inr ex_large) \<and>
   length (set_flat ex_large) = 33 \<and>
   RunPreds (set_flat ex_large) ex_event None = Some KO_FILTER_UNDECIDED \<and>
   ko_filter_eval (Some 1) (Some (ko_prog_of (BPFProg (set_names ex_large) (set_flat ex_large)))) Map.empty ex_args = KO_FILTER_DROP"
  by code_simp

text \<open>Atom keys collide. The key of an atom is the printed value list, in which a value with a space looks like two
  values: the lists \<open>["a b"]\<close> and \<open>["a", "b"]\<close> share the atom of whichever comes first.\<close>

theorem atom_keys_collide:
  "fst (attrPred AttrNamespace AttrIn [''a'', ''b''] 0 (snd (attrPred AttrNamespace AttrIn [''a b''] 0 empty_comp))) =
     fst (attrPred AttrNamespace AttrIn [''a b''] 0 empty_comp) \<and>
   atoms (snd (attrPred AttrNamespace AttrIn [''a'', ''b''] 0 (snd (attrPred AttrNamespace AttrIn [''a b''] 0 empty_comp)))) =
     [\<lparr>atom_Field = AttrNamespace, atom_Op = AttrIn, atom_Values = [''a b'']\<rparr>]"
  by code_simp

end
