(* ===== verification/Compile_Sound.thy ===== *)
theory Compile_Sound
  imports Cel_Semantics Compile_Props
begin

text \<open>
  The compiler preserves the meaning of filters: on the expressions that it translates
  faithfully (\<open>faithful\<close>, which excludes the miscompiled shapes), the conjunction it emits holds of an
  event exactly when the CEL expression evaluates to true.
\<close>

subsection \<open>Faithfully compiled expressions\<close>

definition space_free :: "string \<Rightarrow> bool" where
  "space_free s \<longleftrightarrow> CHR '' '' \<notin> set s"

fun int64_literal :: "expr \<Rightarrow> bool" where
  "int64_literal (ELit (VInt i)) \<longleftrightarrow> 0 \<le> i \<and> i < 2 ^ 63"
| "int64_literal _ \<longleftrightarrow> True"

fun cmp_faithful :: "string \<Rightarrow> expr list \<Rightarrow> bool" where
  "cmp_faithful fn [EIdent n, y] \<longleftrightarrow> (n = ''ko_type'' \<longrightarrow> fn = ''_==_'' \<or> fn = ''_!=_'') \<and> int64_literal y"
| "cmp_faithful fn _ \<longleftrightarrow> False"

definition in_faithful :: "expr list \<Rightarrow> bool" where
  "in_faithful args \<longleftrightarrow>
     (case args of
        [x, y] \<Rightarrow> (case listOfStrings y of None \<Rightarrow> True | Some vs \<Rightarrow> list_all space_free vs)
      | _ \<Rightarrow> True)"

text \<open>A prefix of IPv4-mapped addresses is compiled as an IPv6 prefix, which no mapped address matches.\<close>

definition unmapped :: "string \<Rightarrow> bool" where
  "unmapped v \<longleftrightarrow> (case ParsePrefix v of None \<Rightarrow> True | Some p \<Rightarrow> \<not> Is4In6 (pfx_addr p))"

definition ip_faithful :: "expr list \<Rightarrow> bool" where
  "ip_faithful args \<longleftrightarrow>
     (case args of
        [x, y] \<Rightarrow> (case listOfStrings y of None \<Rightarrow> True | Some vs \<Rightarrow> list_all unmapped vs)
      | _ \<Rightarrow> True)"

fun faithful :: "expr \<Rightarrow> bool" where
  "faithful (ECall fn args) \<longleftrightarrow>
     (if fn = ''_&&_'' then length args = 2 \<and> list_all faithful args
      else if fn = ''!_'' then length args = 1 \<and> list_all faithful args
      else if fn \<in> set cmpOps then cmp_faithful fn args
      else if fn = ''@in'' then in_faithful args
      else fn = ''ip_in'' \<longrightarrow> ip_faithful args)"
| "faithful _ \<longleftrightarrow> True"

subsection \<open>Atoms are interned once\<close>

lemma join_eq_Nil: "join ss = [] \<longleftrightarrow> ss = [] \<or> ss = [[]]"
  by (induction ss rule: join.induct) auto

lemma append_space_inject:
  assumes "space_free s" and "space_free t" and "s @ CHR '' '' # u = t @ CHR '' '' # w"
  shows "s = t \<and> u = w"
  using assms
proof (induction s arbitrary: t)
  case Nil
  then show ?case by (cases t) (auto simp: space_free_def)
next
  case (Cons x s)
  then show ?case by (cases t) (auto simp: space_free_def)
qed

lemma join_inject:
  "list_all space_free ss \<Longrightarrow> list_all space_free ts \<Longrightarrow> ss \<noteq> [] \<Longrightarrow> ts \<noteq> [] \<Longrightarrow> join ss = join ts \<Longrightarrow> ss = ts"
proof (induction ss arbitrary: ts rule: join.induct)
  case 1
  then show ?case by simp
next
  case (2 s)
  show ?case
  proof (cases ts rule: join.cases)
    case (3 t u us)
    with 2 have "space_free (t @ '' '' @ join (u # us))" by simp
    then show ?thesis by (simp add: space_free_def)
  qed (use 2 in simp_all)
next
  case (3 s s' ss)
  show ?case
  proof (cases ts rule: join.cases)
    case 1
    with 3 show ?thesis by simp
  next
    case (2 t)
    with 3 have "space_free (s @ '' '' @ join (s' # ss))" by simp
    then show ?thesis by (simp add: space_free_def)
  next
    case (3 t u us)
    with append_space_inject [of s t "join (s' # ss)" "join (u # us)"] "3.prems"
    have "s = t" "join (s' # ss) = join (u # us)" by simp_all
    with "3.IH" [of "u # us"] "3.prems" 3 show ?thesis by simp
  qed
qed

text \<open>The value lists that are told apart by their printed form.\<close>

definition values_ok :: "u8 \<Rightarrow> string list \<Rightarrow> bool" where
  "values_ok op vs \<longleftrightarrow> (op = AttrEq \<and> length vs = 1) \<or> (op = AttrIn \<and> vs \<noteq> [] \<and> list_all space_free vs)"

definition keyed :: "compiler \<Rightarrow> bool" where
  "keyed c \<longleftrightarrow> comp_ok c \<and> list_all (\<lambda>a. values_ok (atom_Op a) (atom_Values a)) (atoms c)"

lemma sprint_inject: "values_ok op vs \<Longrightarrow> values_ok op ws \<Longrightarrow> sprint vs = sprint ws \<Longrightarrow> vs = ws"
  by (auto simp: values_ok_def sprint_def length_Suc_conv intro: join_inject)

lemma attrPred_keyed:
  assumes "keyed c" and "values_ok op vs" and "attrPred f op vs neg c = (p, c')"
  shows "keyed c' \<and> comp_le c c' \<and> (\<exists>i < length (atoms c').
    p = zeroPred\<lparr>Kind := PredAttr, fldA := of_nat i, fldB := neg\<rparr> \<and>
    atoms c' ! i = \<lparr>atom_Field = f, atom_Op = op, atom_Values = vs\<rparr>)"
proof -
  have c: "comp_ok c" "vs \<noteq> []" using assms(1,2) by (auto simp: keyed_def values_ok_def)
  have r: "comp_ok c'" "comp_le c c'" using attrPred_ok(1,2) [OF c, of f op neg] assms(3) by simp_all
  have "list_all (\<lambda>a. values_ok (atom_Op a) (atom_Values a)) (atoms c')"
    using assms by (auto simp: attrPred_def Let_def keyed_def split: option.splits)
  with r have k: "keyed c'" by (simp add: keyed_def)
  obtain i where i: "i < length (atoms c')" "p = zeroPred\<lparr>Kind := PredAttr, fldA := of_nat i, fldB := neg\<rparr>"
    "atom_key (atoms c' ! i) = (f, op, sprint vs)"
    using attrPred_ok(3) [OF c, of f op neg] assms(3) by auto
  have "values_ok (atom_Op (atoms c' ! i)) (atom_Values (atoms c' ! i))"
    using k i(1) by (simp add: keyed_def list_all_length)
  with i(3) assms(2) have "atoms c' ! i = \<lparr>atom_Field = f, atom_Op = op, atom_Values = vs\<rparr>"
    by (auto simp: atom_key_def intro!: Atom.equality sprint_inject)
  with k r i show ?thesis by blast
qed

subsection \<open>What a conjunction means\<close>

definition attrs_of :: "Event \<Rightarrow> CgroupAttrs" where
  "attrs_of ev = \<lparr>attr_Namespace = ev_Namespace ev, attr_Container = ev_Container ev, attr_Pod = ev_Pod ev\<rparr>"

text \<open>An atom table that the compiler may still extend, and its verdict mask for an event.\<close>

definition mask_for :: "compiler \<Rightarrow> Event \<Rightarrow> u64 \<Rightarrow> bool" where
  "mask_for c ev m \<longleftrightarrow> (\<exists>c'. comp_le c c' \<and> length (atoms c') \<le> 64 \<and> VerdictMask (atoms c') (attrs_of ev) = Some m)"

definition all_hold :: "u64 \<Rightarrow> Event \<Rightarrow> Pred list \<Rightarrow> bool" where
  "all_hold m ev ps \<longleftrightarrow> list_all (\<lambda>p. Pred_clause (Some m) ev p = Decided True) ps"

lemma all_hold_simps [simp]:
  "all_hold m ev []"
  "all_hold m ev (p # ps) \<longleftrightarrow> Pred_clause (Some m) ev p = Decided True \<and> all_hold m ev ps"
  "all_hold m ev (ps @ qs) \<longleftrightarrow> all_hold m ev ps \<and> all_hold m ev qs"
  by (simp_all add: all_hold_def)

lemma mask_for_mono: "comp_le c c' \<Longrightarrow> mask_for c' ev m \<Longrightarrow> mask_for c ev m"
  unfolding mask_for_def by (meson comp_le_trans)

lemma attr_clause:
  assumes "mask_for c ev m" and "i < length (atoms c)"
  shows "Pred_clause (Some m) ev (zeroPred\<lparr>Kind := PredAttr, fldA := of_nat i, fldB := neg\<rparr>) =
    Decided ((atomEval (atoms c ! i) (attrs_of ev) = Some True) = (neg = 0))"
proof -
  obtain c' where c': "comp_le c c'" "length (atoms c') \<le> 64" "VerdictMask (atoms c') (attrs_of ev) = Some m"
    using assms(1) by (auto simp: mask_for_def)
  have i: "i < length (atoms c')" using assms(2) comp_le_length [OF c'(1)] by simp
  then have "unat (of_nat i :: u8) = i" using c'(2) by (simp add: unat_of_nat)
  moreover have "drop_bit i m AND 1 = 1 \<longleftrightarrow> bit m i"
    by (simp add: and_one_eq bit_iff_odd_drop_bit odd_iff_mod_2_eq_one)
  ultimately show ?thesis
    using bit_VerdictMask [OF c'(3,2), of i] i comp_le_nth [OF c'(1) assms(2)]
    by (simp add: Pred_clause_def)
qed

lemma attrPred_sound:
  assumes "keyed c" and "values_ok op vs" and "attrPred f op vs neg c = (p, c')" and "mask_for c' ev m"
  shows "Pred_clause (Some m) ev p = Decided ((attrValue f (attrs_of ev) \<in> set vs) = (neg = 0))"
proof -
  obtain i where i: "i < length (atoms c')" "p = zeroPred\<lparr>Kind := PredAttr, fldA := of_nat i, fldB := neg\<rparr>"
    "atoms c' ! i = \<lparr>atom_Field = f, atom_Op = op, atom_Values = vs\<rparr>"
    using attrPred_keyed [OF assms(1-3)] by blast
  have "atomEval (atoms c' ! i) (attrs_of ev) = Some (attrValue f (attrs_of ev) \<in> set vs)"
    using assms(2) unfolding i(3) values_ok_def
    by (auto simp: atomEval_def Let_def length_Suc_conv list_ex_iff)
  with attr_clause [OF assms(4) i(1), of neg] i(2) show ?thesis by simp
qed

lemma attrPreds_sound:
  assumes "keyed c" and "attrPreds f vs c = (ps, c')"
  shows "keyed c' \<and> comp_le c c' \<and>
    (mask_for c' ev m \<longrightarrow> all_hold m ev ps = (attrValue f (attrs_of ev) \<notin> set vs))"
  using assms
proof (induction f vs c arbitrary: ps c' rule: attrPreds.induct)
  case (1 f c)
  then show ?case by simp
next
  case (2 f v vs c)
  obtain p d where p: "attrPred f AttrEq [v] 1 c = (p, d)" by (cases "attrPred f AttrEq [v] 1 c")
  obtain qs d' where qs: "attrPreds f vs d = (qs, d')" by (cases "attrPreds f vs d")
  have v: "values_ok AttrEq [v]" by (simp add: values_ok_def)
  have d: "keyed d" "comp_le c d" using attrPred_keyed [OF 2(2) v p] by simp_all
  have r: "keyed d'" "comp_le d d'" "mask_for d' ev m \<longrightarrow> all_hold m ev qs = (attrValue f (attrs_of ev) \<notin> set vs)"
    using 2(1) [OF p [symmetric] refl d(1) qs] by simp_all
  have "ps = p # qs" "c' = d'" using 2(3) p qs by simp_all
  with r d attrPred_sound [OF 2(2) v p] mask_for_mono [OF r(2)] show ?case
    by (auto intro: comp_le_trans)
qed

subsection \<open>Values of variables and literals\<close>

lemma attr_value:
  "attrFields n = Some f \<Longrightarrow> activation ev n = Some (RString (attrValue f (attrs_of ev)))"
  by (auto simp: attrFields_def activation_def attrValue_def attrs_of_def split: if_splits)

lemma sint_small:
  fixes x :: u64
  assumes "x < 2 ^ 63"
  shows "sint x = uint x"
proof -
  have u: "uint x < 2 ^ 63" using assms by (simp add: word_less_def)
  then have "\<not> bit (uint x) 63" using uint_ge_0 [of x] by (simp add: bit_iff_odd)
  then have "signed_take_bit 63 (uint x) = take_bit 63 (uint x)" by (rule signed_take_bit_eq_if_positive)
  with u show ?thesis by (simp add: sint_uint take_bit_int_eq_self)
qed

lemma push_bit_and_iff:
  fixes b :: u64
  shows "push_bit a 1 AND b \<noteq> 0 \<longleftrightarrow> bit b a"
proof (cases "a < 64")
  case True
  have "bit (push_bit a 1 AND b) n \<longleftrightarrow> n = a \<and> bit b a" for n
    using True by (auto simp: bit_and_iff bit_exp_iff possible_bit_word)
  then show ?thesis by (metis bit_0_eq bot_apply bot_bool_def bit_eqI)
next
  case False
  then have "\<not> bit b a" using bit_imp_le_length [of b a] by auto
  moreover have "push_bit a (1 :: u64) = 0" using False by (simp add: push_bit_eq_mult)
  ultimately show ?thesis by (simp del: push_bit_of_1)
qed

lemma stats_value:
  assumes "statsFields n = Some f" and "ev_LifeUS ev < 2 ^ 63"
  shows "activation ev n = Some (RInt (uint (eventField f ev)))"
  using assms(1) sint_small [OF assms(2)]
  by (auto simp: statsFields_def activation_def eventField_def uint_up_ucast is_up split: if_splits)

text \<open>The names of the four event types are told apart from every printed type.\<close>

definition known_type :: "u16 \<Rightarrow> bool" where
  "known_type t \<longleftrightarrow> t \<in> {EvtConnFailed, EvtConnClosed, EvtRetransmit, EvtProbe}"

lemma EventType_String_eq: "known_type t \<Longrightarrow> EventType_String u = EventType_String t \<longleftrightarrow> u = t"
  by (auto simp: known_type_def EventType_String_def)

lemma known_type_bit: "known_type t \<Longrightarrow> bit (push_bit (unat t) 1 :: u64) (unat u) \<longleftrightarrow> u = t"
proof -
  assume "known_type t"
  then have "unat t < 64" by (auto simp: known_type_def)
  then have "bit (push_bit (unat t) 1 :: u64) k \<longleftrightarrow> k = unat t" for k
    by (auto simp: bit_exp_iff possible_bit_word)
  then show ?thesis by (simp add: word_unat_eq_iff)
qed

lemma typeConsts_value:
  "typeConsts n = Some t \<Longrightarrow> known_type t \<and> activation ev n = Some (RString (EventType_String t))"
  by (auto simp: typeConsts_def known_type_def activation_def split: if_splits)

lemma typesByName_value: "typesByName s = Some t \<Longrightarrow> known_type t \<and> EventType_String t = s"
  by (auto simp: typesByName_def known_type_def EventType_String_def split: if_splits)

lemma typeBit_value:
  assumes "typeBitOf e = Some b" and "cel_laws eval"
  shows "\<exists>t. known_type t \<and> b = push_bit (unat t) 1 \<and> eval (activation ev) e = Some (RString (EventType_String t))"
proof (cases e)
  case (EIdent n)
  then obtain t where "typeConsts n = Some t" "b = push_bit (unat t) 1"
    using assms(1) by (auto simp: typeBitOf_def identOf_def)
  with typeConsts_value EIdent show ?thesis unfolding EIdent cel_values(1) [OF assms(2)] by blast
next
  case (ELit v)
  then obtain s t where s: "v = VString s" "typesByName s = Some t" "b = push_bit (unat t) 1"
    using assms(1) by (auto simp: typeBitOf_def identOf_def literalOf_def split: cel_val.splits)
  have "eval (activation ev) e = Some (RString s)" unfolding ELit s(1) by (rule cel_values(3) [OF assms(2)])
  with s(3) typesByName_value [OF s(2)] show ?thesis by blast
qed (use assms(1) in \<open>simp_all add: typeBitOf_def identOf_def literalOf_def\<close>)

lemma typeMask_values:
  assumes "typeMask_loop es k = Some m" and "cel_laws eval"
  shows "\<exists>ts. map (eval (activation ev)) es = map (\<lambda>s. Some (RString s)) (map EventType_String ts) \<and>
    list_all known_type ts \<and> (\<forall>u :: u16. bit m (unat u) \<longleftrightarrow> bit k (unat u) \<or> u \<in> set ts)"
  using assms(1)
proof (induction es k rule: typeMask_loop.induct)
  case (1 k)
  then show ?case by (intro exI [of _ "[]"]) simp
next
  case (2 e es k)
  then obtain b where b: "typeBitOf e = Some b" "typeMask_loop es (k OR b) = Some m" by (auto split: option.splits)
  obtain t where t: "known_type t" "b = push_bit (unat t) 1" "eval (activation ev) e = Some (RString (EventType_String t))"
    using typeBit_value [OF b(1) assms(2)] by blast
  obtain ts where ts: "map (eval (activation ev)) es = map (\<lambda>s. Some (RString s)) (map EventType_String ts)"
    "list_all known_type ts" "\<forall>u :: u16. bit m (unat u) \<longleftrightarrow> bit (k OR b) (unat u) \<or> u \<in> set ts"
    using 2(1) [OF b] by blast
  show ?case
    using t ts known_type_bit [OF t(1)] by (intro exI [of _ "t # ts"]) (auto simp: bit_or_iff)
qed

lemma typeMaskOf_value:
  assumes "typeMaskOf e = Some m" and "cel_laws eval"
  shows "\<exists>ss. eval (activation ev) e = Some (RList ss) \<and>
    (EventType_String u \<in> set ss \<longleftrightarrow> push_bit (unat u) 1 AND m \<noteq> 0)"
proof -
  obtain es where e: "e = EList es" "typeMask_loop es 0 = Some m"
    using assms(1) by (auto simp: typeMaskOf_def split: expr.splits option.splits if_splits)
  obtain ts where ts: "map (eval (activation ev)) es = map (\<lambda>s. Some (RString s)) (map EventType_String ts)"
    "list_all known_type ts" "\<forall>u :: u16. bit m (unat u) \<longleftrightarrow> u \<in> set ts"
    using typeMask_values [OF e(2) assms(2), of ev] by (metis bit_0_eq bot_apply bot_bool_def)
  have "eval (activation ev) e = Some (RList (map EventType_String ts))"
    unfolding e(1) by (rule cel_values(4) [OF assms(2) ts(1)])
  moreover have "EventType_String u \<in> set (map EventType_String ts) \<longleftrightarrow> u \<in> set ts"
    using ts(2) EventType_String_eq by (auto simp: list_all_iff)
  ultimately show ?thesis using ts(3) by (auto simp: push_bit_and_iff simp del: push_bit_of_1)
qed

lemma literal_strings_map: "literal_strings es = Some vs \<Longrightarrow> es = map (\<lambda>v. ELit (VString v)) vs"
  by (induction es arbitrary: vs rule: literal_strings.induct)
    (auto simp: literalOf_def split: option.splits cel_val.splits expr.splits)

lemma listOfStrings_value:
  assumes "listOfStrings e = Some vs" and "cel_laws eval"
  shows "eval (activation ev) e = Some (RList vs)"
proof (cases e)
  case (EIdent n)
  then have "eval (activation ev) e = activation ev n" using cel_values(1) [OF assms(2)] by simp
  with assms(1) EIdent show ?thesis
    by (auto simp: listOfStrings_def identOf_def builtinLists_def activation_def split: if_splits)
next
  case (EList es)
  then have "es = map (\<lambda>v. ELit (VString v)) vs"
    using assms(1) literal_strings_map by (simp add: listOfStrings_def identOf_def)
  then have "map (eval (activation ev)) es = map (\<lambda>s. Some (RString s)) vs"
    using cel_values(3) [OF assms(2)] by simp
  then show ?thesis unfolding EList by (rule cel_values(4) [OF assms(2)])
qed (use assms(1) in \<open>simp_all add: listOfStrings_def identOf_def\<close>)

subsection \<open>Comparisons\<close>

lemma cmpOps_cases:
  assumes "fn \<in> set cmpOps"
  obtains "fn = ''_==_''" | "fn = ''_!=_''" | "fn = ''_<_''" | "fn = ''_<=_''" | "fn = ''_>_''" | "fn = ''_>=_''"
  using assms unfolding cmpOps_def by force

lemma uint_compare:
  fixes a b :: u64
  shows "cel_compare ''_==_'' (uint a) (uint b) \<longleftrightarrow> a = b" "cel_compare ''_!=_'' (uint a) (uint b) \<longleftrightarrow> a \<noteq> b"
    "cel_compare ''_<_'' (uint a) (uint b) \<longleftrightarrow> a < b" "cel_compare ''_<=_'' (uint a) (uint b) \<longleftrightarrow> a \<le> b"
    "cel_compare ''_>_'' (uint a) (uint b) \<longleftrightarrow> b < a" "cel_compare ''_>=_'' (uint a) (uint b) \<longleftrightarrow> b \<le> a"
  by (simp_all add: cel_compare_def flip: word_less_def word_le_def word_uint_eq_iff)

lemma cmpKind_sound:
  assumes "fn \<in> set cmpOps"
  shows "cmpField (cmpKind fn) a b \<longleftrightarrow> cel_compare fn (uint a) (uint b)"
    and "cmpField (flipCmp (cmpKind fn)) a b \<longleftrightarrow> \<not> cel_compare fn (uint a) (uint b)"
  using assms
  by (cases rule: cmpOps_cases; simp add: cmpKind_def flipCmp_def cmpField_def uint_compare not_less not_le)+

text \<open>The comparison emitted for an operator, or for its negation.\<close>

definition kind_for :: "string \<Rightarrow> bool \<Rightarrow> u8" where
  "kind_for fn b = (if b then cmpKind fn else flipCmp (cmpKind fn))"

lemma kind_for_sound:
  "fn \<in> set cmpOps \<Longrightarrow> cmpField (kind_for fn b) x y \<longleftrightarrow> cel_compare fn (uint x) (uint y) = b"
  by (simp add: kind_for_def cmpKind_sound)

lemma kind_for_eq:
  assumes "fn \<in> set cmpOps"
  shows "kind_for fn b = CmpEq \<longleftrightarrow> fn = (if b then ''_==_'' else ''_!=_'')"
    and "kind_for fn b = CmpNeq \<longleftrightarrow> fn = (if b then ''_!=_'' else ''_==_'')"
  using assms by (cases rule: cmpOps_cases; simp add: kind_for_def cmpKind_def flipCmp_def)+

lemma string_equality_sound:
  assumes "cel_laws eval" and "fn \<in> set cmpOps" and "eval bnd x = Some (RString u)" and "eval bnd y = Some (RString w)"
  shows "kind_for fn b = CmpEq \<Longrightarrow> eval bnd (ECall fn [x, y]) = Some (RBool b) \<longleftrightarrow> u = w"
    and "kind_for fn b = CmpNeq \<Longrightarrow> eval bnd (ECall fn [x, y]) = Some (RBool b) \<longleftrightarrow> u \<noteq> w"
  using cel_relations(2,3) [OF assms(1,3,4)] unfolding kind_for_eq [OF assms(2)] by (cases b; simp)+

text \<open>The contract of a compilation step: the state stays keyed and grows, and the
  conjunction holds exactly when the expression evaluates to \<open>b\<close>.\<close>

definition sound :: "cel_eval \<Rightarrow> Event \<Rightarrow> compiler \<Rightarrow> expr \<Rightarrow> bool \<Rightarrow> pushed \<times> compiler \<Rightarrow> bool" where
  "sound eval ev c e b r \<longleftrightarrow> keyed (snd r) \<and> comp_le c (snd r) \<and>
     (\<forall>ps. fst r = Some ps \<longrightarrow>
       (\<forall>m. mask_for (snd r) ev m \<longrightarrow> (all_hold m ev ps \<longleftrightarrow> eval (activation ev) e = Some (RBool b))))"

lemma sound_None [simp]: "keyed c \<Longrightarrow> sound eval ev c e b (None, c)"
  by (simp add: sound_def)

lemma typePreds_sound:
  assumes "keyed c" and "cel_laws eval" and "fn \<in> set cmpOps" and "fn = ''_==_'' \<or> fn = ''_!=_''" and "typeBitOf y = Some tb"
  shows "sound eval ev c (ECall fn [EIdent ''ko_type'', y]) b (Some (typePreds (kind_for fn b) tb), c)"
proof -
  obtain t where t: "known_type t" "tb = push_bit (unat t) 1"
    "eval (activation ev) y = Some (RString (EventType_String t))"
    using typeBit_value [OF assms(5,2)] by blast
  have x: "eval (activation ev) (EIdent ''ko_type'') = Some (RString (EventType_String (ev_Type ev)))"
    by (simp add: cel_values(1) [OF assms(2)] activation_def)
  have bit: "push_bit (unat (ev_Type ev)) 1 AND tb \<noteq> 0 \<longleftrightarrow> ev_Type ev = t"
    unfolding push_bit_and_iff t(2) by (rule known_type_bit [OF t(1)])
  have "kind_for fn b = CmpEq \<or> kind_for fn b = CmpNeq"
    using assms(4) unfolding kind_for_eq [OF assms(3)] by auto
  then show ?thesis
    using assms(1) bit EventType_String_eq [OF t(1), of "ev_Type ev"] string_equality_sound [OF assms(2,3) x t(3), of b]
    by (auto simp: sound_def typePreds_def Pred_clause_def cmpField_def eventField_def simp del: push_bit_of_1)
qed

lemma cmpFieldPreds_sound:
  assumes "keyed c" and "cel_laws eval" and "fn \<in> set cmpOps" and "ev_LifeUS ev < 2 ^ 63"
    and "int64_literal (ELit v)"
  shows "sound eval ev c (ECall fn [EIdent n, ELit v]) b (cmpFieldPreds n (kind_for fn b) v c)"
proof (cases "statsFields n")
  case (Some f)
  show ?thesis
  proof (cases v)
    case (VInt i)
    have i: "uint (of_int i :: u64) = i" using assms(5) VInt by (simp add: uint_word_of_int take_bit_int_eq_self)
    have "eval (activation ev) (EIdent n) = Some (RInt (uint (eventField f ev)))"
      unfolding cel_values(1) [OF assms(2)] by (rule stats_value [OF Some assms(4)])
    from cel_relations(1) [OF assms(2,3) this cel_values(2) [OF assms(2)], of i]
    show ?thesis
      using assms(1) Some VInt kind_for_sound [OF assms(3), of b "eventField f ev" "of_int i"] i
      by (simp add: sound_def cmpFieldPreds_def Pred_clause_def)
  qed (use assms(1) Some in \<open>simp_all add: cmpFieldPreds_def\<close>)
next
  case None
  show ?thesis
  proof (cases "attrFields n = None \<or> (\<forall>s. v \<noteq> VString s) \<or> kind_for fn b \<notin> {CmpEq, CmpNeq}")
    case True
    with None assms(1) show ?thesis by (auto simp: cmpFieldPreds_def split: option.splits cel_val.splits)
  next
    case False
    then obtain f s where fs: "attrFields n = Some f" "v = VString s" "kind_for fn b = CmpEq \<or> kind_for fn b = CmpNeq" by auto
    have x: "eval (activation ev) (EIdent n) = Some (RString (attrValue f (attrs_of ev)))"
      unfolding cel_values(1) [OF assms(2)] by (rule attr_value [OF fs(1)])
    define neg :: u8 where "neg = (if kind_for fn b = CmpEq then 0 else 1)"
    obtain p c' where p: "attrPred f AttrEq [s] neg c = (p, c')" by (cases "attrPred f AttrEq [s] neg c")
    have vo: "values_ok AttrEq [s]" by (simp add: values_ok_def)
    have "cmpFieldPreds n (kind_for fn b) v c = (Some [p], c')"
      using None fs p by (auto simp: cmpFieldPreds_def neg_def)
    moreover have "Pred_clause (Some m) ev p = Decided True \<longleftrightarrow>
        eval (activation ev) (ECall fn [EIdent n, ELit v]) = Some (RBool b)" if "mask_for c' ev m" for m
      using attrPred_sound [OF assms(1) vo p that] fs(3)
        string_equality_sound [OF assms(2,3) x cel_values(3) [OF assms(2)], of b s]
      unfolding fs(2) by (auto simp: neg_def)
    ultimately show ?thesis using attrPred_keyed [OF assms(1) vo p] by (simp add: sound_def)
  qed
qed

lemma cmpPreds_sound:
  assumes "keyed c" and "cel_laws eval" and "fn \<in> set cmpOps" and "ev_LifeUS ev < 2 ^ 63" and "cmp_faithful fn args"
  shows "sound eval ev c (ECall fn args) b (cmpPreds args (kind_for fn b) c)"
proof -
  obtain n y where args: "args = [EIdent n, y]" and ty: "n = ''ko_type'' \<Longrightarrow> fn = ''_==_'' \<or> fn = ''_!=_''"
    and lit: "int64_literal y"
    using assms(5) by (auto elim: cmp_faithful.elims(2))
  show ?thesis
  proof (cases "n = ''ko_type'' \<and> typeBitOf y \<noteq> None")
    case True
    then obtain tb where "typeBitOf y = Some tb" by auto
    with typePreds_sound [OF assms(1-3) ty this] True show ?thesis by (simp add: args cmpPreds_def identOf_def)
  next
    case False
    then have "cmpPreds args (kind_for fn b) c =
        (case literalOf y of None \<Rightarrow> (None, c) | Some v \<Rightarrow> cmpFieldPreds n (kind_for fn b) v c)"
      by (auto simp: args cmpPreds_def identOf_def split: option.split)
    with cmpFieldPreds_sound [OF assms(1-4)] assms(1) lit show ?thesis
      by (cases y) (simp_all add: args literalOf_def)
  qed
qed

subsection \<open>Membership\<close>

lemma type_in_sound:
  assumes "keyed c" and "cel_laws eval" and "typeMaskOf y = Some k"
  shows "sound eval ev c (ECall ''@in'' [EIdent ''ko_type'', y]) b
    (Some [zeroPred\<lparr>Kind := PredCmp, fldA := FldType, fldB := if b then CmpIn else CmpNotIn, Val := k\<rparr>], c)"
proof -
  obtain ss where ss: "eval (activation ev) y = Some (RList ss)"
    "EventType_String (ev_Type ev) \<in> set ss \<longleftrightarrow> push_bit (unat (ev_Type ev)) 1 AND k \<noteq> 0"
    using typeMaskOf_value [OF assms(3,2)] by blast
  have x: "eval (activation ev) (EIdent ''ko_type'') = Some (RString (EventType_String (ev_Type ev)))"
    by (simp add: cel_values(1) [OF assms(2)] activation_def)
  show ?thesis
    using assms(1) cel_relations(4) [OF assms(2) x ss(1)] ss(2)
    by (cases b) (auto simp: sound_def Pred_clause_def cmpField_def eventField_def simp del: push_bit_of_1)
qed

lemma attr_in_value:
  assumes "cel_laws eval" and "attrFields n = Some f" and "listOfStrings y = Some vs"
  shows "eval (activation ev) (ECall ''@in'' [EIdent n, y]) = Some (RBool (attrValue f (attrs_of ev) \<in> set vs))"
proof -
  have "eval (activation ev) (EIdent n) = Some (RString (attrValue f (attrs_of ev)))"
    unfolding cel_values(1) [OF assms(1)] by (rule attr_value [OF assms(2)])
  from cel_relations(4) [OF assms(1) this listOfStrings_value [OF assms(3,1)]] show ?thesis .
qed

lemma inPreds_sound:
  assumes "keyed c" and "cel_laws eval" and "in_faithful args"
  shows "sound eval ev c (ECall ''@in'' args) True (inPreds args c)"
proof (cases "\<exists>n y f vs. args = [EIdent n, y] \<and> n \<noteq> ''ko_type'' \<and> attrFields n = Some f \<and> listOfStrings y = Some vs \<and> vs \<noteq> []")
  case True
  then obtain n y f vs where a: "args = [EIdent n, y]" "n \<noteq> ''ko_type''" "attrFields n = Some f" "listOfStrings y = Some vs" "vs \<noteq> []"
    by blast
  obtain p c' where p: "attrPred f AttrIn vs 0 c = (p, c')" by (cases "attrPred f AttrIn vs 0 c")
  have vo: "values_ok AttrIn vs" using assms(3) a by (simp add: in_faithful_def values_ok_def)
  have "inPreds args c = (Some [p], c')" using a p by (simp add: inPreds_def identOf_def)
  then show ?thesis
    using attrPred_keyed [OF assms(1) vo p] attrPred_sound [OF assms(1) vo p] attr_in_value [OF assms(2) a(3,4)] a(1)
    by (simp add: sound_def)
next
  case False
  with type_in_sound [OF assms(1,2), where ev = ev and b = True] assms(1) show ?thesis
    by (auto simp: inPreds_def identOf_def split: list.split expr.split option.split)
qed

lemma negInPreds_sound:
  assumes "keyed c" and "cel_laws eval"
  shows "sound eval ev c (ECall ''@in'' args) False (negInPreds args c)"
proof (cases "\<exists>n y f vs. args = [EIdent n, y] \<and> n \<noteq> ''ko_type'' \<and> attrFields n = Some f \<and> listOfStrings y = Some vs \<and> vs \<noteq> []")
  case True
  then obtain n y f vs where a: "args = [EIdent n, y]" "n \<noteq> ''ko_type''" "attrFields n = Some f" "listOfStrings y = Some vs" "vs \<noteq> []"
    by blast
  obtain ps c' where p: "attrPreds f vs c = (ps, c')" by (cases "attrPreds f vs c")
  have "negInPreds args c = (Some ps, c')" using a p by (simp add: negInPreds_def identOf_def)
  with attrPreds_sound [OF assms(1) p] attr_in_value [OF assms(2) a(3,4)] a(1) p show ?thesis
    by (simp add: sound_def)
next
  case False
  with type_in_sound [OF assms(1,2), where ev = ev and b = False] assms(1) show ?thesis
    by (auto simp: negInPreds_def identOf_def split: list.split expr.split option.split)
qed

subsection \<open>Prefix sets\<close>

text \<open>A slot of a predicate holds a prefix.\<close>

definition slot_is :: "prefix \<Rightarrow> Pred \<Rightarrow> nat \<Rightarrow> bool" where
  "slot_is pfx p j \<longleftrightarrow> Plen p ! j = of_int (pfx_bits pfx) \<and> Fam p ! j = (if is4 (pfx_addr pfx) then 4 else 6) \<and>
     take (length (addr_bytes (pfx_addr pfx))) (Addr p ! j) = addr_bytes (pfx_addr pfx)"

lemma slot_set_prefix:
  assumes "Pred_ok p" and "i < MaxIPSet"
  shows "slot_is pfx (set_prefix i pfx p) i" and "j \<noteq> i \<Longrightarrow> slot_is q (set_prefix i pfx p) j = slot_is q p j"
  using assms by (auto simp: slot_is_def set_prefix_def Pred_ok_def)

lemma ipIn_loop_slots:
  assumes "ipIn_loop i vs p = Some q" and "Pred_ok p" and "i + length vs \<le> MaxIPSet"
  shows "(\<forall>j < i. \<forall>pfx. slot_is pfx p j \<longrightarrow> slot_is pfx q j) \<and>
    (\<forall>k < length vs. \<exists>pfx. ParsePrefix (vs ! k) = Some pfx \<and> slot_is pfx q (i + k))"
  using assms
proof (induction i vs p rule: ipIn_loop.induct)
  case (2 i v vs p)
  then obtain pfx where pfx: "ParsePrefix v = Some pfx" and rest: "ipIn_loop (Suc i) vs (set_prefix i pfx p) = Some q"
    by (auto split: option.splits)
  have i: "i < MaxIPSet" using 2 by simp
  have IH: "\<forall>j < Suc i. \<forall>x. slot_is x (set_prefix i pfx p) j \<longrightarrow> slot_is x q j"
    "\<forall>k < length vs. \<exists>x. ParsePrefix (vs ! k) = Some x \<and> slot_is x q (Suc i + k)"
    using 2(1) [OF pfx rest set_prefix_ok [OF 2(3) pfx i]] 2(4) by simp_all
  have "\<exists>x. ParsePrefix ((v # vs) ! k) = Some x \<and> slot_is x q (i + k)" if "k < length (v # vs)" for k
    using that IH slot_set_prefix(1) [OF 2(3) i] pfx by (cases k) auto
  with IH(1) slot_set_prefix(2) [OF 2(3) i] show ?case by auto
qed simp

lemma prefix_bits_take: "n \<le> 8 * L \<Longrightarrow> prefix_bits n (take L a) b = prefix_bits n a b"
  by (auto simp: prefix_bits_def)

lemma slot_member:
  assumes "slot_is pfx p j" and "ParsePrefix v = Some pfx" and "unmapped v" and "length ip \<in> {4, 16}"
  shows "ip_set_spec ip p j \<longleftrightarrow> in_prefix ip pfx"
proof -
  let ?a = "addr_bytes (pfx_addr pfx)" and ?n = "nat (pfx_bits pfx)"
  note range = ParsePrefix_range [OF assms(2)] ParsePrefix_nonneg [OF assms(2)]
  have n: "unat (Plen p ! j) = ?n"
    using assms(1) range(2,4) by (auto simp: slot_is_def unat_eq_nat_uint uint_word_of_int take_bit_int_eq_self split: if_splits)
  have "?n \<le> 8 * length ?a" using range by (auto split: if_splits)
  from prefix_bits_take [OF this, of "Addr p ! j"] assms(1)
  have bits: "prefix_bits ?n (Addr p ! j) b = prefix_bits ?n ?a b" for b by (simp add: slot_is_def)
  have nm: "is4 (pfx_addr pfx) \<or> To4 ?a = None"
    using Is4In6_To4 [of ?a] assms(2,3) range(1)
    by (cases "pfx_addr pfx") (auto simp: unmapped_def is4_def addr_bytes_def)
  have "Fam p ! j = 4 \<longleftrightarrow> is4 (pfx_addr pfx)" using assms(1) by (simp add: slot_is_def)
  with nm n bits range(2) show ?thesis
    by (cases "To4 ip") (auto simp: ip_set_spec_def in_prefix_def Let_def)
qed

lemma evIPInSet_address_test:
  assumes "ipIn_loop 0 vs (zeroPred\<lparr>Kind := PredIPSet, fldA := which, fldB := neg, fldN := of_nat (length vs)\<rparr>) = Some q"
    and "length vs \<le> MaxIPSet" and "list_all unmapped vs" and "Event_ok ev"
  shows "Kind q = PredIPSet \<and> fldB q = neg \<and>
    evIPInSet ev q = Some (AddrInCIDRs (hostport (if which = 1 then ev_RemoteIP ev else ev_LocalIP ev) port) vs)"
proof -
  define ip where "ip = (if which = 1 then ev_RemoteIP ev else ev_LocalIP ev)"
  let ?z = "zeroPred\<lparr>Kind := PredIPSet, fldA := which, fldB := neg, fldN := of_nat (length vs)\<rparr>"
  have n: "unat (of_nat (length vs) :: u8) = length vs" using assms(2) by (simp add: unat_of_nat)
  have z: "Pred_ok ?z" using assms(2) by (simp add: Pred_ok_def zeroPred_def list_all_length n)
  have q: "Pred_ok q" "Kind q = PredIPSet" "fldA q = which" "fldB q = neg" "fldN q = of_nat (length vs)"
    using ipIn_loop_ok [OF assms(1) z] assms(2) by simp_all
  have slots: "\<forall>k < length vs. \<exists>pfx. ParsePrefix (vs ! k) = Some pfx \<and> slot_is pfx q k"
    using ipIn_loop_slots [OF assms(1) z] assms(2) by simp
  have len: "length ip \<in> {0, 4, 16}" using assms(4) by (auto simp: Event_ok_def ip_def)
  have "(\<exists>i < length vs. ip_set_spec ip q i) \<longleftrightarrow> (\<exists>c \<in> set vs. \<exists>p. ParsePrefix c = Some p \<and> in_prefix ip p)" if "ip \<noteq> []"
  proof -
    have l: "length ip \<in> {4, 16}" using that len by auto
    have "ip_set_spec ip q k \<longleftrightarrow> (\<exists>p. ParsePrefix (vs ! k) = Some p \<and> in_prefix ip p)" if k: "k < length vs" for k
    proof -
      obtain pfx where pfx: "ParsePrefix (vs ! k) = Some pfx" "slot_is pfx q k" using slots k by blast
      have "unmapped (vs ! k)" using assms(3) k by (simp add: list_all_length)
      from slot_member [OF pfx(2,1) this l] pfx(1) show ?thesis by simp
    qed
    moreover have "(\<exists>c \<in> set vs. Q c) \<longleftrightarrow> (\<exists>k < length vs. Q (vs ! k))" for Q
      using list_ex_length [of Q vs] by (simp add: list_ex_iff)
    ultimately show ?thesis by (simp cong: conj_cong)
  qed
  with evIPInSet_spec [OF q(1) assms(4)] AddrInCIDRs_hostport [OF len, of port vs] q n show ?thesis
    by (auto simp flip: ip_def)
qed

definition addr_ident :: "Event \<Rightarrow> u8 \<Rightarrow> string" where
  "addr_ident ev which = (if which = 1 then hostport (ev_RemoteIP ev) (ev_RemotePort ev) else hostport (ev_LocalIP ev) (ev_LocalPort ev))"

lemma ip_in_value:
  assumes "cel_laws eval" and "map_of [(''ko_local_addr'', 0), (''ko_remote_addr'', 1)] n = Some which" and "listOfStrings y = Some vs"
  shows "eval (activation ev) (ECall ''ip_in'' [EIdent n, y]) = Some (RBool (AddrInCIDRs (addr_ident ev which) vs))"
proof -
  have "activation ev n = Some (RString (addr_ident ev which))"
    using assms(2) by (auto simp: activation_def addr_ident_def split: if_splits)
  then have "eval (activation ev) (EIdent n) = Some (RString (addr_ident ev which))" by (simp add: cel_values(1) [OF assms(1)])
  from cel_relations(5) [OF assms(1) this listOfStrings_value [OF assms(3,1)]] show ?thesis .
qed

lemma ipInPreds_cases:
  assumes "ipInPreds args neg = Some ps"
  obtains n y which vs where "args = [EIdent n, y]" and "map_of [(''ko_local_addr'', 0), (''ko_remote_addr'', 1)] n = Some which"
    and "listOfStrings y = Some vs" and "length vs \<le> MaxIPSet"
    and "if vs = [] then neg \<noteq> 0 \<and> ps = [zeroPred\<lparr>Kind := PredIPSet, fldA := which, fldB := neg\<rparr>]
      else \<exists>q. ps = [q] \<and> ipIn_loop 0 vs (zeroPred\<lparr>Kind := PredIPSet, fldA := which, fldB := neg, fldN := of_nat (length vs)\<rparr>) = Some q"
proof -
  obtain x y where a: "args = [x, y]" using assms by (auto simp: ipInPreds_def split: list.splits)
  then obtain n where n: "x = EIdent n" using assms by (cases x) (auto simp: ipInPreds_def identOf_def)
  define w where "w = map_of [(''ko_local_addr'', 0 :: u8), (''ko_remote_addr'', 1)] n"
  have eq: "ipInPreds args neg = (case w of None \<Rightarrow> None | Some which \<Rightarrow>
      (case listOfStrings y of None \<Rightarrow> None | Some vs \<Rightarrow>
         if vs = [] then (if neg = 0 then None else Some [zeroPred\<lparr>Kind := PredIPSet, fldA := which, fldB := neg\<rparr>])
         else if length vs > MaxIPSet then None
         else map_option (\<lambda>p. [p]) (ipIn_loop 0 vs
           (zeroPred\<lparr>Kind := PredIPSet, fldA := which, fldB := neg, fldN := of_nat (length vs)\<rparr>))))"
    by (simp add: a n ipInPreds_def identOf_def w_def del: map_of.simps)
  obtain which vs where wv: "w = Some which" "listOfStrings y = Some vs" using assms by (auto simp: eq split: option.splits)
  show thesis
    using that [OF a [unfolded n] wv(1) [unfolded w_def] wv(2)] assms wv by (auto simp: eq split: if_splits)
qed

lemma ipInPreds_sound:
  assumes "keyed c" and "cel_laws eval" and "Event_ok ev" and "ip_faithful args"
  shows "sound eval ev c (ECall ''ip_in'' args) b (ipInPreds args (if b then 0 else 1), c)"
proof (cases "ipInPreds args (if b then 0 else 1)")
  case None
  with assms(1) show ?thesis by simp
next
  case (Some ps)
  then obtain n y which vs where a: "args = [EIdent n, y]" "map_of [(''ko_local_addr'', 0), (''ko_remote_addr'', 1)] n = Some which"
    "listOfStrings y = Some vs" "length vs \<le> MaxIPSet"
    "if vs = [] then (if b then 0 else 1 :: u8) \<noteq> 0 \<and> ps = [zeroPred\<lparr>Kind := PredIPSet, fldA := which, fldB := if b then 0 else 1\<rparr>]
      else \<exists>q. ps = [q] \<and> ipIn_loop 0 vs (zeroPred\<lparr>Kind := PredIPSet, fldA := which, fldB := if b then 0 else 1, fldN := of_nat (length vs)\<rparr>) = Some q"
    by (rule ipInPreds_cases)
  have v: "eval (activation ev) (ECall ''ip_in'' args) = Some (RBool (AddrInCIDRs (addr_ident ev which) vs))"
    unfolding a(1) by (rule ip_in_value [OF assms(2) a(2,3)])
  have um: "list_all unmapped vs" using assms(4) a by (simp add: ip_faithful_def)
  have "all_hold m ev ps \<longleftrightarrow> AddrInCIDRs (addr_ident ev which) vs = b" for m
  proof (cases "vs = []")
    case True
    have "\<not> AddrInCIDRs s []" for s by (simp add: AddrInCIDRs_def Let_def split: option.split)
    with True a(5) show ?thesis
      by (auto simp: Pred_clause_def evIPInSet_def zeroPred_def Let_def split: if_splits)
  next
    case False
    with a(5) obtain q where q: "ps = [q]" "ipIn_loop 0 vs
        (zeroPred\<lparr>Kind := PredIPSet, fldA := which, fldB := if b then 0 else 1, fldN := of_nat (length vs)\<rparr>) = Some q" by auto
    from evIPInSet_address_test [OF q(2) a(4) um assms(3), of "if which = 1 then ev_RemotePort ev else ev_LocalPort ev"] q(1)
    show ?thesis by (auto simp: Pred_clause_def addr_ident_def split: if_splits)
  qed
  with v assms(1) Some show ?thesis by (simp add: sound_def)
qed

subsection \<open>Conjunctions\<close>

lemma sound_and:
  assumes "cel_laws eval" and "sound eval ev c x True (Some l, c')" and "sound eval ev c' y True (r, c'')"
  shows "sound eval ev c (ECall ''_&&_'' [x, y]) True (map_option ((@) l) r, c'')"
  using assms(2,3) mask_for_mono [of c' c'' ev] comp_le_trans [of c c' c'']
  by (auto simp: sound_def cel_connectives(1) [OF assms(1)])

lemma sound_not:
  "cel_laws eval \<Longrightarrow> sound eval ev c x (\<not> b) r \<Longrightarrow> sound eval ev c (ECall ''!_'' [x]) b r"
  by (simp add: sound_def cel_connectives(2))

lemma cmpOps_not_and: "fn \<in> set cmpOps \<Longrightarrow> fn \<noteq> ''_&&_''"
  by (erule cmpOps_cases) simp_all

lemma conj_sound:
  assumes "cel_laws eval" and "ev_LifeUS ev < 2 ^ 63" and "Event_ok ev"
  shows "faithful e \<Longrightarrow> keyed c \<Longrightarrow> conj_of e c = Some r \<Longrightarrow> sound eval ev c e True r"
    and "faithful e \<Longrightarrow> keyed c \<Longrightarrow> negConj e c = Some r \<Longrightarrow> sound eval ev c e False r"
proof (induction e c and e c arbitrary: r and r rule: conj_of_negConj.induct)
  case (1 fn args c)
  consider (and_) "fn = ''_&&_''" | (not_) "fn = ''!_''" | (cmp) "fn \<in> set cmpOps" "fn \<noteq> ''_&&_''" "fn \<noteq> ''!_''"
    | (in_) "fn = ''@in''" | (ip) "fn = ''ip_in''" | (other) "fn \<notin> set cmpOps" "fn \<notin> {''_&&_'', ''!_'', ''@in'', ''ip_in''}"
    by auto
  then show ?case
  proof cases
    case and_
    then obtain x y where xy: "args = [x, y]" "faithful x" "faithful y"
      using 1(4) by (auto simp: length_Suc_conv numeral_2_eq_2)
    obtain l c' where l: "conj_of x c = Some (l, c')" using 1(6) and_ xy by (auto split: option.splits prod.splits)
    have sx: "sound eval ev c x True (l, c')" using 1(1) [OF and_ xy(1,2) 1(5) l] .
    show ?thesis
    proof (cases l)
      case None
      with 1(6) and_ xy l sx show ?thesis by (auto simp: sound_def)
    next
      case (Some lp)
      obtain rp c'' where rr: "conj_of y c' = Some (rp, c'')" using 1(6) and_ xy l Some
        by (auto split: option.splits prod.splits)
      have "keyed c'" using sx by (simp add: sound_def)
      from 1(2) [OF and_ xy(1) l refl Some refl xy(3) this rr] sound_and [OF assms(1) sx [unfolded Some]]
      have "sound eval ev c (ECall ''_&&_'' [x, y]) True (map_option ((@) lp) rp, c'')" by blast
      with 1(6) and_ xy l Some rr show ?thesis by (cases rp) simp_all
    qed
  next
    case not_
    then obtain x where x: "args = [x]" "faithful x" using 1(4) by (auto simp: length_Suc_conv)
    have "sound eval ev c x False r"
      using 1(3) [OF _ not_ x(1,2) 1(5)] 1(6) not_ x by simp
    with sound_not [OF assms(1), of ev c x True r] not_ x(1) show ?thesis by simp
  next
    case cmp
    with 1(4,6) cmpPreds_sound [OF 1(5) assms(1) cmp(1) assms(2), of args True] show ?thesis
      by (auto simp: kind_for_def)
  next
    case in_
    then have "fn \<notin> set cmpOps" by (simp add: cmpOps_def)
    with in_ 1(4,6) inPreds_sound [OF 1(5) assms(1), of args ev] show ?thesis by auto
  next
    case ip
    then have "fn \<notin> set cmpOps" by (simp add: cmpOps_def)
    with ip 1(4,6) ipInPreds_sound [OF 1(5) assms(1,3), of args True] show ?thesis by auto
  next
    case other
    with 1(5,6) show ?thesis by auto
  qed
next
  case (3 fn args c)
  consider (not_) "fn = ''!_''" | (cmp) "fn \<in> set cmpOps" "fn \<noteq> ''_&&_''" "fn \<noteq> ''!_''"
    | (in_) "fn = ''@in''" | (ip) "fn = ''ip_in''" | (other) "fn \<notin> set cmpOps" "fn \<notin> {''!_'', ''@in'', ''ip_in''}"
    using cmpOps_not_and by auto
  then show ?case
  proof cases
    case not_
    then obtain x where x: "args = [x]" "faithful x" using 3(2) by (auto simp: length_Suc_conv)
    have "sound eval ev c x True r" using 3(1) [OF not_ x(1,2) 3(3)] 3(4) not_ x by simp
    with sound_not [OF assms(1), of ev c x False r] not_ x(1) show ?thesis by simp
  next
    case cmp
    with 3(2,4) cmpPreds_sound [OF 3(3) assms(1) cmp(1) assms(2), of args False] show ?thesis
      by (auto simp: kind_for_def)
  next
    case in_
    then have "fn \<notin> set cmpOps" by (simp add: cmpOps_def)
    with in_ 3(2,4) negInPreds_sound [OF 3(3) assms(1), of ev args] show ?thesis by auto
  next
    case ip
    then have "fn \<notin> set cmpOps" by (simp add: cmpOps_def)
    with ip 3(2,4) ipInPreds_sound [OF 3(3) assms(1,3), of args False] show ?thesis by auto
  next
    case other
    with 3(3,4) show ?thesis by auto
  qed
qed auto

end
