(* ===== verification/Compile_Exact.thy ===== *)
theory Compile_Exact
  imports Compile_Sound
begin

text \<open>
  Decisions on compiled sets of filters: what the predicate walkers decide, in userspace and in the
  kernel, is what evaluating the CEL programs one after the other decides.
\<close>

subsection \<open>Sets of filters\<close>

lemma keyed_step: "sound eval ev c e b r \<Longrightarrow> keyed (snd r)"
  by (simp add: sound_def)

text \<open>What the loop of \<^verbatim>\<open>Compile\<close> keeps of every filter that is pushed down.\<close>

definition filter_exact :: "cel_eval \<Rightarrow> Event \<Rightarrow> compiler \<Rightarrow> string \<times> expr \<times> Pred list \<times> bool \<Rightarrow> bool" where
  "filter_exact eval ev c = (\<lambda>(n, e, ps, us). us \<or> sound eval ev c e True (Some ps, c))"

lemma filter_exact_mono:
  assumes "filter_exact eval ev c f" and "comp_le c c'" and "keyed c'"
  shows "filter_exact eval ev c' f"
  using assms mask_for_mono [OF assms(2)] by (auto simp: filter_exact_def sound_def)

lemma sound_final: "sound eval ev c e True (Some ps, c') \<Longrightarrow> filter_exact eval ev c' (n, e, ps, us)"
  by (simp add: filter_exact_def sound_def)

lemma Compile_loop_cases:
  assumes "Compile_loop parse (f # fs) st = Some (Inr st')"
  obtains e r c where "parseCheck parse (cfg_Expr f) = Some e" and "conj_of e (cs_comp st) = Some (r, c)"
    and "\<exists>k. Compile_loop parse fs (st\<lparr>cs_comp := c,
      cs_filters := cs_filters st @ [(cfg_Name f, e, case r of None \<Rightarrow> [] | Some ps \<Rightarrow> ps, r = None)], cs_npreds := k\<rparr>) = Some (Inr st')"
proof -
  obtain e where e: "parseCheck parse (cfg_Expr f) = Some e" using assms by (auto split: if_splits option.splits)
  then obtain r c where r: "conj_of e (cs_comp st) = Some (r, c)" using assms by (auto split: if_splits option.splits)
  have same: "st\<lparr>cs_comp := d, cs_filters := gs, cs_npreds := cs_npreds st\<rparr> = st\<lparr>cs_comp := d, cs_filters := gs\<rparr>" for d gs
    by simp
  show ?thesis
  proof (cases r)
    case None
    with assms e r same show ?thesis by (intro that [OF e r] exI [of _ "cs_npreds st"]) (simp split: if_splits)
  next
    case (Some ps)
    with assms e r show ?thesis
      by (intro that [OF e r] exI [of _ "cs_npreds st + length ps + 1"]) (simp split: if_splits)
  qed
qed

lemma Compile_loop_extends:
  "Compile_loop parse cfg st = Some (Inr st') \<Longrightarrow> set (cs_filters st) \<subseteq> set (cs_filters st')"
proof (induction cfg arbitrary: st)
  case (Cons f fs)
  from Cons.prems show ?case
  proof (rule Compile_loop_cases)
    fix e r c
    assume "\<exists>k. Compile_loop parse fs (st\<lparr>cs_comp := c,
      cs_filters := cs_filters st @ [(cfg_Name f, e, case r of None \<Rightarrow> [] | Some ps \<Rightarrow> ps, r = None)], cs_npreds := k\<rparr>) = Some (Inr st')"
    then obtain k where "Compile_loop parse fs (st\<lparr>cs_comp := c,
      cs_filters := cs_filters st @ [(cfg_Name f, e, case r of None \<Rightarrow> [] | Some ps \<Rightarrow> ps, r = None)], cs_npreds := k\<rparr>) = Some (Inr st')" ..
    from Cons.IH [OF this] show ?thesis by simp
  qed
qed simp

lemma Compile_loop_exact:
  assumes "cel_laws eval" and "ev_LifeUS ev < 2 ^ 63" and "Event_ok ev" and "list_all (\<lambda>f. faithful (fst (snd f))) (cs_filters st')"
  shows "Compile_loop parse cfg st = Some (Inr st') \<Longrightarrow> keyed (cs_comp st) \<Longrightarrow>
    list_all (filter_exact eval ev (cs_comp st)) (cs_filters st) \<Longrightarrow>
    list_all (filter_exact eval ev (cs_comp st')) (cs_filters st')"
proof (induction cfg arbitrary: st)
  case (Cons f fs)
  obtain e r c k where e: "conj_of e (cs_comp st) = Some (r, c)"
    and rest: "Compile_loop parse fs (st\<lparr>cs_comp := c, cs_filters := cs_filters st @
      [(cfg_Name f, e, case r of None \<Rightarrow> [] | Some ps \<Rightarrow> ps, r = None)], cs_npreds := k\<rparr>) = Some (Inr st')"
    using Compile_loop_cases [OF Cons.prems(1)] by metis
  have "faithful e" using Compile_loop_extends [OF rest] assms(4) by (auto simp: list_all_iff)
  then have s: "sound eval ev (cs_comp st) e True (r, c)"
    using conj_sound(1) [OF assms(1-3) _ Cons.prems(2) e] by blast
  then have k: "keyed c" "comp_le (cs_comp st) c" by (simp_all add: sound_def)
  have "list_all (filter_exact eval ev c) (cs_filters st)"
    using Cons.prems(3) filter_exact_mono [OF _ k(2,1)] by (auto simp: list_all_iff)
  moreover have "filter_exact eval ev c (cfg_Name f, e, case r of None \<Rightarrow> [] | Some ps \<Rightarrow> ps, r = None)"
    using s sound_final by (cases r) (auto simp: filter_exact_def)
  ultimately show ?case using Cons.IH [OF rest] k(1) by simp
qed simp

lemma keyed_empty: "keyed \<lparr>atoms = [], atomIdx = Map.empty\<rparr>"
  by (simp add: keyed_def comp_ok_def)

text \<open>Verdict masks of compiled sets can always be computed.\<close>

lemma atomEval_total: "atom_Values a \<noteq> [] \<Longrightarrow> atomEval a attrs \<noteq> None"
  by (auto simp: atomEval_def Let_def go_idx_def)

lemma VerdictMask_loop_total: "list_all (\<lambda>a. atom_Values a \<noteq> []) as \<Longrightarrow> \<exists>m. VerdictMask_loop attrs i as k = Some m"
proof (induction as arbitrary: i k)
  case (Cons a as)
  then obtain b where "atomEval a attrs = Some b" using atomEval_total [of a attrs] by auto
  with Cons show ?case by simp
qed simp

lemma Compile_mask:
  assumes "Compile envok parse program_ok cfg = Some (Inr s)"
  shows "\<exists>m. VerdictMask (set_atoms s) attrs = Some m"
proof -
  obtain st where st: "Compile_loop parse cfg \<lparr>cs_comp = \<lparr>atoms = [], atomIdx = Map.empty\<rparr>, cs_filters = [], cs_npreds = 0\<rparr> = Some (Inr st)"
    and s: "set_atoms s = atoms (cs_comp st)"
    using assms by (auto simp: Compile_def Let_def split: if_splits option.splits sum.splits)
  have "loop_ok \<lparr>cs_comp = \<lparr>atoms = [], atomIdx = Map.empty\<rparr>, cs_filters = [], cs_npreds = 0\<rparr>"
    by (simp add: loop_ok_def comp_ok_def)
  from Compile_loop_ok [OF st this] have "comp_ok (cs_comp st)" by (simp add: loop_ok_def)
  then show ?thesis unfolding s VerdictMask_def by (intro VerdictMask_loop_total) (simp add: comp_ok_def)
qed

text \<open>What is exact of a set: the conjunction of every filter that is pushed down.\<close>

definition exact_conj :: "cel_eval \<Rightarrow> (string \<Rightarrow> rval option) \<Rightarrow> Event \<Rightarrow> u64 \<Rightarrow> Pred list \<times> bool \<Rightarrow> expr \<Rightarrow> bool" where
  "exact_conj eval bnd ev m = (\<lambda>(ps, us) e. if us then ps = [] else list_all body_pred ps \<and> list_all Pred_ok ps \<and>
     (all_hold m ev ps \<longleftrightarrow> eval bnd e = Some (RBool True)))"

lemma Compile_exact:
  assumes "Compile envok parse program_ok cfg = Some (Inr s)" and "cel_laws eval" and "list_all faithful (set_asts s)"
    and "Event_ok ev" and "ev_LifeUS ev < 2 ^ 63" and "VerdictMask (set_atoms s) (attrs_of ev) = Some m"
  shows "list_all2 (exact_conj eval (activation ev) ev m) (zip (set_preds s) (set_userspace s)) (set_asts s)"
proof -
  obtain st where st: "Compile_loop parse cfg \<lparr>cs_comp = \<lparr>atoms = [], atomIdx = Map.empty\<rparr>, cs_filters = [], cs_npreds = 0\<rparr> = Some (Inr st)"
    and at: "length (atoms (cs_comp st)) \<le> 64"
    and s: "set_asts s = map (fst \<circ> snd) (cs_filters st)" "set_atoms s = atoms (cs_comp st)"
      "set_preds s = map (fst \<circ> snd \<circ> snd) (cs_filters st)" "set_userspace s = map (snd \<circ> snd \<circ> snd) (cs_filters st)"
    using assms(1) by (auto simp: Compile_def Let_def split: if_splits option.splits sum.splits)
  have "list_all (filter_exact eval ev (cs_comp st)) (cs_filters st)"
    using Compile_loop_exact [OF assms(2,5,4) _ st] assms(3) keyed_empty by (simp add: s list_all_iff)
  moreover have "list_all (\<lambda>(n, e, ps, us). list_all (emitted (cs_comp st)) ps \<and> (us \<longrightarrow> ps = [])) (cs_filters st)"
  proof -
    have "loop_ok \<lparr>cs_comp = \<lparr>atoms = [], atomIdx = Map.empty\<rparr>, cs_filters = [], cs_npreds = 0\<rparr>"
      by (simp add: loop_ok_def comp_ok_def)
    from Compile_loop_ok [OF st this] show ?thesis by (auto simp: loop_ok_def list_all_iff)
  qed
  moreover have "mask_for (cs_comp st) ev m"
    using at assms(6) unfolding s(2) mask_for_def by (intro exI [of _ "cs_comp st"]) simp
  ultimately show ?thesis
    by (auto simp: s list_all2_conv_all_nth list_all_length split_def exact_conj_def filter_exact_def sound_def emitted_def)
qed

subsection \<open>Decisions of the walkers\<close>

definition answer_code :: "nat option \<Rightarrow> u16" where
  "answer_code r = (case r of None \<Rightarrow> KO_FILTER_DROP | Some i \<Rightarrow> of_nat i)"

lemma known_verdict_decides:
  assumes "list_all body_pred ps" and "exact_conj eval bnd ev m (ps, False) e"
  shows "tri_conj (map (Pred_clause (Some m) ev) ps) = (if eval bnd e = Some (RBool True) then KO_TRI_TRUE else KO_TRI_FALSE)"
proof -
  have dec: "Pred_clause (Some m) ev p = Decided True \<or> Pred_clause (Some m) ev p = Decided False" if "p \<in> set ps" for p
    using that assms(1) by (auto simp: list_all_iff body_pred_def Pred_clause_def)
  then have "Unknown \<notin> Pred_clause (Some m) ev ` set ps" by force
  moreover have "Decided False = Pred_clause (Some m) ev p \<longleftrightarrow> Pred_clause (Some m) ev p \<noteq> Decided True" if "p \<in> set ps" for p
    using dec [OF that] by auto
  then have "Decided False \<in> Pred_clause (Some m) ev ` set ps \<longleftrightarrow> \<not> all_hold m ev ps"
    by (simp add: all_hold_def list_all_iff image_iff)
  ultimately show ?thesis
    using assms(2) tri_conj_true_iff [of "map (Pred_clause (Some m) ev) ps"] tri_conj_false_iff [of "map (Pred_clause (Some m) ev) ps"]
    by (auto simp: exact_conj_def)
qed

lemma decide_Evaluate:
  assumes "list_all2 (exact_conj eval bnd ev m) fs es" and "i + length fs \<le> 256"
  shows "decide (map (as_flt (Some m) ev) (zip [i..<i + length fs] fs)) = answer_code (Evaluate_loop eval bnd i es) \<or>
    True \<in> snd ` set fs \<and> decide (map (as_flt (Some m) ev) (zip [i..<i + length fs] fs)) = KO_FILTER_UNDECIDED"
  using assms
proof (induction arbitrary: i rule: list_all2_induct)
  case Nil
  then show ?case by (simp add: answer_code_def)
next
  case (Cons f fs e es)
  obtain ps us where f: "f = (ps, us)" by (cases f)
  let ?rest = "map (as_flt (Some m) ev) (zip [Suc i..<Suc i + length fs] fs)"
  have z: "map (as_flt (Some m) ev) (zip [i..<i + length (f # fs)] (f # fs)) = as_flt (Some m) ev (i, ps, us) # ?rest"
    using upt_conv_Cons [of i "i + length (f # fs)"] by (simp add: f del: upt_Suc)
  have i: "(ucast (of_nat i :: u8) :: u16) = of_nat i"
    using Cons.prems by (intro word_unat_eq_iff [THEN iffD2]) (simp add: unat_of_nat)
  show ?case
  proof (cases us)
    case True
    then show ?thesis unfolding z by (simp add: f as_flt_def)
  next
    case False
    with Cons.hyps(1) have x: "exact_conj eval bnd ev m (ps, False) e" by (simp add: f)
    then have "list_all body_pred ps" by (simp add: exact_conj_def)
    from known_verdict_decides [OF this x] False i
    have "decide (as_flt (Some m) ev (i, ps, us) # ?rest) = (if eval bnd e = Some (RBool True) then of_nat i else decide ?rest)"
      by (simp add: as_flt_def)
    with Cons.IH [of "Suc i"] Cons.prems show ?thesis
      unfolding z by (auto simp: answer_code_def simp del: upt_Suc)
  qed
qed

lemma flat_loop_members: "list_all P (flat_loop i fs) \<Longrightarrow> list_all (\<lambda>(ps, us). list_all P ps) fs"
  by (induction i fs rule: flat_loop.induct) auto

lemma compiled_members:
  assumes "compiled_ok s"
  shows "list_all (\<lambda>(ps, us). list_all body_pred ps \<and> list_all Pred_ok ps) (zip (set_preds s) (set_userspace s))"
proof -
  have "list_all wf_pred (flat_loop 0 (zip (set_preds s) (set_userspace s)))" "list_all (list_all body_pred) (set_preds s)"
    using assms by (auto simp: compiled_ok_def)
  from flat_loop_members [OF this(1)] this(2) show ?thesis
    by (fastforce simp: list_all_iff wf_pred_def dest: set_zip_leftD)
qed

lemma RunPreds_exact:
  assumes "Compile envok parse program_ok cfg = Some (Inr s)" and "cel_laws eval" and "list_all faithful (set_asts s)"
    and "Event_ok ev" and "ev_LifeUS ev < 2 ^ 63" and "VerdictMask (set_atoms s) (attrs_of ev) = Some m"
  shows "RunPreds (set_flat s) ev (Some m) = Some (answer_code (Evaluate eval s ev)) \<or>
    True \<in> set (set_userspace s) \<and> RunPreds (set_flat s) ev (Some m) = Some KO_FILTER_UNDECIDED"
proof -
  let ?fs = "zip (set_preds s) (set_userspace s)"
  have ok: "compiled_ok s" using Compile_compiled_ok [OF assms(1)] by simp
  then have len: "length ?fs \<le> MaxFilters" and flat: "set_flat s = flat_loop 0 ?fs"
    by (simp_all add: compiled_ok_def)
  have "RunPreds (set_flat s) ev (Some m) = Some (decide (map (as_flt (Some m) ev) (zip [0..<length ?fs] ?fs)))"
    unfolding flat by (rule RunPreds_decide [OF compiled_members [OF ok] assms(4)])
  moreover have "True \<in> snd ` set ?fs \<Longrightarrow> True \<in> set (set_userspace s)" by (auto dest: set_zip_rightD)
  ultimately show ?thesis
    using decide_Evaluate [OF Compile_exact [OF assms], of 0] len
    by (auto simp: Evaluate_def split: if_splits)
qed

text \<open>A decision of the predicate walk is the decision of exact evaluation. For a compiled set of faithfully compiled filters,
  an event whose lifetime fits in 63 bits and the verdict mask of its cgroup's attributes, known
  or not yet known to the walk: if the walk does not leave the event undecided, it answers the
  index of the first filter whose CEL program evaluates to true, or drops the event exactly when none does.
  With the mask known and no filter left to userspace the walk always decides.\<close>

theorem walk_decides_as_cel:
  assumes "Compile envok parse program_ok cfg = Some (Inr s)" and "cel_laws eval" and "list_all faithful (set_asts s)"
    and "Event_ok ev" and "ev_LifeUS ev < 2 ^ 63" and "VerdictMask (set_atoms s) (attrs_of ev) = Some m"
    and "v = None \<or> v = Some m"
  shows "RunPreds (set_flat s) ev v = Some KO_FILTER_UNDECIDED \<and> (v = None \<or> True \<in> set (set_userspace s)) \<or>
    RunPreds (set_flat s) ev v = Some (case Evaluate eval s ev of None \<Rightarrow> KO_FILTER_DROP | Some i \<Rightarrow> of_nat i)"
proof (cases "v = None \<and> RunPreds (set_flat s) ev v = Some KO_FILTER_UNDECIDED")
  case False
  have ok: "compiled_ok s" using Compile_compiled_ok [OF assms(1)] by simp
  then have "list_all Pred_ok (set_flat s)" by (auto simp: compiled_ok_def wf_pred_def list_all_iff)
  then have "RunPreds (set_flat s) ev (Some m) = RunPreds (set_flat s) ev v"
    using gv.answer_stable [of "(set_flat s, ev)" m] False assms(4,7) by auto
  with RunPreds_exact [OF assms(1-6)] show ?thesis by (auto simp: answer_code_def)
qed auto

definition ex_plain_config :: "Config list" where
  "ex_plain_config = [\<lparr>cfg_Name = ''s'', cfg_Expr = ''slow''\<rparr>]"

definition ex_plain :: Set where
  "ex_plain = \<lparr>set_names = [''s''], set_asts = [the (ex_parse ''slow'')],
     set_atoms = [\<lparr>atom_Field = AttrNamespace, atom_Op = AttrEq, atom_Values = [''default'']\<rparr>],
     set_preds = [fst (hd ex_filters)], set_flat = flat_loop 0 [hd ex_filters], set_userspace = [False]\<rparr>"

lemma ex_plain_compiles: "Compile True ex_parse (\<lambda>_. True) ex_plain_config = Some (Inr ex_plain)"
  by code_simp

lemma ex_set_ok:
  "list_all faithful (set_asts ex_set)" "Event_ok ex_event" "ev_LifeUS ex_event < 2 ^ 63"
  "VerdictMask (set_atoms ex_set) (attrs_of ex_event) = Some (if ev_Namespace ex_event = ''default'' then 1 else 0)"
  by code_simp+

theorem walk_decides_as_cel_witness:
  "RunPreds (set_flat ex_set) ex_event None =
     Some (case Evaluate ref_eval ex_set ex_event of None \<Rightarrow> KO_FILTER_DROP | Some i \<Rightarrow> of_nat i)"
proof -
  have "RunPreds (set_flat ex_set) ex_event None \<noteq> Some KO_FILTER_UNDECIDED" by code_simp
  with walk_decides_as_cel [OF ex_compiles ref_eval_laws ex_set_ok, of None] show ?thesis by simp
qed

text \<open>The kernel on the loaded program, whether or not it knows the verdict.\<close>

lemma kernel_exact:
  assumes "Compile envok parse program_ok cfg = Some (Inr s)" and "cel_laws eval" and "list_all faithful (set_asts s)"
    and "length (set_flat s) \<le> MaxPreds" and "list_all (\<lambda>p. Kind p = PredIPSet \<longrightarrow> byte_prefixes p) (set_flat s)"
    and "same_event g ev" and "ev_LifeUS ev < 2 ^ 63" and "cfgv \<noteq> 0"
    and "VerdictMask (set_atoms s) (attrs_of ev) = Some m" and "verdicts (g_cgroup_id g) \<in> {None, Some m}"
  shows "ko_filter_eval (Some cfgv) (Some (ko_prog_of (BPFProg (set_names s) (set_flat s)))) verdicts g =
      answer_code (Evaluate eval s ev) \<or>
    ko_filter_eval (Some cfgv) (Some (ko_prog_of (BPFProg (set_names s) (set_flat s)))) verdicts g = KO_FILTER_UNDECIDED \<and>
      (verdicts (g_cgroup_id g) = None \<or> True \<in> set (set_userspace s))"
proof -
  let ?p = "ko_prog_of (BPFProg (set_names s) (set_flat s))" and ?v = "verdicts (g_cgroup_id g)"
  have ok: "compiled_ok s" using Compile_compiled_ok [OF assms(1)] by simp
  have c: "list_all wf_pred (set_flat s)" "set_names s \<noteq> []" "length (set_names s) \<le> MaxFilters"
    using ok unfolding compiled_ok_def by blast+
  have wf: "list_all Pred_ok (set_flat s)" using c(1) by (simp add: list_all_length wf_pred_def)
  have ev: "Event_ok ev" by (rule same_event_ok [OF assms(6)])
  from BPFProg_clauses [OF assms(6) c(1) assms(5,4) c(2,3)]
  have "walk (map (Pred_clause ?v ev) (set_flat s)) KO_TRI_TRUE = walk (ko_clauses (?p, g) ?v) KO_TRI_TRUE" by simp
  with wf ev have k: "RunPreds (set_flat s) ev ?v = Some (ko_filter_eval (Some cfgv) (Some ?p) verdicts g)"
    using gv.answer_walk [of "(set_flat s, ev)"] kf.answer_walk [of "(?p, g)"]
    by (simp add: ko_filter_eval_answer [OF assms(8)])
  show ?thesis
  proof (cases "?v = None \<and> RunPreds (set_flat s) ev ?v = Some KO_FILTER_UNDECIDED")
    case False
    then have "RunPreds (set_flat s) ev (Some m) = RunPreds (set_flat s) ev ?v"
      using gv.answer_stable [of "(set_flat s, ev)" m] wf ev assms(10) by auto
    with RunPreds_exact [OF assms(1-3) ev assms(7,9)] k show ?thesis by auto
  qed (use k in simp)
qed



text \<open>The prefixes of IPv4-mapped addresses that \<open>faithful\<close> excludes: exact evaluation takes such a prefix for the IPv4 prefix of
  the same length, the compiled predicate is an IPv6 prefix that the address does not match.\<close>

definition ex_mapped :: expr where
  "ex_mapped = ECall ''ip_in'' [EIdent ''ko_remote_addr'', EList [ELit (VString ''::ffff:172.16.0.0/8'')]]"

theorem mapped_prefix_miscompiled:
  "ref_eval (activation ex_event) ex_mapped = Some (RBool True) \<and>
   (case conj_of ex_mapped \<lparr>atoms = [], atomIdx = Map.empty\<rparr> of
      Some (Some [p], c) \<Rightarrow> Pred_clause None ex_event p = Decided False
    | _ \<Rightarrow> False)"
proof
  have "listOfStrings (EList [ELit (VString ''::ffff:172.16.0.0/8'')]) = Some [''::ffff:172.16.0.0/8'']" by code_simp
  from ip_in_value [OF ref_eval_laws _ this, of "''ko_remote_addr''" 1 ex_event]
  have "ref_eval (activation ex_event) ex_mapped =
      Some (RBool (AddrInCIDRs (hostport [172, 17, 0, 2] 443) [''::ffff:172.16.0.0/8'']))"
    by (simp add: ex_mapped_def addr_ident_def ex_event_def del: ref_eval.simps)
  moreover have "\<exists>p. ParsePrefix ''::ffff:172.16.0.0/8'' = Some p \<and> in_prefix [172, 17, 0, 2] p"
  proof -
    have "ParsePrefix ''::ffff:172.16.0.0/8'' =
        Some \<lparr>pfx_addr = Addr6 (replicate 10 0 @ [0xff, 0xff, 172, 16, 0, 0]) [], pfx_bits = 8\<rparr>" by code_simp
    moreover have "in_prefix [172, 17, 0, 2] \<lparr>pfx_addr = Addr6 (replicate 10 0 @ [0xff, 0xff, 172, 16, 0, 0]) [], pfx_bits = 8\<rparr>"
      by code_simp
    ultimately show ?thesis by blast
  qed
  ultimately show "ref_eval (activation ex_event) ex_mapped = Some (RBool True)"
    using AddrInCIDRs_hostport [of "[172, 17, 0, 2]" 443 "[''::ffff:172.16.0.0/8'']"] by simp
  show "case conj_of ex_mapped \<lparr>atoms = [], atomIdx = Map.empty\<rparr> of
      Some (Some [p], c) \<Rightarrow> Pred_clause None ex_event p = Decided False
    | _ \<Rightarrow> False"
    by code_simp
qed

end
