(* ===== verification/Ko_Abi.thy ===== *)
theory Ko_Abi
  imports C_Layout Ko_Exec Filter_Equiv
begin

text \<open>
  The bytes that cross between the eBPF programs and the agent: the ring-buffer record
  \<^verbatim>\<open>struct conn_event_t\<close>, which \<^verbatim>\<open>binary.Read\<close> decodes into the Go struct of the same fields, and
  the map value \<^verbatim>\<open>struct ko_prog\<close>, which the agent stores as the Go struct \<^verbatim>\<open>Prog\<close>. The C side is
  laid out by \<open>C_Layout\<close>; the Go side is a sequence of fixed-size little-endian fields.
\<close>

subsection \<open>The records of the C program\<close>

definition c_conn_ctx_t :: ctype where
  "c_conn_ctx_t = Struct [Field ''cgroup_id'' (Scalar 8), Field ''start_ts'' (Scalar 8), Field ''pid'' (Scalar 4),
     Field ''comm'' (Array (Scalar 1) 16), Field ''last_probe_ns'' (Scalar 8)]"

definition c_conn_event_t :: ctype where
  "c_conn_event_t = Struct [
     Field ''ts'' (Scalar 8), Field ''pid'' (Scalar 4), Field ''error'' (Scalar 4), Field ''comm'' (Array (Scalar 1) 16),
     Field ''family'' (Scalar 2), Field ''local_port'' (Scalar 2), Field ''remote_port'' (Scalar 2),
     Field ''type'' (Scalar 2), Field ''local_ip'' (Array (Scalar 1) 16), Field ''remote_ip'' (Array (Scalar 1) 16),
     Field ''cgroup_id'' (Scalar 8), Field ''life_us'' (Scalar 8), Field ''rtt_us'' (Scalar 4),
     Field ''retransmits'' (Scalar 4), Field ''segs_out'' (Scalar 4), Field ''snd_cwnd'' (Scalar 4),
     Field ''snd_ssthresh'' (Scalar 4), Field ''snd_wnd'' (Scalar 4), Field ''rcv_wnd'' (Scalar 4),
     Field ''filter_idx'' (Scalar 2)]"

definition c_ko_pred :: ctype where
  "c_ko_pred = Struct [
     Field ''val'' (Scalar 8), Field ''kind'' (Scalar 1), Field ''a'' (Scalar 1), Field ''b'' (Scalar 1), Field ''n'' (Scalar 1),
     Field ''plen'' (Array (Scalar 2) 4), Field ''fam'' (Array (Scalar 1) 4), Field ''addr'' (Array (Array (Scalar 1) 16) 4)]"

definition c_ko_prog :: ctype where
  "c_ko_prog = Struct [
     Field ''nfilters'' (Scalar 4), Field ''npreds'' (Scalar 4), Field ''preds'' (Array c_ko_pred 32)]"

subsection \<open>Memory images\<close>

definition slice :: "bytes \<Rightarrow> nat \<Rightarrow> nat \<Rightarrow> bytes" where
  "slice bs off n = take n (drop off bs)"

text \<open>The fields of an event with their bytes, and the record as \<^verbatim>\<open>submit_conn_evt\<close> leaves it in the
  ring buffer: it is zeroed first, so the two bytes of padding at the end are zero.\<close>

definition event_fields :: "conn_event_t \<Rightarrow> (string \<times> bytes) list" where
  "event_fields e = [
     (''ts'', le_bytes 8 (e_ts e)), (''pid'', le_bytes 4 (e_pid e)), (''error'', le_bytes 4 (e_error e)), (''comm'', e_comm e),
     (''family'', le_bytes 2 (e_family e)), (''local_port'', le_bytes 2 (e_local_port e)),
     (''remote_port'', le_bytes 2 (e_remote_port e)), (''type'', le_bytes 2 (e_type e)),
     (''local_ip'', e_local_ip e), (''remote_ip'', e_remote_ip e), (''cgroup_id'', le_bytes 8 (e_cgroup_id e)),
     (''life_us'', le_bytes 8 (e_life_us e)), (''rtt_us'', le_bytes 4 (e_rtt_us e)),
     (''retransmits'', le_bytes 4 (e_retransmits e)), (''segs_out'', le_bytes 4 (e_segs_out e)),
     (''snd_cwnd'', le_bytes 4 (e_snd_cwnd e)), (''snd_ssthresh'', le_bytes 4 (e_snd_ssthresh e)),
     (''snd_wnd'', le_bytes 4 (e_snd_wnd e)), (''rcv_wnd'', le_bytes 4 (e_rcv_wnd e)),
     (''filter_idx'', le_bytes 2 (e_filter_idx e))]"

definition event_bytes :: "conn_event_t \<Rightarrow> bytes" where
  "event_bytes e = concat (map snd (event_fields e)) @ [0, 0]"

text \<open>Consecutive fields of the given sizes.\<close>

fun chop :: "nat list \<Rightarrow> bytes \<Rightarrow> bytes list" where
  "chop [] bs = []"
| "chop (n # ns) bs = take n bs # chop ns (drop n bs)"

lemma chop_concat: "ns = map length xs \<Longrightarrow> chop ns (concat xs @ r) = xs"
  by (induction xs arbitrary: ns) auto

lemma length_chop [simp]: "length (chop ns bs) = length ns"
  by (induction ns arbitrary: bs) auto

text \<open>\<^verbatim>\<open>binary.Read\<close> into \<^verbatim>\<open>tracerConnEventT\<close>: a short record is an error, the blank field at the end is
  skipped and what follows is ignored.\<close>

definition event_sizes :: "nat list" where
  "event_sizes = [8, 4, 4, 16, 2, 2, 2, 2, 16, 16, 8, 8, 4, 4, 4, 4, 4, 4, 4, 2, 2]"

definition read_event :: "bytes \<Rightarrow> conn_event_t option" where
  "read_event bs =
     (if length bs < sum_list event_sizes then None
      else let fs = chop event_sizes bs in
        Some \<lparr>e_ts = le_word (fs ! 0), e_pid = le_word (fs ! 1), e_error = le_word (fs ! 2), e_comm = fs ! 3,
          e_family = le_word (fs ! 4), e_local_port = le_word (fs ! 5), e_remote_port = le_word (fs ! 6),
          e_type = le_word (fs ! 7), e_local_ip = fs ! 8, e_remote_ip = fs ! 9, e_cgroup_id = le_word (fs ! 10),
          e_life_us = le_word (fs ! 11), e_rtt_us = le_word (fs ! 12), e_retransmits = le_word (fs ! 13),
          e_segs_out = le_word (fs ! 14), e_snd_cwnd = le_word (fs ! 15), e_snd_ssthresh = le_word (fs ! 16),
          e_snd_wnd = le_word (fs ! 17), e_rcv_wnd = le_word (fs ! 18), e_filter_idx = le_word (fs ! 19)\<rparr>)"

text \<open>The Go struct \<^verbatim>\<open>Prog\<close> as it is stored in the map.\<close>

definition pred_bytes :: "Pred \<Rightarrow> bytes" where
  "pred_bytes p = le_bytes 8 (Val p) @ [Kind p, fldA p, fldB p, fldN p] @
     concat (map (le_bytes 2) (Plen p)) @ Fam p @ concat (Addr p)"

definition prog_bytes :: "Prog \<Rightarrow> bytes" where
  "prog_bytes pr = le_bytes 4 (NFilters pr) @ le_bytes 4 (NPreds pr) @ concat (map pred_bytes (Preds pr))"

text \<open>The kernel's view of these bytes, member by member at the offsets of the C records.\<close>

definition pred_at :: "bytes \<Rightarrow> nat \<Rightarrow> ko_pred" where
  "pred_at bs o1 = \<lparr>
     p_val = le_word (slice bs o1 8), p_kind = le_word (slice bs (o1 + 8) 1), p_a = le_word (slice bs (o1 + 9) 1),
     p_b = le_word (slice bs (o1 + 10) 1), p_n = le_word (slice bs (o1 + 11) 1),
     p_plen = map (\<lambda>i. le_word (slice bs (o1 + 12 + 2 * i) 2)) [0..<KO_MAX_IPSET],
     p_fam = map (\<lambda>i. le_word (slice bs (o1 + 20 + i) 1)) [0..<KO_MAX_IPSET],
     p_addr = map (\<lambda>i. slice bs (o1 + 24 + 16 * i) 16) [0..<KO_MAX_IPSET]\<rparr>"

definition prog_at :: "bytes \<Rightarrow> ko_prog" where
  "prog_at bs = \<lparr>nfilters = le_word (slice bs 0 4), npreds = le_word (slice bs 4 4),
     preds = map (\<lambda>k. pred_at bs (8 + 88 * k)) [0..<KO_MAX_PREDS]\<rparr>"

lemma c_record_sizes:
  "sizeof c_conn_ctx_t = 48" "sizeof c_conn_event_t = 120" "sizeof c_ko_pred = 88" "sizeof c_ko_prog = 2824"
  by code_simp+

lemma ko_pred_offsets:
  "map (\<lambda>n. map_option fst (offset_of c_ko_pred [n])) [''val'', ''kind'', ''a'', ''b'', ''n'', ''plen'', ''fam'', ''addr''] =
     [Some 0, Some 8, Some 9, Some 10, Some 11, Some 12, Some 20, Some 24]"
  "map (\<lambda>n. map_option fst (offset_of c_ko_prog [n])) [''nfilters'', ''npreds'', ''preds''] = [Some 0, Some 4, Some 8]"
  by code_simp+

subsection \<open>Events\<close>

definition event_widths :: "conn_event_t \<Rightarrow> bool" where
  "event_widths e \<longleftrightarrow> length (e_comm e) = 16 \<and> length (e_local_ip e) = 16 \<and> length (e_remote_ip e) = 16"

lemma event_ok_widths: "event_ok e \<Longrightarrow> event_widths e"
  by (simp add: event_ok_def event_widths_def)

lemma chop_event:
  "event_widths e \<Longrightarrow> chop event_sizes (event_bytes e @ r) = map snd (event_fields e) @ [[0, 0]]"
  using chop_concat [of event_sizes "map snd (event_fields e) @ [[0, 0]]" r]
  by (simp add: event_widths_def event_sizes_def event_fields_def event_bytes_def)

fun offsets :: "nat \<Rightarrow> bytes list \<Rightarrow> nat list" where
  "offsets n [] = []"
| "offsets n (b # bs) = n # offsets (n + length b) bs"

lemma slices_at_offsets:
  "list_all2 (\<lambda>off b. slice (pre @ concat bss @ r) off (length b) = b) (offsets (length pre) bss) bss"
proof (induction bss arbitrary: pre)
  case (Cons b bss)
  from Cons [of "pre @ b"] show ?case by (simp add: slice_def)
qed simp

lemma length_event_bytes: "event_widths e \<Longrightarrow> length (event_bytes e) = 120"
  by (simp add: event_widths_def event_fields_def event_bytes_def)

text \<open>C39: events survive the ring buffer. The Go decoder reads back from the record exactly the event the
  kernel wrote, whatever follows the record; a record shorter than the C struct is an error.\<close>

theorem event_roundtrip:
  "(event_widths e \<longrightarrow> read_event (event_bytes e @ r) = Some e) \<and>
   (length bs < nat (sizeof c_conn_event_t) \<longrightarrow> read_event bs = None)"
proof (intro conjI impI)
  assume e: "event_widths e"
  show "read_event (event_bytes e @ r) = Some e"
    unfolding read_event_def chop_event [OF e]
    by (simp add: length_event_bytes [OF e] event_sizes_def event_fields_def Let_def del: le_bytes.simps)
next
  assume "length bs < nat (sizeof c_conn_event_t)"
  then show "read_event bs = None" by (simp add: c_record_sizes read_event_def event_sizes_def)
qed

theorem event_roundtrip_witness:
  "read_event (event_bytes zero_event @ [1, 2, 3]) = Some zero_event \<and> read_event [1, 2, 3] = None"
proof -
  have "event_widths zero_event" by (simp add: event_widths_def zero_event_def)
  moreover have "length [1 :: u8, 2, 3] < nat (sizeof c_conn_event_t)" by (simp add: c_record_sizes)
  ultimately show ?thesis using event_roundtrip by blast
qed

text \<open>The Go decoder and the C compiler agree on the record. Every member of \<^verbatim>\<open>struct conn_event_t\<close> lies at the
  offset that the C layout gives it, with its size, in the byte sequence of fields that the
  Go decoder reads.\<close>

theorem event_fields_at_offsets:
  assumes "event_widths e"
  shows "list_all (\<lambda>(n, bs). \<exists>off t. offset_of c_conn_event_t [n] = Some (off, t) \<and> sizeof t = int (length bs) \<and>
      slice (event_bytes e) (nat off) (length bs) = bs) (event_fields e) \<and>
    int (length (event_bytes e)) = sizeof c_conn_event_t"
proof
  let ?fs = "map snd (event_fields e)"
  have "offsets 0 ?fs = [0, 8, 12, 16, 32, 34, 36, 38, 40, 56, 72, 80, 88, 92, 96, 100, 104, 108, 112, 116]"
    and len: "map length ?fs = [8, 4, 4, 16, 2, 2, 2, 2, 16, 16, 8, 8, 4, 4, 4, 4, 4, 4, 4, 2]"
    using assms by (simp_all add: event_fields_def event_widths_def)
  with slices_at_offsets [of "[]" ?fs "[0, 0]"]
  have at: "list_all2 (\<lambda>off b. slice (event_bytes e) off (length b) = b)
      [0, 8, 12, 16, 32, 34, 36, 38, 40, 56, 72, 80, 88, 92, 96, 100, 104, 108, 112, 116] ?fs"
    by (simp add: event_bytes_def)
  have "map (\<lambda>n. map_option (\<lambda>(o1, t). (nat o1, sizeof t)) (offset_of c_conn_event_t [n])) (map fst (event_fields e)) =
      map Some (zip [0, 8, 12, 16, 32, 34, 36, 38, 40, 56, 72, 80, 88, 92, 96, 100, 104, 108, 112, 116]
        [8, 4, 4, 16, 2, 2, 2, 2, 16, 16, 8, 8, 4, 4, 4, 4, 4, 4, 4, 2])"
    unfolding event_fields_def list.map fst_conv by code_simp
  then have offs: "map (\<lambda>n. map_option (\<lambda>(o1, t). (nat o1, sizeof t)) (offset_of c_conn_event_t [n])) (map fst (event_fields e)) =
      map Some (zip [0, 8, 12, 16, 32, 34, 36, 38, 40, 56, 72, 80, 88, 92, 96, 100, 104, 108, 112, 116] (map (int \<circ> length) ?fs))"
    using len unfolding map_map [symmetric] by simp
  show "list_all (\<lambda>(n, bs). \<exists>off t. offset_of c_conn_event_t [n] = Some (off, t) \<and> sizeof t = int (length bs) \<and>
      slice (event_bytes e) (nat off) (length bs) = bs) (event_fields e)"
    unfolding list_all_length
  proof (intro allI impI)
    fix k assume k: "k < length (event_fields e)"
    have k20: "k < 20" using k by (simp add: event_fields_def)
    let ?o = "[0, 8, 12, 16, 32, 34, 36, 38, 40, 56, 72, 80, 88, 92, 96, 100, 104, 108, 112, 116] ! k"
    have "map_option (\<lambda>(o1, t). (nat o1, sizeof t)) (offset_of c_conn_event_t [fst (event_fields e ! k)]) =
        Some (?o, int (length (snd (event_fields e ! k))))"
      using arg_cong [OF offs, of "\<lambda>xs. xs ! k"] k k20 by (simp del: offset_of.simps)
    moreover have "slice (event_bytes e) ?o (length (snd (event_fields e ! k))) = snd (event_fields e ! k)"
      using list_all2_nthD [OF at, of k] k20 k by simp
    ultimately show "case event_fields e ! k of (n, bs) \<Rightarrow> \<exists>off t. offset_of c_conn_event_t [n] = Some (off, t) \<and>
        sizeof t = int (length bs) \<and> slice (event_bytes e) (nat off) (length bs) = bs"
      by (auto simp: split_def simp del: offset_of.simps)
  qed
  show "int (length (event_bytes e)) = sizeof c_conn_event_t"
    by (simp add: length_event_bytes [OF assms] c_record_sizes)
qed

theorem event_fields_at_offsets_witness:
  "int (length (event_bytes zero_event)) = sizeof c_conn_event_t"
  using event_fields_at_offsets [of zero_event] by (simp add: event_widths_def zero_event_def)

subsection \<open>Programs\<close>

lemma slice_slice: "x + m \<le> n \<Longrightarrow> slice bs (o1 + x) m = slice (slice bs o1 n) x m"
  by (simp add: slice_def drop_take min_absorb1 ac_simps)

lemma slice_append:
  "length a \<le> o1 \<Longrightarrow> slice (a @ b) o1 n = slice b (o1 - length a) n"
  "o1 + n \<le> length a \<Longrightarrow> slice (a @ b) o1 n = slice a o1 n"
  by (simp_all add: slice_def)

lemma slice_concat:
  "list_all (\<lambda>x. length x = n) xs \<Longrightarrow> k < length xs \<Longrightarrow> slice (concat xs) (n * k) n = xs ! k"
proof (induction xs arbitrary: k)
  case (Cons x xs)
  then show ?case by (cases k) (auto simp: slice_def)
qed simp

lemma pred_at_slice: "pred_at bs o1 = pred_at (slice bs o1 88) 0"
  unfolding pred_at_def
  using slice_slice [of 0 8 88 bs o1]
  by (simp add: slice_slice [of _ _ 88 bs o1] add.assoc del: upt_rec_numeral cong: map_cong)

lemma le_word_single: "le_word [b] = b" for b :: u8
  by simp

lemma pred_at_bytes:
  assumes "Pred_ok p"
  shows "pred_at (pred_bytes p) 0 = ko_pred_of p"
proof -
  obtain a b c d where pl: "Plen p = [a, b, c, d]" using assms by (auto simp: Pred_ok_def numeral_eq_Suc length_Suc_conv)
  obtain f g h i where fm: "Fam p = [f, g, h, i]" using assms by (auto simp: Pred_ok_def numeral_eq_Suc length_Suc_conv)
  obtain w x y z where ad: "Addr p = [w, x, y, z]" using assms by (auto simp: Pred_ok_def numeral_eq_Suc length_Suc_conv)
  have "length w = 16" "length x = 16" "length y = 16" "length z = 16" using assms ad by (simp_all add: Pred_ok_def)
  then show ?thesis
    by (simp add: pred_at_def pred_bytes_def ko_pred_of_def pl fm ad slice_def upt_rec del: le_bytes.simps)
qed

lemma length_pred_bytes: "Pred_ok p \<Longrightarrow> length (pred_bytes p) = 88"
proof -
  assume ok: "Pred_ok p"
  have "length (concat (Addr p)) = 64" using ok
    by (auto simp: Pred_ok_def numeral_eq_Suc length_Suc_conv)
  moreover have "length (concat (map (le_bytes 2) (Plen p))) = 8" using ok
    by (auto simp: Pred_ok_def numeral_eq_Suc length_Suc_conv)
  ultimately show ?thesis using ok by (simp add: pred_bytes_def Pred_ok_def)
qed

text \<open>The agent's programs reach the kernel intact. The bytes of the Go struct \<^verbatim>\<open>Prog\<close>, read by the eBPF
  program through \<^verbatim>\<open>struct ko_prog\<close>, are the same filter count, predicate count and predicates,
  and they fill the map value exactly.\<close>

theorem prog_roundtrip:
  assumes "length (Preds pr) = MaxPreds" and "list_all Pred_ok (Preds pr)"
  shows "prog_at (prog_bytes pr) = ko_prog_of pr \<and> int (length (prog_bytes pr)) = sizeof c_ko_prog"
proof
  let ?c = "concat (map pred_bytes (Preds pr))"
  have len: "list_all (\<lambda>x. length x = 88) (map pred_bytes (Preds pr))"
    using assms(2) length_pred_bytes by (simp add: list_all_length)
  have "slice (prog_bytes pr) (8 + 88 * k) 88 = pred_bytes (Preds pr ! k)" if "k < 32" for k
    using slice_concat [OF len, of k] that assms(1) by (simp add: prog_bytes_def slice_append)
  then have "pred_at (prog_bytes pr) (8 + 88 * k) = ko_pred_of (Preds pr ! k)" if "k < 32" for k
    using pred_at_slice [of "prog_bytes pr" "8 + 88 * k"] pred_at_bytes [of "Preds pr ! k"] assms that
    by (simp add: list_all_length)
  then have "map (\<lambda>k. pred_at (prog_bytes pr) (8 + 88 * k)) [0..<KO_MAX_PREDS] = map ko_pred_of (Preds pr)"
    using assms(1) by (intro nth_equalityI) (simp_all del: upt_rec_numeral)
  moreover have "slice (prog_bytes pr) 0 4 = le_bytes 4 (NFilters pr)" "slice (prog_bytes pr) 4 4 = le_bytes 4 (NPreds pr)"
    by (simp_all add: prog_bytes_def slice_def)
  ultimately show "prog_at (prog_bytes pr) = ko_prog_of pr"
    by (simp add: prog_at_def ko_prog_of_def del: upt_rec_numeral)
  have "length (concat xs) = 88 * length xs" if "list_all (\<lambda>x. length x = 88) xs" for xs :: "bytes list"
    using that by (induction xs) auto
  from this [OF len] show "int (length (prog_bytes pr)) = sizeof c_ko_prog"
    using assms(1) by (simp add: prog_bytes_def c_record_sizes)
qed

theorem prog_roundtrip_witness:
  "prog_at (prog_bytes (BPFProg [''f''] [zeroPred])) = ko_prog_of (BPFProg [''f''] [zeroPred])"
proof -
  have "length (Preds (BPFProg [''f''] [zeroPred])) = MaxPreds" "list_all Pred_ok (Preds (BPFProg [''f''] [zeroPred]))"
    by (simp_all add: BPFProg_def Pred_ok_def zeroPred_def list_all_length nth_Cons')
  from prog_roundtrip [OF this] show ?thesis by simp
qed

end
