(* ===== verification/Tracer_User.thy ===== *)
theory Tracer_User
  imports Compile_Exact Ko_Abi
begin

text \<open>
  The userspace side of the tracer (\<^verbatim>\<open>pkg/tracer/tracer.go\<close>, \<^verbatim>\<open>pkg/tracer/cel.go\<close>): decoding a ring-buffer
  record, deciding the events that the kernel left open, checking the kernel's decisions, and
  keeping the verdict map in step with the attributes of the cgroups. The verdict map and the
  ring buffer are those of the kernel state; the attribute source is an interface of the code and
  appears as an operation on a state of its own. \<open>None\<close> is a run-time panic.
\<close>

subsection \<open>Decoding\<close>

text \<open>A nil \<^verbatim>\<open>net.IP\<close> is \<open>None\<close>.\<close>

record ConnEvent =
  ce_Type :: u16
  ce_TimestampNS :: u64
  ce_Pid :: u32
  ce_Comm :: string
  ce_LocalIP :: "bytes option"
  ce_LocalPort :: u16
  ce_RemoteIP :: "bytes option"
  ce_RemotePort :: u16
  ce_Family :: u16
  ce_CgroupID :: u64
  ce_LifeUS :: u64
  ce_RTTUS :: u32
  ce_Retransmits :: u32
  ce_SegsOut :: u32
  ce_Errno :: u32
  ce_SndCwnd :: u32
  ce_SndSsthresh :: u32
  ce_SndWnd :: u32
  ce_RcvWnd :: u32
  ce_FilterIdx :: u16
  ce_FilterName :: string

fun cString :: "bytes \<Rightarrow> string" where
  "cString [] = []"
| "cString (c # cs) = (if c = 0 then [] else char_of (unat c) # cString cs)"

definition event_ip :: "u16 \<Rightarrow> bytes \<Rightarrow> bytes option" where
  "event_ip family ip = (if family = AF_INET then Some (take 4 ip) else if family = AF_INET6 then Some ip else None)"

definition decodeConnEvent :: "conn_event_t \<Rightarrow> ConnEvent" where
  "decodeConnEvent raw = \<lparr>ce_Type = e_type raw, ce_TimestampNS = e_ts raw, ce_Pid = e_pid raw, ce_Comm = cString (e_comm raw),
     ce_LocalIP = event_ip (e_family raw) (e_local_ip raw), ce_LocalPort = e_local_port raw,
     ce_RemoteIP = event_ip (e_family raw) (e_remote_ip raw), ce_RemotePort = e_remote_port raw,
     ce_Family = e_family raw, ce_CgroupID = e_cgroup_id raw, ce_LifeUS = e_life_us raw, ce_RTTUS = e_rtt_us raw,
     ce_Retransmits = e_retransmits raw, ce_SegsOut = e_segs_out raw, ce_Errno = e_error raw, ce_SndCwnd = e_snd_cwnd raw,
     ce_SndSsthresh = e_snd_ssthresh raw, ce_SndWnd = e_snd_wnd raw, ce_RcvWnd = e_rcv_wnd raw,
     ce_FilterIdx = e_filter_idx raw, ce_FilterName = []\<rparr>"

subsection \<open>State\<close>

text \<open>\<open>u_src\<close> is the state behind the attribute source; the counters are the metrics of the loop, and \<open>u_sent\<close> is what
  was sent to the events channel.\<close>

record 's ustate =
  u_kernel :: kstate
  u_src :: 's
  u_sent :: "ConnEvent list"
  u_events_total :: nat
  u_decode_errors :: nat
  u_passed_bpf :: nat
  u_passed_userspace :: nat
  u_dropped_userspace :: nat
  u_matched :: "string \<Rightarrow> nat"
  u_mismatches :: nat

type_synonym ('w, 's) attrs_op = "'w \<Rightarrow> u64 \<Rightarrow> 's \<Rightarrow> (CgroupAttrs \<times> bool) \<times> 's"

definition no_attrs :: CgroupAttrs where
  "no_attrs = \<lparr>attr_Namespace = [], attr_Container = [], attr_Pod = []\<rparr>"

definition filter_event :: "CgroupAttrs \<Rightarrow> conn_event_t \<Rightarrow> Event" where
  "filter_event attrs raw = \<lparr>ev_Type = e_type raw, ev_Namespace = attr_Namespace attrs, ev_Container = attr_Container attrs,
     ev_Pod = attr_Pod attrs, ev_RTTUS = e_rtt_us raw, ev_LifeUS = e_life_us raw, ev_Retransmits = e_retransmits raw,
     ev_SegsOut = e_segs_out raw, ev_Errno = e_error raw, ev_LocalIP = decodeIP (e_family raw) (e_local_ip raw),
     ev_LocalPort = e_local_port raw, ev_RemoteIP = decodeIP (e_family raw) (e_remote_ip raw), ev_RemotePort = e_remote_port raw\<rparr>"

text \<open>A store into the verdict map; whether the map is full and which entries it gives up is the choice \<open>ch\<close>.\<close>

definition store_verdict :: "lru_choice \<Rightarrow> u64 \<Rightarrow> u64 \<Rightarrow> kstate \<Rightarrow> kstate" where
  "store_verdict ch i m k = k\<lparr>ko_cgroup_verdict := lru_update ch i m (ko_cgroup_verdict k)\<rparr>"

subsection \<open>Deciding in userspace\<close>

definition resolveFilter ::
    "cel_eval \<Rightarrow> ('w, 's) attrs_op option \<Rightarrow> Set \<Rightarrow> 'w \<Rightarrow> lru_choice \<Rightarrow> conn_event_t \<Rightarrow> 's ustate \<Rightarrow>
       (nat option \<times> 's ustate) option" where
  "resolveFilter eval src s w ch raw u =
     (let ((attrs, known), st) =
            (case src of None \<Rightarrow> ((no_attrs, True), u_src u) | Some Attrs \<Rightarrow> Attrs w (e_cgroup_id raw) (u_src u));
          matched = Evaluate eval s (filter_event attrs raw);
          u' = u\<lparr>u_src := st\<rparr>
      in if known then
           (case VerdictMask (set_atoms s) attrs of
              None \<Rightarrow> None
            | Some m \<Rightarrow> Some (matched, u'\<lparr>u_kernel := store_verdict ch (e_cgroup_id raw) m (u_kernel u')\<rparr>))
         else Some (matched, u'))"

definition verifyBpfDecision ::
    "cel_eval \<Rightarrow> ('w, 's) attrs_op option \<Rightarrow> Set \<Rightarrow> 'w \<Rightarrow> lru_choice \<Rightarrow> conn_event_t \<Rightarrow> u16 \<Rightarrow> 's ustate \<Rightarrow>
       's ustate option" where
  "verifyBpfDecision eval src s w ch raw bpfIdx u =
     (case resolveFilter eval src s w ch raw u of
        None \<Rightarrow> None
      | Some (matched, u') \<Rightarrow>
          Some (if map_option (of_nat :: nat \<Rightarrow> u16) matched \<noteq> Some bpfIdx then u'\<lparr>u_mismatches := u_mismatches u' + 1\<rparr> else u'))"

subsection \<open>The event loop\<close>

definition deliver :: "ConnEvent \<Rightarrow> 's ustate \<Rightarrow> 's ustate" where
  "deliver event u = u\<lparr>u_matched := (u_matched u)(ce_FilterName event := u_matched u (ce_FilterName event) + 1),
     u_sent := u_sent u @ [event]\<rparr>"

text \<open>One iteration of the loop of \<^verbatim>\<open>Run\<close> on the bytes of a record.\<close>

definition handle_record ::
    "cel_eval \<Rightarrow> ('w, 's) attrs_op option \<Rightarrow> Set option \<Rightarrow> bool \<Rightarrow> 'w \<Rightarrow> lru_choice \<Rightarrow> bytes \<Rightarrow> 's ustate \<Rightarrow>
       's ustate option" where
  "handle_record eval src filterSet verify w ch record u0 =
     (let u = u0\<lparr>u_events_total := u_events_total u0 + 1\<rparr> in
      case read_event record of
        None \<Rightarrow> Some (u\<lparr>u_decode_errors := u_decode_errors u + 1\<rparr>)
      | Some raw \<Rightarrow>
          (let event = decodeConnEvent raw in
           case filterSet of
             None \<Rightarrow> Some (u\<lparr>u_dropped_userspace := u_dropped_userspace u + 1\<rparr>)
           | Some s \<Rightarrow>
               (let names = set_names s in
                if ce_FilterIdx event < of_nat (length names) then
                  (case go_idx names (unat (ce_FilterIdx event)) of
                     None \<Rightarrow> None
                   | Some name \<Rightarrow>
                       (let u' = u\<lparr>u_passed_bpf := u_passed_bpf u + 1\<rparr>
                        in map_option (deliver (event\<lparr>ce_FilterName := name\<rparr>))
                             (if verify then verifyBpfDecision eval src s w ch raw (ce_FilterIdx event) u'
                              else Some u')))
                else
                  (case resolveFilter eval src s w ch raw u of
                     None \<Rightarrow> None
                   | Some (None, u') \<Rightarrow> Some (u'\<lparr>u_dropped_userspace := u_dropped_userspace u' + 1\<rparr>)
                   | Some (Some i, u') \<Rightarrow>
                       (case go_idx names i of
                          None \<Rightarrow> None
                        | Some name \<Rightarrow>
                            Some (deliver (event\<lparr>ce_FilterIdx := of_nat i, ce_FilterName := name\<rparr>)
                              (u'\<lparr>u_passed_userspace := u_passed_userspace u' + 1\<rparr>)))))))"

subsection \<open>Keeping the verdict map in step\<close>

text \<open>The updates of a sync, in the order the snapshot is iterated; a failing update ends the sync.\<close>

fun sync_updates :: "Atom list \<Rightarrow> (u64 \<Rightarrow> lru_choice) \<Rightarrow> (u64 \<times> CgroupAttrs) list \<Rightarrow> kstate \<Rightarrow> (bool \<times> kstate) option" where
  "sync_updates as ch [] k = Some (True, k)"
| "sync_updates as ch ((i, attrs) # rest) k =
     (case VerdictMask as attrs of
        None \<Rightarrow> None
      | Some m \<Rightarrow>
          (let k' = store_verdict (ch i) i m k in
           if lru_fails (ch i) then Some (False, k') else sync_updates as ch rest k'))"

text \<open>The keys that the iteration over the map yields are \<open>keys\<close>: a map iterator may stop early.\<close>

fun sync_deletes :: "u64 set \<Rightarrow> u64 list \<Rightarrow> kstate \<Rightarrow> kstate" where
  "sync_deletes live [] k = k"
| "sync_deletes live (i # keys) k =
     sync_deletes live keys
       (if i \<notin> live then k\<lparr>ko_cgroup_verdict := hash_delete i (ko_cgroup_verdict k)\<rparr> else k)"

definition syncOnce ::
    "Set \<Rightarrow> (u64 \<times> CgroupAttrs) list option \<Rightarrow> (u64 \<Rightarrow> lru_choice) \<Rightarrow> u64 list \<Rightarrow> kstate \<Rightarrow> kstate option" where
  "syncOnce s snapshot ch keys k =
     (case snapshot of
        None \<Rightarrow> Some k
      | Some snap \<Rightarrow>
          (case sync_updates (set_atoms s) ch snap k of
             None \<Rightarrow> None
           | Some (False, k') \<Rightarrow> Some k'
           | Some (True, k') \<Rightarrow> Some (sync_deletes (fst ` set snap) keys k')))"

datatype start_error = ProgramRules | EnableFilters

text \<open>\<open>stores_ok\<close> tells whether the updates of the program and of the switch succeed.\<close>

definition startFilters ::
    "bool \<times> bool \<Rightarrow> Set option \<Rightarrow> (u64 \<times> CgroupAttrs) list option \<Rightarrow> (u64 \<Rightarrow> lru_choice) \<Rightarrow> u64 list \<Rightarrow> kstate \<Rightarrow>
       (start_error + kstate) option" where
  "startFilters stores_ok filterSet snapshot ch keys k =
     (let enable = (\<lambda>k'. if snd stores_ok then Inr (k'\<lparr>ko_filter_cfg := (ko_filter_cfg k')[0 := 1]\<rparr>) else Inl EnableFilters) in
      case filterSet of
        None \<Rightarrow> Some (enable k)
      | Some s \<Rightarrow>
          if fst stores_ok then
            map_option enable (syncOnce s snapshot ch keys
              (k\<lparr>ko_filter_prog := (ko_filter_prog k)[0 := ko_prog_of (BPFProg (set_names s) (set_flat s))]\<rparr>))
          else Some (Inl ProgramRules))"

end
