(* ===== verification/Core_Task.thy ===== *)
theory Core_Task
  imports Core_Read Ko_Example Tracer_User
begin

text \<open>
  The identity of the connecting process, from kernel memory to userspace: the helpers
  \<^verbatim>\<open>bpf_get_current_pid_tgid\<close> and \<^verbatim>\<open>bpf_get_current_comm\<close> as \<^verbatim>\<open>bpf_helper_defs.h\<close> documents them, over the
  \<^verbatim>\<open>task_struct\<close> of \<^verbatim>\<open>vmlinux.h\<close>, and the pid and the command name that the event loop decodes.
\<close>

subsection \<open>The current task\<close>

text \<open>\<^verbatim>\<open>current_task->tgid << 32 | current_task->pid\<close>, in 64 bits; \<^verbatim>\<open>pid_t\<close> is a signed integer.\<close>

definition bpf_get_current_pid_tgid :: "kmem \<Rightarrow> u64 \<Rightarrow> u64" where
  "bpf_get_current_pid_tgid mem task =
     push_bit 32 (scast (core_int mem 4 task [(s_task_struct, [''tgid''])] :: u32)) OR
     scast (core_int mem 4 task [(s_task_struct, [''pid''])] :: u32)"

text \<open>The command name, cut and NUL-terminated to the \<open>n\<close> bytes of the buffer.\<close>

definition bpf_get_current_comm :: "kmem \<Rightarrow> u64 \<Rightarrow> nat \<Rightarrow> bytes" where
  "bpf_get_current_comm mem task n =
     take (n - 1) (core_bytes mem 16 task [(s_task_struct, [''comm''])] @ replicate n 0) @ [0]"

text \<open>What an invocation in the process of the task at \<open>task\<close> sees.\<close>

definition env_of_task :: "kmem \<Rightarrow> u64 \<Rightarrow> kenv \<Rightarrow> kenv" where
  "env_of_task mem task env = (env_of_mem mem env)\<lparr>current_pid_tgid := bpf_get_current_pid_tgid mem task,
     current_comm := bpf_get_current_comm mem task 16\<rparr>"

subsection \<open>Offsets\<close>

lemma task_members:
  "map (map_of (members 0 s_task_struct)) [''pid'', ''tgid'', ''comm''] =
     [Some (12032, t_pid_t), Some (12064, t_pid_t), Some (15616, Array c_char 16)]"
  by code_simp

lemma task_offsets:
  "offset_of s_task_struct [''pid''] = Some (1504, t_pid_t)" "offset_of s_task_struct [''tgid''] = Some (1508, t_pid_t)"
  "offset_of s_task_struct [''comm''] = Some (1952, Array c_char 16)"
  using task_members [unfolded list.map list.inject] by (simp_all only: offset_of_Cons offset_of.simps(1)) simp_all

lemma task_reads:
  "core_int mem 4 task [(s_task_struct, [''pid''])] = le_word (map (\<lambda>i. mem (task + 1504 + of_nat i)) [0..<4])"
  "core_int mem 4 task [(s_task_struct, [''tgid''])] = le_word (map (\<lambda>i. mem (task + 1508 + of_nat i)) [0..<4])"
  "core_bytes mem 16 task [(s_task_struct, [''comm''])] = map (\<lambda>i. mem (task + 1952 + of_nat i)) [0..<16]"
  by (simp_all add: core_int_offset [OF task_offsets(1)] core_int_offset [OF task_offsets(2)] core_int_offset [OF task_offsets(3)]
      probe_read_upt del: upt_rec_numeral le_word.simps)

lemma tgid_upper:
  assumes "\<not> bit (pid :: u32) 31"
  shows "ucast (drop_bit 32 (push_bit 32 (scast (tgid :: u32)) OR scast pid :: u64)) = tgid"
proof (rule bit_word_eqI)
  fix n assume "n < LENGTH(32)"
  then have "n < 31 \<or> n = 31" by auto
  with assms show "bit (ucast (drop_bit 32 (push_bit 32 (scast tgid) OR scast pid :: u64)) :: u32) n = bit tgid n"
    by (auto simp: bit_ucast_iff bit_drop_bit_eq bit_or_iff bit_push_bit_iff bit_signed_iff min_def)
qed

lemma cString_take:
  "cString (take n bs @ [0]) = cString (take n bs)"
proof (induction bs arbitrary: n)
  case Nil
  then show ?case by simp
next
  case (Cons b bs)
  then show ?case by (cases n) simp_all
qed


subsection \<open>From the task to the event\<close>

text \<open>C27: the identity of a connection, from the kernel's memory to userspace. When every handler that sees the socket connect runs
  in a task, the event that userspace decodes from a later tracepoint of the socket carries as pid the four bytes at offset 1508
  (\<^verbatim>\<open>tgid\<close>) of the \<^verbatim>\<open>task_struct\<close> of such a task, and as command name the string in the first 15 bytes at
  offset 1952 (\<^verbatim>\<open>comm\<close>).\<close>

theorem identity_from_task_struct:
  assumes "exec h s" and "ko_events (run_tp env t s) \<noteq> ko_events s"
    and tasks: "\<And>cenv o1 n1. Trace cenv (Inet_sock_set_state (tp_sock t) o1 n1) \<in> set h \<Longrightarrow>
      connects (tp_sock t) (Trace cenv (Inet_sock_set_state (tp_sock t) o1 n1)) \<Longrightarrow>
      \<exists>mem task base. cenv = env_of_task mem task base \<and> \<not> bit (core_int mem 4 task [(s_task_struct, [''pid''])] :: u32) 31 \<and> P mem task"
  shows "\<exists>e mem task. ko_events (run_tp env t s) = ko_events s @ [e] \<and> P mem task \<and>
    ce_Pid (decodeConnEvent e) = le_word (map (\<lambda>i. mem (task + 1508 + of_nat i)) [0..<4]) \<and>
    ce_Comm (decodeConnEvent e) = cString (map (\<lambda>i. mem (task + 1952 + of_nat i)) [0..<15])"
proof -
  obtain c n ty fam sp dp a where c: "ko_sock_ctx s (tp_sock t) = Some c"
    and ev: "ko_events (run_tp env t s) = ko_events s @
       [make_event env (ktime env n) (tp_sock t) c ty fam sp dp a (filter_verdict env (ktime env n) (tp_sock t) c ty fam a s)]"
    using run_tp_emits [OF assms(2)] by metis
  let ?e = "make_event env (ktime env n) (tp_sock t) c ty fam sp dp a (filter_verdict env (ktime env n) (tp_sock t) c ty fam a s)"
  obtain cenv o1 n1 where h: "Trace cenv (Inet_sock_set_state (tp_sock t) o1 n1) \<in> set h"
    "connects (tp_sock t) (Trace cenv (Inet_sock_set_state (tp_sock t) o1 n1))" and cc: "c\<lparr>c_last_probe_ns := 0\<rparr> = connect_ctx cenv"
    using exec_ctx_from [OF assms(1) c] unfolding ctx_from_def by blast
  obtain mem task base where m: "cenv = env_of_task mem task base"
    "\<not> bit (core_int mem 4 task [(s_task_struct, [''pid''])] :: u32) 31" "P mem task" using tasks [OF h] by blast
  have "c_pid c = ucast (drop_bit 32 (current_pid_tgid cenv))" "c_comm c = current_comm cenv"
    using cc by (cases c; simp add: connect_ctx_def)+
  moreover have "current_pid_tgid cenv = bpf_get_current_pid_tgid mem task" "current_comm cenv = bpf_get_current_comm mem task 16"
    by (simp_all add: m(1) env_of_task_def)
  ultimately have "c_pid c = core_int mem 4 task [(s_task_struct, [''tgid''])]" "c_comm c = bpf_get_current_comm mem task 16"
    by (simp_all only: bpf_get_current_pid_tgid_def tgid_upper [OF m(2)])
  moreover have "ce_Pid (decodeConnEvent ?e) = c_pid c" "ce_Comm (decodeConnEvent ?e) = cString (c_comm c)"
    by (simp_all add: decodeConnEvent_def make_event_def fill_addrs_def attr_resolve_def Let_def)
  ultimately have "ce_Pid (decodeConnEvent ?e) = le_word (map (\<lambda>i. mem (task + 1508 + of_nat i)) [0..<4])"
    "ce_Comm (decodeConnEvent ?e) = cString (map (\<lambda>i. mem (task + 1952 + of_nat i)) [0..<15])"
    by (simp_all only: task_reads bpf_get_current_comm_def cString_take) (simp add: take_map)
  with ev m(3) show ?thesis by blast
qed

text \<open>A task with pid 99 in the thread group 4242 and the command name curl, at address 4096; an IPv4 TCP socket at address 8192.\<close>

definition ex_task_mem :: kmem where
  "ex_task_mem a = (if a = 5600 then 99 else if a = 5604 then 0x92 else if a = 5605 then 0x10
     else if a = 6048 then 99 else if a = 6049 then 117 else if a = 6050 then 114 else if a = 6051 then 108
     else if a = 8208 then 2 else if a = 8740 then 6 else 0)"

definition ex_task_env :: kenv where
  "ex_task_env = env_of_task ex_task_mem 4096 (ex_env 1000000 0)"

definition ex_task_state :: kstate where
  "ex_task_state = act (Trace ex_task_env (Inet_sock_set_state 8192 7 2)) init_state"

lemma ex_task_sock:
  "sk_protocol (sock_at ex_task_mem 8192) = IPPROTO_TCP" "sock_read_endpoints (sock_at ex_task_mem 8192) \<noteq> None"
proof -
  have "sk_protocol (sock_at ex_task_mem 8192) = 6" "skc_family (sock_at ex_task_mem 8192) = 2" "skc_state (sock_at ex_task_mem 8192) = 0"
    by (simp_all add: sock_at_mem core_int_offset [OF core_offsets(8)] probe_read_upt upt_rec ex_task_mem_def)
  then show "sk_protocol (sock_at ex_task_mem 8192) = IPPROTO_TCP" "sock_read_endpoints (sock_at ex_task_mem 8192) \<noteq> None"
    by (simp_all add: sock_read_endpoints_def Let_def IPPROTO_TCP_def AF_INET_def tcp_consts)
qed

lemma ex_task_env_sel:
  "socks ex_task_env = sock_at ex_task_mem" "lru_of ex_task_env = \<lparr>lru_victims = [], lru_fails = False\<rparr>"
  by (simp_all add: ex_task_env_def env_of_task_def env_of_mem_def)

lemma ex_task_env_ok: "env_ok ex_task_env"
  by (simp add: env_ok_def sock_ok_def ex_task_env_def env_of_task_def env_of_mem_def sock_at_def bpf_get_current_comm_def
      core_int_offset [OF core_offsets(6)] core_int_offset [OF core_offsets(7)] probe_read_upt)

lemma ex_task_state_eq:
  "ex_task_state = init_state\<lparr>ko_sock_ctx := [8192 \<mapsto> connect_ctx ex_task_env]\<rparr>"
  using ex_task_sock by (auto simp add: ex_task_state_def ko_sock_state_def Let_def map_defs ex_task_env_sel
      TCP_SYN_SENT_def TCP_ESTABLISHED_def init_state_def split: option.splits)

lemma ex_task_exec: "exec [Trace ex_task_env (Inet_sock_set_state 8192 7 2)] ex_task_state"
  unfolding ex_task_state_def by (intro exec.intros) (simp add: ex_task_env_ok)


lemma ex_task_closes:
  "ko_events (run_tp (ex_env 5000000 0) (Inet_sock_set_state 8192 2 7) ex_task_state) \<noteq> ko_events ex_task_state"
  by (simp add: ex_task_state_eq ko_sock_state_def Let_def hash_lookup_def TCP_ESTABLISHED_def TCP_SYN_SENT_def
      submit_conn_evt_def ko_filter_eval_def array_lookup_def init_state_def)

theorem identity_from_task_struct_witness:
  "\<exists>e. ko_events (run_tp (ex_env 5000000 0) (Inet_sock_set_state 8192 2 7) ex_task_state) = ko_events ex_task_state @ [e] \<and>
     ce_Pid (decodeConnEvent e) = 4242 \<and> ce_Comm (decodeConnEvent e) = ''curl''"
proof -
  have "\<not> bit (core_int ex_task_mem 4 4096 [(s_task_struct, [''pid''])] :: u32) 31"
    by (simp add: task_reads(1) ex_task_mem_def upt_rec)
  then have "\<exists>mem task base. ex_task_env = env_of_task mem task base \<and>
      \<not> bit (core_int mem 4 task [(s_task_struct, [''pid''])] :: u32) 31 \<and> (mem = ex_task_mem \<and> task = 4096)"
    unfolding ex_task_env_def by blast
  then have "\<exists>e mem task. ko_events (run_tp (ex_env 5000000 0) (Inet_sock_set_state 8192 2 7) ex_task_state) = ko_events ex_task_state @ [e] \<and>
      (mem = ex_task_mem \<and> task = 4096) \<and>
      ce_Pid (decodeConnEvent e) = le_word (map (\<lambda>i. mem (task + 1508 + of_nat i)) [0..<4]) \<and>
      ce_Comm (decodeConnEvent e) = cString (map (\<lambda>i. mem (task + 1952 + of_nat i)) [0..<15])"
    by (intro identity_from_task_struct [OF ex_task_exec ex_task_closes, where P = "\<lambda>mem task. mem = ex_task_mem \<and> task = 4096"]) simp
  moreover have "le_word (map (\<lambda>i. ex_task_mem (4096 + 1508 + of_nat i)) [0..<4]) = (4242 :: u32)"
    "cString (map (\<lambda>i. ex_task_mem (4096 + 1952 + of_nat i)) [0..<15]) = ''curl''" by code_simp+
  ultimately show ?thesis by metis
qed

end
