(* ===== verification/Core_Macro.thy ===== *)
theory Core_Macro
  imports Core_Read
begin

text \<open>
  The variadic macros of \<^verbatim>\<open>bpf_core_read.h\<close>: counting of arguments, the selectors \<^verbatim>\<open>___last\<close>, \<^verbatim>\<open>___nolast\<close> and \<^verbatim>\<open>___arrow\<close>, and the
  expansion of \<^verbatim>\<open>___core_read\<close> into a sequence of reads through the local \<^verbatim>\<open>__t\<close>, for every reader of the header. Shown: the
  expansion of up to ten accessors, run as statements, chases the pointers as \<open>BPF_CORE_READ_INTO\<close> of \<open>Core_Read\<close> does, and
  longer lists do not expand.
\<close>

subsection \<open>Arguments\<close>

text \<open>The tokens that are passed to \<^verbatim>\<open>___nth\<close>: an argument, a number, the letter N or the underscore. \<open>None\<close> stands for a use that the
  compiler rejects.\<close>

datatype 'a mtoken = Arg 'a | Num nat | TokN | Underscore

definition nth_macro :: "'a list \<Rightarrow> 'a option" where
  "nth_macro xs = (if 12 \<le> length xs then Some (xs ! 11) else None)"

definition narg :: "'a list \<Rightarrow> 'a mtoken option" where
  "narg xs = nth_macro (Underscore # map Arg xs @ map Num [10, 9, 8, 7, 6, 5, 4, 3, 2, 1, 0])"

definition empty_macro :: "'a list \<Rightarrow> 'a mtoken option" where
  "empty_macro xs = nth_macro (Underscore # map Arg xs @ [TokN, TokN, TokN, TokN, TokN, TokN, TokN, TokN, TokN, TokN, Num 0])"

text \<open>\<^verbatim>\<open>___last1\<close> to \<^verbatim>\<open>___last10\<close>, \<^verbatim>\<open>___nolast2\<close> to \<^verbatim>\<open>___nolast10\<close> and \<^verbatim>\<open>___arrow1\<close> to \<^verbatim>\<open>___arrow10\<close>, each a macro of as many arguments as its number
  says. The result of an arrow macro is the chain it spells.\<close>

definition last_macros :: "nat \<Rightarrow> 'a list \<Rightarrow> 'a option" where
  "last_macros k xs = (if 1 \<le> k \<and> k \<le> 10 \<and> length xs = k then Some (xs ! (k - 1)) else None)"

definition nolast_macros :: "nat \<Rightarrow> 'a list \<Rightarrow> 'a list option" where
  "nolast_macros k xs = (if 2 \<le> k \<and> k \<le> 10 \<and> length xs = k then Some (take (k - 1) xs) else None)"

definition arrow_macros :: "nat \<Rightarrow> 'a list \<Rightarrow> 'a list option" where
  "arrow_macros k xs = (if 1 \<le> k \<and> k \<le> 10 \<and> length xs = k then Some xs else None)"

definition apply_macro :: "(nat \<Rightarrow> 'a list \<Rightarrow> 'b option) \<Rightarrow> 'a list \<Rightarrow> 'b option" where
  "apply_macro macros xs = (case narg xs of Some (Num k) \<Rightarrow> macros k xs | _ \<Rightarrow> None)"

subsection \<open>The expansion\<close>

datatype reader =
    Core_read | Core_read_user | Core_read_str | Core_read_user_str
  | Probe_read_kernel | Probe_read_user | Probe_read_kernel_str | Probe_read_user_str

text \<open>The argument \<^verbatim>\<open>src\<close> or an accessor; a statement reads, with a function, into \<^verbatim>\<open>__t\<close> or the destination, from a base that is cast to the
  type of a chain, the accessor behind it.\<close>

datatype marg = MSrc | MAcc "string list"
datatype dest = To_t | To_dst
datatype base = From_src | From_t
datatype stmt = Read reader dest "marg list" base marg

definition rd_first :: "reader \<Rightarrow> marg list \<Rightarrow> stmt list option" where
  "rd_first fn xs = (case xs of [s, a] \<Rightarrow> do { t \<leftarrow> apply_macro arrow_macros [s]; Some [Read fn To_t t From_src a] } | _ \<Rightarrow> None)"

definition rd_last :: "reader \<Rightarrow> marg list \<Rightarrow> stmt list option" where
  "rd_last fn xs =
     do { i \<leftarrow> apply_macro nolast_macros xs; t \<leftarrow> apply_macro arrow_macros i; a \<leftarrow> apply_macro last_macros xs;
          Some [Read fn To_t t From_t a] }"

fun rd_p :: "nat \<Rightarrow> reader \<Rightarrow> marg list \<Rightarrow> stmt list option" where
  "rd_p 0 fn xs = None"
| "rd_p (Suc 0) fn xs = rd_first fn xs"
| "rd_p (Suc (Suc k)) fn xs =
     (if k \<le> 7 then do { i \<leftarrow> apply_macro nolast_macros xs; p \<leftarrow> rd_p (Suc k) fn i; l \<leftarrow> rd_last fn xs; Some (p @ l) }
      else None)"

definition read_ptrs_macro :: "reader \<Rightarrow> marg \<Rightarrow> marg list \<Rightarrow> stmt list option" where
  "read_ptrs_macro fn src xs = (case narg xs of Some (Num k) \<Rightarrow> rd_p k fn (src # xs) | _ \<Rightarrow> None)"

definition core_read0 :: "reader \<Rightarrow> marg \<Rightarrow> marg list \<Rightarrow> stmt list option" where
  "core_read0 fn src xs = (case xs of [a] \<Rightarrow> do { t \<leftarrow> apply_macro arrow_macros [src]; Some [Read fn To_dst t From_src a] } | _ \<Rightarrow> None)"

definition core_readN :: "reader \<Rightarrow> reader \<Rightarrow> marg \<Rightarrow> marg list \<Rightarrow> stmt list option" where
  "core_readN fn fn_ptr src xs =
     do { i \<leftarrow> apply_macro nolast_macros xs; p \<leftarrow> read_ptrs_macro fn_ptr src i; t \<leftarrow> apply_macro arrow_macros (src # i);
          a \<leftarrow> apply_macro last_macros xs; Some (p @ [Read fn To_dst t From_t a]) }"

definition core_read :: "reader \<Rightarrow> reader \<Rightarrow> marg \<Rightarrow> marg \<Rightarrow> marg list \<Rightarrow> stmt list option" where
  "core_read fn fn_ptr src a xs =
     (case empty_macro xs of
        Some (Num 0) \<Rightarrow> core_read0 fn src (a # xs)
      | Some TokN \<Rightarrow> core_readN fn fn_ptr src (a # xs)
      | _ \<Rightarrow> None)"

text \<open>The eight readers into storage of the caller: the function of the last read and that of the inner pointers.\<close>

datatype read_into =
    CORE_READ_INTO | CORE_READ_USER_INTO | PROBE_READ_INTO | PROBE_READ_USER_INTO
  | CORE_READ_STR_INTO | CORE_READ_USER_STR_INTO | PROBE_READ_STR_INTO | PROBE_READ_USER_STR_INTO

fun readers :: "read_into \<Rightarrow> reader \<times> reader" where
  "readers CORE_READ_INTO = (Core_read, Core_read)"
| "readers CORE_READ_USER_INTO = (Core_read_user, Core_read_user)"
| "readers PROBE_READ_INTO = (Probe_read_kernel, Probe_read_kernel)"
| "readers PROBE_READ_USER_INTO = (Probe_read_user, Probe_read_user)"
| "readers CORE_READ_STR_INTO = (Core_read_str, Core_read)"
| "readers CORE_READ_USER_STR_INTO = (Core_read_user_str, Core_read_user)"
| "readers PROBE_READ_STR_INTO = (Probe_read_kernel_str, Probe_read_kernel)"
| "readers PROBE_READ_USER_STR_INTO = (Probe_read_user_str, Probe_read_user)"

definition expand_into :: "read_into \<Rightarrow> string list \<Rightarrow> string list list \<Rightarrow> stmt list option" where
  "expand_into m a as = core_read (fst (readers m)) (snd (readers m)) MSrc (MAcc a) (map MAcc as)"

text \<open>The readers that return the value, \<^verbatim>\<open>BPF_CORE_READ\<close> among them, declare a result of the type of the whole chain first.\<close>

definition expand_value :: "read_into \<Rightarrow> string list \<Rightarrow> string list list \<Rightarrow> (marg list \<times> stmt list) option" where
  "expand_value m a as =
     do { t \<leftarrow> apply_macro arrow_macros (MSrc # MAcc a # map MAcc as); ss \<leftarrow> expand_into m a as; Some (t, ss) }"

subsection \<open>Running the statements\<close>

text \<open>Kernel and user memory; a string read stops at the first NUL and always ends with one.\<close>

definition bpf_probe_read_kernel_str :: "kmem \<Rightarrow> nat \<Rightarrow> u64 \<Rightarrow> bytes" where
  "bpf_probe_read_kernel_str mem sz src =
     (if sz = 0 then [] else takeWhile (\<lambda>b. b \<noteq> 0) (map (\<lambda>i. mem (src + of_nat i)) [0..<sz - 1]) @ [0])"

fun read_fn :: "reader \<Rightarrow> kmem \<times> kmem \<Rightarrow> nat \<Rightarrow> u64 \<Rightarrow> bytes" where
  "read_fn Core_read (k, u) = bpf_probe_read_kernel k"
| "read_fn Probe_read_kernel (k, u) = bpf_probe_read_kernel k"
| "read_fn Core_read_user (k, u) = bpf_probe_read_kernel u"
| "read_fn Probe_read_user (k, u) = bpf_probe_read_kernel u"
| "read_fn Core_read_str (k, u) = bpf_probe_read_kernel_str k"
| "read_fn Probe_read_kernel_str (k, u) = bpf_probe_read_kernel_str k"
| "read_fn Core_read_user_str (k, u) = bpf_probe_read_kernel_str u"
| "read_fn Probe_read_user_str (k, u) = bpf_probe_read_kernel_str u"

text \<open>\<open>ty\<close> gives the record that a chain of accessors behind \<^verbatim>\<open>src\<close> points to: the \<^verbatim>\<open>typeof\<close> of the compiler.\<close>

fun chain_accs :: "marg list \<Rightarrow> string list list option" where
  "chain_accs (MSrc # xs) = Some (List.map_filter (\<lambda>x. case x of MAcc a \<Rightarrow> Some a | MSrc \<Rightarrow> None) xs)"
| "chain_accs _ = None"

definition read1 :: "reader \<Rightarrow> kmem \<times> kmem \<Rightarrow> nat \<Rightarrow> u64 \<Rightarrow> accessor \<Rightarrow> bytes option" where
  "read1 fn mems sz src acc =
     (case offset_of (fst acc) (snd acc) of None \<Rightarrow> None | Some (off, t) \<Rightarrow> Some (read_fn fn mems sz (src + of_int off)))"

fun run_stmts :: "(string list list \<Rightarrow> ctype) \<Rightarrow> kmem \<times> kmem \<Rightarrow> nat \<Rightarrow> u64 \<Rightarrow> stmt list \<Rightarrow> u64 \<Rightarrow> bytes option \<Rightarrow> bytes option" where
  "run_stmts ty mems sz src [] t d = d"
| "run_stmts ty mems sz src (Read fn dst chain b (MAcc a) # ss) t d =
     do { c \<leftarrow> chain_accs chain;
          bs \<leftarrow> read1 fn mems (case dst of To_t \<Rightarrow> 8 | To_dst \<Rightarrow> sz) (case b of From_src \<Rightarrow> src | From_t \<Rightarrow> t) (ty c, a);
          case dst of To_t \<Rightarrow> run_stmts ty mems sz src ss (le_word bs) d | To_dst \<Rightarrow> run_stmts ty mems sz src ss t (Some bs) }"
| "run_stmts ty mems sz src (Read fn dst chain b MSrc # ss) t d = None"

subsection \<open>What the macros expand to\<close>

lemma narg_length: "length xs \<le> 10 \<Longrightarrow> narg xs = Some (Num (length xs))"
proof -
  assume *: "length xs \<le> 10"
  have "[10, 9, 8, 7, 6, 5, 4, 3, 2, 1, 0 :: nat] = rev [0..<11]" by (simp add: upt_rec)
  moreover have "rev [0..<11] ! (10 - length xs) = length xs" using * by (subst rev_nth) auto
  ultimately show ?thesis using * by (simp add: narg_def nth_macro_def nth_append)
qed

lemma narg_long: "10 < length xs \<Longrightarrow> narg xs = Some (Arg (xs ! 10))"
  by (simp add: narg_def nth_macro_def nth_append)

lemma empty_macro_eq: "length xs \<le> 10 \<Longrightarrow> empty_macro xs = Some (if xs = [] then Num 0 else TokN)"
proof -
  assume *: "length xs \<le> 10"
  have "(replicate 10 TokN @ [Num 0]) ! (10 - length xs) = (if xs = [] then Num 0 else TokN :: 'a mtoken)"
    using * by (auto simp: nth_append)
  then show ?thesis using * by (simp add: empty_macro_def nth_macro_def nth_append numeral_eq_Suc)
qed

lemma apply_macros:
  "1 \<le> length xs \<Longrightarrow> length xs \<le> 10 \<Longrightarrow> apply_macro last_macros xs = Some (last xs)"
  "2 \<le> length xs \<Longrightarrow> length xs \<le> 10 \<Longrightarrow> apply_macro nolast_macros xs = Some (butlast xs)"
  "1 \<le> length xs \<Longrightarrow> length xs \<le> 10 \<Longrightarrow> apply_macro arrow_macros xs = Some xs"
  "10 < length xs \<Longrightarrow> apply_macro macros xs = None"
proof -
  assume "1 \<le> length xs" "length xs \<le> 10"
  moreover from this have "xs ! (length xs - 1) = last xs" by (metis last_conv_nth length_0_conv not_one_le_zero)
  ultimately show "apply_macro last_macros xs = Some (last xs)" by (simp add: apply_macro_def narg_length last_macros_def)
qed (simp_all add: apply_macro_def narg_length narg_long nolast_macros_def arrow_macros_def butlast_conv_take)

definition ptr_stmts :: "reader \<Rightarrow> marg list \<Rightarrow> stmt list" where
  "ptr_stmts fn xs = map (\<lambda>i. Read fn To_t (MSrc # take i xs) (if i = 0 then From_src else From_t) (xs ! i)) [0..<length xs]"

lemma ptr_stmts_snoc:
  "xs \<noteq> [] \<Longrightarrow> ptr_stmts fn (xs @ [x]) = ptr_stmts fn xs @ [Read fn To_t (MSrc # xs) From_t x]"
  by (simp add: ptr_stmts_def nth_append)

lemma rd_p_expands:
  "xs \<noteq> [] \<Longrightarrow> length xs \<le> 9 \<Longrightarrow> rd_p (length xs) fn (MSrc # xs) = Some (ptr_stmts fn xs)"
proof (induction xs rule: rev_induct)
  case (snoc x xs)
  show ?case
  proof (cases xs rule: rev_cases)
    case Nil
    then show ?thesis by (simp add: rd_first_def apply_macros ptr_stmts_def)
  next
    case (snoc ys y)
    then obtain k where k: "length xs = Suc k" by simp
    have "apply_macro nolast_macros (MSrc # xs @ [x]) = Some (MSrc # xs)" "apply_macro last_macros (MSrc # xs @ [x]) = Some x"
      using snoc.prems k by (simp_all add: apply_macros butlast_append)
    moreover have "apply_macro arrow_macros (MSrc # xs) = Some (MSrc # xs)" using snoc.prems k by (simp add: apply_macros)
    ultimately show ?thesis
      using snoc.IH snoc.prems k ptr_stmts_snoc [of xs fn x] by (cases xs) (simp_all add: rd_last_def)
  qed
qed simp

lemma core_read_expands:
  assumes "length xs \<le> 9"
  shows "core_read fn fn_ptr MSrc a xs = Some (if xs = [] then [Read fn To_dst [MSrc] From_src a]
     else ptr_stmts fn_ptr (butlast (a # xs)) @ [Read fn To_dst (MSrc # butlast (a # xs)) From_t (last xs)])"
proof (cases "xs = []")
  case False
  then have "1 \<le> length (butlast (a # xs))" "length (butlast (a # xs)) \<le> 9" using assms False by (simp_all add: Suc_le_eq)
  with False assms show ?thesis
    using rd_p_expands [of "butlast (a # xs)" fn_ptr] narg_length [of "butlast (a # xs)"]
    by (auto simp: core_read_def empty_macro_eq core_readN_def read_ptrs_macro_def apply_macros)
qed (simp add: core_read_def empty_macro_eq core_read0_def apply_macros)

subsection \<open>What the expansion reads\<close>

text \<open>The accessors with the records they are applied to, and the pointer chase they stand for.\<close>

definition accessors :: "(string list list \<Rightarrow> ctype) \<Rightarrow> string list list \<Rightarrow> accessor list" where
  "accessors ty as = map (\<lambda>i. (ty (take i as), as ! i)) [0..<length as]"

fun chase_ptrs :: "reader \<Rightarrow> kmem \<times> kmem \<Rightarrow> u64 \<Rightarrow> accessor list \<Rightarrow> u64 option" where
  "chase_ptrs fn mems src [] = Some src"
| "chase_ptrs fn mems src (a # as) = do { t \<leftarrow> read1 fn mems 8 src a; chase_ptrs fn mems (le_word t) as }"

definition chase :: "reader \<Rightarrow> reader \<Rightarrow> kmem \<times> kmem \<Rightarrow> nat \<Rightarrow> u64 \<Rightarrow> accessor list \<Rightarrow> bytes option" where
  "chase fn fn_ptr mems sz src as = do { t \<leftarrow> chase_ptrs fn_ptr mems src (butlast as); read1 fn mems sz t (last as) }"

lemma chase_kernel:
  assumes "fn \<in> {Core_read, Probe_read_kernel}"
  shows "chase fn fn (k, u) sz src as = BPF_CORE_READ_INTO k sz src as"
proof -
  have r: "read1 fn (k, u) n a acc = core_read1 k n a acc" for n a acc
    using assms by (auto simp: read1_def core_read1_def split: option.split)
  have "chase_ptrs fn (k, u) a as = read_ptrs k a as" for a as
    by (induction as arbitrary: a) (simp_all add: r)
  then show ?thesis by (simp add: chase_def BPF_CORE_READ_INTO_def r)
qed

lemma map_filter_MAcc [simp]: "List.map_filter (case_marg None Some) (map MAcc as) = as"
  by (induction as) (simp_all add: List.map_filter_def)

lemma chain_accs_map [simp]: "chain_accs (MSrc # map MAcc as) = Some as"
  by simp

lemma run_ptr_stmts:
  assumes "as \<noteq> []" "j \<le> length as"
  shows "run_stmts ty mems sz src
      (map (\<lambda>i. Read fn To_t (MSrc # take i (map MAcc as)) (if i = 0 then From_src else From_t) (map MAcc as ! i)) [j..<length as] @ ss) t d =
    do { t' \<leftarrow> chase_ptrs fn mems (if j = 0 then src else t) (drop j (accessors ty as)); run_stmts ty mems sz src ss t' d }"
  using assms(2)
proof (induction "length as - j" arbitrary: j t)
  case 0
  with assms(1) show ?case by (auto simp: accessors_def)
next
  case (Suc n)
  then have j: "j < length as" "n = length as - Suc j" by simp_all
  have d: "drop j (accessors ty as) = (ty (take j as), as ! j) # drop (Suc j) (accessors ty as)"
    using j(1) by (simp add: accessors_def Cons_nth_drop_Suc [symmetric])
  show ?case
    unfolding d using j Suc.hyps(1) [OF j(2) Suc_leI [OF j(1)]] by (cases "j = 0") (simp_all add: upt_conv_Cons take_map)
qed

lemma expand_into_chases:
  assumes "length as < 10"
  shows "\<exists>ss. expand_into m a as = Some ss \<and> length ss = Suc (length as) \<and>
     (\<forall>ty mems sz src t. run_stmts ty mems sz src ss t None =
        chase (fst (readers m)) (snd (readers m)) mems sz src (accessors ty (a # as)))"
proof (cases "as = []")
  case True
  have "run_stmts ty mems sz src [Read fn To_dst [MSrc] From_src (MAcc a)] t None = read1 fn mems sz src (ty [], a)" for fn ty mems sz src t
    using chain_accs_map [of "[]"] by (simp add: bind_eq_Some_conv split: option.split) 
  then show ?thesis using core_read_expands [of "[]"]
    by (auto simp: expand_into_def True chase_def accessors_def)
next
  case False
  let ?bs = "butlast (a # as)" and ?f = "fst (readers m)" and ?g = "snd (readers m)"
  have b: "?bs \<noteq> []" "map MAcc ?bs = butlast (MAcc a # map MAcc as)" "last (map MAcc as) = MAcc (last as)"
    using False by (simp_all add: map_butlast last_map)
  have l: "accessors ty (a # as) = accessors ty ?bs @ [(ty ?bs, last as)]" for ty
    using False by (intro nth_equalityI) (auto simp: accessors_def nth_append butlast_conv_take last_conv_nth less_Suc_eq min_def)
  have e: "expand_into m a as = Some (ptr_stmts ?g (map MAcc ?bs) @ [Read ?f To_dst (MSrc # map MAcc ?bs) From_t (MAcc (last as))])"
    using core_read_expands [of "map MAcc as" ?f ?g "MAcc a"] assms False by (simp add: expand_into_def b(3) map_butlast)
  have "run_stmts ty mems sz src (ptr_stmts ?g (map MAcc ?bs) @ [Read ?f To_dst (MSrc # map MAcc ?bs) From_t (MAcc (last as))]) t None =
      chase ?f ?g mems sz src (accessors ty (a # as))" for ty mems sz src t
    using run_ptr_stmts [OF b(1), of 0] unfolding ptr_stmts_def by (simp add: l chase_def del: butlast.simps)
  moreover have "length (ptr_stmts ?g (map MAcc ?bs)) = length as" by (simp add: ptr_stmts_def)
  ultimately show ?thesis unfolding e by simp
qed

lemma expand_into_long: "10 \<le> length as \<Longrightarrow> expand_into m a as = None"
  by (cases "length as = 10")
    (simp_all add: expand_into_def core_read_def empty_macro_eq core_readN_def apply_macros,
     auto simp: empty_macro_def nth_macro_def nth_append)



end
