(* ===== verification/Core_Bitfield.thy ===== *)
theory Core_Bitfield
  imports Core_Read
begin

text \<open>
  The bit-field readers of \<^verbatim>\<open>bpf_core_read.h\<close> on a little-endian target. The values of \<^verbatim>\<open>__builtin_preserve_field_info\<close>, which the loader
  fills in for the running kernel, are a parameter; \<open>relo_of\<close> states what the loader promises of them for a
  bit-field at a position. Shown: both readers return the bits of the field, extended by its sign if it has one.
\<close>

text \<open>The relocated values of a field, as \<^verbatim>\<open>enum bpf_field_info_kind\<close> lists them.\<close>

record field_info =
  fi_byte_offset :: nat
  fi_byte_size :: nat
  fi_signed :: bool
  fi_lshift_u64 :: nat
  fi_rshift_u64 :: nat

text \<open>\<^verbatim>\<open>val <<= LSHIFT\<close>, then an arithmetic or a logical shift to the right.\<close>

definition extract_bits :: "field_info \<Rightarrow> u64 \<Rightarrow> u64" where
  "extract_bits f val =
     (let v = push_bit (fi_lshift_u64 f) val
      in if fi_signed f then signed_drop_bit (fi_rshift_u64 f) v else drop_bit (fi_rshift_u64 f) v)"

text \<open>\<^verbatim>\<open>__CORE_BITFIELD_PROBE_READ\<close> overwrites the low bytes of the zero \<^verbatim>\<open>val\<close>.\<close>

definition core_bitfield_probe_read :: "kmem \<Rightarrow> u64 \<Rightarrow> field_info \<Rightarrow> u64" where
  "core_bitfield_probe_read mem s f =
     (let bs = bpf_probe_read_kernel mem (fi_byte_size f) (s + of_nat (fi_byte_offset f))
      in le_word (bs @ drop (length bs) (le_bytes 8 (0 :: u64))))"

definition BPF_CORE_READ_BITFIELD_PROBED :: "kmem \<Rightarrow> u64 \<Rightarrow> field_info \<Rightarrow> u64" where
  "BPF_CORE_READ_BITFIELD_PROBED mem s f = extract_bits f (core_bitfield_probe_read mem s f)"

text \<open>The direct reader loads an unsigned integer of the size of the storage; for another size \<^verbatim>\<open>val\<close> is not initialised.\<close>

definition load_uint :: "kmem \<Rightarrow> nat \<Rightarrow> u64 \<Rightarrow> 'a::len word" where
  "load_uint mem n p = le_word (map (\<lambda>i. mem (p + of_nat i)) [0..<n])"

definition BPF_CORE_READ_BITFIELD :: "kmem \<Rightarrow> u64 \<Rightarrow> field_info \<Rightarrow> u64 option" where
  "BPF_CORE_READ_BITFIELD mem s f =
     (let p = s + of_nat (fi_byte_offset f) in
      map_option (extract_bits f)
        (if fi_byte_size f = 1 then Some (ucast (load_uint mem 1 p :: u8))
         else if fi_byte_size f = 2 then Some (ucast (load_uint mem 2 p :: u16))
         else if fi_byte_size f = 4 then Some (ucast (load_uint mem 4 p :: u32))
         else if fi_byte_size f = 8 then Some (load_uint mem 8 p)
         else None))"

text \<open>What the loader promises for a field of \<open>w\<close> bits at bit \<open>p\<close> of its record: storage of an integer size that holds the field, and
  shifts that move its top bit to bit 63 and its low bit to bit 0.\<close>

definition relo_of :: "nat \<Rightarrow> nat \<Rightarrow> field_info \<Rightarrow> bool" where
  "relo_of p w f \<longleftrightarrow> 0 < w \<and> fi_byte_size f \<in> {1, 2, 4, 8} \<and> 8 * fi_byte_offset f \<le> p \<and>
     p + w \<le> 8 * (fi_byte_offset f + fi_byte_size f) \<and>
     fi_lshift_u64 f = 64 - (p - 8 * fi_byte_offset f + w) \<and> fi_rshift_u64 f = 64 - w"

definition mem_bit :: "kmem \<Rightarrow> u64 \<Rightarrow> nat \<Rightarrow> bool" where
  "mem_bit mem s n = bit (mem (s + of_nat (n div 8))) (n mod 8)"

lemma bit_load_uint:
  "bit (load_uint mem n p :: 'a::len word) i \<longleftrightarrow> i < LENGTH('a) \<and> i div 8 < n \<and> bit (mem (p + of_nat (i div 8))) (i mod 8)"
  by (auto simp: load_uint_def bit_le_word)

lemma bit_extract:
  assumes "relo_of p w f" and "i < 64"
    and val: "\<And>j. bit val j \<longleftrightarrow> j < 8 * fi_byte_size f \<and> mem_bit mem (s + of_nat (fi_byte_offset f)) j"
  shows "bit (extract_bits f val) i \<longleftrightarrow> (if i < w then mem_bit mem s (p + i) else fi_signed f \<and> mem_bit mem s (p + w - 1))"
proof -
  define d where "d = p - 8 * fi_byte_offset f"
  have p: "p = 8 * fi_byte_offset f + d" and w: "0 < w" "d + w \<le> 8 * fi_byte_size f" "fi_byte_size f \<le> 8"
    and sh: "fi_lshift_u64 f = 64 - (d + w)" "fi_rshift_u64 f = 64 - w"
    using assms(1) by (auto simp: relo_of_def d_def)
  have m: "mem_bit mem s (p + j) = mem_bit mem (s + of_nat (fi_byte_offset f)) (d + j)" for j
    by (simp add: mem_bit_def p add.assoc)
  have v: "bit (push_bit (fi_lshift_u64 f) val) (64 - w + j) \<longleftrightarrow> mem_bit mem s (p + j)" if "j < w" for j
  proof -
    have "64 - w + j - (64 - (d + w)) = d + j" "64 - (d + w) \<le> 64 - w + j" "64 - w + j < 64" "d + j < 8 * fi_byte_size f"
      using that w by linarith+
    then show ?thesis by (simp only: bit_push_bit_iff sh val m) simp
  qed
  have "\<not> bit x (64 + i - w)" if "\<not> i < w" for x :: u64
    using that bit_imp_le_length [of x "64 + i - w"] by auto
  then show ?thesis
    using v [of i] v [of "w - 1"] w assms(2)
    by (auto simp: extract_bits_def Let_def sh bit_signed_drop_bit_iff bit_drop_bit_eq)
qed

lemma bit_probe_read:
  assumes "fi_byte_size f \<le> 8"
  shows "bit (core_bitfield_probe_read mem s f) j \<longleftrightarrow> j < 8 * fi_byte_size f \<and> mem_bit mem (s + of_nat (fi_byte_offset f)) j"
  using assms by (auto simp: core_bitfield_probe_read_def Let_def bit_le_word mem_bit_def bpf_probe_read_kernel_def nth_append
      div_less_iff_less_mult nth_le_bytes simp del: le_bytes.simps)

lemma load_probe_read:
  assumes "LENGTH('b::len) = 8 * fi_byte_size f" and "fi_byte_size f \<le> 8"
  shows "ucast (load_uint mem (fi_byte_size f) (s + of_nat (fi_byte_offset f)) :: 'b word) = core_bitfield_probe_read mem s f"
  using assms
  by (intro bit_word_eqI) (auto simp: bit_ucast_iff bit_load_uint bit_probe_read mem_bit_def div_less_iff_less_mult)

text \<open>Both bit-field readers return the bit-field. When the loader fills in the shifts for a field of \<open>w\<close> bits at bit \<open>p\<close> of the record, bit \<open>i\<close> of the result
  is bit \<open>p + i\<close> of the record for \<open>i < w\<close>; the bits above are zero or, for a signed field, copies of its top bit.\<close>

theorem bitfield_readers_exact:
  assumes "relo_of p w f"
  shows "BPF_CORE_READ_BITFIELD mem s f = Some (BPF_CORE_READ_BITFIELD_PROBED mem s f) \<and>
    (\<forall>i<64. bit (BPF_CORE_READ_BITFIELD_PROBED mem s f) i \<longleftrightarrow>
       (if i < w then mem_bit mem s (p + i) else fi_signed f \<and> mem_bit mem s (p + w - 1)))"
proof -
  have sz: "fi_byte_size f \<in> {1, 2, 4, 8}" using assms by (simp add: relo_of_def)
  then have "BPF_CORE_READ_BITFIELD mem s f = Some (BPF_CORE_READ_BITFIELD_PROBED mem s f)"
    using load_probe_read [where 'b = 8, of f] load_probe_read [where 'b = 16, of f] load_probe_read [where 'b = 32, of f]
      load_probe_read [where 'b = 64, of f]
    by (auto simp: BPF_CORE_READ_BITFIELD_def BPF_CORE_READ_BITFIELD_PROBED_def Let_def)
  moreover have "\<forall>i<64. bit (BPF_CORE_READ_BITFIELD_PROBED mem s f) i \<longleftrightarrow>
       (if i < w then mem_bit mem s (p + i) else fi_signed f \<and> mem_bit mem s (p + w - 1))"
    unfolding BPF_CORE_READ_BITFIELD_PROBED_def using bit_extract [OF assms] bit_probe_read [of f] sz by auto
  ultimately show ?thesis by blast
qed

text \<open>\<^verbatim>\<open>skc_reuse\<close> of \<^verbatim>\<open>struct sock_common\<close>: four bits at bit 152, in the byte after \<^verbatim>\<open>skc_state\<close>.\<close>

definition ex_reuse :: field_info where
  "ex_reuse = \<lparr>fi_byte_offset = 19, fi_byte_size = 1, fi_signed = False, fi_lshift_u64 = 60, fi_rshift_u64 = 60\<rparr>"

theorem bitfield_readers_exact_witness:
  "(case s_sock_common of Struct fs \<Rightarrow> (152, 4) \<in> set (placed 0 fs) | _ \<Rightarrow> False) \<and>
   BPF_CORE_READ_BITFIELD (\<lambda>a. if a = 19 then 0xa5 else 0) 0 ex_reuse = Some 5"
proof -
  have "relo_of 152 4 ex_reuse" by (simp add: relo_of_def ex_reuse_def)
  from bitfield_readers_exact [OF this, of "\<lambda>a. if a = 19 then 0xa5 else 0" 0]
  have "BPF_CORE_READ_BITFIELD (\<lambda>a. if a = 19 then 0xa5 else 0) 0 ex_reuse =
      Some (BPF_CORE_READ_BITFIELD_PROBED (\<lambda>a. if a = 19 then 0xa5 else 0) 0 ex_reuse)" by blast
  moreover have "BPF_CORE_READ_BITFIELD_PROBED (\<lambda>a. if a = 19 then 0xa5 else 0) 0 ex_reuse = 5" by code_simp
  moreover have "case s_sock_common of Struct fs \<Rightarrow> (152, 4) \<in> set (placed 0 fs) | _ \<Rightarrow> False" by code_simp
  ultimately show ?thesis by simp
qed

end
