(* ===== verification/Bpf_Proto.thy ===== *)
theory Bpf_Proto
  imports Ko_Prelude
begin

text \<open>
  The call interface between the eBPF programs and the kernel: the helper prototypes of
  \<^verbatim>\<open>bpf_helper_defs.h\<close>, by which a call is a jump to a helper number, and the enumerations of
  \<^verbatim>\<open>vmlinux.h\<close> that the programs rely on (helper numbers, map types, update flags, TCP states, IP
  protocols). The theorems show that the numbers are those of the kernel's enumeration and
  that every helper takes at most the five arguments of the BPF calling convention.
\<close>

record helper =
  h_id :: int
  h_name :: string
  h_ret :: string
  h_args :: "string list"
  h_variadic :: bool

definition proto :: "int \<Rightarrow> string \<Rightarrow> string \<Rightarrow> string list \<Rightarrow> bool \<Rightarrow> helper" where
  "proto i n r as v = \<lparr>h_id = i, h_name = n, h_ret = r, h_args = as, h_variadic = v\<rparr>"

subsection \<open>Helper prototypes\<close>

definition helpers_1_7 :: "helper list" where
  "helpers_1_7 = [
     proto 1 ''bpf_map_lookup_elem'' ''void *'' [''void *'', ''const void *''] False,
     proto 2 ''bpf_map_update_elem'' ''long'' [''void *'', ''const void *'', ''const void *'', ''__u64''] False,
     proto 3 ''bpf_map_delete_elem'' ''long'' [''void *'', ''const void *''] False,
     proto 4 ''bpf_probe_read'' ''long'' [''void *'', ''__u32'', ''const void *''] False,
     proto 5 ''bpf_ktime_get_ns'' ''__u64'' [] False,
     proto 6 ''bpf_trace_printk'' ''long'' [''const char *'', ''__u32''] True,
     proto 7 ''bpf_get_prandom_u32'' ''__u32'' [] False]"

definition helpers_8_12 :: "helper list" where
  "helpers_8_12 = [
     proto 8 ''bpf_get_smp_processor_id'' ''__u32'' [] False,
     proto 9 ''bpf_skb_store_bytes'' ''long'' [''struct __sk_buff *'', ''__u32'', ''const void *'', ''__u32'', ''__u64''] False,
     proto 10 ''bpf_l3_csum_replace'' ''long'' [''struct __sk_buff *'', ''__u32'', ''__u64'', ''__u64'', ''__u64''] False,
     proto 11 ''bpf_l4_csum_replace'' ''long'' [''struct __sk_buff *'', ''__u32'', ''__u64'', ''__u64'', ''__u64''] False,
     proto 12 ''bpf_tail_call'' ''long'' [''void *'', ''void *'', ''__u32''] False]"

definition helpers_13_19 :: "helper list" where
  "helpers_13_19 = [
     proto 13 ''bpf_clone_redirect'' ''long'' [''struct __sk_buff *'', ''__u32'', ''__u64''] False,
     proto 14 ''bpf_get_current_pid_tgid'' ''__u64'' [] False,
     proto 15 ''bpf_get_current_uid_gid'' ''__u64'' [] False,
     proto 16 ''bpf_get_current_comm'' ''long'' [''void *'', ''__u32''] False,
     proto 17 ''bpf_get_cgroup_classid'' ''__u32'' [''struct __sk_buff *''] False,
     proto 18 ''bpf_skb_vlan_push'' ''long'' [''struct __sk_buff *'', ''__be16'', ''__u16''] False,
     proto 19 ''bpf_skb_vlan_pop'' ''long'' [''struct __sk_buff *''] False]"

definition helpers_20_22 :: "helper list" where
  "helpers_20_22 = [
     proto 20 ''bpf_skb_get_tunnel_key'' ''long'' [''struct __sk_buff *'', ''struct bpf_tunnel_key *'', ''__u32'', ''__u64''] False,
     proto 21 ''bpf_skb_set_tunnel_key'' ''long'' [''struct __sk_buff *'', ''struct bpf_tunnel_key *'', ''__u32'', ''__u64''] False,
     proto 22 ''bpf_perf_event_read'' ''__u64'' [''void *'', ''__u64''] False]"

definition helpers_23_26 :: "helper list" where
  "helpers_23_26 = [
     proto 23 ''bpf_redirect'' ''long'' [''__u32'', ''__u64''] False,
     proto 24 ''bpf_get_route_realm'' ''__u32'' [''struct __sk_buff *''] False,
     proto 25 ''bpf_perf_event_output'' ''long'' [''void *'', ''void *'', ''__u64'', ''void *'', ''__u64''] False,
     proto 26 ''bpf_skb_load_bytes'' ''long'' [''const void *'', ''__u32'', ''void *'', ''__u32''] False]"

definition helpers_27_31 :: "helper list" where
  "helpers_27_31 = [
     proto 27 ''bpf_get_stackid'' ''long'' [''void *'', ''void *'', ''__u64''] False,
     proto 28 ''bpf_csum_diff'' ''__s64'' [''__be32 *'', ''__u32'', ''__be32 *'', ''__u32'', ''__wsum''] False,
     proto 29 ''bpf_skb_get_tunnel_opt'' ''long'' [''struct __sk_buff *'', ''void *'', ''__u32''] False,
     proto 30 ''bpf_skb_set_tunnel_opt'' ''long'' [''struct __sk_buff *'', ''void *'', ''__u32''] False,
     proto 31 ''bpf_skb_change_proto'' ''long'' [''struct __sk_buff *'', ''__be16'', ''__u64''] False]"

definition helpers_32_38 :: "helper list" where
  "helpers_32_38 = [
     proto 32 ''bpf_skb_change_type'' ''long'' [''struct __sk_buff *'', ''__u32''] False,
     proto 33 ''bpf_skb_under_cgroup'' ''long'' [''struct __sk_buff *'', ''void *'', ''__u32''] False,
     proto 34 ''bpf_get_hash_recalc'' ''__u32'' [''struct __sk_buff *''] False,
     proto 35 ''bpf_get_current_task'' ''__u64'' [] False,
     proto 36 ''bpf_probe_write_user'' ''long'' [''void *'', ''const void *'', ''__u32''] False,
     proto 37 ''bpf_current_task_under_cgroup'' ''long'' [''void *'', ''__u32''] False,
     proto 38 ''bpf_skb_change_tail'' ''long'' [''struct __sk_buff *'', ''__u32'', ''__u64''] False]"

definition helpers_39_45 :: "helper list" where
  "helpers_39_45 = [
     proto 39 ''bpf_skb_pull_data'' ''long'' [''struct __sk_buff *'', ''__u32''] False,
     proto 40 ''bpf_csum_update'' ''__s64'' [''struct __sk_buff *'', ''__wsum''] False,
     proto 41 ''bpf_set_hash_invalid'' ''void'' [''struct __sk_buff *''] False,
     proto 42 ''bpf_get_numa_node_id'' ''long'' [] False,
     proto 43 ''bpf_skb_change_head'' ''long'' [''struct __sk_buff *'', ''__u32'', ''__u64''] False,
     proto 44 ''bpf_xdp_adjust_head'' ''long'' [''struct xdp_md *'', ''int''] False,
     proto 45 ''bpf_probe_read_str'' ''long'' [''void *'', ''__u32'', ''const void *''] False]"

definition helpers_46_50 :: "helper list" where
  "helpers_46_50 = [
     proto 46 ''bpf_get_socket_cookie'' ''__u64'' [''void *''] False,
     proto 47 ''bpf_get_socket_uid'' ''__u32'' [''struct __sk_buff *''] False,
     proto 48 ''bpf_set_hash'' ''long'' [''struct __sk_buff *'', ''__u32''] False,
     proto 49 ''bpf_setsockopt'' ''long'' [''void *'', ''int'', ''int'', ''void *'', ''int''] False,
     proto 50 ''bpf_skb_adjust_room'' ''long'' [''struct __sk_buff *'', ''__s32'', ''__u32'', ''__u64''] False]"

definition helpers_51_54 :: "helper list" where
  "helpers_51_54 = [
     proto 51 ''bpf_redirect_map'' ''long'' [''void *'', ''__u64'', ''__u64''] False,
     proto 52 ''bpf_sk_redirect_map'' ''long'' [''struct __sk_buff *'', ''void *'', ''__u32'', ''__u64''] False,
     proto 53 ''bpf_sock_map_update'' ''long'' [''struct bpf_sock_ops *'', ''void *'', ''void *'', ''__u64''] False,
     proto 54 ''bpf_xdp_adjust_meta'' ''long'' [''struct xdp_md *'', ''int''] False]"

definition helpers_55_58 :: "helper list" where
  "helpers_55_58 = [
     proto 55 ''bpf_perf_event_read_value'' ''long'' [''void *'', ''__u64'', ''struct bpf_perf_event_value *'', ''__u32''] False,
     proto 56 ''bpf_perf_prog_read_value'' ''long'' [''struct bpf_perf_event_data *'', ''struct bpf_perf_event_value *'', ''__u32''] False,
     proto 57 ''bpf_getsockopt'' ''long'' [''void *'', ''int'', ''int'', ''void *'', ''int''] False,
     proto 58 ''bpf_override_return'' ''long'' [''struct pt_regs *'', ''__u64''] False]"

definition helpers_59_62 :: "helper list" where
  "helpers_59_62 = [
     proto 59 ''bpf_sock_ops_cb_flags_set'' ''long'' [''struct bpf_sock_ops *'', ''int''] False,
     proto 60 ''bpf_msg_redirect_map'' ''long'' [''struct sk_msg_md *'', ''void *'', ''__u32'', ''__u64''] False,
     proto 61 ''bpf_msg_apply_bytes'' ''long'' [''struct sk_msg_md *'', ''__u32''] False,
     proto 62 ''bpf_msg_cork_bytes'' ''long'' [''struct sk_msg_md *'', ''__u32''] False]"

definition helpers_63_67 :: "helper list" where
  "helpers_63_67 = [
     proto 63 ''bpf_msg_pull_data'' ''long'' [''struct sk_msg_md *'', ''__u32'', ''__u32'', ''__u64''] False,
     proto 64 ''bpf_bind'' ''long'' [''struct bpf_sock_addr *'', ''struct sockaddr *'', ''int''] False,
     proto 65 ''bpf_xdp_adjust_tail'' ''long'' [''struct xdp_md *'', ''int''] False,
     proto 66 ''bpf_skb_get_xfrm_state'' ''long'' [''struct __sk_buff *'', ''__u32'', ''struct bpf_xfrm_state *'', ''__u32'', ''__u64''] False,
     proto 67 ''bpf_get_stack'' ''long'' [''void *'', ''void *'', ''__u32'', ''__u64''] False]"

definition helpers_68_72 :: "helper list" where
  "helpers_68_72 = [
     proto 68 ''bpf_skb_load_bytes_relative'' ''long'' [''const void *'', ''__u32'', ''void *'', ''__u32'', ''__u32''] False,
     proto 69 ''bpf_fib_lookup'' ''long'' [''void *'', ''struct bpf_fib_lookup *'', ''int'', ''__u32''] False,
     proto 70 ''bpf_sock_hash_update'' ''long'' [''struct bpf_sock_ops *'', ''void *'', ''void *'', ''__u64''] False,
     proto 71 ''bpf_msg_redirect_hash'' ''long'' [''struct sk_msg_md *'', ''void *'', ''void *'', ''__u64''] False,
     proto 72 ''bpf_sk_redirect_hash'' ''long'' [''struct __sk_buff *'', ''void *'', ''void *'', ''__u64''] False]"

definition helpers_73_77 :: "helper list" where
  "helpers_73_77 = [
     proto 73 ''bpf_lwt_push_encap'' ''long'' [''struct __sk_buff *'', ''__u32'', ''void *'', ''__u32''] False,
     proto 74 ''bpf_lwt_seg6_store_bytes'' ''long'' [''struct __sk_buff *'', ''__u32'', ''const void *'', ''__u32''] False,
     proto 75 ''bpf_lwt_seg6_adjust_srh'' ''long'' [''struct __sk_buff *'', ''__u32'', ''__s32''] False,
     proto 76 ''bpf_lwt_seg6_action'' ''long'' [''struct __sk_buff *'', ''__u32'', ''void *'', ''__u32''] False,
     proto 77 ''bpf_rc_repeat'' ''long'' [''void *''] False]"

definition helpers_78_83 :: "helper list" where
  "helpers_78_83 = [
     proto 78 ''bpf_rc_keydown'' ''long'' [''void *'', ''__u32'', ''__u64'', ''__u32''] False,
     proto 79 ''bpf_skb_cgroup_id'' ''__u64'' [''struct __sk_buff *''] False,
     proto 80 ''bpf_get_current_cgroup_id'' ''__u64'' [] False,
     proto 81 ''bpf_get_local_storage'' ''void *'' [''void *'', ''__u64''] False,
     proto 82 ''bpf_sk_select_reuseport'' ''long'' [''struct sk_reuseport_md *'', ''void *'', ''void *'', ''__u64''] False,
     proto 83 ''bpf_skb_ancestor_cgroup_id'' ''__u64'' [''struct __sk_buff *'', ''int''] False]"

definition helpers_84_90 :: "helper list" where
  "helpers_84_90 = [
     proto 84 ''bpf_sk_lookup_tcp'' ''struct bpf_sock *'' [''void *'', ''struct bpf_sock_tuple *'', ''__u32'', ''__u64'', ''__u64''] False,
     proto 85 ''bpf_sk_lookup_udp'' ''struct bpf_sock *'' [''void *'', ''struct bpf_sock_tuple *'', ''__u32'', ''__u64'', ''__u64''] False,
     proto 86 ''bpf_sk_release'' ''long'' [''void *''] False,
     proto 87 ''bpf_map_push_elem'' ''long'' [''void *'', ''const void *'', ''__u64''] False,
     proto 88 ''bpf_map_pop_elem'' ''long'' [''void *'', ''void *''] False,
     proto 89 ''bpf_map_peek_elem'' ''long'' [''void *'', ''void *''] False,
     proto 90 ''bpf_msg_push_data'' ''long'' [''struct sk_msg_md *'', ''__u32'', ''__u32'', ''__u64''] False]"

definition helpers_91_98 :: "helper list" where
  "helpers_91_98 = [
     proto 91 ''bpf_msg_pop_data'' ''long'' [''struct sk_msg_md *'', ''__u32'', ''__u32'', ''__u64''] False,
     proto 92 ''bpf_rc_pointer_rel'' ''long'' [''void *'', ''__s32'', ''__s32''] False,
     proto 93 ''bpf_spin_lock'' ''long'' [''struct bpf_spin_lock *''] False,
     proto 94 ''bpf_spin_unlock'' ''long'' [''struct bpf_spin_lock *''] False,
     proto 95 ''bpf_sk_fullsock'' ''struct bpf_sock *'' [''struct bpf_sock *''] False,
     proto 96 ''bpf_tcp_sock'' ''struct bpf_tcp_sock *'' [''struct bpf_sock *''] False,
     proto 97 ''bpf_skb_ecn_set_ce'' ''long'' [''struct __sk_buff *''] False,
     proto 98 ''bpf_get_listener_sock'' ''struct bpf_sock *'' [''struct bpf_sock *''] False]"

definition helpers_99_104 :: "helper list" where
  "helpers_99_104 = [
     proto 99 ''bpf_skc_lookup_tcp'' ''struct bpf_sock *'' [''void *'', ''struct bpf_sock_tuple *'', ''__u32'', ''__u64'', ''__u64''] False,
     proto 100 ''bpf_tcp_check_syncookie'' ''long'' [''void *'', ''void *'', ''__u32'', ''struct tcphdr *'', ''__u32''] False,
     proto 101 ''bpf_sysctl_get_name'' ''long'' [''struct bpf_sysctl *'', ''char *'', ''unsigned long'', ''__u64''] False,
     proto 102 ''bpf_sysctl_get_current_value'' ''long'' [''struct bpf_sysctl *'', ''char *'', ''unsigned long''] False,
     proto 103 ''bpf_sysctl_get_new_value'' ''long'' [''struct bpf_sysctl *'', ''char *'', ''unsigned long''] False,
     proto 104 ''bpf_sysctl_set_new_value'' ''long'' [''struct bpf_sysctl *'', ''const char *'', ''unsigned long''] False]"

definition helpers_105_109 :: "helper list" where
  "helpers_105_109 = [
     proto 105 ''bpf_strtol'' ''long'' [''const char *'', ''unsigned long'', ''__u64'', ''long *''] False,
     proto 106 ''bpf_strtoul'' ''long'' [''const char *'', ''unsigned long'', ''__u64'', ''unsigned long *''] False,
     proto 107 ''bpf_sk_storage_get'' ''void *'' [''void *'', ''void *'', ''void *'', ''__u64''] False,
     proto 108 ''bpf_sk_storage_delete'' ''long'' [''void *'', ''void *''] False,
     proto 109 ''bpf_send_signal'' ''long'' [''__u32''] False]"

definition helpers_110_115 :: "helper list" where
  "helpers_110_115 = [
     proto 110 ''bpf_tcp_gen_syncookie'' ''__s64'' [''void *'', ''void *'', ''__u32'', ''struct tcphdr *'', ''__u32''] False,
     proto 111 ''bpf_skb_output'' ''long'' [''void *'', ''void *'', ''__u64'', ''void *'', ''__u64''] False,
     proto 112 ''bpf_probe_read_user'' ''long'' [''void *'', ''__u32'', ''const void *''] False,
     proto 113 ''bpf_probe_read_kernel'' ''long'' [''void *'', ''__u32'', ''const void *''] False,
     proto 114 ''bpf_probe_read_user_str'' ''long'' [''void *'', ''__u32'', ''const void *''] False,
     proto 115 ''bpf_probe_read_kernel_str'' ''long'' [''void *'', ''__u32'', ''const void *''] False]"

definition helpers_116_123 :: "helper list" where
  "helpers_116_123 = [
     proto 116 ''bpf_tcp_send_ack'' ''long'' [''void *'', ''__u32''] False,
     proto 117 ''bpf_send_signal_thread'' ''long'' [''__u32''] False,
     proto 118 ''bpf_jiffies64'' ''__u64'' [] False,
     proto 119 ''bpf_read_branch_records'' ''long'' [''struct bpf_perf_event_data *'', ''void *'', ''__u32'', ''__u64''] False,
     proto 120 ''bpf_get_ns_current_pid_tgid'' ''long'' [''__u64'', ''__u64'', ''struct bpf_pidns_info *'', ''__u32''] False,
     proto 121 ''bpf_xdp_output'' ''long'' [''void *'', ''void *'', ''__u64'', ''void *'', ''__u64''] False,
     proto 122 ''bpf_get_netns_cookie'' ''__u64'' [''void *''] False,
     proto 123 ''bpf_get_current_ancestor_cgroup_id'' ''__u64'' [''int''] False]"

definition helpers_124_129 :: "helper list" where
  "helpers_124_129 = [
     proto 124 ''bpf_sk_assign'' ''long'' [''void *'', ''void *'', ''__u64''] False,
     proto 125 ''bpf_ktime_get_boot_ns'' ''__u64'' [] False,
     proto 126 ''bpf_seq_printf'' ''long'' [''struct seq_file *'', ''const char *'', ''__u32'', ''const void *'', ''__u32''] False,
     proto 127 ''bpf_seq_write'' ''long'' [''struct seq_file *'', ''const void *'', ''__u32''] False,
     proto 128 ''bpf_sk_cgroup_id'' ''__u64'' [''void *''] False,
     proto 129 ''bpf_sk_ancestor_cgroup_id'' ''__u64'' [''void *'', ''int''] False]"

definition helpers_130_137 :: "helper list" where
  "helpers_130_137 = [
     proto 130 ''bpf_ringbuf_output'' ''long'' [''void *'', ''void *'', ''__u64'', ''__u64''] False,
     proto 131 ''bpf_ringbuf_reserve'' ''void *'' [''void *'', ''__u64'', ''__u64''] False,
     proto 132 ''bpf_ringbuf_submit'' ''void'' [''void *'', ''__u64''] False,
     proto 133 ''bpf_ringbuf_discard'' ''void'' [''void *'', ''__u64''] False,
     proto 134 ''bpf_ringbuf_query'' ''__u64'' [''void *'', ''__u64''] False,
     proto 135 ''bpf_csum_level'' ''long'' [''struct __sk_buff *'', ''__u64''] False,
     proto 136 ''bpf_skc_to_tcp6_sock'' ''struct tcp6_sock *'' [''void *''] False,
     proto 137 ''bpf_skc_to_tcp_sock'' ''struct tcp_sock *'' [''void *''] False]"

definition helpers_138_142 :: "helper list" where
  "helpers_138_142 = [
     proto 138 ''bpf_skc_to_tcp_timewait_sock'' ''struct tcp_timewait_sock *'' [''void *''] False,
     proto 139 ''bpf_skc_to_tcp_request_sock'' ''struct tcp_request_sock *'' [''void *''] False,
     proto 140 ''bpf_skc_to_udp6_sock'' ''struct udp6_sock *'' [''void *''] False,
     proto 141 ''bpf_get_task_stack'' ''long'' [''struct task_struct *'', ''void *'', ''__u32'', ''__u64''] False,
     proto 142 ''bpf_load_hdr_opt'' ''long'' [''struct bpf_sock_ops *'', ''void *'', ''__u32'', ''__u64''] False]"

definition helpers_143_148 :: "helper list" where
  "helpers_143_148 = [
     proto 143 ''bpf_store_hdr_opt'' ''long'' [''struct bpf_sock_ops *'', ''const void *'', ''__u32'', ''__u64''] False,
     proto 144 ''bpf_reserve_hdr_opt'' ''long'' [''struct bpf_sock_ops *'', ''__u32'', ''__u64''] False,
     proto 145 ''bpf_inode_storage_get'' ''void *'' [''void *'', ''void *'', ''void *'', ''__u64''] False,
     proto 146 ''bpf_inode_storage_delete'' ''int'' [''void *'', ''void *''] False,
     proto 147 ''bpf_d_path'' ''long'' [''struct path *'', ''char *'', ''__u32''] False,
     proto 148 ''bpf_copy_from_user'' ''long'' [''void *'', ''__u32'', ''const void *''] False]"

definition helpers_149_155 :: "helper list" where
  "helpers_149_155 = [
     proto 149 ''bpf_snprintf_btf'' ''long'' [''char *'', ''__u32'', ''struct btf_ptr *'', ''__u32'', ''__u64''] False,
     proto 150 ''bpf_seq_printf_btf'' ''long'' [''struct seq_file *'', ''struct btf_ptr *'', ''__u32'', ''__u64''] False,
     proto 151 ''bpf_skb_cgroup_classid'' ''__u64'' [''struct __sk_buff *''] False,
     proto 152 ''bpf_redirect_neigh'' ''long'' [''__u32'', ''struct bpf_redir_neigh *'', ''int'', ''__u64''] False,
     proto 153 ''bpf_per_cpu_ptr'' ''void *'' [''const void *'', ''__u32''] False,
     proto 154 ''bpf_this_cpu_ptr'' ''void *'' [''const void *''] False,
     proto 155 ''bpf_redirect_peer'' ''long'' [''__u32'', ''__u64''] False]"

definition helpers_156_162 :: "helper list" where
  "helpers_156_162 = [
     proto 156 ''bpf_task_storage_get'' ''void *'' [''void *'', ''struct task_struct *'', ''void *'', ''__u64''] False,
     proto 157 ''bpf_task_storage_delete'' ''long'' [''void *'', ''struct task_struct *''] False,
     proto 158 ''bpf_get_current_task_btf'' ''struct task_struct *'' [] False,
     proto 159 ''bpf_bprm_opts_set'' ''long'' [''struct linux_binprm *'', ''__u64''] False,
     proto 160 ''bpf_ktime_get_coarse_ns'' ''__u64'' [] False,
     proto 161 ''bpf_ima_inode_hash'' ''long'' [''struct inode *'', ''void *'', ''__u32''] False,
     proto 162 ''bpf_sock_from_file'' ''struct socket *'' [''struct file *''] False]"

definition helpers_163_166 :: "helper list" where
  "helpers_163_166 = [
     proto 163 ''bpf_check_mtu'' ''long'' [''void *'', ''__u32'', ''__u32 *'', ''__s32'', ''__u64''] False,
     proto 164 ''bpf_for_each_map_elem'' ''long'' [''void *'', ''void *'', ''void *'', ''__u64''] False,
     proto 165 ''bpf_snprintf'' ''long'' [''char *'', ''__u32'', ''const char *'', ''__u64 *'', ''__u32''] False,
     proto 166 ''bpf_sys_bpf'' ''long'' [''__u32'', ''void *'', ''__u32''] False]"

definition helpers_167_175 :: "helper list" where
  "helpers_167_175 = [
     proto 167 ''bpf_btf_find_by_name_kind'' ''long'' [''char *'', ''int'', ''__u32'', ''int''] False,
     proto 168 ''bpf_sys_close'' ''long'' [''__u32''] False,
     proto 169 ''bpf_timer_init'' ''long'' [''struct bpf_timer *'', ''void *'', ''__u64''] False,
     proto 170 ''bpf_timer_set_callback'' ''long'' [''struct bpf_timer *'', ''void *''] False,
     proto 171 ''bpf_timer_start'' ''long'' [''struct bpf_timer *'', ''__u64'', ''__u64''] False,
     proto 172 ''bpf_timer_cancel'' ''long'' [''struct bpf_timer *''] False,
     proto 173 ''bpf_get_func_ip'' ''__u64'' [''void *''] False,
     proto 174 ''bpf_get_attach_cookie'' ''__u64'' [''void *''] False,
     proto 175 ''bpf_task_pt_regs'' ''long'' [''struct task_struct *''] False]"

definition helpers_176_183 :: "helper list" where
  "helpers_176_183 = [
     proto 176 ''bpf_get_branch_snapshot'' ''long'' [''void *'', ''__u32'', ''__u64''] False,
     proto 177 ''bpf_trace_vprintk'' ''long'' [''const char *'', ''__u32'', ''const void *'', ''__u32''] False,
     proto 178 ''bpf_skc_to_unix_sock'' ''struct unix_sock *'' [''void *''] False,
     proto 179 ''bpf_kallsyms_lookup_name'' ''long'' [''const char *'', ''int'', ''int'', ''__u64 *''] False,
     proto 180 ''bpf_find_vma'' ''long'' [''struct task_struct *'', ''__u64'', ''void *'', ''void *'', ''__u64''] False,
     proto 181 ''bpf_loop'' ''long'' [''__u32'', ''void *'', ''void *'', ''__u64''] False,
     proto 182 ''bpf_strncmp'' ''long'' [''const char *'', ''__u32'', ''const char *''] False,
     proto 183 ''bpf_get_func_arg'' ''long'' [''void *'', ''__u32'', ''__u64 *''] False]"

definition helpers_184_192 :: "helper list" where
  "helpers_184_192 = [
     proto 184 ''bpf_get_func_ret'' ''long'' [''void *'', ''__u64 *''] False,
     proto 185 ''bpf_get_func_arg_cnt'' ''long'' [''void *''] False,
     proto 186 ''bpf_get_retval'' ''int'' [] False,
     proto 187 ''bpf_set_retval'' ''int'' [''int''] False,
     proto 188 ''bpf_xdp_get_buff_len'' ''__u64'' [''struct xdp_md *''] False,
     proto 189 ''bpf_xdp_load_bytes'' ''long'' [''struct xdp_md *'', ''__u32'', ''void *'', ''__u32''] False,
     proto 190 ''bpf_xdp_store_bytes'' ''long'' [''struct xdp_md *'', ''__u32'', ''void *'', ''__u32''] False,
     proto 191 ''bpf_copy_from_user_task'' ''long'' [''void *'', ''__u32'', ''const void *'', ''struct task_struct *'', ''__u64''] False,
     proto 192 ''bpf_skb_set_tstamp'' ''long'' [''struct __sk_buff *'', ''__u64'', ''__u32''] False]"

definition helpers_193_202 :: "helper list" where
  "helpers_193_202 = [
     proto 193 ''bpf_ima_file_hash'' ''long'' [''struct file *'', ''void *'', ''__u32''] False,
     proto 194 ''bpf_kptr_xchg'' ''void *'' [''void *'', ''void *''] False,
     proto 195 ''bpf_map_lookup_percpu_elem'' ''void *'' [''void *'', ''const void *'', ''__u32''] False,
     proto 196 ''bpf_skc_to_mptcp_sock'' ''struct mptcp_sock *'' [''void *''] False,
     proto 197 ''bpf_dynptr_from_mem'' ''long'' [''void *'', ''__u32'', ''__u64'', ''struct bpf_dynptr *''] False,
     proto 198 ''bpf_ringbuf_reserve_dynptr'' ''long'' [''void *'', ''__u32'', ''__u64'', ''struct bpf_dynptr *''] False,
     proto 199 ''bpf_ringbuf_submit_dynptr'' ''void'' [''struct bpf_dynptr *'', ''__u64''] False,
     proto 200 ''bpf_ringbuf_discard_dynptr'' ''void'' [''struct bpf_dynptr *'', ''__u64''] False,
     proto 201 ''bpf_dynptr_read'' ''long'' [''void *'', ''__u32'', ''const struct bpf_dynptr *'', ''__u32'', ''__u64''] False,
     proto 202 ''bpf_dynptr_write'' ''long'' [''const struct bpf_dynptr *'', ''__u32'', ''void *'', ''__u32'', ''__u64''] False]"

definition helpers_203_208 :: "helper list" where
  "helpers_203_208 = [
     proto 203 ''bpf_dynptr_data'' ''void *'' [''const struct bpf_dynptr *'', ''__u32'', ''__u32''] False,
     proto 204 ''bpf_tcp_raw_gen_syncookie_ipv4'' ''__s64'' [''struct iphdr *'', ''struct tcphdr *'', ''__u32''] False,
     proto 205 ''bpf_tcp_raw_gen_syncookie_ipv6'' ''__s64'' [''struct ipv6hdr *'', ''struct tcphdr *'', ''__u32''] False,
     proto 206 ''bpf_tcp_raw_check_syncookie_ipv4'' ''long'' [''struct iphdr *'', ''struct tcphdr *''] False,
     proto 207 ''bpf_tcp_raw_check_syncookie_ipv6'' ''long'' [''struct ipv6hdr *'', ''struct tcphdr *''] False,
     proto 208 ''bpf_ktime_get_tai_ns'' ''__u64'' [] False]"

definition helpers_209_211 :: "helper list" where
  "helpers_209_211 = [
     proto 209 ''bpf_user_ringbuf_drain'' ''long'' [''void *'', ''void *'', ''void *'', ''__u64''] False,
     proto 210 ''bpf_cgrp_storage_get'' ''void *'' [''void *'', ''struct cgroup *'', ''void *'', ''__u64''] False,
     proto 211 ''bpf_cgrp_storage_delete'' ''long'' [''void *'', ''struct cgroup *''] False]"

definition bpf_helpers :: "helper list" where
  "bpf_helpers =
     helpers_1_7 @ helpers_8_12 @ helpers_13_19 @ helpers_20_22 @ helpers_23_26 @ helpers_27_31 @ helpers_32_38 @
     helpers_39_45 @ helpers_46_50 @ helpers_51_54 @ helpers_55_58 @ helpers_59_62 @ helpers_63_67 @ helpers_68_72 @
     helpers_73_77 @ helpers_78_83 @ helpers_84_90 @ helpers_91_98 @ helpers_99_104 @ helpers_105_109 @
     helpers_110_115 @ helpers_116_123 @ helpers_124_129 @ helpers_130_137 @ helpers_138_142 @ helpers_143_148 @
     helpers_149_155 @ helpers_156_162 @ helpers_163_166 @ helpers_167_175 @ helpers_176_183 @ helpers_184_192 @
     helpers_193_202 @ helpers_203_208 @ helpers_209_211"

subsection \<open>Enumerations of the kernel\<close>

definition bpf_map_type :: "(string \<times> int) list" where
  "bpf_map_type = [
     (''BPF_MAP_TYPE_UNSPEC'', 0), (''BPF_MAP_TYPE_HASH'', 1), (''BPF_MAP_TYPE_ARRAY'', 2),
     (''BPF_MAP_TYPE_PROG_ARRAY'', 3), (''BPF_MAP_TYPE_PERF_EVENT_ARRAY'', 4),
     (''BPF_MAP_TYPE_PERCPU_HASH'', 5), (''BPF_MAP_TYPE_PERCPU_ARRAY'', 6), (''BPF_MAP_TYPE_STACK_TRACE'', 7),
     (''BPF_MAP_TYPE_CGROUP_ARRAY'', 8), (''BPF_MAP_TYPE_LRU_HASH'', 9),
     (''BPF_MAP_TYPE_LRU_PERCPU_HASH'', 10), (''BPF_MAP_TYPE_LPM_TRIE'', 11),
     (''BPF_MAP_TYPE_ARRAY_OF_MAPS'', 12), (''BPF_MAP_TYPE_HASH_OF_MAPS'', 13), (''BPF_MAP_TYPE_DEVMAP'', 14),
     (''BPF_MAP_TYPE_SOCKMAP'', 15), (''BPF_MAP_TYPE_CPUMAP'', 16), (''BPF_MAP_TYPE_XSKMAP'', 17),
     (''BPF_MAP_TYPE_SOCKHASH'', 18), (''BPF_MAP_TYPE_CGROUP_STORAGE'', 19),
     (''BPF_MAP_TYPE_REUSEPORT_SOCKARRAY'', 20), (''BPF_MAP_TYPE_PERCPU_CGROUP_STORAGE'', 21),
     (''BPF_MAP_TYPE_QUEUE'', 22), (''BPF_MAP_TYPE_STACK'', 23), (''BPF_MAP_TYPE_SK_STORAGE'', 24),
     (''BPF_MAP_TYPE_DEVMAP_HASH'', 25), (''BPF_MAP_TYPE_STRUCT_OPS'', 26), (''BPF_MAP_TYPE_RINGBUF'', 27),
     (''BPF_MAP_TYPE_INODE_STORAGE'', 28), (''BPF_MAP_TYPE_TASK_STORAGE'', 29)]"

definition tcp_states :: "(string \<times> int) list" where
  "tcp_states = [
     (''TCP_ESTABLISHED'', 1), (''TCP_SYN_SENT'', 2), (''TCP_SYN_RECV'', 3), (''TCP_FIN_WAIT1'', 4),
     (''TCP_FIN_WAIT2'', 5), (''TCP_TIME_WAIT'', 6), (''TCP_CLOSE'', 7), (''TCP_CLOSE_WAIT'', 8),
     (''TCP_LAST_ACK'', 9), (''TCP_LISTEN'', 10), (''TCP_CLOSING'', 11), (''TCP_NEW_SYN_RECV'', 12),
     (''TCP_MAX_STATES'', 13)]"

definition bpf_func_id :: "(string \<times> int) list" where
  "bpf_func_id = [
     (''BPF_FUNC_unspec'', 0), (''BPF_FUNC_map_lookup_elem'', 1), (''BPF_FUNC_map_update_elem'', 2),
     (''BPF_FUNC_map_delete_elem'', 3), (''BPF_FUNC_probe_read'', 4), (''BPF_FUNC_ktime_get_ns'', 5),
     (''BPF_FUNC_trace_printk'', 6), (''BPF_FUNC_get_prandom_u32'', 7), (''BPF_FUNC_get_smp_processor_id'', 8),
     (''BPF_FUNC_skb_store_bytes'', 9), (''BPF_FUNC_l3_csum_replace'', 10), (''BPF_FUNC_l4_csum_replace'', 11),
     (''BPF_FUNC_tail_call'', 12), (''BPF_FUNC_clone_redirect'', 13), (''BPF_FUNC_get_current_pid_tgid'', 14),
     (''BPF_FUNC_get_current_uid_gid'', 15), (''BPF_FUNC_get_current_comm'', 16),
     (''BPF_FUNC_get_cgroup_classid'', 17), (''BPF_FUNC_skb_vlan_push'', 18), (''BPF_FUNC_skb_vlan_pop'', 19),
     (''BPF_FUNC_skb_get_tunnel_key'', 20), (''BPF_FUNC_skb_set_tunnel_key'', 21),
     (''BPF_FUNC_perf_event_read'', 22), (''BPF_FUNC_redirect'', 23), (''BPF_FUNC_get_route_realm'', 24),
     (''BPF_FUNC_perf_event_output'', 25), (''BPF_FUNC_skb_load_bytes'', 26), (''BPF_FUNC_get_stackid'', 27),
     (''BPF_FUNC_csum_diff'', 28), (''BPF_FUNC_skb_get_tunnel_opt'', 29),
     (''BPF_FUNC_skb_set_tunnel_opt'', 30), (''BPF_FUNC_skb_change_proto'', 31),
     (''BPF_FUNC_skb_change_type'', 32), (''BPF_FUNC_skb_under_cgroup'', 33),
     (''BPF_FUNC_get_hash_recalc'', 34), (''BPF_FUNC_get_current_task'', 35),
     (''BPF_FUNC_probe_write_user'', 36), (''BPF_FUNC_current_task_under_cgroup'', 37),
     (''BPF_FUNC_skb_change_tail'', 38), (''BPF_FUNC_skb_pull_data'', 39), (''BPF_FUNC_csum_update'', 40),
     (''BPF_FUNC_set_hash_invalid'', 41), (''BPF_FUNC_get_numa_node_id'', 42),
     (''BPF_FUNC_skb_change_head'', 43), (''BPF_FUNC_xdp_adjust_head'', 44), (''BPF_FUNC_probe_read_str'', 45),
     (''BPF_FUNC_get_socket_cookie'', 46), (''BPF_FUNC_get_socket_uid'', 47), (''BPF_FUNC_set_hash'', 48),
     (''BPF_FUNC_setsockopt'', 49), (''BPF_FUNC_skb_adjust_room'', 50), (''BPF_FUNC_redirect_map'', 51),
     (''BPF_FUNC_sk_redirect_map'', 52), (''BPF_FUNC_sock_map_update'', 53),
     (''BPF_FUNC_xdp_adjust_meta'', 54), (''BPF_FUNC_perf_event_read_value'', 55),
     (''BPF_FUNC_perf_prog_read_value'', 56), (''BPF_FUNC_getsockopt'', 57),
     (''BPF_FUNC_override_return'', 58), (''BPF_FUNC_sock_ops_cb_flags_set'', 59),
     (''BPF_FUNC_msg_redirect_map'', 60), (''BPF_FUNC_msg_apply_bytes'', 61),
     (''BPF_FUNC_msg_cork_bytes'', 62), (''BPF_FUNC_msg_pull_data'', 63), (''BPF_FUNC_bind'', 64),
     (''BPF_FUNC_xdp_adjust_tail'', 65), (''BPF_FUNC_skb_get_xfrm_state'', 66), (''BPF_FUNC_get_stack'', 67),
     (''BPF_FUNC_skb_load_bytes_relative'', 68), (''BPF_FUNC_fib_lookup'', 69),
     (''BPF_FUNC_sock_hash_update'', 70), (''BPF_FUNC_msg_redirect_hash'', 71),
     (''BPF_FUNC_sk_redirect_hash'', 72), (''BPF_FUNC_lwt_push_encap'', 73),
     (''BPF_FUNC_lwt_seg6_store_bytes'', 74), (''BPF_FUNC_lwt_seg6_adjust_srh'', 75),
     (''BPF_FUNC_lwt_seg6_action'', 76), (''BPF_FUNC_rc_repeat'', 77), (''BPF_FUNC_rc_keydown'', 78),
     (''BPF_FUNC_skb_cgroup_id'', 79), (''BPF_FUNC_get_current_cgroup_id'', 80),
     (''BPF_FUNC_get_local_storage'', 81), (''BPF_FUNC_sk_select_reuseport'', 82),
     (''BPF_FUNC_skb_ancestor_cgroup_id'', 83), (''BPF_FUNC_sk_lookup_tcp'', 84),
     (''BPF_FUNC_sk_lookup_udp'', 85), (''BPF_FUNC_sk_release'', 86), (''BPF_FUNC_map_push_elem'', 87),
     (''BPF_FUNC_map_pop_elem'', 88), (''BPF_FUNC_map_peek_elem'', 89), (''BPF_FUNC_msg_push_data'', 90),
     (''BPF_FUNC_msg_pop_data'', 91), (''BPF_FUNC_rc_pointer_rel'', 92), (''BPF_FUNC_spin_lock'', 93),
     (''BPF_FUNC_spin_unlock'', 94), (''BPF_FUNC_sk_fullsock'', 95), (''BPF_FUNC_tcp_sock'', 96),
     (''BPF_FUNC_skb_ecn_set_ce'', 97), (''BPF_FUNC_get_listener_sock'', 98),
     (''BPF_FUNC_skc_lookup_tcp'', 99), (''BPF_FUNC_tcp_check_syncookie'', 100),
     (''BPF_FUNC_sysctl_get_name'', 101), (''BPF_FUNC_sysctl_get_current_value'', 102),
     (''BPF_FUNC_sysctl_get_new_value'', 103), (''BPF_FUNC_sysctl_set_new_value'', 104),
     (''BPF_FUNC_strtol'', 105), (''BPF_FUNC_strtoul'', 106), (''BPF_FUNC_sk_storage_get'', 107),
     (''BPF_FUNC_sk_storage_delete'', 108), (''BPF_FUNC_send_signal'', 109),
     (''BPF_FUNC_tcp_gen_syncookie'', 110), (''BPF_FUNC_skb_output'', 111),
     (''BPF_FUNC_probe_read_user'', 112), (''BPF_FUNC_probe_read_kernel'', 113),
     (''BPF_FUNC_probe_read_user_str'', 114), (''BPF_FUNC_probe_read_kernel_str'', 115),
     (''BPF_FUNC_tcp_send_ack'', 116), (''BPF_FUNC_send_signal_thread'', 117), (''BPF_FUNC_jiffies64'', 118),
     (''BPF_FUNC_read_branch_records'', 119), (''BPF_FUNC_get_ns_current_pid_tgid'', 120),
     (''BPF_FUNC_xdp_output'', 121), (''BPF_FUNC_get_netns_cookie'', 122),
     (''BPF_FUNC_get_current_ancestor_cgroup_id'', 123), (''BPF_FUNC_sk_assign'', 124),
     (''BPF_FUNC_ktime_get_boot_ns'', 125), (''BPF_FUNC_seq_printf'', 126), (''BPF_FUNC_seq_write'', 127),
     (''BPF_FUNC_sk_cgroup_id'', 128), (''BPF_FUNC_sk_ancestor_cgroup_id'', 129),
     (''BPF_FUNC_ringbuf_output'', 130), (''BPF_FUNC_ringbuf_reserve'', 131),
     (''BPF_FUNC_ringbuf_submit'', 132), (''BPF_FUNC_ringbuf_discard'', 133),
     (''BPF_FUNC_ringbuf_query'', 134), (''BPF_FUNC_csum_level'', 135), (''BPF_FUNC_skc_to_tcp6_sock'', 136),
     (''BPF_FUNC_skc_to_tcp_sock'', 137), (''BPF_FUNC_skc_to_tcp_timewait_sock'', 138),
     (''BPF_FUNC_skc_to_tcp_request_sock'', 139), (''BPF_FUNC_skc_to_udp6_sock'', 140),
     (''BPF_FUNC_get_task_stack'', 141), (''BPF_FUNC_load_hdr_opt'', 142), (''BPF_FUNC_store_hdr_opt'', 143),
     (''BPF_FUNC_reserve_hdr_opt'', 144), (''BPF_FUNC_inode_storage_get'', 145),
     (''BPF_FUNC_inode_storage_delete'', 146), (''BPF_FUNC_d_path'', 147), (''BPF_FUNC_copy_from_user'', 148),
     (''BPF_FUNC_snprintf_btf'', 149), (''BPF_FUNC_seq_printf_btf'', 150),
     (''BPF_FUNC_skb_cgroup_classid'', 151), (''BPF_FUNC_redirect_neigh'', 152),
     (''BPF_FUNC_per_cpu_ptr'', 153), (''BPF_FUNC_this_cpu_ptr'', 154), (''BPF_FUNC_redirect_peer'', 155),
     (''BPF_FUNC_task_storage_get'', 156), (''BPF_FUNC_task_storage_delete'', 157),
     (''BPF_FUNC_get_current_task_btf'', 158), (''BPF_FUNC_bprm_opts_set'', 159),
     (''BPF_FUNC_ktime_get_coarse_ns'', 160), (''BPF_FUNC_ima_inode_hash'', 161),
     (''BPF_FUNC_sock_from_file'', 162), (''BPF_FUNC_check_mtu'', 163), (''BPF_FUNC_for_each_map_elem'', 164),
     (''BPF_FUNC_snprintf'', 165), (''BPF_FUNC_sys_bpf'', 166), (''BPF_FUNC_btf_find_by_name_kind'', 167),
     (''BPF_FUNC_sys_close'', 168), (''BPF_FUNC_timer_init'', 169), (''BPF_FUNC_timer_set_callback'', 170),
     (''BPF_FUNC_timer_start'', 171), (''BPF_FUNC_timer_cancel'', 172), (''BPF_FUNC_get_func_ip'', 173),
     (''BPF_FUNC_get_attach_cookie'', 174), (''BPF_FUNC_task_pt_regs'', 175), (''__BPF_FUNC_MAX_ID'', 176)]"

definition bpf_update_flags :: "(string \<times> int) list" where
  "bpf_update_flags = [
     (''BPF_ANY'', 0), (''BPF_NOEXIST'', 1), (''BPF_EXIST'', 2), (''BPF_F_LOCK'', 4)]"

definition ip_protocols :: "(string \<times> int) list" where
  "ip_protocols = [
     (''IPPROTO_IP'', 0), (''IPPROTO_ICMP'', 1), (''IPPROTO_IGMP'', 2), (''IPPROTO_IPIP'', 4),
     (''IPPROTO_TCP'', 6), (''IPPROTO_EGP'', 8), (''IPPROTO_PUP'', 12), (''IPPROTO_UDP'', 17),
     (''IPPROTO_IDP'', 22), (''IPPROTO_TP'', 29), (''IPPROTO_DCCP'', 33), (''IPPROTO_IPV6'', 41),
     (''IPPROTO_RSVP'', 46), (''IPPROTO_GRE'', 47), (''IPPROTO_ESP'', 50), (''IPPROTO_AH'', 51),
     (''IPPROTO_MTP'', 92), (''IPPROTO_BEETPH'', 94), (''IPPROTO_ENCAP'', 98), (''IPPROTO_PIM'', 103),
     (''IPPROTO_COMP'', 108), (''IPPROTO_SCTP'', 132), (''IPPROTO_UDPLITE'', 136), (''IPPROTO_MPLS'', 137),
     (''IPPROTO_ETHERNET'', 143), (''IPPROTO_RAW'', 255), (''IPPROTO_MPTCP'', 262), (''IPPROTO_MAX'', 263)]"

subsection \<open>The numbers agree\<close>

text \<open>The helper numbers of the header are the kernel's. The prototypes are numbered from 1 without a gap, every
  number up to the kernel's last one belongs to the helper of the same name in \<^verbatim>\<open>enum bpf_func_id\<close>, and
  no helper takes more than the five arguments of the calling convention.\<close>

theorem helper_numbers_match_kernel:
  "map h_id bpf_helpers = [1..211] \<and>
   map (\<lambda>h. (drop 4 (h_name h), h_id h)) (take 175 bpf_helpers) = map (\<lambda>(n, i). (drop 9 n, i)) (tl (butlast bpf_func_id)) \<and>
   list_all (\<lambda>h. length (h_args h) \<le> 5) bpf_helpers"
  by code_simp

end
