(* ===== verification/Ko_Maps.thy ===== *)
theory Ko_Maps
  imports Bpf_Proto Ko_Abi
begin

text \<open>
  What \<^verbatim>\<open>tracer.bpf.c\<close> declares to the loader and relies on by number: its seven BPF maps with their
  types, capacities and key and value sizes, the helpers it calls, and the kernel constants it
  defines for itself because \<^verbatim>\<open>vmlinux.h\<close> gives them as anonymous enumerators.
\<close>

subsection \<open>Map declarations\<close>

record map_decl =
  m_name :: string
  m_type :: string
  m_max_entries :: int
  m_key :: "ctype option"
  m_value :: ctype

definition ko_maps :: "map_decl list" where
  "ko_maps = [
     \<lparr>m_name = ''ko_sock_ctx'', m_type = ''BPF_MAP_TYPE_LRU_HASH'', m_max_entries = 65536,
      m_key = Some (Scalar 8), m_value = c_conn_ctx_t\<rparr>,
     \<lparr>m_name = ''ko_events'', m_type = ''BPF_MAP_TYPE_RINGBUF'', m_max_entries = 2 ^ 20,
      m_key = None, m_value = c_conn_event_t\<rparr>,
     \<lparr>m_name = ''ko_filter_prog'', m_type = ''BPF_MAP_TYPE_ARRAY'', m_max_entries = 1,
      m_key = Some (Scalar 4), m_value = c_ko_prog\<rparr>,
     \<lparr>m_name = ''ko_filter_cfg'', m_type = ''BPF_MAP_TYPE_ARRAY'', m_max_entries = 1,
      m_key = Some (Scalar 4), m_value = Scalar 8\<rparr>,
     \<lparr>m_name = ''ko_cgroup_verdict'', m_type = ''BPF_MAP_TYPE_LRU_HASH'', m_max_entries = 65536,
      m_key = Some (Scalar 8), m_value = Scalar 8\<rparr>,
     \<lparr>m_name = ''ko_filter_drops'', m_type = ''BPF_MAP_TYPE_PERCPU_ARRAY'', m_max_entries = 1,
      m_key = Some (Scalar 4), m_value = Scalar 8\<rparr>,
     \<lparr>m_name = ''ko_ringbuf_drops'', m_type = ''BPF_MAP_TYPE_PERCPU_ARRAY'', m_max_entries = 1,
      m_key = Some (Scalar 4), m_value = Scalar 8\<rparr>]"

text \<open>What the kernel asks of a declaration when it creates the map: a known type, a positive
  capacity, four-byte keys for arrays, and for a ring buffer no key and a capacity that is a
  power of two and a number of whole pages.\<close>

definition decl_ok :: "map_decl \<Rightarrow> bool" where
  "decl_ok m \<longleftrightarrow> m_type m \<in> fst ` set bpf_map_type \<and> 0 < m_max_entries m \<and> 0 < sizeof (m_value m) \<and>
     (m_type m \<in> {''BPF_MAP_TYPE_ARRAY'', ''BPF_MAP_TYPE_PERCPU_ARRAY''} \<longrightarrow> map_option sizeof (m_key m) = Some 4) \<and>
     (m_type m = ''BPF_MAP_TYPE_RINGBUF'' \<longrightarrow>
        m_key m = None \<and> m_max_entries m mod 4096 = 0 \<and> m_max_entries m \<in> set (map (\<lambda>k. 2 ^ k) [0..<32]))"

text \<open>A record of the ring buffer carries an eight-byte header and is rounded up to eight bytes.\<close>

definition ringbuf_record :: "int \<Rightarrow> int" where
  "ringbuf_record sz = align_up (sz + 8) 8"

text \<open>The map declarations are valid, the values have the sizes of the C records, and the capacity of the ring
  buffer is that of 8192 event records.\<close>

theorem map_declarations_valid:
  "list_all decl_ok ko_maps \<and>
   map (\<lambda>m. (m_name m, sizeof (m_value m))) ko_maps =
     [(''ko_sock_ctx'', 48), (''ko_events'', 120), (''ko_filter_prog'', 2824), (''ko_filter_cfg'', 8),
      (''ko_cgroup_verdict'', 8), (''ko_filter_drops'', 8), (''ko_ringbuf_drops'', 8)] \<and>
   m_max_entries (ko_maps ! 1) = 8192 * ringbuf_record (sizeof c_conn_event_t)"
  by code_simp

subsection \<open>Helpers called\<close>

definition tracer_calls :: "(string \<times> nat) list" where
  "tracer_calls = [
     (''bpf_map_lookup_elem'', 2), (''bpf_ringbuf_reserve'', 3), (''bpf_ringbuf_submit'', 2), (''bpf_ktime_get_ns'', 0),
     (''bpf_get_current_pid_tgid'', 0), (''bpf_get_current_cgroup_id'', 0), (''bpf_get_current_comm'', 2),
     (''bpf_map_update_elem'', 4), (''bpf_map_delete_elem'', 2), (''bpf_probe_read_kernel'', 3)]"

text \<open>The calls with their places in the table of prototypes.\<close>

lemma tracer_call_places:
  "list_all (\<lambda>((n, k), i). i < length bpf_helpers \<and> Suc i < length bpf_func_id \<and>
     (let h = bpf_helpers ! i in h_name h = n \<and> length (h_args h) = k \<and> \<not> h_variadic h \<and>
       bpf_func_id ! Suc i = (''BPF_FUNC_'' @ drop 4 n, h_id h)))
     (zip tracer_calls [0, 130, 131, 4, 13, 79, 15, 1, 2, 112])"
  by code_simp

text \<open>Every helper the tracer calls is in the kernel's enumeration and is called with as many arguments
  as its prototype has.\<close>

theorem tracer_calls_known:
  "list_all (\<lambda>(n, k). list_ex (\<lambda>h. h_name h = n \<and> length (h_args h) = k \<and> \<not> h_variadic h \<and>
     (''BPF_FUNC_'' @ drop 4 n, h_id h) \<in> set bpf_func_id) bpf_helpers) tracer_calls"
proof -
  have "set tracer_calls \<subseteq> fst ` set (zip tracer_calls [0 :: nat, 130, 131, 4, 13, 79, 15, 1, 2, 112])"
    by (simp add: tracer_calls_def)
  with tracer_call_places show ?thesis
    by (fastforce simp: list_all_iff list_ex_iff Let_def intro: nth_mem dest: nth_mem)
qed

subsection \<open>Constants\<close>

text \<open>The constants that the tracer defines for itself are the kernel's: the TCP states it compares with,
  the protocol number and the update flag.\<close>

theorem constants_match_kernel:
  "map (map_of tcp_states) [''TCP_ESTABLISHED'', ''TCP_SYN_SENT'', ''TCP_TIME_WAIT'', ''TCP_NEW_SYN_RECV''] =
     [Some (uint TCP_ESTABLISHED), Some (uint TCP_SYN_SENT), Some (uint TCP_TIME_WAIT), Some (uint TCP_NEW_SYN_RECV)] \<and>
   map_of ip_protocols ''IPPROTO_TCP'' = Some (uint IPPROTO_TCP) \<and> map_of bpf_update_flags ''BPF_ANY'' = Some 0"
  by code_simp

end
