(* ===== verification/Bpf_Macro.thy ===== *)
theory Bpf_Macro
  imports Core_Macro Ko_Maps
begin

text \<open>
  The macros of \<^verbatim>\<open>bpf_helpers.h\<close>: the members that declare a map, the version and member arithmetic, the counting of arguments and the
  print macros built on it, and the loops over the iterators of the kernel. Macro expansion is modelled as in \<open>Core_Macro\<close>; \<open>None\<close> stands for a
  use that the compiler rejects.
\<close>

subsection \<open>Map declarations\<close>

text \<open>A member of a map declaration is a pointer, and all it says is in the type that it points to; \<^verbatim>\<open>__array\<close> declares an array of pointers.\<close>

datatype decl_type = Pointer_to ctype | Pointers_to ctype

type_synonym decl_member = "string \<times> decl_type"

definition uint_member :: "string \<Rightarrow> int \<Rightarrow> decl_member" where
  "uint_member name val = (name, Pointer_to (Array (Scalar 4) val))"

definition type_member :: "string \<Rightarrow> ctype \<Rightarrow> decl_member" where
  "type_member name val = (name, Pointer_to val)"

definition array_member :: "string \<Rightarrow> ctype \<Rightarrow> decl_member" where
  "array_member name val = (name, Pointers_to val)"

text \<open>The declaration of a map of the tracer, member by member.\<close>

definition declare_map :: "map_decl \<Rightarrow> decl_member list option" where
  "declare_map m =
     do { ty \<leftarrow> map_of bpf_map_type (m_type m);
          Some ([uint_member ''type'' ty, uint_member ''max_entries'' (m_max_entries m)] @
            (case m_key m of None \<Rightarrow> [] | Some k \<Rightarrow> [type_member ''key'' k]) @ [type_member ''value'' (m_value m)]) }"

text \<open>A number is read back as the number of elements of the array, from the sizes that the type information gives.\<close>

definition member_uint :: "decl_member list \<Rightarrow> string \<Rightarrow> int option" where
  "member_uint ms name = (case map_of ms name of Some (Pointer_to (Array t n)) \<Rightarrow> Some (sizeof (Array t n) div sizeof t) | _ \<Rightarrow> None)"

definition member_type :: "decl_member list \<Rightarrow> string \<Rightarrow> ctype option" where
  "member_type ms name = (case map_of ms name of Some (Pointer_to t) \<Rightarrow> Some t | _ \<Rightarrow> None)"

definition read_map :: "string \<Rightarrow> decl_member list \<Rightarrow> map_decl option" where
  "read_map name ms =
     do { ty \<leftarrow> member_uint ms ''type''; n \<leftarrow> member_uint ms ''max_entries''; v \<leftarrow> member_type ms ''value'';
          t \<leftarrow> map_of (map prod.swap bpf_map_type) ty;
          Some \<lparr>m_name = name, m_type = t, m_max_entries = n, m_key = member_type ms ''key'', m_value = v\<rparr> }"

lemma map_types_distinct: "map (\<lambda>(n, i). map_of (map prod.swap bpf_map_type) i) bpf_map_type = map (\<lambda>(n, i). Some n) bpf_map_type"
  by code_simp

text \<open>What the macros declare of a map can be read back from the types of the members.\<close>

lemma declared_map_read_back:
  assumes "declare_map m = Some ms"
  shows "read_map (m_name m) ms = Some m"
proof -
  obtain ty where ty: "map_of bpf_map_type (m_type m) = Some ty" and ms: "ms = [uint_member ''type'' ty, uint_member ''max_entries'' (m_max_entries m)] @
      (case m_key m of None \<Rightarrow> [] | Some k \<Rightarrow> [type_member ''key'' k]) @ [type_member ''value'' (m_value m)]"
    using assms by (auto simp: declare_map_def bind_eq_Some_conv)
  have "map_of (map prod.swap bpf_map_type) ty = Some (m_type m)"
    using map_of_SomeD [OF ty] map_types_distinct unfolding map_eq_conv by fastforce
  then show ?thesis
    by (cases m; cases "m_key m") (auto simp: read_map_def ms uint_member_def type_member_def member_uint_def member_type_def)
qed

lemma tracer_maps_declared: "list_all (\<lambda>m. declare_map m \<noteq> None) ko_maps"
  by code_simp

subsection \<open>Versions and members\<close>

definition KERNEL_VERSION :: "int \<Rightarrow> int \<Rightarrow> int \<Rightarrow> int" where
  "KERNEL_VERSION a b c = push_bit 16 a + push_bit 8 b + (if c > 255 then 255 else c)"

text \<open>Versions are compared component by component; the third saturates at 255.\<close>

lemma KERNEL_VERSION_less:
  assumes "0 \<le> b" "b < 256" "0 \<le> c" "0 \<le> b'" "b' < 256" "0 \<le> c'"
  shows "KERNEL_VERSION a b c < KERNEL_VERSION a' b' c' \<longleftrightarrow> a < a' \<or> a = a' \<and> (b < b' \<or> b = b' \<and> min c 255 < min c' 255)"
  using assms by (auto simp: KERNEL_VERSION_def push_bit_eq_mult min_def)

definition offsetof_macro :: "ctype \<Rightarrow> string list \<Rightarrow> u64 option" where
  "offsetof_macro t member = map_option (\<lambda>(off, t'). 0 + of_int off) (offset_of t member)"

definition container_of :: "u64 \<Rightarrow> ctype \<Rightarrow> string list \<Rightarrow> u64 option" where
  "container_of p t member = do { off \<leftarrow> offsetof_macro t member; Some (p - off) }"

lemma container_of_member: "offsetof_macro t member = Some off \<Longrightarrow> container_of (p + off) t member = Some p"
  by (simp add: container_of_def)

subsection \<open>Variadic arguments\<close>

datatype pin_type = LIBBPF_PIN_NONE | LIBBPF_PIN_BY_NAME
datatype tristate = TRI_NO | TRI_YES | TRI_MODULE

definition bpf_nth :: "'a list \<Rightarrow> 'a option" where
  "bpf_nth xs = (if 14 \<le> length xs then Some (xs ! 13) else None)"

definition bpf_narg :: "'a list \<Rightarrow> 'a mtoken option" where
  "bpf_narg xs = bpf_nth (Underscore # map Arg xs @ map Num [12, 11, 10, 9, 8, 7, 6, 5, 4, 3, 2, 1, 0])"

definition bpf_apply :: "(nat \<Rightarrow> 'a list \<Rightarrow> 'b option) \<Rightarrow> 'a list \<Rightarrow> 'b option" where
  "bpf_apply fn xs = (case bpf_narg xs of Some (Num k) \<Rightarrow> fn k xs | _ \<Rightarrow> None)"

lemma bpf_nth_args:
  assumes "length ys = 13"
  shows "bpf_nth (u # map f xs @ ys) = Some (if length xs \<le> 12 then ys ! (12 - length xs) else f (xs ! 12))"
  using assms by (auto simp: bpf_nth_def nth_append)

lemma bpf_narg_eq: "bpf_narg xs = Some (if length xs \<le> 12 then Num (length xs) else Arg (xs ! 12))"
proof -
  have "[12, 11, 10, 9, 8, 7, 6, 5, 4, 3, 2, 1, 0 :: nat] = rev [0..<13]" by (simp add: upt_rec)
  moreover have "rev [0..<13] ! (12 - length xs) = length xs" if "length xs \<le> 12" using that by (subst rev_nth) auto
  ultimately show ?thesis
    using bpf_nth_args [of "map Num [12, 11, 10, 9, 8, 7, 6, 5, 4, 3, 2, 1, 0]" Underscore Arg xs] by (simp add: bpf_narg_def)
qed

lemma bpf_apply_eq: "bpf_apply fn xs = (if length xs \<le> 12 then fn (length xs) xs else None)"
  by (simp add: bpf_apply_def bpf_narg_eq)

text \<open>\<^verbatim>\<open>___bpf_fill0\<close> to \<^verbatim>\<open>___bpf_fill12\<close>: the assignments they spell, each to an index of the array.\<close>

fun bpf_fill_macros :: "nat \<Rightarrow> nat \<Rightarrow> 'a list \<Rightarrow> (nat \<times> 'a) list option" where
  "bpf_fill_macros 0 p xs = (if xs = [] then Some [] else None)"
| "bpf_fill_macros (Suc 0) p xs = (case xs of [x] \<Rightarrow> Some [(p, x)] | _ \<Rightarrow> None)"
| "bpf_fill_macros (Suc (Suc k)) p xs =
     (case xs of
        x # args \<Rightarrow> if k \<le> 10 then do { rest \<leftarrow> bpf_fill_macros (Suc k) (p + 1) args; Some ((p, x) # rest) } else None
      | [] \<Rightarrow> None)"

definition bpf_fill :: "'a list \<Rightarrow> (nat \<times> 'a) list option" where
  "bpf_fill xs = bpf_apply (\<lambda>k. bpf_fill_macros k 0) xs"

definition run_assigns :: "(nat \<times> 'a) list \<Rightarrow> 'a list \<Rightarrow> 'a list" where
  "run_assigns as arr = fold (\<lambda>(i, x) arr. arr[i := x]) as arr"

lemma bpf_fill_macros_eq: "length xs \<le> 12 \<Longrightarrow> bpf_fill_macros (length xs) p xs = Some (zip [p..<p + length xs] xs)"
proof (induction "length xs" p xs rule: bpf_fill_macros.induct)
  case (3 k p xs)
  then obtain x args where "xs = x # args" "length args = Suc k" by (cases xs) auto
  with 3 show ?case by (simp add: upt_conv_Cons del: upt_Suc)
next
  case (2 p xs)
  then obtain x where "xs = [x]" by (cases xs) auto
  then show ?case by simp
qed simp

lemma run_assigns_zip: "length arr = p + length xs \<Longrightarrow> run_assigns (zip [p..<p + length xs] xs) arr = take p arr @ xs"
proof (induction xs arbitrary: p arr)
  case (Cons x xs)
  have "run_assigns (zip [p..<p + length (x # xs)] (x # xs)) arr = run_assigns (zip [Suc p..<Suc p + length xs] xs) (arr[p := x])"
    by (simp add: run_assigns_def upt_conv_Cons del: upt_Suc)
  also have "\<dots> = take (Suc p) (arr[p := x]) @ xs" using Cons.prems by (intro Cons.IH) simp
  also have "\<dots> = take p arr @ x # xs" using Cons.prems by (simp add: take_Suc_conv_app_nth)
  finally show ?case .
qed (simp add: run_assigns_def)

text \<open>The array that the print macros declare holds their arguments, in order.\<close>

lemma bpf_fill_params:
  assumes "length xs \<le> 12" and "length arr = length xs"
  shows "\<exists>as. bpf_fill xs = Some as \<and> run_assigns as arr = xs"
  using assms bpf_fill_macros_eq [OF assms(1), of 0] run_assigns_zip [of arr 0 xs] by (auto simp: bpf_fill_def bpf_apply_eq)

subsection \<open>Print macros\<close>

text \<open>The calls of helpers that they make. A format is a string literal, of which the terminating zero counts.\<close>

datatype print_call =
    Trace_printk string nat "u64 list"
  | Trace_vprintk string nat "u64 list" nat
  | Seq_printf u64 string nat "u64 list" nat
  | Snprintf u64 nat string "u64 list" nat

fun call_arity :: "print_call \<Rightarrow> nat" where
  "call_arity (Trace_printk fmt n args) = 2 + length args"
| "call_arity (Trace_vprintk fmt n ps sz) = 4"
| "call_arity (Seq_printf seq fmt n ps sz) = 5"
| "call_arity (Snprintf out sz fmt ps psz) = 5"

text \<open>\<^verbatim>\<open>___param\<close> with its size in bytes; the array is not initialised.\<close>

definition params :: "u64 list \<Rightarrow> u64 list \<Rightarrow> (u64 list \<times> nat) option" where
  "params uninit args =
     (case bpf_narg args of
        Some (Num n) \<Rightarrow> do { as \<leftarrow> bpf_fill args; let arr = run_assigns as (take n uninit); Some (arr, 8 * n) }
      | _ \<Rightarrow> None)"

definition BPF_SEQ_PRINTF :: "u64 list \<Rightarrow> u64 \<Rightarrow> string \<Rightarrow> u64 list \<Rightarrow> print_call option" where
  "BPF_SEQ_PRINTF uninit seq fmt args = do { (ps, sz) \<leftarrow> params uninit args; Some (Seq_printf seq fmt (length fmt + 1) ps sz) }"

definition BPF_SNPRINTF :: "u64 list \<Rightarrow> u64 \<Rightarrow> nat \<Rightarrow> string \<Rightarrow> u64 list \<Rightarrow> print_call option" where
  "BPF_SNPRINTF uninit out out_size fmt args = do { (ps, sz) \<leftarrow> params uninit args; Some (Snprintf out out_size fmt ps sz) }"

definition bpf_printk1 :: "string \<Rightarrow> u64 list \<Rightarrow> print_call option" where
  "bpf_printk1 fmt args = Some (Trace_printk fmt (length fmt + 1) args)"

definition bpf_vprintk :: "u64 list \<Rightarrow> string \<Rightarrow> u64 list \<Rightarrow> print_call option" where
  "bpf_vprintk uninit fmt args = do { (ps, sz) \<leftarrow> params uninit args; Some (Trace_vprintk fmt (length fmt + 1) ps sz) }"

datatype print_macro = Vprintk | Printk
datatype print_token = PArg u64 | PMacro print_macro | PUnderscore

definition bpf_pick_printk :: "u64 list \<Rightarrow> print_token option" where
  "bpf_pick_printk args =
     bpf_nth (PUnderscore # map PArg args @ map PMacro [Vprintk, Vprintk, Vprintk,
       Vprintk, Vprintk, Vprintk, Vprintk,
       Vprintk, Vprintk, Printk, Printk,
       Printk, Printk])"

definition bpf_printk :: "u64 list \<Rightarrow> string \<Rightarrow> u64 list \<Rightarrow> print_call option" where
  "bpf_printk uninit fmt args =
     (case bpf_pick_printk args of
        Some (PMacro Vprintk) \<Rightarrow> bpf_vprintk uninit fmt args
      | Some (PMacro Printk) \<Rightarrow> bpf_printk1 fmt args
      | _ \<Rightarrow> None)"

lemma params_eq:
  "length args \<le> length uninit \<Longrightarrow> params uninit args = (if length args \<le> 12 then Some (args, 8 * length args) else None)"
  using bpf_fill_params [of args "take (length args) uninit"] by (auto simp: params_def bpf_narg_eq)

lemma bpf_pick_printk_eq:
  "bpf_pick_printk args = Some (if length args \<le> 3 then PMacro Printk else if length args \<le> 12 then PMacro Vprintk else PArg (args ! 12))"
proof -
  let ?ys = "replicate 9 (PMacro Vprintk) @ replicate 4 (PMacro Printk)"
  have "bpf_pick_printk args = bpf_nth (PUnderscore # map PArg args @ ?ys)" by (simp add: bpf_pick_printk_def numeral_eq_Suc)
  also have "\<dots> = Some (if length args \<le> 12 then ?ys ! (12 - length args) else PArg (args ! 12))" by (rule bpf_nth_args) simp
  finally show ?thesis by (auto simp: nth_append)
qed

text \<open>Up to three arguments go to \<^verbatim>\<open>bpf_trace_printk\<close>, up to twelve into an array for \<^verbatim>\<open>bpf_trace_vprintk\<close>, more are rejected; no call passes more than the
  five arguments a helper can take.\<close>

theorem print_macros_call:
  assumes "length args \<le> length uninit"
  shows "bpf_printk uninit fmt args =
     (if length args \<le> 3 then Some (Trace_printk fmt (Suc (length fmt)) args)
      else if length args \<le> 12 then Some (Trace_vprintk fmt (Suc (length fmt)) args (8 * length args)) else None)"
    and "BPF_SEQ_PRINTF uninit seq fmt args = (if length args \<le> 12 then Some (Seq_printf seq fmt (Suc (length fmt)) args (8 * length args)) else None)"
    and "BPF_SNPRINTF uninit out sz fmt args = (if length args \<le> 12 then Some (Snprintf out sz fmt args (8 * length args)) else None)"
    and "bpf_printk uninit fmt args = Some c \<Longrightarrow> call_arity c \<le> 5"
  using assms
  by (auto simp: bpf_printk_def bpf_pick_printk_eq bpf_printk1_def bpf_vprintk_def BPF_SEQ_PRINTF_def BPF_SNPRINTF_def params_eq split: if_splits)

end
