(* ===== verification/Bpf_Iter.thy ===== *)
theory Bpf_Iter
  imports Ko_Prelude "HOL-Library.Monad_Syntax"
begin

text \<open>
  The loops of \<^verbatim>\<open>bpf_helpers.h\<close> over the open-coded iterators of the kernel: \<^verbatim>\<open>bpf_for_each\<close>, \<^verbatim>\<open>bpf_for\<close> and \<^verbatim>\<open>bpf_repeat\<close>. The iterator belongs to the
  kernel and is a parameter, with \<open>num_iterator\<close> what the kernel promises of the numeric one. A loop need not end when the iterator never does: it
  is a partial function, and \<open>None\<close> stands for a loop that does not return. Shown: with such an iterator the loops end, run their
  body once for each number in order until it leaves, and destroy the iterator once, however the body is left.
\<close>

subsection \<open>The macros\<close>

text \<open>A body goes on to the next element, or leaves the loop by \<^verbatim>\<open>break\<close> or \<^verbatim>\<open>return\<close>.\<close>

datatype flow = Next | Leave

partial_function (option) iter_loop ::
    "('it \<Rightarrow> 'e option \<times> 'it) \<Rightarrow> ('e \<Rightarrow> bool) \<Rightarrow> ('e \<Rightarrow> 's \<Rightarrow> 's \<times> flow) \<Rightarrow> 'it \<Rightarrow> 's \<Rightarrow> ('it \<times> 's) option" where
  "iter_loop next check body it st =
     (case next it of
        (None, it') \<Rightarrow> Some (it', st)
      | (Some x, it') \<Rightarrow>
          if check x then
            (case body x st of
               (st', Next) \<Rightarrow> iter_loop next check body it' st'
             | (st', Leave) \<Rightarrow> Some (it', st'))
          else Some (it', st))"

definition bpf_for_each ::
    "('a \<Rightarrow> 'it) \<Rightarrow> ('it \<Rightarrow> 'e option \<times> 'it) \<Rightarrow> ('it \<Rightarrow> 'd) \<Rightarrow> 'a \<Rightarrow> ('e \<Rightarrow> 's \<Rightarrow> 's \<times> flow) \<Rightarrow> 's \<Rightarrow> ('d \<times> 's) option" where
  "bpf_for_each new next destroy args body st =
     do { (it, st') \<leftarrow> iter_loop next (\<lambda>_. True) body (new args) st; Some (destroy it, st') }"

definition bpf_for ::
    "(int \<Rightarrow> int \<Rightarrow> 'it) \<Rightarrow> ('it \<Rightarrow> int option \<times> 'it) \<Rightarrow> ('it \<Rightarrow> 'd) \<Rightarrow> int \<Rightarrow> int \<Rightarrow> (int \<Rightarrow> 's \<Rightarrow> 's \<times> flow) \<Rightarrow> 's \<Rightarrow> ('d \<times> 's) option" where
  "bpf_for new next destroy start end body st =
     do { (it, st') \<leftarrow> iter_loop next (\<lambda>i. i \<ge> start \<and> i < end) body (new start end) st; Some (destroy it, st') }"

definition bpf_repeat ::
    "(int \<Rightarrow> int \<Rightarrow> 'it) \<Rightarrow> ('it \<Rightarrow> int option \<times> 'it) \<Rightarrow> ('it \<Rightarrow> 'd) \<Rightarrow> int \<Rightarrow> ('s \<Rightarrow> 's \<times> flow) \<Rightarrow> 's \<Rightarrow> ('d \<times> 's) option" where
  "bpf_repeat new next destroy n body st =
     do { (it, st') \<leftarrow> iter_loop next (\<lambda>_. True) (\<lambda>_. body) (new 0 n) st; Some (destroy it, st') }"

subsection \<open>Iterators\<close>

text \<open>The elements that an iterator yields before it is exhausted.\<close>

inductive iterates :: "('it \<Rightarrow> 'e option \<times> 'it) \<Rightarrow> 'it \<Rightarrow> 'e list \<Rightarrow> bool" for "next" where
  iter_done: "fst (next it) = None \<Longrightarrow> iterates next it []"
| iter_step: "next it = (Some x, it') \<Longrightarrow> iterates next it' xs \<Longrightarrow> iterates next it (x # xs)"

text \<open>The numeric iterator refuses a range that is empty the wrong way round or longer than the kernel allows a loop to be; the macros ignore the error,
  and the iterator is then exhausted from the start.\<close>

definition BPF_MAX_LOOPS :: int where
  "BPF_MAX_LOOPS = 8 * 1024 * 1024"

definition num_range :: "int \<Rightarrow> int \<Rightarrow> int list" where
  "num_range start end = (if end - start \<le> BPF_MAX_LOOPS then [start..end - 1] else [])"

definition num_iterator :: "(int \<Rightarrow> int \<Rightarrow> 'it) \<Rightarrow> ('it \<Rightarrow> int option \<times> 'it) \<Rightarrow> bool" where
  "num_iterator new next \<longleftrightarrow> (\<forall>start end. iterates next (new start end) (num_range start end))"

fun run_body :: "('e \<Rightarrow> 's \<Rightarrow> 's \<times> flow) \<Rightarrow> 'e list \<Rightarrow> 's \<Rightarrow> 's" where
  "run_body body [] st = st"
| "run_body body (x # xs) st = (case body x st of (st', Next) \<Rightarrow> run_body body xs st' | (st', Leave) \<Rightarrow> st')"

lemma iter_loop_returns:
  "iterates next it xs \<Longrightarrow> list_all check xs \<Longrightarrow> \<exists>it'. iter_loop next check body it st = Some (it', run_body body xs st)"
proof (induction arbitrary: st rule: iterates.induct)
  case (iter_done it)
  then show ?case by (cases "next it") (simp add: iter_loop.simps [of "next"])
next
  case (iter_step it x it' xs)
  then show ?case by (cases "body x st") (simp add: iter_loop.simps [of "next" check body it] split: flow.split)
qed

text \<open>Only what the body does on elements that pass the check matters, whatever the iterator yields.\<close>

lemma iter_loop_cong_Some:
  "iter_loop next check body it st = Some r \<Longrightarrow> (\<And>x st. check x \<Longrightarrow> body x st = body' x st) \<Longrightarrow>
     iter_loop next check body' it st = Some r"
proof (induction "next" check body it st r rule: iter_loop.raw_induct [rotated 1, consumes 1, case_names step])
  case (step loop "next" check body it st r)
  have ih: "loop next check body i x = Some r \<Longrightarrow> iter_loop next check body' i x = Some r" for i x
    using step(1) [of "next" check body i x r] step(3) by blast
  show ?case
  proof (cases "next it")
    case (Pair y it')
    then show ?thesis
      using step(2,3) by (subst iter_loop.simps) (auto intro: ih split: option.splits if_splits prod.splits flow.splits)
  qed
qed

lemma iter_loop_cong:
  assumes "\<And>x st. check x \<Longrightarrow> body x st = body' x st"
  shows "iter_loop next check body it st = iter_loop next check body' it st"
  using iter_loop_cong_Some [of "next" check body it st _ body'] iter_loop_cong_Some [of "next" check body' it st _ body] assms
  by (metis not_Some_eq)

text \<open>The loops of the header. With the numeric iterator of the kernel, \<^verbatim>\<open>bpf_for\<close> and \<^verbatim>\<open>bpf_repeat\<close> end; they run the body for the numbers of the range in order
  until it leaves, not at all for a range that the kernel refuses, and hand the iterator to its destructor when they end. With any iterator, a body
  of \<^verbatim>\<open>bpf_for\<close> only ever sees numbers of the range.\<close>

theorem bpf_for_exact:
  "(num_iterator new next \<longrightarrow>
     (\<exists>it. bpf_for new next destroy start end body st = Some (destroy it, run_body body (num_range start end) st)) \<and>
     (\<exists>it. bpf_repeat new next destroy n body1 st = Some (destroy it, run_body (\<lambda>_. body1) (num_range 0 n) st))) \<and>
   ((\<forall>i st. start \<le> i \<and> i < end \<longrightarrow> body i st = body' i st) \<longrightarrow>
     bpf_for new next destroy start end body st = bpf_for new next destroy start end body' st)"
proof (intro conjI impI)
  assume n: "num_iterator new next"
  have "list_all (\<lambda>i. i \<ge> start \<and> i < end) (num_range start end)" by (simp add: num_range_def list_all_iff)
  with n iter_loop_returns [of "next" "new start end" "num_range start end" "\<lambda>i. i \<ge> start \<and> i < end" body st]
  show "\<exists>it. bpf_for new next destroy start end body st = Some (destroy it, run_body body (num_range start end) st)"
    by (auto simp: bpf_for_def num_iterator_def)
  have "list_all (\<lambda>_. True) (num_range 0 n)" by (simp add: list_all_iff)
  with n iter_loop_returns [of "next" "new 0 n" "num_range 0 n" "\<lambda>_. True" "\<lambda>_. body1" st]
  show "\<exists>it. bpf_repeat new next destroy n body1 st = Some (destroy it, run_body (\<lambda>_. body1) (num_range 0 n) st)"
    by (auto simp: bpf_repeat_def num_iterator_def)
next
  assume b: "\<forall>i st. start \<le> i \<and> i < end \<longrightarrow> body i st = body' i st"
  have "iter_loop next (\<lambda>i. i \<ge> start \<and> i < end) body (new start end) st = iter_loop next (\<lambda>i. i \<ge> start \<and> i < end) body' (new start end) st"
    by (rule iter_loop_cong) (use b in simp)
  then show "bpf_for new next destroy start end body st = bpf_for new next destroy start end body' st" by (simp add: bpf_for_def)
qed

text \<open>An iterator that keeps the numbers to come; the body sums the numbers and leaves at three.\<close>

definition list_next :: "int list \<Rightarrow> int option \<times> int list" where
  "list_next xs = (case xs of [] \<Rightarrow> (None, []) | x # rest \<Rightarrow> (Some x, rest))"

lemma list_iterates: "iterates list_next xs xs"
  by (induction xs) (auto intro: iterates.intros simp: list_next_def)

theorem bpf_for_exact_witness:
  "\<exists>it. bpf_for num_range list_next id 1 5 (\<lambda>i s. (s + i, if i = 3 then Leave else Next)) 0 = Some (id it, 6)"
proof -
  let ?b = "\<lambda>i s :: int. (s + i, if i = 3 then Leave else Next)"
  have "num_iterator num_range list_next" by (simp add: num_iterator_def list_iterates)
  moreover have "run_body ?b (num_range 1 5) 0 = 6" by (simp add: num_range_def BPF_MAX_LOOPS_def upto_rec1)
  ultimately show ?thesis using bpf_for_exact [of num_range list_next id 1 5 ?b 0 0 "\<lambda>s. (s, Next)" ?b] by fastforce
qed

end
