(* ===== verification/Pt_Regs.thy ===== *)
theory Pt_Regs
  imports Ko_Prelude
begin

text \<open>
  The register tables of \<^verbatim>\<open>bpf_tracing.h\<close>: for every architecture the members of \<^verbatim>\<open>struct pt_regs\<close> that hold the arguments of a function and of a system
  call, the return address, the frame pointer, the result, the stack pointer and the instruction pointer, and the
  choice of the architecture by the macros that the build defines. Shown: the tables of all architectures are well formed, with
  as many argument registers as the header says.
\<close>

subsection \<open>Choosing the target\<close>

datatype target = X86 | S390 | Arm | Arm64 | Mips | Powerpc | Sparc | Riscv | Arc | Loongarch

text \<open>\<open>def\<close> tells which macros are defined; \<open>xlen\<close> is \<^verbatim>\<open>__riscv_xlen\<close>.\<close>

definition bpf_target :: "(string \<Rightarrow> bool) \<Rightarrow> nat \<Rightarrow> target option" where
  "bpf_target def xlen =
     (if def ''__TARGET_ARCH_x86'' then Some X86
      else if def ''__TARGET_ARCH_s390'' then Some S390
      else if def ''__TARGET_ARCH_arm'' then Some Arm
      else if def ''__TARGET_ARCH_arm64'' then Some Arm64
      else if def ''__TARGET_ARCH_mips'' then Some Mips
      else if def ''__TARGET_ARCH_powerpc'' then Some Powerpc
      else if def ''__TARGET_ARCH_sparc'' then Some Sparc
      else if def ''__TARGET_ARCH_riscv'' then Some Riscv
      else if def ''__TARGET_ARCH_arc'' then Some Arc
      else if def ''__TARGET_ARCH_loongarch'' then Some Loongarch
      else if def ''__x86_64__'' then Some X86
      else if def ''__s390__'' then Some S390
      else if def ''__arm__'' then Some Arm
      else if def ''__aarch64__'' then Some Arm64
      else if def ''__mips__'' then Some Mips
      else if def ''__powerpc__'' then Some Powerpc
      else if def ''__sparc__'' then Some Sparc
      else if def ''__riscv'' \<and> xlen = 64 then Some Riscv
      else if def ''__arc__'' then Some Arc
      else if def ''__loongarch__'' then Some Loongarch
      else None)"

subsection \<open>The tables\<close>

text \<open>A register is a member of the record, or stands for the register of a function argument. \<open>None\<close> is \<^verbatim>\<open>__unsupported__\<close>, which is no member. \<open>pt_cast\<close> is the record
  that the pointer is cast to, \<open>pt_parm1\<close> the one through which the first argument of a system call is read with CO-RE,
  and \<open>pt_wrapped\<close> tells whether the arguments of a system call are in a record of their own.\<close>

datatype pt_reg = Member string | Parm nat

record pt_table =
  pt_cast :: "string option"
  pt_parms :: "string list"
  pt_syscall :: "pt_reg list"
  pt_parm1 :: "string option"
  pt_wrapped :: bool
  pt_ret :: "string option"
  pt_fp :: "string option"
  pt_rc :: string
  pt_sp :: string
  pt_ip :: string

definition pt_x86_kernel :: pt_table where
  "pt_x86_kernel = \<lparr>pt_cast = None,
     pt_parms = [''di'', ''si'', ''dx'', ''cx'', ''r8'', ''r9''],
     pt_syscall = [Parm 1, Parm 2, Parm 3, Member ''r10'', Parm 5, Parm 6],
     pt_parm1 = None, pt_wrapped = True,
     pt_ret = Some ''sp'', pt_fp = Some ''bp'', pt_rc = ''ax'', pt_sp = ''sp'', pt_ip = ''ip''\<rparr>"

definition pt_i386 :: pt_table where
  "pt_i386 = \<lparr>pt_cast = None,
     pt_parms = [''eax'', ''edx'', ''ecx''],
     pt_syscall = [Member ''ebx'', Member ''ecx'', Member ''edx'', Member ''esi'', Member ''edi'', Member ''ebp''],
     pt_parm1 = None, pt_wrapped = True,
     pt_ret = Some ''esp'', pt_fp = Some ''ebp'', pt_rc = ''eax'', pt_sp = ''esp'', pt_ip = ''eip''\<rparr>"

definition pt_x86_64 :: pt_table where
  "pt_x86_64 = \<lparr>pt_cast = None,
     pt_parms = [''rdi'', ''rsi'', ''rdx'', ''rcx'', ''r8'', ''r9''],
     pt_syscall = [Parm 1, Parm 2, Parm 3, Member ''r10'', Parm 5, Parm 6],
     pt_parm1 = None, pt_wrapped = True,
     pt_ret = Some ''rsp'', pt_fp = Some ''rbp'', pt_rc = ''rax'', pt_sp = ''rsp'', pt_ip = ''rip''\<rparr>"

definition pt_s390 :: pt_table where
  "pt_s390 = \<lparr>pt_cast = Some ''user_pt_regs'',
     pt_parms = [''gprs[2]'', ''gprs[3]'', ''gprs[4]'', ''gprs[5]'', ''gprs[6]''],
     pt_syscall = [Member ''orig_gpr2'', Parm 2, Parm 3, Parm 4, Parm 5, Member ''gprs[7]''],
     pt_parm1 = Some ''pt_regs___s390'', pt_wrapped = True,
     pt_ret = Some ''gprs[14]'', pt_fp = Some ''gprs[11]'', pt_rc = ''gprs[2]'', pt_sp = ''gprs[15]'', pt_ip = ''psw.addr''\<rparr>"

definition pt_arm :: pt_table where
  "pt_arm = \<lparr>pt_cast = None,
     pt_parms = [''uregs[0]'', ''uregs[1]'', ''uregs[2]'', ''uregs[3]''],
     pt_syscall = [Parm 1, Parm 2, Parm 3, Parm 4, Member ''uregs[4]'', Member ''uregs[5]'', Member ''uregs[6]''],
     pt_parm1 = None, pt_wrapped = True,
     pt_ret = Some ''uregs[14]'', pt_fp = Some ''uregs[11]'', pt_rc = ''uregs[0]'', pt_sp = ''uregs[13]'', pt_ip = ''uregs[12]''\<rparr>"

definition pt_arm64 :: pt_table where
  "pt_arm64 = \<lparr>pt_cast = Some ''struct user_pt_regs'',
     pt_parms = [''regs[0]'', ''regs[1]'', ''regs[2]'', ''regs[3]'', ''regs[4]'', ''regs[5]'', ''regs[6]'', ''regs[7]''],
     pt_syscall = [Member ''orig_x0'', Parm 2, Parm 3, Parm 4, Parm 5, Parm 6],
     pt_parm1 = Some ''pt_regs___arm64'', pt_wrapped = True,
     pt_ret = Some ''regs[30]'', pt_fp = Some ''regs[29]'', pt_rc = ''regs[0]'', pt_sp = ''sp'', pt_ip = ''pc''\<rparr>"

definition pt_mips :: pt_table where
  "pt_mips = \<lparr>pt_cast = None,
     pt_parms = [''regs[4]'', ''regs[5]'', ''regs[6]'', ''regs[7]'', ''regs[8]'', ''regs[9]'', ''regs[10]'', ''regs[11]''],
     pt_syscall = [Parm 1, Parm 2, Parm 3, Parm 4, Parm 5, Parm 6],
     pt_parm1 = None, pt_wrapped = True,
     pt_ret = Some ''regs[31]'', pt_fp = Some ''regs[30]'', pt_rc = ''regs[2]'', pt_sp = ''regs[29]'', pt_ip = ''cp0_epc''\<rparr>"

definition pt_powerpc :: "bool \<Rightarrow> pt_table" where
  "pt_powerpc arch64 = \<lparr>pt_cast = None,
     pt_parms = [''gpr[3]'', ''gpr[4]'', ''gpr[5]'', ''gpr[6]'', ''gpr[7]'', ''gpr[8]'', ''gpr[9]'', ''gpr[10]''],
     pt_syscall = [Member ''orig_gpr3'', Parm 2, Parm 3, Parm 4, Parm 5, Parm 6] @ (if \<not> arch64 then [Parm 7] else []),
     pt_parm1 = None, pt_wrapped = False,
     pt_ret = Some ''regs[31]'', pt_fp = None, pt_rc = ''gpr[3]'', pt_sp = ''sp'', pt_ip = ''nip''\<rparr>"

definition pt_sparc :: "bool \<Rightarrow> pt_table" where
  "pt_sparc arch64 = \<lparr>pt_cast = None,
     pt_parms = [''u_regs[UREG_I0]'', ''u_regs[UREG_I1]'', ''u_regs[UREG_I2]'', ''u_regs[UREG_I3]'', ''u_regs[UREG_I4]'', ''u_regs[UREG_I5]''],
     pt_syscall = [Parm 1, Parm 2, Parm 3, Parm 4, Parm 5, Parm 6],
     pt_parm1 = None, pt_wrapped = True,
     pt_ret = Some ''u_regs[UREG_I7]'', pt_fp = None, pt_rc = ''u_regs[UREG_I0]'', pt_sp = ''u_regs[UREG_FP]'',
     pt_ip = (if arch64 then ''tpc'' else ''pc'')\<rparr>"

definition pt_riscv :: pt_table where
  "pt_riscv = \<lparr>pt_cast = Some ''struct user_regs_struct'',
     pt_parms = [''a0'', ''a1'', ''a2'', ''a3'', ''a4'', ''a5'', ''a6'', ''a7''],
     pt_syscall = [Parm 1, Parm 2, Parm 3, Parm 4, Parm 5, Parm 6],
     pt_parm1 = None, pt_wrapped = False,
     pt_ret = Some ''ra'', pt_fp = Some ''s0'', pt_rc = ''a0'', pt_sp = ''sp'', pt_ip = ''pc''\<rparr>"

definition pt_arc :: pt_table where
  "pt_arc = \<lparr>pt_cast = Some ''struct user_regs_struct'',
     pt_parms = [''scratch.r0'', ''scratch.r1'', ''scratch.r2'', ''scratch.r3'', ''scratch.r4'', ''scratch.r5'', ''scratch.r6'', ''scratch.r7''],
     pt_syscall = [Parm 1, Parm 2, Parm 3, Parm 4, Parm 5, Parm 6],
     pt_parm1 = None, pt_wrapped = False,
     pt_ret = Some ''scratch.blink'', pt_fp = Some ''scratch.fp'', pt_rc = ''scratch.r0'', pt_sp = ''scratch.sp'', pt_ip = ''scratch.ret''\<rparr>"

definition pt_loongarch :: pt_table where
  "pt_loongarch = \<lparr>pt_cast = Some ''struct user_pt_regs'',
     pt_parms = [''regs[4]'', ''regs[5]'', ''regs[6]'', ''regs[7]'', ''regs[8]'', ''regs[9]'', ''regs[10]'', ''regs[11]''],
     pt_syscall = [Parm 1, Parm 2, Parm 3, Parm 4, Parm 5, Parm 6],
     pt_parm1 = None, pt_wrapped = False,
     pt_ret = Some ''regs[1]'', pt_fp = Some ''regs[22]'', pt_rc = ''regs[4]'', pt_sp = ''regs[3]'', pt_ip = ''csr_era''\<rparr>"

text \<open>The table that the target and three more macros select.\<close>

fun pt_table_of :: "(string \<Rightarrow> bool) \<Rightarrow> target \<Rightarrow> pt_table" where
  "pt_table_of def X86 =
     (if def ''__KERNEL__'' \<or> def ''__VMLINUX_H__'' then pt_x86_kernel else if def ''__i386__'' then pt_i386 else pt_x86_64)"
| "pt_table_of def S390 = pt_s390"
| "pt_table_of def Arm = pt_arm"
| "pt_table_of def Arm64 = pt_arm64"
| "pt_table_of def Mips = pt_mips"
| "pt_table_of def Powerpc = pt_powerpc (def ''__arch64__'')"
| "pt_table_of def Sparc = pt_sparc (def ''__arch64__'')"
| "pt_table_of def Riscv = pt_riscv"
| "pt_table_of def Arc = pt_arc"
| "pt_table_of def Loongarch = pt_loongarch"

subsection \<open>Registers by number\<close>

text \<open>Arguments that the architecture does not pass in registers are \<^verbatim>\<open>__unsupported__\<close>.\<close>

definition parm_reg :: "pt_table \<Rightarrow> nat \<Rightarrow> string option" where
  "parm_reg tbl n = (if 1 \<le> n \<and> n \<le> length (pt_parms tbl) then Some (pt_parms tbl ! (n - 1)) else None)"

fun pt_resolve :: "pt_table \<Rightarrow> pt_reg \<Rightarrow> string option" where
  "pt_resolve tbl (Member m) = Some m"
| "pt_resolve tbl (Parm n) = parm_reg tbl n"

definition syscall_reg :: "pt_table \<Rightarrow> nat \<Rightarrow> string option" where
  "syscall_reg tbl n = (if 1 \<le> n \<and> n \<le> length (pt_syscall tbl) then pt_resolve tbl (pt_syscall tbl ! (n - 1)) else None)"

definition syscall_regs :: "pt_table \<Rightarrow> string list" where
  "syscall_regs tbl = List.map_filter (pt_resolve tbl) (pt_syscall tbl)"

definition table_ok :: "pt_table \<Rightarrow> bool" where
  "table_ok tbl \<longleftrightarrow> 3 \<le> length (pt_parms tbl) \<and> length (pt_parms tbl) \<le> 8 \<and> distinct (pt_parms tbl) \<and>
     length (pt_syscall tbl) \<in> {6, 7} \<and> list_all (\<lambda>r. pt_resolve tbl r \<noteq> None) (pt_syscall tbl) \<and> distinct (syscall_regs tbl)"

text \<open>Three to eight arguments of a function and six or seven of a system call are passed in registers, all different.\<close>

lemma pt_tables_ok: "table_ok (pt_table_of def t)"
proof -
  have "list_all table_ok [pt_x86_kernel, pt_i386, pt_x86_64, pt_s390, pt_arm, pt_arm64, pt_mips, pt_powerpc False, pt_powerpc True,
      pt_sparc False, pt_sparc True, pt_riscv, pt_arc, pt_loongarch]"
    by code_simp
  then show ?thesis by (cases t; cases "def ''__arch64__''") auto
qed

lemma syscall_reg_eq:
  assumes "table_ok tbl" and "1 \<le> n" and "n \<le> length (pt_syscall tbl)"
  shows "syscall_reg tbl n = Some (syscall_regs tbl ! (n - 1)) \<and> length (syscall_regs tbl) = length (pt_syscall tbl)"
proof -
  have r: "list_all (\<lambda>r. pt_resolve tbl r \<noteq> None) rs \<Longrightarrow> List.map_filter (pt_resolve tbl) rs = map (\<lambda>r. the (pt_resolve tbl r)) rs" for rs
    by (induction rs) (auto simp: map_filter_simps)
  have a: "list_all (\<lambda>r. pt_resolve tbl r \<noteq> None) (pt_syscall tbl)" using assms(1) by (simp add: table_ok_def)
  moreover have "pt_syscall tbl ! (n - 1) \<in> set (pt_syscall tbl)" using assms(2,3) by (intro nth_mem) simp
  ultimately have "pt_resolve tbl (pt_syscall tbl ! (n - 1)) \<noteq> None" by (auto simp: list_all_iff)
  then show ?thesis using assms(2,3) by (auto simp: syscall_reg_def syscall_regs_def r [OF a])
qed

lemma parm1_defined: "table_ok tbl \<Longrightarrow> parm_reg tbl 1 = Some (hd (pt_parms tbl))"
  by (cases "pt_parms tbl") (auto simp: table_ok_def parm_reg_def)


end
