(* ===== verification/Bpf_Tracing.thy ===== *)
theory Bpf_Tracing
  imports Pt_Regs Bpf_Macro
begin

text \<open>
  The macros of \<^verbatim>\<open>bpf_tracing.h\<close> that give a BPF program typed arguments: \<^verbatim>\<open>BPF_PROG\<close> and \<^verbatim>\<open>BPF_PROG2\<close> take them from the array of the context,
  \<^verbatim>\<open>BPF_KPROBE\<close>, \<^verbatim>\<open>BPF_KRETPROBE\<close> and \<^verbatim>\<open>BPF_KSYSCALL\<close> from the registers. A macro expands to a call of the program with a list of
  argument expressions; \<open>None\<close> stands for a use that the compiler rejects. \<open>rec\<close> gives the value of a member of the record at an address.
\<close>

subsection \<open>Reading registers\<close>

text \<open>An argument expression: the context, an element of its array, or a member of a record, read directly or with \<^verbatim>\<open>BPF_CORE_READ\<close>.\<close>

datatype access = Direct | Core
datatype arg_expr = Ctx | Slot nat | Reg access u64 string

fun eval_arg :: "(u64 \<Rightarrow> string \<Rightarrow> u64) \<Rightarrow> (nat \<Rightarrow> u64) \<Rightarrow> u64 \<Rightarrow> arg_expr \<Rightarrow> u64" where
  "eval_arg rec slots ctx Ctx = ctx"
| "eval_arg rec slots ctx (Slot i) = slots i"
| "eval_arg rec slots ctx (Reg a x m) = rec x m"

definition PT_REGS_PARM :: "pt_table \<Rightarrow> nat \<Rightarrow> u64 \<Rightarrow> arg_expr option" where
  "PT_REGS_PARM tbl n x = map_option (Reg Direct x) (parm_reg tbl n)"

definition PT_REGS_PARM_CORE :: "pt_table \<Rightarrow> nat \<Rightarrow> u64 \<Rightarrow> arg_expr option" where
  "PT_REGS_PARM_CORE tbl n x = map_option (Reg Core x) (parm_reg tbl n)"

datatype special_reg = RET | FP | RC | SP | IP

fun special :: "pt_table \<Rightarrow> special_reg \<Rightarrow> string option" where
  "special tbl RET = pt_ret tbl"
| "special tbl FP = pt_fp tbl"
| "special tbl RC = Some (pt_rc tbl)"
| "special tbl SP = Some (pt_sp tbl)"
| "special tbl IP = Some (pt_ip tbl)"

definition PT_REGS_SPECIAL :: "pt_table \<Rightarrow> special_reg \<Rightarrow> u64 \<Rightarrow> arg_expr option" where
  "PT_REGS_SPECIAL tbl r x = map_option (Reg Direct x) (special tbl r)"

definition PT_REGS_SPECIAL_CORE :: "pt_table \<Rightarrow> special_reg \<Rightarrow> u64 \<Rightarrow> arg_expr option" where
  "PT_REGS_SPECIAL_CORE tbl r x = map_option (Reg Core x) (special tbl r)"

text \<open>On two architectures the first argument of a system call is only in a record that CO-RE knows.\<close>

definition PT_REGS_PARM_CORE_SYSCALL :: "pt_table \<Rightarrow> nat \<Rightarrow> u64 \<Rightarrow> arg_expr option" where
  "PT_REGS_PARM_CORE_SYSCALL tbl n x = map_option (Reg Core x) (syscall_reg tbl n)"

definition PT_REGS_PARM_SYSCALL :: "pt_table \<Rightarrow> nat \<Rightarrow> u64 \<Rightarrow> arg_expr option" where
  "PT_REGS_PARM_SYSCALL tbl n x =
     (if n = 1 \<and> pt_parm1 tbl \<noteq> None then PT_REGS_PARM_CORE_SYSCALL tbl n x else map_option (Reg Direct x) (syscall_reg tbl n))"

definition PT_REGS_SYSCALL_REGS :: "pt_table \<Rightarrow> u64 \<Rightarrow> arg_expr option" where
  "PT_REGS_SYSCALL_REGS tbl ctx = (if pt_wrapped tbl then PT_REGS_PARM tbl 1 ctx else Some Ctx)"

text \<open>The return address: in a register, or read from memory.\<close>

datatype ret_ip = Ip_reg arg_expr | Ip_mem arg_expr nat

definition BPF_KPROBE_READ_RET_IP :: "target \<Rightarrow> pt_table \<Rightarrow> u64 \<Rightarrow> ret_ip option" where
  "BPF_KPROBE_READ_RET_IP t tbl ctx =
     (case t of
        Powerpc \<Rightarrow> Some (Ip_reg (Reg Direct ctx ''link''))
      | Sparc \<Rightarrow> map_option Ip_reg (PT_REGS_SPECIAL tbl RET ctx)
      | _ \<Rightarrow> map_option (\<lambda>e. Ip_mem e 0) (PT_REGS_SPECIAL tbl RET ctx))"

definition BPF_KRETPROBE_READ_RET_IP :: "target \<Rightarrow> pt_table \<Rightarrow> u64 \<Rightarrow> ret_ip option" where
  "BPF_KRETPROBE_READ_RET_IP t tbl ctx =
     (if t \<in> {Powerpc, Sparc} then BPF_KPROBE_READ_RET_IP t tbl ctx
      else map_option (\<lambda>e. Ip_mem e 8) (PT_REGS_SPECIAL tbl FP ctx))"

text \<open>On every target the two macros compile.\<close>

lemma ret_ip_defined:
  "BPF_KPROBE_READ_RET_IP t (pt_table_of def t) ctx \<noteq> None \<and> BPF_KRETPROBE_READ_RET_IP t (pt_table_of def t) ctx \<noteq> None"
  by (cases t) (simp_all add: BPF_KPROBE_READ_RET_IP_def BPF_KRETPROBE_READ_RET_IP_def PT_REGS_SPECIAL_def pt_x86_kernel_def pt_i386_def
      pt_x86_64_def pt_s390_def pt_arm_def pt_arm64_def pt_mips_def pt_sparc_def pt_riscv_def pt_arc_def pt_loongarch_def)

text \<open>Without a target every register macro is an error of the compiler.\<close>

definition with_target :: "(string \<Rightarrow> bool) \<Rightarrow> nat \<Rightarrow> (target \<Rightarrow> pt_table \<Rightarrow> 'a option) \<Rightarrow> 'a option" where
  "with_target def xlen macro = (case bpf_target def xlen of None \<Rightarrow> None | Some t \<Rightarrow> macro t (pt_table_of def t))"

lemma with_target_none: "(\<And>m. \<not> def m) \<Longrightarrow> with_target def xlen macro = None"
  by (simp add: with_target_def bpf_target_def)

subsection \<open>Argument lists\<close>

text \<open>The shape that the families \<^verbatim>\<open>___bpf_ctx_castN\<close>, \<^verbatim>\<open>___bpf_kprobe_argsN\<close>, \<^verbatim>\<open>___bpf_syscall_argsN\<close> and \<^verbatim>\<open>___bpf_syswrap_argsN\<close> share: the member of number \<open>n\<close> drops one of its \<open>n\<close> arguments, expands the member below
  and adds the \<open>n\<close>-th expression behind it. A family has \<open>m\<close> members above the first.\<close>

fun arg_macros :: "nat \<Rightarrow> (nat \<Rightarrow> arg_expr option) \<Rightarrow> nat \<Rightarrow> 'a list \<Rightarrow> arg_expr list option" where
  "arg_macros m f 0 xs = (if xs = [] then Some [Ctx] else None)"
| "arg_macros m f (Suc k) xs =
     (case xs of
        [] \<Rightarrow> None
      | x # args \<Rightarrow> if Suc k \<le> m then do { as \<leftarrow> arg_macros m f k args; a \<leftarrow> f (Suc k); Some (as @ [a]) } else None)"

definition ctx_cast :: "'a list \<Rightarrow> arg_expr list option" where
  "ctx_cast xs = bpf_apply (arg_macros 12 (\<lambda>n. Some (Slot (n - 1)))) xs"

definition kprobe_args :: "pt_table \<Rightarrow> u64 \<Rightarrow> 'a list \<Rightarrow> arg_expr list option" where
  "kprobe_args tbl ctx xs = bpf_apply (arg_macros 8 (\<lambda>n. PT_REGS_PARM tbl n ctx)) xs"

definition kretprobe_args :: "pt_table \<Rightarrow> u64 \<Rightarrow> 'a list \<Rightarrow> arg_expr list option" where
  "kretprobe_args tbl ctx xs = bpf_apply (arg_macros 1 (\<lambda>n. PT_REGS_SPECIAL tbl RC ctx)) xs"

definition syscall_args :: "pt_table \<Rightarrow> u64 \<Rightarrow> 'a list \<Rightarrow> arg_expr list option" where
  "syscall_args tbl regs xs = bpf_apply (arg_macros 7 (\<lambda>n. PT_REGS_PARM_SYSCALL tbl n regs)) xs"

definition syswrap_args :: "pt_table \<Rightarrow> u64 \<Rightarrow> 'a list \<Rightarrow> arg_expr list option" where
  "syswrap_args tbl regs xs = bpf_apply (arg_macros 7 (\<lambda>n. PT_REGS_PARM_CORE_SYSCALL tbl n regs)) xs"

text \<open>The functions that the macros define: each calls the user's function with the expanded list.\<close>

definition BPF_PROG :: "(u64 list \<Rightarrow> 'r) \<Rightarrow> 'a list \<Rightarrow> (nat \<Rightarrow> u64) \<Rightarrow> u64 \<Rightarrow> 'r option" where
  "BPF_PROG prog args slots ctx = do { as \<leftarrow> ctx_cast args; Some (prog (map (eval_arg (\<lambda>_ _. 0) slots ctx) as)) }"

definition BPF_KPROBE :: "pt_table \<Rightarrow> (u64 list \<Rightarrow> 'r) \<Rightarrow> 'a list \<Rightarrow> (u64 \<Rightarrow> string \<Rightarrow> u64) \<Rightarrow> u64 \<Rightarrow> 'r option" where
  "BPF_KPROBE tbl prog args rec ctx = do { as \<leftarrow> kprobe_args tbl ctx args; Some (prog (map (eval_arg rec (\<lambda>_. 0) ctx) as)) }"

definition BPF_KRETPROBE :: "pt_table \<Rightarrow> (u64 list \<Rightarrow> 'r) \<Rightarrow> 'a list \<Rightarrow> (u64 \<Rightarrow> string \<Rightarrow> u64) \<Rightarrow> u64 \<Rightarrow> 'r option" where
  "BPF_KRETPROBE tbl prog args rec ctx = do { as \<leftarrow> kretprobe_args tbl ctx args; Some (prog (map (eval_arg rec (\<lambda>_. 0) ctx) as)) }"

definition BPF_UPROBE :: "pt_table \<Rightarrow> (u64 list \<Rightarrow> 'r) \<Rightarrow> 'a list \<Rightarrow> (u64 \<Rightarrow> string \<Rightarrow> u64) \<Rightarrow> u64 \<Rightarrow> 'r option" where
  "BPF_UPROBE tbl prog args rec ctx = BPF_KPROBE tbl prog args rec ctx"

definition BPF_URETPROBE :: "pt_table \<Rightarrow> (u64 list \<Rightarrow> 'r) \<Rightarrow> 'a list \<Rightarrow> (u64 \<Rightarrow> string \<Rightarrow> u64) \<Rightarrow> u64 \<Rightarrow> 'r option" where
  "BPF_URETPROBE tbl prog args rec ctx = BPF_KRETPROBE tbl prog args rec ctx"

text \<open>The configuration of the kernel decides at run time; both branches are compiled.\<close>

definition BPF_KSYSCALL :: "pt_table \<Rightarrow> bool \<Rightarrow> (u64 list \<Rightarrow> 'r) \<Rightarrow> 'a list \<Rightarrow> (u64 \<Rightarrow> string \<Rightarrow> u64) \<Rightarrow> u64 \<Rightarrow> 'r option" where
  "BPF_KSYSCALL tbl LINUX_HAS_SYSCALL_WRAPPER prog args rec ctx =
     do { p \<leftarrow> PT_REGS_PARM tbl 1 ctx;
          let regs = (if LINUX_HAS_SYSCALL_WRAPPER then eval_arg rec (\<lambda>_. 0) ctx p else ctx);
          wrapped \<leftarrow> syswrap_args tbl regs args; plain \<leftarrow> syscall_args tbl regs args;
          Some (prog (map (eval_arg rec (\<lambda>_. 0) ctx) (if LINUX_HAS_SYSCALL_WRAPPER then wrapped else plain))) }"

subsection \<open>What the lists are\<close>

lemma arg_macros_eq:
  "arg_macros m f (length xs) xs =
     (if length xs \<le> m \<and> (\<forall>n \<in> {1..length xs}. f n \<noteq> None) then Some (Ctx # map (\<lambda>n. the (f n)) [1..<Suc (length xs)]) else None)"
proof (induction xs)
  case (Cons x xs)
  then show ?case by (cases "f (Suc (length xs))") (auto simp: atLeastAtMostSuc_conv)
qed simp

lemma args_listed:
  assumes f: "\<And>n. 1 \<le> n \<Longrightarrow> f n = (if n \<le> length es then Some (es ! (n - 1)) else None)" and m: "length es \<le> m" "m \<le> 12"
  shows "bpf_apply (arg_macros m f) xs = (if length xs \<le> length es then Some (Ctx # take (length xs) es) else None)"
proof (cases "length xs \<le> length es")
  case True
  have "map (\<lambda>n. the (f n)) [1..<Suc (length xs)] = take (length xs) es"
    using True f by (intro nth_equalityI) (auto simp del: upt_Suc)
  with True m f show ?thesis by (simp add: bpf_apply_eq arg_macros_eq del: upt_Suc)
next
  case False
  then have "1 \<le> length xs" by simp
  then have "\<exists>n \<in> {1..length xs}. f n = None" using False f [of "length xs"] by (intro bexI [of _ "length xs"]) simp_all
  with False show ?thesis by (auto simp: bpf_apply_eq arg_macros_eq)
qed

lemma ctx_cast_eq: "ctx_cast xs = (if length xs \<le> 12 then Some (Ctx # map Slot [0..<length xs]) else None)"
proof -
  have "bpf_apply (arg_macros 12 (\<lambda>n. Some (Slot (n - 1)))) xs = (if length xs \<le> 12 then Some (Ctx # map Slot [0..<length xs]) else None)"
  proof (cases "length xs \<le> 12")
    case True
    have "map (\<lambda>n. Slot (n - 1)) [1..<Suc (length xs)] = map Slot [0..<length xs]" by (intro nth_equalityI) (auto simp del: upt_Suc)
    with True show ?thesis by (simp add: bpf_apply_eq arg_macros_eq del: upt_Suc)
  qed (simp add: bpf_apply_eq)
  then show ?thesis by (simp add: ctx_cast_def)
qed

lemma kprobe_args_eq:
  assumes "table_ok tbl"
  shows "kprobe_args tbl ctx xs =
    (if length xs \<le> length (pt_parms tbl) then Some (Ctx # map (Reg Direct ctx) (take (length xs) (pt_parms tbl))) else None)"
  using args_listed [of "\<lambda>n. PT_REGS_PARM tbl n ctx" "map (Reg Direct ctx) (pt_parms tbl)" 8 xs] assms
  by (simp add: kprobe_args_def PT_REGS_PARM_def parm_reg_def table_ok_def take_map)

lemma kretprobe_args_eq:
  "kretprobe_args tbl ctx xs = (if length xs \<le> 1 then Some (Ctx # take (length xs) [Reg Direct ctx (pt_rc tbl)]) else None)"
proof -
  have "bpf_apply (arg_macros 1 (\<lambda>n. if n \<le> 1 then PT_REGS_SPECIAL tbl RC ctx else None)) xs =
      (if length xs \<le> 1 then Some (Ctx # take (length xs) [Reg Direct ctx (pt_rc tbl)]) else None)"
    using args_listed [of "\<lambda>n. if n \<le> 1 then PT_REGS_SPECIAL tbl RC ctx else None" "[Reg Direct ctx (pt_rc tbl)]" 1 xs]
    by (auto simp: PT_REGS_SPECIAL_def)
  then show ?thesis by (auto simp: kretprobe_args_def bpf_apply_eq arg_macros_eq split: if_splits)
qed

lemma syswrap_args_eq:
  assumes "table_ok tbl"
  shows "syswrap_args tbl regs xs =
    (if length xs \<le> length (pt_syscall tbl) then Some (Ctx # map (Reg Core regs) (take (length xs) (syscall_regs tbl))) else None)"
proof -
  have l: "length (syscall_regs tbl) = length (pt_syscall tbl)" "length (pt_syscall tbl) \<le> 7"
    using syscall_reg_eq [OF assms, of 1] assms by (auto simp: table_ok_def)
  have "PT_REGS_PARM_CORE_SYSCALL tbl n regs =
      (if n \<le> length (map (Reg Core regs) (syscall_regs tbl)) then Some (map (Reg Core regs) (syscall_regs tbl) ! (n - 1)) else None)"
    if "1 \<le> n" for n
    using syscall_reg_eq [OF assms that] that l by (auto simp: PT_REGS_PARM_CORE_SYSCALL_def syscall_reg_def)
  from args_listed [OF this, where m = 7 and xs = xs] l show ?thesis by (simp add: syswrap_args_def take_map)
qed

text \<open>Without the wrapper the registers are read directly, but for a first argument that only CO-RE can read.\<close>

definition plain_reads :: "pt_table \<Rightarrow> u64 \<Rightarrow> arg_expr list" where
  "plain_reads tbl regs =
     (case syscall_regs tbl of
        [] \<Rightarrow> []
      | r # rs \<Rightarrow> Reg (if pt_parm1 tbl = None then Direct else Core) regs r # map (Reg Direct regs) rs)"

lemma syscall_args_eq:
  assumes "table_ok tbl"
  shows "syscall_args tbl regs xs =
    (if length xs \<le> length (pt_syscall tbl) then Some (Ctx # take (length xs) (plain_reads tbl regs)) else None)"
proof -
  have l: "length (syscall_regs tbl) = length (pt_syscall tbl)" "length (pt_syscall tbl) \<le> 7" "syscall_regs tbl \<noteq> []"
    using syscall_reg_eq [OF assms, of 1] assms by (auto simp: table_ok_def)
  then obtain r rs where r: "syscall_regs tbl = r # rs" by (cases "syscall_regs tbl") auto
  have p: "length (plain_reads tbl regs) = length (pt_syscall tbl)" using l r by (simp add: plain_reads_def)
  have "PT_REGS_PARM_SYSCALL tbl n regs =
      (if n \<le> length (plain_reads tbl regs) then Some (plain_reads tbl regs ! (n - 1)) else None)" if n: "1 \<le> n" for n
  proof (cases "n \<le> length (pt_syscall tbl)")
    case True
    with syscall_reg_eq [OF assms n] have "syscall_reg tbl n = Some (syscall_regs tbl ! (n - 1))" by blast
    then show ?thesis using True n p l(1)
      by (cases "n = 1") (auto simp: PT_REGS_PARM_SYSCALL_def PT_REGS_PARM_CORE_SYSCALL_def plain_reads_def r nth_Cons' split: if_splits)
  next
    case False
    then show ?thesis using p by (simp add: PT_REGS_PARM_SYSCALL_def PT_REGS_PARM_CORE_SYSCALL_def syscall_reg_def)
  qed
  from args_listed [OF this, where m = 7 and xs = xs] l p show ?thesis by (simp add: syscall_args_def)
qed

lemma eval_plain: "map (eval_arg rec slots ctx) (take n (plain_reads tbl regs)) = map (rec regs) (take n (syscall_regs tbl))"
  by (cases n; cases "syscall_regs tbl") (simp_all add: plain_reads_def take_map)

text \<open>The programs get the context and as many values as they declare arguments, in order; \<^verbatim>\<open>BPF_KPROBE\<close> those that the architecture passes in registers.\<close>

lemma BPF_PROG_eq: "BPF_PROG prog args slots ctx = (if length args \<le> 12 then Some (prog (ctx # map slots [0..<length args])) else None)"
  by (simp add: BPF_PROG_def ctx_cast_eq comp_def)

lemma BPF_KPROBE_eq:
  assumes "table_ok tbl"
  shows "BPF_KPROBE tbl prog args rec ctx =
    (if length args \<le> length (pt_parms tbl) then Some (prog (ctx # map (rec ctx) (take (length args) (pt_parms tbl)))) else None)"
  by (simp add: BPF_KPROBE_def kprobe_args_eq [OF assms] comp_def)

lemma BPF_KSYSCALL_eq:
  assumes "table_ok tbl"
  shows "BPF_KSYSCALL tbl wrapper prog args rec ctx =
    (if length args \<le> length (pt_syscall tbl)
     then Some (prog (ctx # map (rec (if wrapper then rec ctx (hd (pt_parms tbl)) else ctx)) (take (length args) (syscall_regs tbl)))) else None)"
  using parm1_defined [OF assms]
  by (simp add: BPF_KSYSCALL_def PT_REGS_PARM_def syswrap_args_eq [OF assms] syscall_args_eq [OF assms] eval_plain comp_def)



subsection \<open>Arguments that are records\<close>

text \<open>\<^verbatim>\<open>BPF_PROG2\<close> is given the types, here their sizes, and the names of the arguments in turn.\<close>

datatype 'n decl_token = Ty nat | Nm 'n

definition bpf_nth2 :: "'a list \<Rightarrow> 'a option" where
  "bpf_nth2 xs = (if 26 \<le> length xs then Some (xs ! 25) else None)"

definition bpf_narg2 :: "'a list \<Rightarrow> 'a mtoken option" where
  "bpf_narg2 xs = bpf_nth2 (Underscore # map Arg xs @ map Num [12, 12, 11, 11, 10, 10, 9, 9, 8, 8, 7, 7,
     6, 6, 5, 5, 4, 4, 3, 3, 2, 2, 1, 1, 0])"

definition bpf_apply2 :: "(nat \<Rightarrow> 'a list \<Rightarrow> 'b option) \<Rightarrow> 'a list \<Rightarrow> 'b option" where
  "bpf_apply2 fn xs = (case bpf_narg2 xs of Some (Num k) \<Rightarrow> fn k xs | _ \<Rightarrow> None)"

definition treg_cnt :: "nat \<Rightarrow> nat option" where
  "treg_cnt t = (if t = 1 then Some 1 else if t = 2 then Some 1 else if t = 4 then Some 1 else if t = 8 then Some 1
     else if t = 16 then Some 2 else None)"

fun reg_cnt_macros :: "nat \<Rightarrow> 'n decl_token list \<Rightarrow> nat option" where
  "reg_cnt_macros 0 [] = Some 0"
| "reg_cnt_macros (Suc k) (Ty t # Nm x # args) =
     (if k < 12 then do { c \<leftarrow> reg_cnt_macros k args; d \<leftarrow> treg_cnt t; Some (c + d) } else None)"
| "reg_cnt_macros _ _ = None"

definition reg_cnt :: "'n decl_token list \<Rightarrow> nat option" where
  "reg_cnt xs = bpf_apply2 reg_cnt_macros xs"

text \<open>The bytes of an argument: those of the union that is initialised with one element of the array, converted to the width of the argument, or with two.\<close>

definition union_arg :: "(nat \<Rightarrow> u64) \<Rightarrow> nat \<Rightarrow> nat \<Rightarrow> bytes option" where
  "union_arg ctx t n =
     (if t = 1 then Some (le_bytes 1 (ucast (ctx n) :: u8))
      else if t = 2 then Some (le_bytes 2 (ucast (ctx n) :: u16))
      else if t = 4 then Some (le_bytes 4 (ucast (ctx n) :: u32))
      else if t = 8 then Some (le_bytes 8 (ctx n))
      else if t = 16 then Some (le_bytes 8 (ctx n) @ le_bytes 8 (ctx (n + 1)))
      else None)"

fun ctx_arg_macros :: "(nat \<Rightarrow> u64) \<Rightarrow> nat \<Rightarrow> nat \<Rightarrow> 'n decl_token list \<Rightarrow> bytes list option" where
  "ctx_arg_macros ctx 0 n xs = Some []"
| "ctx_arg_macros ctx (Suc k) n (Ty t # Nm x # args) =
     (if k < 12 then
        do { c \<leftarrow> reg_cnt_macros (Suc k) (Ty t # Nm x # args); a \<leftarrow> union_arg ctx t (n - c);
             rest \<leftarrow> ctx_arg_macros ctx k n args; Some (a # rest) }
      else None)"
| "ctx_arg_macros ctx (Suc k) n _ = None"

definition ctx_arg :: "(nat \<Rightarrow> u64) \<Rightarrow> 'n decl_token list \<Rightarrow> bytes list option" where
  "ctx_arg ctx xs = do { n \<leftarrow> reg_cnt xs; bpf_apply2 (\<lambda>k. ctx_arg_macros ctx k n) xs }"

fun ctx_decl_macros :: "nat \<Rightarrow> 'n decl_token list \<Rightarrow> (nat \<times> 'n) list option" where
  "ctx_decl_macros 0 [] = Some []"
| "ctx_decl_macros (Suc k) (Ty t # Nm x # args) =
     (if k < 12 then do { rest \<leftarrow> ctx_decl_macros k args; Some ((t, x) # rest) } else None)"
| "ctx_decl_macros _ _ = None"

definition ctx_decl :: "'n decl_token list \<Rightarrow> (nat \<times> 'n) list option" where
  "ctx_decl xs = bpf_apply2 ctx_decl_macros xs"

text \<open>The program is given its declared parameters with the values of the list, by position.\<close>

definition BPF_PROG2 :: "((nat \<times> 'n) list \<Rightarrow> bytes list \<Rightarrow> 'r) \<Rightarrow> 'n decl_token list \<Rightarrow> (nat \<Rightarrow> u64) \<Rightarrow> 'r option" where
  "BPF_PROG2 prog args ctx = do { ds \<leftarrow> ctx_decl args; as \<leftarrow> ctx_arg ctx args; Some (prog ds as) }"

subsection \<open>Where the arguments are\<close>

definition decl_tokens :: "(nat \<times> 'n) list \<Rightarrow> 'n decl_token list" where
  "decl_tokens ds = concat (map (\<lambda>(t, x). [Ty t, Nm x]) ds)"

lemma decl_tokens_simps [simp]:
  "decl_tokens [] = []" "decl_tokens ((t, x) # ds) = Ty t # Nm x # decl_tokens ds" "length (decl_tokens ds) = 2 * length ds"
  by (simp_all add: decl_tokens_def length_concat comp_def split_def sum_list_triv)

lemma bpf_narg2_eq: "length xs \<le> 24 \<Longrightarrow> bpf_narg2 xs = Some (Num ((length xs + 1) div 2))"
proof -
  let ?ys = "rev (map (\<lambda>m. Num ((m + 1) div 2)) [0..<25])"
  assume *: "length xs \<le> 24"
  have "[12, 12, 11, 11, 10, 10, 9, 9, 8, 8, 7, 7, 6, 6, 5, 5, 4, 4, 3, 3, 2, 2, 1, 1, 0] = rev (map (\<lambda>m. (m + 1) div 2) [0..<25 :: nat])" by code_simp
  then have "bpf_narg2 xs = bpf_nth2 (Underscore # map Arg xs @ ?ys)" unfolding bpf_narg2_def by (simp only: rev_map map_map comp_def)
  also have "\<dots> = Some (?ys ! (24 - length xs))" using * by (simp add: bpf_nth2_def nth_append del: upt_Suc)
  also have "?ys ! (24 - length xs) = Num ((length xs + 1) div 2)" using * by (subst rev_nth) simp_all
  finally show ?thesis .
qed

lemma bpf_narg2_long: "24 < length xs \<Longrightarrow> bpf_narg2 xs = Some (Arg (xs ! 24))"
  by (simp add: bpf_narg2_def bpf_nth2_def nth_append)

lemma bpf_apply2_eq: "bpf_apply2 fn (decl_tokens ds) = (if length ds \<le> 12 then fn (length ds) (decl_tokens ds) else None)"
  by (simp add: bpf_apply2_def bpf_narg2_eq bpf_narg2_long)

text \<open>How many elements of the array an argument takes.\<close>

definition arg_regs :: "nat \<Rightarrow> nat" where
  "arg_regs t = (if t = 16 then 2 else 1)"

definition arg_size_ok :: "nat \<Rightarrow> bool" where
  "arg_size_ok t \<longleftrightarrow> t \<in> {1, 2, 4, 8, 16}"

lemma treg_cnt_eq: "treg_cnt t = (if arg_size_ok t then Some (arg_regs t) else None)"
  by (auto simp: treg_cnt_def arg_size_ok_def arg_regs_def)

lemma reg_cnt_macros_eq:
  "length ds \<le> 12 \<Longrightarrow> reg_cnt_macros (length ds) (decl_tokens ds) =
     (if list_all (\<lambda>d. arg_size_ok (fst d)) ds then Some (sum_list (map (\<lambda>d. arg_regs (fst d)) ds)) else None)"
proof (induction ds)
  case (Cons d ds)
  then show ?case by (cases d) (simp add: treg_cnt_eq)
qed simp

lemma le_bytes_ucast:
  assumes "8 * t \<le> LENGTH('b::len)" and "t \<le> 8"
  shows "le_bytes t (ucast w :: 'b word) = take t (le_bytes 8 (w :: u64))"
proof (rule nth_equalityI)
  fix i assume "i < length (le_bytes t (ucast w :: 'b word))"
  then have i: "i < t" by simp
  have "(ucast (drop_bit (8 * i) (ucast w :: 'b word)) :: u8) = ucast (drop_bit (8 * i) w)"
  proof (rule bit_eqI)
    fix n assume "possible_bit TYPE(u8) n"
    then have "8 * i + n < LENGTH('b)" using i assms(1) by simp
    then show "bit (ucast (drop_bit (8 * i) (ucast w :: 'b word)) :: u8) n = bit (ucast (drop_bit (8 * i) w) :: u8) n"
      by (simp add: bit_ucast_iff bit_drop_bit_eq)
  qed
  then show "le_bytes t (ucast w :: 'b word) ! i = take t (le_bytes 8 w) ! i" using i assms(2) by (simp add: nth_le_bytes)
qed (use assms in simp)

text \<open>The arguments side by side in the array: each is the first bytes of the elements it takes.\<close>

fun prog2_values :: "(nat \<Rightarrow> u64) \<Rightarrow> nat \<Rightarrow> (nat \<times> 'n) list \<Rightarrow> bytes list" where
  "prog2_values ctx off [] = []"
| "prog2_values ctx off ((t, x) # ds) =
     take t (concat (map (\<lambda>i. le_bytes 8 (ctx i)) [off..<off + arg_regs t])) # prog2_values ctx (off + arg_regs t) ds"

lemma union_arg_eq: "arg_size_ok t \<Longrightarrow> union_arg ctx t n = Some (take t (concat (map (\<lambda>i. le_bytes 8 (ctx i)) [n..<n + arg_regs t])))"
  unfolding arg_size_ok_def by (auto simp: union_arg_def arg_regs_def le_bytes_ucast simp del: le_bytes.simps)

lemma ctx_arg_macros_eq:
  "length ds \<le> 12 \<Longrightarrow> list_all (\<lambda>d. arg_size_ok (fst d)) ds \<Longrightarrow>
     ctx_arg_macros ctx (length ds) (off + sum_list (map (\<lambda>d. arg_regs (fst d)) ds)) (decl_tokens ds) = Some (prog2_values ctx off ds)"
proof (induction ds arbitrary: off)
  case (Cons d ds)
  obtain t x where d: "d = (t, x)" by (cases d)
  have "reg_cnt_macros (length (d # ds)) (decl_tokens (d # ds)) = Some (sum_list (map (\<lambda>d. arg_regs (fst d)) (d # ds)))"
    using Cons.prems by (subst reg_cnt_macros_eq) simp_all
  then show ?case using Cons.IH [of "off + arg_regs t"] Cons.prems by (simp add: d union_arg_eq add.assoc)
qed simp

lemma ctx_decl_eq: "ctx_decl (decl_tokens ds) = (if length ds \<le> 12 then Some ds else None)"
proof -
  have "length ds \<le> 12 \<Longrightarrow> ctx_decl_macros (length ds) (decl_tokens ds) = Some ds" by (induction ds) auto
  then show ?thesis by (simp add: ctx_decl_def bpf_apply2_eq)
qed

text \<open>Arguments that are records. \<^verbatim>\<open>BPF_PROG2\<close> lays up to twelve arguments of one, two, four, eight or sixteen bytes side by side in the array of the context: an argument takes the
  elements behind those of the arguments before it, two if it has sixteen bytes and one otherwise, and its value is the first of their bytes. Other sizes
  and more arguments are rejected.\<close>

theorem prog2_args_exact:
  "BPF_PROG2 prog (decl_tokens ds) ctx =
     (if length ds \<le> 12 \<and> list_all (\<lambda>d. arg_size_ok (fst d)) ds then Some (prog ds (prog2_values ctx 0 ds)) else None)"
  using ctx_arg_macros_eq [of ds ctx 0]
  by (auto simp: BPF_PROG2_def ctx_decl_eq ctx_arg_def reg_cnt_def bpf_apply2_eq reg_cnt_macros_eq)

end
