(* ===== verification/Kontext.thy ===== *)
theory Kontext
  imports Ko_Prelude "HOL-Library.Sublist"
begin

text \<open>
  The container cache of \<^verbatim>\<open>pkg/kontext/kontext.go\<close>: the container id in a cgroup path, the rebuild of the
  cache from the cgroup file system and the container runtime (\<^verbatim>\<open>Sync\<close>), and the lookups that trigger it. A \<open>world\<close>
  is what one call sees outside the process: the entries the directory walk visits, the answer
  of the container runtime, and the clock when the call starts and when it stores its result.
\<close>

subsection \<open>Strings of the Go library\<close>

fun split_at :: "char \<Rightarrow> string \<Rightarrow> string list" where
  "split_at d [] = [[]]"
| "split_at d (c # cs) =
     (if c = d then [] # split_at d cs
      else case split_at d cs of [] \<Rightarrow> [[c]] | w # ws \<Rightarrow> (c # w) # ws)"

definition HasPrefix :: "string \<Rightarrow> string \<Rightarrow> bool" where
  "HasPrefix s p \<longleftrightarrow> take (length p) s = p"

definition TrimPrefix :: "string \<Rightarrow> string \<Rightarrow> string" where
  "TrimPrefix s p = (if HasPrefix s p then drop (length p) s else s)"

definition HasSuffix :: "string \<Rightarrow> string \<Rightarrow> bool" where
  "HasSuffix s p \<longleftrightarrow> length p \<le> length s \<and> drop (length s - length p) s = p"

definition TrimSuffix :: "string \<Rightarrow> string \<Rightarrow> string" where
  "TrimSuffix s p = (if HasSuffix s p then take (length s - length p) s else s)"

text \<open>The last position at which \<open>p\<close> occurs in \<open>s\<close>.\<close>

definition LastIndex :: "string \<Rightarrow> string \<Rightarrow> nat option" where
  "LastIndex s p = find (\<lambda>i. HasPrefix (drop i s) p) (rev [0..<Suc (length s)])"

definition Contains :: "string \<Rightarrow> string \<Rightarrow> bool" where
  "Contains s p \<longleftrightarrow> LastIndex s p \<noteq> None"

subsection \<open>Container ids in cgroup paths\<close>

definition hex_digit :: "char \<Rightarrow> bool" where
  "hex_digit c \<longleftrightarrow> c \<in> set ''0123456789abcdefABCDEF''"

definition containerIDRegex :: "string \<Rightarrow> bool" where
  "containerIDRegex s \<longleftrightarrow> length s = 64 \<and> list_all hex_digit s"

definition cri_mark :: string where
  "cri_mark = '':cri-containerd:''"

text \<open>The runtime and the candidate id that a path component names.\<close>

definition classify :: "string \<Rightarrow> string \<times> string" where
  "classify part =
     (let id = TrimSuffix part ''.scope'' in
      if HasPrefix id ''docker-'' then (''docker'', TrimPrefix id ''docker-'')
      else if HasPrefix id ''crio-'' then (''crio'', TrimPrefix id ''crio-'')
      else if HasPrefix id ''cri-containerd-'' then (''containerd'', TrimPrefix id ''cri-containerd-'')
      else (case LastIndex part cri_mark of
              Some i \<Rightarrow> (''containerd'', drop (i + length cri_mark) part)
            | None \<Rightarrow>
                if HasPrefix id ''libpod-'' then (''podman'', TrimPrefix id ''libpod-'')
                else ([], id)))"

fun hasAncestor_loop :: "string list \<Rightarrow> nat list \<Rightarrow> string \<Rightarrow> bool" where
  "hasAncestor_loop parts [] name = False"
| "hasAncestor_loop parts (i # is) name = (if parts ! i = name then True else hasAncestor_loop parts is name)"

definition hasAncestor :: "string list \<Rightarrow> nat \<Rightarrow> string \<Rightarrow> bool" where
  "hasAncestor parts start name = hasAncestor_loop parts (rev [0..<Suc start]) name"

fun containerID_loop :: "string list \<Rightarrow> nat list \<Rightarrow> string \<times> string" where
  "containerID_loop parts [] = ([], [])"
| "containerID_loop parts (i # is) =
     (let part = parts ! i in
      if length part < 28 then containerID_loop parts is
      else
        (let (runtime, id) = classify part in
         if \<not> containerIDRegex id then containerID_loop parts is
         else if runtime = [] then
           (if hasAncestor parts i ''docker'' \<or> hasAncestor parts i ''kubepods'' then (id, ''docker'')
            else containerID_loop parts is)
         else (id, runtime)))"

definition containerIDFromCgroupPath :: "string \<Rightarrow> string \<times> string" where
  "containerIDFromCgroupPath cgroupPath =
     (let parts = split_at (CHR ''/'') cgroupPath in containerID_loop parts (rev [0..<length parts]))"

subsection \<open>The cache\<close>

record ContainerInfo =
  ci_CgroupID :: u64
  ci_ContainerID :: string
  ci_Runtime :: string
  ci_ContainerName :: string
  ci_PodName :: string
  ci_PodNamespace :: string
  ci_PodUID :: string

record Client =
  byCgroup :: "u64 \<rightharpoonup> ContainerInfo"
  lastSync :: int

definition minSyncInterval :: int where
  "minSyncInterval = 2000000000"

text \<open>An entry of the directory walk: an error or a file is skipped, and so is a directory whose
  inode cannot be read.\<close>

record dirent =
  d_path :: string
  d_err :: bool
  d_isDir :: bool
  d_ino :: "u64 option"

record Container =
  cc_Id :: string
  cc_Labels :: "string \<rightharpoonup> string"

record world =
  w_dirs :: "dirent list"
  w_cri :: "Container list option"
  w_now :: int
  w_done :: int

definition walk_step :: "(u64 \<rightharpoonup> string) \<Rightarrow> dirent \<Rightarrow> (u64 \<rightharpoonup> string)" where
  "walk_step res d =
     (if d_err d \<or> \<not> d_isDir d then res
      else case d_ino d of None \<Rightarrow> res | Some ino \<Rightarrow> res(ino AND 0xFFFFFFFF \<mapsto> d_path d))"

definition walkCgroups :: "dirent list \<Rightarrow> (u64 \<rightharpoonup> string)" where
  "walkCgroups ds = foldl walk_step Map.empty ds"

definition criByID :: "Container list option \<Rightarrow> (string \<rightharpoonup> Container)" where
  "criByID resp = (case resp of None \<Rightarrow> Map.empty | Some cs \<Rightarrow> foldl (\<lambda>m c. m(cc_Id c \<mapsto> c)) Map.empty cs)"

text \<open>A missing label reads as the empty string.\<close>

definition label :: "(string \<rightharpoonup> string) \<Rightarrow> string \<Rightarrow> string" where
  "label m k = (case m k of None \<Rightarrow> [] | Some v \<Rightarrow> v)"

definition sync_info :: "(string \<rightharpoonup> Container) \<Rightarrow> u64 \<Rightarrow> string \<Rightarrow> ContainerInfo option" where
  "sync_info cri cgroupID path =
     (let (containerID, runtime) = containerIDFromCgroupPath path in
      if containerID = [] then None
      else
        (let info = \<lparr>ci_CgroupID = cgroupID, ci_ContainerID = containerID, ci_Runtime = runtime,
               ci_ContainerName = [], ci_PodName = [], ci_PodNamespace = [], ci_PodUID = []\<rparr> in
         Some (case cri containerID of
           None \<Rightarrow> info
         | Some c \<Rightarrow> info\<lparr>ci_ContainerName := label (cc_Labels c) ''io.kubernetes.container.name'',
             ci_PodName := label (cc_Labels c) ''io.kubernetes.pod.name'',
             ci_PodNamespace := label (cc_Labels c) ''io.kubernetes.pod.namespace'',
             ci_PodUID := label (cc_Labels c) ''io.kubernetes.pod.uid''\<rparr>)))"

definition sync_map :: "world \<Rightarrow> (u64 \<rightharpoonup> ContainerInfo)" where
  "sync_map w = (\<lambda>id. case walkCgroups (w_dirs w) id of
     None \<Rightarrow> None | Some path \<Rightarrow> sync_info (criByID (w_cri w)) id path)"

definition Sync :: "world \<Rightarrow> Client \<Rightarrow> Client" where
  "Sync w c = c\<lparr>byCgroup := sync_map w, lastSync := w_done w\<rparr>"

definition ensureSynced :: "world \<Rightarrow> Client \<Rightarrow> Client" where
  "ensureSynced w c = (if w_now w - lastSync c < minSyncInterval then c else Sync w c)"

definition GetContainerInfo :: "world \<Rightarrow> u64 \<Rightarrow> Client \<Rightarrow> ContainerInfo option \<times> Client" where
  "GetContainerInfo w cgroupID c =
     (case byCgroup c cgroupID of
        Some info \<Rightarrow> (Some info, c)
      | None \<Rightarrow> (let c' = ensureSynced w c in (byCgroup c' cgroupID, c')))"

definition new_client :: Client where
  "new_client = \<lparr>byCgroup = Map.empty, lastSync = 0\<rparr>"

subsection \<open>Which ids are found\<close>

lemma classify_runtime: "classify part = (rt, cid) \<Longrightarrow> rt \<in> {[], ''docker'', ''crio'', ''containerd'', ''podman''}"
  by (auto simp: classify_def Let_def split: if_splits option.splits)

lemma containerID_loop_wf:
  "containerID_loop parts is = (cid, rt) \<Longrightarrow>
     cid = [] \<and> rt = [] \<or> containerIDRegex cid \<and> rt \<in> {''docker'', ''crio'', ''containerd'', ''podman''}"
proof (induction "is")
  case (Cons i "is")
  obtain r c where c: "classify (parts ! i) = (r, c)" by (cases "classify (parts ! i)")
  show ?case
  proof (cases "length (parts ! i) < 28 \<or> \<not> containerIDRegex c \<or>
      r = [] \<and> \<not> (hasAncestor parts i ''docker'' \<or> hasAncestor parts i ''kubepods'')")
    case True
    with Cons.prems c have "containerID_loop parts is = (cid, rt)" by (auto simp: Let_def split: if_splits)
    then show ?thesis by (rule Cons.IH)
  next
    case False
    with Cons.prems c classify_runtime [OF c] show ?thesis by (auto simp: Let_def split: if_splits)
  qed
qed simp

lemma HasPrefix_append [simp]: "HasPrefix (p @ s) p"
  by (simp add: HasPrefix_def)

lemma TrimPrefix_append [simp]: "TrimPrefix (p @ s) p = s"
  by (simp add: TrimPrefix_def)

lemma TrimSuffix_append [simp]: "TrimSuffix (s @ p) p = s"
  by (simp add: TrimSuffix_def HasSuffix_def)

lemma split_at_nonempty: "split_at d s \<noteq> []"
  by (induction s) (auto split: list.split)

lemma split_at_append: "split_at d (s @ d # u) = split_at d s @ split_at d u"
proof (induction s)
  case (Cons c s)
  then show ?case using split_at_nonempty [of d s] by (cases "split_at d s") auto
qed simp

lemma split_at_single: "d \<notin> set s \<Longrightarrow> split_at d s = [s]"
  by (induction s) auto

text \<open>The innermost component decides when it names a container.\<close>

lemma innermost_component:
  assumes "CHR ''/'' \<notin> set s" and "28 \<le> length s" and "classify s = (rt, cid)" and "containerIDRegex cid" and "rt \<noteq> []"
  shows "containerIDFromCgroupPath (dir @ ''/'' @ s) = (cid, rt)"
proof -
  let ?parts = "split_at (CHR ''/'') dir @ [s]"
  have "split_at (CHR ''/'') (dir @ ''/'' @ s) = ?parts"
    using split_at_append [of "CHR ''/''" dir s] split_at_single [OF assms(1)] by simp
  moreover have "rev [0..<length ?parts] = length (split_at (CHR ''/'') dir) # rev [0..<length (split_at (CHR ''/'') dir)]"
    by simp
  ultimately show ?thesis using assms by (simp add: containerIDFromCgroupPath_def Let_def)
qed

lemma no_mark:
  assumes "CHR '':'' \<notin> set s"
  shows "LastIndex s cri_mark = None"
proof -
  have "\<not> HasPrefix (drop i s) cri_mark" for i
  proof
    assume "HasPrefix (drop i s) cri_mark"
    then have "CHR '':'' \<in> set (take (length cri_mark) (drop i s))" by (simp add: HasPrefix_def cri_mark_def)
    then have "CHR '':'' \<in> set s" by (meson in_set_dropD in_set_takeD)
    with assms show False ..
  qed
  then show ?thesis unfolding LastIndex_def find_None_iff by blast
qed

lemma hex_digits_plain: "list_all hex_digit cid \<Longrightarrow> CHR ''/'' \<notin> set cid \<and> CHR '':'' \<notin> set cid"
proof -
  have "\<not> hex_digit (CHR ''/'')" "\<not> hex_digit (CHR '':'')" by code_simp+
  then show "list_all hex_digit cid \<Longrightarrow> ?thesis" by (auto simp: list_all_iff)
qed

definition scope_prefixes :: "(string \<times> string) list" where
  "scope_prefixes = [(''docker-'', ''docker''), (''crio-'', ''crio''), (''cri-containerd-'', ''containerd''), (''libpod-'', ''podman'')]"

lemma classify_scope:
  assumes "list_all hex_digit cid" and "(p, rt) \<in> set scope_prefixes"
  shows "classify (p @ cid @ ''.scope'') = (rt, cid)"
proof -
  have t: "TrimSuffix (p @ cid @ ''.scope'') ''.scope'' = p @ cid"
    using TrimSuffix_append [of "p @ cid" "''.scope''"] by simp
  have m: "LastIndex (p @ cid @ ''.scope'') cri_mark = None"
    using hex_digits_plain [OF assms(1)] assms(2) by (intro no_mark) (auto simp: scope_prefixes_def)
  have "p = ''docker-'' \<and> rt = ''docker'' \<or> p = ''crio-'' \<and> rt = ''crio'' \<or>
      p = ''cri-containerd-'' \<and> rt = ''containerd'' \<or> p = ''libpod-'' \<and> rt = ''podman''"
    using assms(2) unfolding scope_prefixes_def by simp
  then show ?thesis
    unfolding classify_def t m Let_def
    by (elim disjE conjE) (simp_all add: HasPrefix_def TrimPrefix_def)
qed

text \<open>C30: the container id in a cgroup path. Whatever the path, what is returned is nothing or sixty-four hexadecimal digits with
  one of the four runtimes; and the scope that a runtime's systemd driver creates for a
  container, below any directory, is read back as that runtime and that id.\<close>

theorem container_id_of_path:
  "(fst (containerIDFromCgroupPath path) \<noteq> [] \<longrightarrow> containerIDRegex (fst (containerIDFromCgroupPath path)) \<and>
     snd (containerIDFromCgroupPath path) \<in> {''docker'', ''crio'', ''containerd'', ''podman''}) \<and>
   (containerIDRegex cid \<and> (p, rt) \<in> set scope_prefixes \<longrightarrow>
     containerIDFromCgroupPath (dir @ ''/'' @ p @ cid @ ''.scope'') = (cid, rt))"
proof (intro conjI impI)
  assume "fst (containerIDFromCgroupPath path) \<noteq> []"
  then show "containerIDRegex (fst (containerIDFromCgroupPath path))"
    and "snd (containerIDFromCgroupPath path) \<in> {''docker'', ''crio'', ''containerd'', ''podman''}"
    using containerID_loop_wf [of "split_at (CHR ''/'') path" _ "fst (containerIDFromCgroupPath path)" "snd (containerIDFromCgroupPath path)"]
    by (simp_all add: containerIDFromCgroupPath_def Let_def)
next
  assume a: "containerIDRegex cid \<and> (p, rt) \<in> set scope_prefixes"
  then have cid: "length cid = 64" "list_all hex_digit cid" by (simp_all add: containerIDRegex_def)
  have "CHR ''/'' \<notin> set (p @ cid @ ''.scope'')" "rt \<noteq> []"
    using hex_digits_plain [OF cid(2)] a by (auto simp: scope_prefixes_def)
  with innermost_component [of "p @ cid @ ''.scope''" rt cid dir] classify_scope [OF cid(2)] a cid(1)
  show "containerIDFromCgroupPath (dir @ ''/'' @ p @ cid @ ''.scope'') = (cid, rt)" by simp
qed

theorem container_id_of_path_witness:
  "containerIDFromCgroupPath (''/sys/fs/cgroup'' @ ''/'' @ ''crio-'' @ replicate 64 CHR ''a'' @ ''.scope'') = (replicate 64 CHR ''a'', ''crio'')"
proof -
  have "containerIDRegex (replicate 64 CHR ''a'')" by code_simp
  moreover have "(''crio-'', ''crio'') \<in> set scope_prefixes" by (simp add: scope_prefixes_def)
  ultimately show ?thesis using container_id_of_path by blast
qed

subsection \<open>Syncs triggered by misses\<close>

definition syncs :: "world \<Rightarrow> u64 \<Rightarrow> Client \<Rightarrow> bool" where
  "syncs w i c \<longleftrightarrow> byCgroup c i = None \<and> minSyncInterval \<le> w_now w - lastSync c"

lemma GetContainerInfo_cases:
  "syncs w i c \<Longrightarrow> GetContainerInfo w i c = (sync_map w i, Sync w c)"
  "\<not> syncs w i c \<Longrightarrow> GetContainerInfo w i c = (byCgroup c i, c)"
  by (auto simp: syncs_def GetContainerInfo_def ensureSynced_def Sync_def Let_def split: option.split)

text \<open>The start and the end of every sync that a sequence of lookups triggers.\<close>

fun sync_times :: "(world \<times> u64) list \<Rightarrow> Client \<Rightarrow> (int \<times> int) list" where
  "sync_times [] c = []"
| "sync_times ((w, i) # calls) c =
     (if syncs w i c then [(w_now w, w_done w)] else []) @ sync_times calls (snd (GetContainerInfo w i c))"

definition in_sequence :: "(world \<times> u64) list \<Rightarrow> bool" where
  "in_sequence calls \<longleftrightarrow> list_all (\<lambda>(w, i). w_now w \<le> w_done w) calls \<and>
     sorted_wrt (\<lambda>(w, i) (w', i'). w_done w \<le> w_now w') calls"

lemma sync_times_spaced:
  "in_sequence calls \<Longrightarrow> list_all (\<lambda>(s, d). lastSync c + minSyncInterval \<le> s) (sync_times calls c) \<and>
     sorted_wrt (\<lambda>(s, d) (s', d'). minSyncInterval \<le> s' - d) (sync_times calls c)"
proof (induction calls c rule: sync_times.induct)
  case (2 w i calls c)
  have seq: "in_sequence calls" "w_now w \<le> w_done w" using 2(2) by (simp_all add: in_sequence_def)
  show ?case
  proof (cases "syncs w i c")
    case True
    have ih: "list_all (\<lambda>(s, d). w_done w + minSyncInterval \<le> s) (sync_times calls (Sync w c))"
      "sorted_wrt (\<lambda>(s, d) (s', d'). minSyncInterval \<le> s' - d) (sync_times calls (Sync w c))"
      using 2(1) [OF seq(1)] GetContainerInfo_cases(1) [OF True] by (simp_all add: Sync_def)
    have le: "lastSync c + minSyncInterval \<le> w_now w" using True by (simp add: syncs_def)
    then have "list_all (\<lambda>(s, d). lastSync c + minSyncInterval \<le> s) (sync_times calls (Sync w c))"
      using ih(1) seq(2) by (auto simp: list_all_iff minSyncInterval_def)
    with ih le show ?thesis
      using True GetContainerInfo_cases(1) [OF True] by (auto simp: list_all_iff)
  next
    case False
    then show ?thesis using 2(1) [OF seq(1)] GetContainerInfo_cases(2) [OF False] by simp
  qed
qed simp


definition ex_world :: "int \<Rightarrow> world" where
  "ex_world t = \<lparr>w_dirs = [\<lparr>d_path = ''/sys/fs/cgroup/crio-'' @ replicate 64 CHR ''a'' @ ''.scope'', d_err = False, d_isDir = True, d_ino = Some 77\<rparr>],
     w_cri = Some [\<lparr>cc_Id = replicate 64 CHR ''a'', cc_Labels = [''io.kubernetes.pod.namespace'' \<mapsto> ''default'']\<rparr>],
     w_now = t, w_done = t + 1\<rparr>"


subsection \<open>Keys of the cache\<close>

lemma and_low_bits: "(x AND 0xFFFFFFFF :: u64) < 2 ^ 32"
proof -
  have "(0xFFFFFFFF :: u64) = mask 32" by (simp add: mask_eq_decr_exp)
  then have "x AND 0xFFFFFFFF = take_bit 32 x" by (simp add: take_bit_eq_mask)
  moreover have "unat (take_bit 32 x) < 2 ^ 32"
    unfolding unsigned_take_bit_eq by (rule take_bit_nat_less_exp)
  ultimately show ?thesis by (simp add: word_less_nat_alt)
qed

lemma walkCgroups_low:
  assumes "walkCgroups ds i = Some path"
  shows "i < 2 ^ 32"
proof -
  have "\<forall>i \<in> dom m. i < 2 ^ 32 \<Longrightarrow> \<forall>i \<in> dom (foldl walk_step m ds). i < 2 ^ 32" for m
  proof (induction ds arbitrary: m)
    case (Cons d ds)
    have "\<forall>i \<in> dom (walk_step m d). i < 2 ^ 32"
      using Cons.prems and_low_bits by (auto simp: walk_step_def split: option.splits if_splits)
    with Cons.IH show ?case by simp
  qed simp
  from this [of Map.empty] assms show ?thesis by (auto simp: walkCgroups_def dom_def)
qed

lemma sync_map_Some:
  assumes "sync_map w i = Some info"
  shows "i < 2 ^ 32 \<and> ci_CgroupID info = i \<and> containerIDRegex (ci_ContainerID info)"
proof -
  obtain path where p: "walkCgroups (w_dirs w) i = Some path" "sync_info (criByID (w_cri w)) i path = Some info"
    using assms by (auto simp: sync_map_def split: option.splits)
  have "containerIDRegex (fst (containerIDFromCgroupPath path))" if "fst (containerIDFromCgroupPath path) \<noteq> []"
    using containerID_loop_wf [of "split_at (CHR ''/'') path" _ "fst (containerIDFromCgroupPath path)" "snd (containerIDFromCgroupPath path)"] that
    by (simp add: containerIDFromCgroupPath_def Let_def)
  with p(2) walkCgroups_low [OF p(1)] show ?thesis
    by (auto simp: sync_info_def Let_def split_def split: if_splits option.splits)
qed

end
