(* ===== verification/Node_Source.thy ===== *)
theory Node_Source
  imports Tracer_User Kontext
begin

text \<open>
  The attribute source of the tracer. \<open>attr_source\<close> is the contract that \<^verbatim>\<open>AttrSource\<close> of \<^verbatim>\<open>pkg/filter/filter.go\<close> stands for: as
  long as the world does not change, what it answers for a cgroup and what its snapshots
  contain are the cgroup's attributes. Its clients keep the verdict map exact. The source of the
  node agent (\<^verbatim>\<open>cmd/ko/node-agent/node_agent.go\<close>), which reads the container cache, is an instance.
\<close>

subsection \<open>Exact verdict maps\<close>

text \<open>Every verdict in the map is the mask of the attributes of its cgroup.\<close>

definition verdicts_exact :: "(u64 \<Rightarrow> CgroupAttrs) \<Rightarrow> Atom list \<Rightarrow> kstate \<Rightarrow> bool" where
  "verdicts_exact attrs as k \<longleftrightarrow> lru.entries (\<lambda>i m. VerdictMask as (attrs i) = Some m) (ko_cgroup_verdict k)"

lemma verdicts_exactD: "verdicts_exact attrs as k \<Longrightarrow> ko_cgroup_verdict k i = Some m \<Longrightarrow> VerdictMask as (attrs i) = Some m"
  by (simp add: verdicts_exact_def lru_entries_iff)

lemma store_verdict_exact:
  "verdicts_exact attrs as k \<Longrightarrow> VerdictMask as (attrs i) = Some m \<Longrightarrow> verdicts_exact attrs as (store_verdict ch i m k)"
  by (auto simp: verdicts_exact_def store_verdict_def lru_entries_iff lru_update_def Let_def split: if_splits)

lemma delete_verdict_exact:
  "verdicts_exact attrs as k \<Longrightarrow> verdicts_exact attrs as (k\<lparr>ko_cgroup_verdict := hash_delete i (ko_cgroup_verdict k)\<rparr>)"
  by (simp add: verdicts_exact_def lru_entries_iff hash_delete_def)

lemma sync_updates_exact:
  "sync_updates as ch snap k = Some (b, k') \<Longrightarrow> verdicts_exact attrs as k \<Longrightarrow>
     list_all (\<lambda>(i, a). a = attrs i) snap \<Longrightarrow> verdicts_exact attrs as k'"
  by (induction as ch snap k rule: sync_updates.induct)
    (auto simp: Let_def store_verdict_exact split: option.splits if_splits)

lemma sync_deletes_exact: "verdicts_exact attrs as k \<Longrightarrow> verdicts_exact attrs as (sync_deletes live keys k)"
proof (induction keys arbitrary: k)
  case (Cons i keys)
  from Cons.IH [OF delete_verdict_exact [OF Cons.prems]] Cons.IH [OF Cons.prems] show ?case by simp
qed simp

subsection \<open>The contract and its client\<close>

locale attr_source =
  fixes Attrs :: "('w, 's) attrs_op"
    and Snapshot :: "'s \<Rightarrow> u64 \<rightharpoonup> CgroupAttrs"
    and usable :: "'w \<Rightarrow> bool"
    and consistent :: "'s \<Rightarrow> bool"
    and attrs :: "u64 \<Rightarrow> CgroupAttrs"
  assumes Attrs_known: "usable w \<Longrightarrow> consistent st \<Longrightarrow> fst (Attrs w i st) = (attrs i, True)"
    and Attrs_keeps: "usable w \<Longrightarrow> consistent st \<Longrightarrow> consistent (snd (Attrs w i st))"
    and Snapshot_exact: "consistent st \<Longrightarrow> Snapshot st i = Some a \<Longrightarrow> a = attrs i"
begin

lemma syncOnce_exact:
  assumes "syncOnce s (Some snap) ch keys k = Some k'" and "verdicts_exact attrs (set_atoms s) k"
    and "consistent st" and "list_all (\<lambda>(i, a). Snapshot st i = Some a) snap"
  shows "verdicts_exact attrs (set_atoms s) k'"
proof -
  have "list_all (\<lambda>(i, a). a = attrs i) snap"
    using assms(4) Snapshot_exact [OF assms(3)] by (auto simp: list_all_iff)
  then have "sync_updates (set_atoms s) ch snap k = Some (b, k1) \<Longrightarrow> verdicts_exact attrs (set_atoms s) k1" for b k1
    using sync_updates_exact [OF _ assms(2)] by blast
  with assms(1) sync_deletes_exact show ?thesis
    by (auto simp: syncOnce_def split: option.splits bool.splits)
qed

lemma resolveFilter_exact:
  assumes "usable w" and "consistent (u_src u)" and "VerdictMask (set_atoms s) (attrs (e_cgroup_id raw)) = Some m"
  shows "resolveFilter eval (Some Attrs) s w ch raw u =
    Some (Evaluate eval s (filter_event (attrs (e_cgroup_id raw)) raw),
      u\<lparr>u_src := snd (Attrs w (e_cgroup_id raw) (u_src u)),
        u_kernel := store_verdict ch (e_cgroup_id raw) m (u_kernel u)\<rparr>)"
proof -
  have "fst (Attrs w (e_cgroup_id raw) (u_src u)) = (attrs (e_cgroup_id raw), True)"
    by (rule Attrs_known [OF assms(1,2)])
  with assms(3) show ?thesis by (simp add: resolveFilter_def Let_def split_def)
qed

end

subsection \<open>The source of the node agent\<close>

definition containerAttrs :: "ContainerInfo \<Rightarrow> CgroupAttrs" where
  "containerAttrs i = \<lparr>attr_Namespace = ci_PodNamespace i, attr_Container = ci_ContainerName i, attr_Pod = ci_PodName i\<rparr>"

text \<open>A disabled container context is a nil client.\<close>

definition Attrs :: "(world, Client option) attrs_op" where
  "Attrs w cgroupID kctx =
     (case kctx of
        None \<Rightarrow> ((no_attrs, True), None)
      | Some c \<Rightarrow>
          (case GetContainerInfo w cgroupID c of
             (None, c') \<Rightarrow> ((no_attrs, True), Some c')
           | (Some info, c') \<Rightarrow> ((containerAttrs info, True), Some c')))"

definition AttrsSnapshot :: "Client option \<Rightarrow> u64 \<rightharpoonup> CgroupAttrs" where
  "AttrsSnapshot kctx = (case kctx of None \<Rightarrow> Map.empty | Some c \<Rightarrow> map_option containerAttrs \<circ> byCgroup c)"

text \<open>The attributes of a cgroup in a world that does not change, and the states of the cache
  in it: not synced yet, or synced.\<close>

definition world_attrs :: "world \<Rightarrow> u64 \<Rightarrow> CgroupAttrs" where
  "world_attrs W i = (case sync_map W i of None \<Rightarrow> no_attrs | Some info \<Rightarrow> containerAttrs info)"

definition same_world :: "world \<Rightarrow> world \<Rightarrow> bool" where
  "same_world W w \<longleftrightarrow> w_dirs w = w_dirs W \<and> w_cri w = w_cri W \<and> minSyncInterval \<le> w_now w"

definition cache_of :: "world \<Rightarrow> Client option \<Rightarrow> bool" where
  "cache_of W kctx \<longleftrightarrow> (case kctx of None \<Rightarrow> False | Some c \<Rightarrow> c = new_client \<or> byCgroup c = sync_map W)"

lemma GetContainerInfo_world:
  assumes "same_world W w" and "cache_of W (Some c)"
  shows "fst (GetContainerInfo w i c) = sync_map W i \<and> cache_of W (Some (snd (GetContainerInfo w i c)))"
proof -
  have "sync_map w = sync_map W" using assms(1) by (auto simp: same_world_def sync_map_def fun_eq_iff split: option.split)
  with assms show ?thesis
    by (auto simp: cache_of_def GetContainerInfo_def ensureSynced_def Sync_def new_client_def same_world_def Let_def split: option.split)
qed

interpretation node: attr_source Attrs AttrsSnapshot "same_world W" "cache_of W" "world_attrs W" for W
proof
  fix w st i
  assume w: "same_world W w" and "cache_of W st"
  then obtain c where c: "st = Some c" "cache_of W (Some c)" by (cases st) (simp_all add: cache_of_def)
  note g = GetContainerInfo_world [OF w c(2), of i]
  from g show "fst (Attrs w i st) = (world_attrs W i, True)"
    by (cases "GetContainerInfo w i c") (auto simp: Attrs_def c(1) world_attrs_def split: option.split)
  from g show "cache_of W (snd (Attrs w i st))"
    by (cases "GetContainerInfo w i c") (auto simp: Attrs_def c(1) split: option.split)
next
  fix st i a
  assume "cache_of W st" and "AttrsSnapshot st i = Some a"
  then show "a = world_attrs W i"
    by (auto simp: cache_of_def AttrsSnapshot_def world_attrs_def new_client_def split: option.splits)
qed

text \<open>Without a container context every cgroup has empty attributes.\<close>

interpretation no_context: attr_source Attrs AttrsSnapshot "\<lambda>_. True" "\<lambda>st. st = None" "\<lambda>_. no_attrs"
  by unfold_locales (simp_all add: Attrs_def AttrsSnapshot_def)

text \<open>The cache is keyed by the low half of the inode number, while the kernel reports the whole
  cgroup id: a cgroup whose id does not fit in 32 bits never has attributes.\<close>

theorem high_cgroup_ids_unresolved: "2 ^ 32 \<le> i \<Longrightarrow> world_attrs W i = no_attrs"
  using sync_map_Some [of W i] by (auto simp: world_attrs_def split: option.split)

text \<open>A container that starts while the cache is younger than two seconds is looked up without a
  sync, and its cgroup is reported as known with empty attributes.\<close>

lemma Attrs_rate_limited:
  assumes "byCgroup c i = None" and "w_now w - lastSync c < minSyncInterval"
  shows "Attrs w i (Some c) = ((no_attrs, True), Some c)"
  using assms by (simp add: Attrs_def GetContainerInfo_def ensureSynced_def Let_def)

end
