(* ===== verification/Node_Agent.thy ===== *)
theory Node_Agent
  imports Node_Source Ko_Example
begin

text \<open>
  The tracer as a whole: tracepoints, the event loop, verdict syncs and cache refreshes in any
  order, in a world whose containers do not change. Every event that reaches the events channel
  carries the filter that exact evaluation selects, whether the kernel or the loop decided.
\<close>

subsection \<open>The system\<close>

fun is_trace :: "action \<Rightarrow> bool" where
  "is_trace (Trace env t) = True"
| "is_trace (User u) = False"

definition start_ustate :: "kstate \<Rightarrow> 's \<Rightarrow> 's ustate" where
  "start_ustate k c = \<lparr>u_kernel = k, u_src = c, u_sent = [], u_events_total = 0, u_decode_errors = 0, u_passed_bpf = 0,
     u_passed_userspace = 0, u_dropped_userspace = 0, u_matched = (\<lambda>_. 0), u_mismatches = 0\<rparr>"

definition snapshot_of :: "Client option \<Rightarrow> (u64 \<times> CgroupAttrs) list \<Rightarrow> bool" where
  "snapshot_of c snap \<longleftrightarrow> list_all (\<lambda>(i, a). AttrsSnapshot c i = Some a) snap"

inductive agent ::
    "cel_eval \<Rightarrow> Set \<Rightarrow> bool \<Rightarrow> world \<Rightarrow> Client option ustate \<Rightarrow> bool"
  for eval s verify W where
  agent_start: "exec h k \<Longrightarrow> list_all is_trace h \<Longrightarrow> cache_of W c \<Longrightarrow> snapshot_of c snap \<Longrightarrow>
    startFilters (True, True) (Some s) (Some snap) ch keys k = Some (Inr k') \<Longrightarrow>
    agent eval s verify W (start_ustate k' c)"
| agent_kernel: "agent eval s verify W u \<Longrightarrow> env_ok env \<Longrightarrow>
    agent eval s verify W (u\<lparr>u_kernel := run_tp env t (u_kernel u)\<rparr>)"
| agent_consume: "agent eval s verify W u \<Longrightarrow> same_world W w \<Longrightarrow> ko_events (u_kernel u) = e # es \<Longrightarrow>
    handle_record eval (Some Attrs) (Some s) verify w lru (event_bytes e)
      (u\<lparr>u_kernel := (u_kernel u)\<lparr>ko_events := es\<rparr>\<rparr>) = Some u' \<Longrightarrow>
    agent eval s verify W u'"
| agent_sync: "agent eval s verify W u \<Longrightarrow> snapshot_of (u_src u) snap \<Longrightarrow>
    syncOnce s (Some snap) ch keys (u_kernel u) = Some k' \<Longrightarrow>
    agent eval s verify W (u\<lparr>u_kernel := k'\<rparr>)"
| agent_refresh: "agent eval s verify W u \<Longrightarrow> same_world W w \<Longrightarrow> u_src u = Some c \<Longrightarrow>
    agent eval s verify W (u\<lparr>u_src := Some (Sync w c)\<rparr>)"

subsection \<open>Events as filters see them\<close>

lemma attrs_of_filter_event [simp]: "attrs_of (filter_event A e) = A"
  by (simp add: attrs_of_def filter_event_def)

lemma filter_event_idx [simp]: "filter_event A (e\<lparr>e_filter_idx := j\<rparr>) = filter_event A e"
  by (simp add: filter_event_def)

lemma make_event_filter_idx:
  "make_event env now sk c ty fam sp dp a j = (make_event env now sk c ty fam sp dp a 0)\<lparr>e_filter_idx := j\<rparr>"
  by (simp add: make_event_def Let_def)

lemma make_event_idx [simp]: "e_filter_idx (make_event env now sk c ty fam sp dp a j) = j"
  by (simp add: make_event_def Let_def)

lemma filter_event_make:
  "filter_event A (make_event env now sk c ty fam sp dp a j) = filter_event A (make_event env now sk c ty fam sp dp a 0)"
  by (subst make_event_filter_idx) (rule filter_event_idx)

lemma make_event_cgroup: "e_cgroup_id (make_event env now sk c ty fam sp dp a j) = g_cgroup_id (filter_args env now sk c ty fam a)"
  by (simp add: make_event_def filter_args_def fill_addrs_def Let_def)

lemma event_life: "ev_LifeUS (filter_event A (make_event env now sk c ty fam sp dp a j)) < 2 ^ 63"
proof -
  have "unat ((now - c_start_ts c) div 1000) \<le> unat (now - c_start_ts c) div 1000"
    by (simp add: unat_div)
  also have "\<dots> < 2 ^ 63" using unsigned_less [of "now - c_start_ts c", where 'a = nat] by (simp add: div_less_iff_less_mult)
  finally have "(now - c_start_ts c) div 1000 < 2 ^ 63" by (simp add: word_less_nat_alt)
  then show ?thesis by (simp add: filter_event_def make_event_def fill_addrs_def Let_def)
qed

lemma same_event_make:
  assumes "fam = AF_INET \<or> fam = AF_INET6" and "addrs_ok a" and "ty < 64"
  shows "same_event (filter_args env now sk c ty fam a) (filter_event A (make_event env now sk c ty fam sp dp a j))"
  using assms
  by (auto simp: same_event_def filter_args_def filter_event_def make_event_def fill_addrs_def zero_event_def
      decodeIP_def addrs_ok_def AF_INET_def AF_INET6_def Let_def)

lemma conn_evt_less: "ty \<in> {CONN_EVT_CONNECT_FAILED, CONN_EVT_CLOSED, CONN_EVT_RETRANSMIT, CONN_EVT_PROBE} \<Longrightarrow> ty < 64"
  by (auto simp: conn_evt)

lemma tp_types_conn: "tp_types t \<subseteq> {CONN_EVT_CONNECT_FAILED, CONN_EVT_CLOSED, CONN_EVT_RETRANSMIT, CONN_EVT_PROBE}"
  by (cases t) auto

lemma event_roundtrip_bytes: "event_widths e \<Longrightarrow> read_event (event_bytes e) = Some e"
  using chop_event [of e "[]"] length_event_bytes [of e]
  by (simp add: read_event_def event_sizes_def event_fields_def Let_def del: le_bytes.simps)

subsection \<open>Deciding one event\<close>

text \<open>What is assumed of the filters: compiled, faithful, with prefixes of whole bytes, and of a length that the kernel can hold.\<close>

definition good_set :: "cel_eval \<Rightarrow> Set \<Rightarrow> bool" where
  "good_set eval s \<longleftrightarrow> cel_laws eval \<and> list_all faithful (set_asts s) \<and> length (set_flat s) \<le> MaxPreds \<and>
     list_all (\<lambda>p. Kind p = PredIPSet \<longrightarrow> byte_prefixes p) (set_flat s) \<and>
     (\<exists>envok parse program_ok cfg. Compile envok parse program_ok cfg = Some (Inr s))"

definition loaded :: "Set \<Rightarrow> kstate \<Rightarrow> bool" where
  "loaded s k \<longleftrightarrow> ko_filter_cfg k = [1] \<and> ko_filter_prog k = [ko_prog_of (BPFProg (set_names s) (set_flat s))]"

lemma good_set_mask: "good_set eval s \<Longrightarrow> \<exists>m. VerdictMask (set_atoms s) A = Some m"
  using Compile_mask by (auto simp: good_set_def)

lemma good_set_names:
  assumes "good_set eval s"
  shows "compiled_ok s" and "length (set_names s) \<le> MaxFilters" and "length (set_asts s) = length (set_names s)"
proof -
  obtain envok parse program_ok cfg where c: "Compile envok parse program_ok cfg = Some (Inr s)"
    using assms by (auto simp: good_set_def)
  show "compiled_ok s" using Compile_compiled_ok [OF c] by simp
  then show "length (set_names s) \<le> MaxFilters" by (simp add: compiled_ok_def)
  show "length (set_asts s) = length (set_names s)"
    using c by (auto simp: Compile_def Let_def split: if_splits option.splits sum.splits)
qed

lemma Evaluate_bound: "Evaluate eval s ev = Some i \<Longrightarrow> i < length (set_asts s)"
  by (simp add: Evaluate_def Evaluate_loop_iff)

text \<open>The kernel's answer on an event: undecided, or the answer of exact evaluation.\<close>

lemma submitted_verdict:
  assumes "good_set eval s" and "loaded s k" and "verdicts_exact A (set_atoms s) k"
    and "fam = AF_INET \<or> fam = AF_INET6" and "addrs_ok a" and "ty < 64"
    and e_def: "e = make_event env now sk c ty fam sp dp a 0"
  shows "filter_verdict env now sk c ty fam a k \<in>
    {KO_FILTER_UNDECIDED, answer_code (Evaluate eval s (filter_event (A (e_cgroup_id e)) e))}"
proof -
  let ?g = "filter_args env now sk c ty fam a"
  obtain envok parse program_ok cfg where c: "Compile envok parse program_ok cfg = Some (Inr s)"
    and l: "cel_laws eval" "list_all faithful (set_asts s)" "length (set_flat s) \<le> MaxPreds"
      "list_all (\<lambda>p. Kind p = PredIPSet \<longrightarrow> byte_prefixes p) (set_flat s)"
    using assms(1) unfolding good_set_def by blast
  obtain m where m: "VerdictMask (set_atoms s) (A (e_cgroup_id e)) = Some m" using good_set_mask [OF assms(1)] by blast
  have id: "g_cgroup_id ?g = e_cgroup_id e" by (simp add: e_def make_event_cgroup)
  have v: "ko_cgroup_verdict k (g_cgroup_id ?g) \<in> {None, Some m}"
    using verdicts_exactD [OF assms(3), of "e_cgroup_id e"] m unfolding id
    by (cases "ko_cgroup_verdict k (e_cgroup_id e)") auto
  have se: "same_event ?g (filter_event (A (e_cgroup_id e)) e)"
    unfolding e_def by (rule same_event_make [OF assms(4-6)])
  have life: "ev_LifeUS (filter_event (A (e_cgroup_id e)) e) < 2 ^ 63" unfolding e_def by (rule event_life)
  have mask: "VerdictMask (set_atoms s) (attrs_of (filter_event (A (e_cgroup_id e)) e)) = Some m" using m by simp
  have "(1 :: u64) \<noteq> 0" by simp
  from kernel_exact [where verdicts = "ko_cgroup_verdict k", OF c l se life this mask v] assms(2) show ?thesis
    by (auto simp: loaded_def array_lookup_def)
qed

definition same_but_verdicts :: "kstate \<Rightarrow> kstate \<Rightarrow> bool" where
  "same_but_verdicts k k' \<longleftrightarrow> k'\<lparr>ko_cgroup_verdict := Map.empty\<rparr> = k\<lparr>ko_cgroup_verdict := Map.empty\<rparr>"

lemma same_but_verdicts_refl [simp]:
  "same_but_verdicts k k"
  "same_but_verdicts k (k'\<lparr>ko_cgroup_verdict := vs\<rparr>) = same_but_verdicts k k'"
  "same_but_verdicts (k\<lparr>ko_cgroup_verdict := vs\<rparr>) k' = same_but_verdicts k k'"
  by (simp_all add: same_but_verdicts_def)

lemma same_but_verdicts_trans: "same_but_verdicts a b \<Longrightarrow> same_but_verdicts b c \<Longrightarrow> same_but_verdicts a c"
  by (simp add: same_but_verdicts_def)

lemma same_but_verdictsD:
  assumes "same_but_verdicts k k'"
  shows "ko_events k' = ko_events k" "loaded s k' = loaded s k" "state_ok k' = state_ok k"
proof -
  from assms have eq: "f (k'\<lparr>ko_cgroup_verdict := Map.empty\<rparr>) = f (k\<lparr>ko_cgroup_verdict := Map.empty\<rparr>)" for f :: "kstate \<Rightarrow> 'x"
    by (simp add: same_but_verdicts_def)
  show "ko_events k' = ko_events k" using eq [of ko_events] by simp
  show "loaded s k' = loaded s k" using eq [of "loaded s"] by (simp add: loaded_def)
  show "state_ok k' = state_ok k" using eq [of state_ok] by (simp add: state_ok_def)
qed

text \<open>What the loop does with a record: it sends the event with the answer of exact evaluation, or
  drops it. A decision of the kernel has to be that answer.\<close>

definition sent_event :: "Set \<Rightarrow> conn_event_t \<Rightarrow> nat \<Rightarrow> ConnEvent" where
  "sent_event s raw i = (decodeConnEvent raw)\<lparr>ce_FilterIdx := of_nat i, ce_FilterName := set_names s ! i\<rparr>"

definition pending_ok :: "cel_eval \<Rightarrow> Set \<Rightarrow> (u64 \<Rightarrow> CgroupAttrs) \<Rightarrow> conn_event_t \<Rightarrow> bool" where
  "pending_ok eval s A e \<longleftrightarrow> (e_filter_idx e < of_nat (length (set_names s)) \<longrightarrow>
     Evaluate eval s (filter_event (A (e_cgroup_id e)) e) = Some (unat (e_filter_idx e)))"

lemma answer_pending:
  assumes "good_set eval s" and "e_filter_idx e \<in> {KO_FILTER_UNDECIDED, answer_code (Evaluate eval s (filter_event (A (e_cgroup_id e)) e))}"
  shows "pending_ok eval s A e"
proof -
  let ?r = "Evaluate eval s (filter_event (A (e_cgroup_id e)) e)" and ?n = "of_nat (length (set_names s)) :: u16"
  have n: "unat ?n \<le> 32" using good_set_names(2) [OF assms(1)] by (simp add: unat_of_nat)
  have codes: "\<not> KO_FILTER_UNDECIDED < ?n" "\<not> KO_FILTER_DROP < ?n"
    using n by (auto simp: word_less_nat_alt KO_FILTER_UNDECIDED_def KO_FILTER_DROP_def)
  have "unat (of_nat i :: u16) = i" if "?r = Some i" for i
    using Evaluate_bound [OF that] good_set_names(2,3) [OF assms(1)] by (simp add: unat_of_nat)
  with assms(2) codes show ?thesis by (cases ?r) (auto simp: pending_ok_def answer_code_def)
qed

lemma handle_record_exact:
  assumes "good_set eval s" and "event_widths e" and "same_world W w" and "cache_of W (u_src u)"
    and "pending_ok eval s (world_attrs W) e" and "verdicts_exact (world_attrs W) (set_atoms s) (u_kernel u)"
  shows "\<exists>u'. handle_record eval (Some Attrs) (Some s) verify w ch (event_bytes e) u = Some u' \<and>
    u_sent u' = u_sent u @ (case Evaluate eval s (filter_event (world_attrs W (e_cgroup_id e)) e) of None \<Rightarrow> [] | Some i \<Rightarrow> [sent_event s e i]) \<and>
    u_mismatches u' = u_mismatches u \<and> cache_of W (u_src u') \<and> verdicts_exact (world_attrs W) (set_atoms s) (u_kernel u') \<and>
    same_but_verdicts (u_kernel u) (u_kernel u')"
proof -
  let ?A = "world_attrs W (e_cgroup_id e)" and ?r = "Evaluate eval s (filter_event (world_attrs W (e_cgroup_id e)) e)"
  obtain m where m: "VerdictMask (set_atoms s) ?A = Some m" using good_set_mask [OF assms(1)] by blast
  have rd: "read_event (event_bytes e) = Some e" using event_roundtrip_bytes [OF assms(2)] .
  have res: "resolveFilter eval (Some Attrs) s w ch e v =
      Some (?r, v\<lparr>u_src := snd (Attrs w (e_cgroup_id e) (u_src v)), u_kernel := store_verdict ch (e_cgroup_id e) m (u_kernel v)\<rparr>)"
    if "cache_of W (u_src v)" for v :: "Client option ustate"
    by (rule node.resolveFilter_exact [OF assms(3) that m])
  have cache: "cache_of W (snd (Attrs w (e_cgroup_id e) (u_src u)))" by (rule node.Attrs_keeps [OF assms(3,4)])
  have store: "verdicts_exact (world_attrs W) (set_atoms s) (store_verdict ch (e_cgroup_id e) m (u_kernel u))"
    by (rule store_verdict_exact [OF assms(6) m])
  have names: "length (set_asts s) = length (set_names s)" "length (set_names s) \<le> MaxFilters"
    using good_set_names [OF assms(1)] by simp_all
  show ?thesis
  proof (cases "e_filter_idx e < of_nat (length (set_names s))")
    case True
    then have r: "?r = Some (unat (e_filter_idx e))" using assms(5) by (simp add: pending_ok_def)
    then have "unat (e_filter_idx e) < length (set_names s)" using Evaluate_bound names(1) by metis
    with True r rd res [of "u\<lparr>u_events_total := u_events_total u + 1, u_passed_bpf := u_passed_bpf u + 1\<rparr>"] assms(4,6) cache store
    show ?thesis
      by (auto simp: handle_record_def verifyBpfDecision_def deliver_def decodeConnEvent_def sent_event_def Let_def
          store_verdict_def)
  next
    case False
    show ?thesis
    proof (cases ?r)
      case None
      with False rd res [of "u\<lparr>u_events_total := u_events_total u + 1\<rparr>"] assms(4) cache store show ?thesis
        by (auto simp: handle_record_def decodeConnEvent_def Let_def store_verdict_def)
    next
      case (Some i)
      then have "i < length (set_names s)" using Evaluate_bound names(1) by metis
      with Some False rd res [of "u\<lparr>u_events_total := u_events_total u + 1\<rparr>"] assms(4) cache store show ?thesis
        by (auto simp: handle_record_def deliver_def decodeConnEvent_def sent_event_def Let_def store_verdict_def)
    qed
  qed
qed

subsection \<open>The invariant\<close>

lemma sync_same:
  assumes "syncOnce s snap ch keys k = Some k'"
  shows "same_but_verdicts k k'"
proof -
  have u: "sync_updates as ch sn k1 = Some (b, k2) \<Longrightarrow> same_but_verdicts k1 k2" for as sn k1 b k2
    by (induction as ch sn k1 rule: sync_updates.induct)
      (auto simp: Let_def store_verdict_def split: option.splits if_splits)
  have d: "same_but_verdicts k1 (sync_deletes live ks k2) = same_but_verdicts k1 k2" for live ks k1 k2
    by (induction ks arbitrary: k2) auto
  show ?thesis
  proof (cases snap)
    case None
    with assms show ?thesis by (simp add: syncOnce_def)
  next
    case (Some sn)
    with assms obtain b k1 where k1: "sync_updates (set_atoms s) ch sn k = Some (b, k1)"
      "k' = (if b then sync_deletes (fst ` set sn) keys k1 else k1)"
      by (auto simp: syncOnce_def split: option.splits bool.splits)
    from u [OF k1(1)] show ?thesis by (simp add: k1(2) d)
  qed
qed

lemma run_tp_verdicts: "ko_cgroup_verdict (run_tp env t k) = ko_cgroup_verdict k"
  by (cases t) (auto simp: ko_sock_state_def ko_retransmit_def ko_probe_def ko_destroy_sock_def submit_conn_evt_def
      ko_count_filter_drop_def Let_def split: option.split)

lemma run_tp_loaded: "loaded s (run_tp env t k) = loaded s k"
  by (cases t) (auto simp: loaded_def ko_sock_state_def ko_retransmit_def ko_probe_def ko_destroy_sock_def Let_def split: option.split)

definition agent_inv :: "cel_eval \<Rightarrow> Set \<Rightarrow> world \<Rightarrow> Client option ustate \<Rightarrow> bool" where
  "agent_inv eval s W u \<longleftrightarrow> state_ok (u_kernel u) \<and> loaded s (u_kernel u) \<and> cache_of W (u_src u) \<and>
     verdicts_exact (world_attrs W) (set_atoms s) (u_kernel u) \<and>
     list_all (pending_ok eval s (world_attrs W)) (ko_events (u_kernel u)) \<and> u_mismatches u = 0 \<and>
     list_all (\<lambda>ce. \<exists>e i. ce = sent_event s e i \<and> event_ok e \<and>
       Evaluate eval s (filter_event (world_attrs W (e_cgroup_id e)) e) = Some i) (u_sent u)"

lemma run_tp_event_pending:
  assumes "good_set eval s" and "loaded s k" and "verdicts_exact A (set_atoms s) k" and "env_ok env"
  shows "ko_events (run_tp env t k) = ko_events k \<or> (\<exists>e. ko_events (run_tp env t k) = ko_events k @ [e] \<and> pending_ok eval s A e)"
proof (cases "ko_events (run_tp env t k) = ko_events k")
  case False
  obtain c n ty fam sp dp a where
    ep: "sock_read_endpoints (socks env (tp_sock t)) = Some (fam, sp, dp, a)" and ty: "ty \<in> tp_types t" and
    ev: "ko_events (run_tp env t k) = ko_events k @
       [make_event env (ktime env n) (tp_sock t) c ty fam sp dp a (filter_verdict env (ktime env n) (tp_sock t) c ty fam a k)]"
    by (rule run_tp_emits [OF False]) (rule that, assumption+)
  have "sock_ok (socks env (tp_sock t))" using assms(4) by (simp add: env_ok_def)
  then have fa: "fam = AF_INET \<or> fam = AF_INET6" "addrs_ok a" using sock_read_endpoints_SomeE [OF ep] by blast+
  have "ty < 64" using ty tp_types_conn conn_evt_less by blast
  note v = submitted_verdict [OF assms(1-3) fa this refl, where env = env and now = "ktime env n"
      and sk = "tp_sock t" and c = c and sp = sp and dp = dp]
  let ?e = "make_event env (ktime env n) (tp_sock t) c ty fam sp dp a (filter_verdict env (ktime env n) (tp_sock t) c ty fam a k)"
  have "e_filter_idx ?e \<in> {KO_FILTER_UNDECIDED, answer_code (Evaluate eval s (filter_event (A (e_cgroup_id ?e)) ?e))}"
    using v unfolding make_event_cgroup filter_event_make [of _ env _ _ _ _ _ _ _ _ "filter_verdict env (ktime env n) (tp_sock t) c ty fam a k"]
    by simp
  from answer_pending [where A = A, OF assms(1) this] ev show ?thesis by blast
qed simp

lemma run_tp_pending:
  assumes "good_set eval s" and "state_ok k" and "loaded s k" and "verdicts_exact A (set_atoms s) k" and "env_ok env"
    and "list_all (pending_ok eval s A) (ko_events k)"
  shows "list_all (pending_ok eval s A) (ko_events (run_tp env t k))"
  using run_tp_event_pending [OF assms(1,3,4,5), of t] assms(6) by auto

lemma trace_only:
  "exec h k \<Longrightarrow> list_all is_trace h \<Longrightarrow>
     ko_filter_cfg k = [0] \<and> ko_cgroup_verdict k = Map.empty \<and> list_all (\<lambda>e. e_filter_idx e = KO_FILTER_UNFILTERED) (ko_events k)"
proof (induction rule: exec.induct)
  case exec_init
  then show ?case by (simp add: init_state_def)
next
  case (exec_step h k x)
  then obtain env t where x: "x = Trace env t" by (cases x) auto
  have cfg: "ko_filter_cfg (run_tp env t k) = ko_filter_cfg k"
    by (cases t) (auto simp: ko_sock_state_def ko_retransmit_def ko_probe_def ko_destroy_sock_def Let_def split: option.split)
  have ih: "ko_filter_cfg k = [0]" "ko_cgroup_verdict k = Map.empty" "list_all (\<lambda>e. e_filter_idx e = KO_FILTER_UNFILTERED) (ko_events k)"
    using exec_step by simp_all
  have "filter_verdict env now sk c ty fam a k = KO_FILTER_UNFILTERED" for now sk c ty fam a
    using ih(1) by (simp add: array_lookup_def ko_filter_eval_def split: option.split)
  then have "ko_events (run_tp env t k) = ko_events k \<or>
      (\<exists>e. ko_events (run_tp env t k) = ko_events k @ [e] \<and> e_filter_idx e = KO_FILTER_UNFILTERED)"
    using run_tp_emits [of env t k] by (metis make_event_idx)
  then have "list_all (\<lambda>e. e_filter_idx e = KO_FILTER_UNFILTERED) (ko_events (run_tp env t k))"
    using ih(3) by auto
  with ih cfg x show ?case by (simp add: run_tp_verdicts)
qed

lemma prog_ok_set: "good_set eval s \<Longrightarrow> prog_ok (ko_prog_of (BPFProg (set_names s) (set_flat s)))"
proof -
  assume g: "good_set eval s"
  then have "list_all Pred_ok (set_flat s)" "length (set_flat s) \<le> MaxPreds"
    using good_set_names(1) [OF g] by (auto simp: good_set_def compiled_ok_def wf_pred_def list_all_iff)
  moreover have "Pred_ok zeroPred" by (rule Pred_ok_zero)
  ultimately show ?thesis using ko_pred_of_ok
    by (auto simp: prog_ok_def ko_prog_of_def BPFProg_def list_all_iff dest: in_set_takeD)
qed

lemma store_state_ok:
  "state_ok k \<Longrightarrow> prog_ok p \<Longrightarrow> state_ok (k\<lparr>ko_filter_prog := [p], ko_filter_cfg := [c]\<rparr>)"
  by (simp add: state_ok_def)

lemma start_inv:
  assumes "good_set eval s" and "exec h k" and "list_all is_trace h" and "cache_of W c" and "snapshot_of c snap"
    and "startFilters (True, True) (Some s) (Some snap) ch keys k = Some (Inr k')"
  shows "agent_inv eval s W (start_ustate k' c)"
proof -
  let ?p = "ko_prog_of (BPFProg (set_names s) (set_flat s))"
  have t: "ko_filter_cfg k = [0]" "ko_cgroup_verdict k = Map.empty" "list_all (\<lambda>e. e_filter_idx e = KO_FILTER_UNFILTERED) (ko_events k)"
    using trace_only [OF assms(2,3)] by simp_all
  have ok: "state_ok k" by (rule exec_state_ok [OF assms(2)])
  then obtain q where q: "ko_filter_prog k = [q]" by (auto simp: state_ok_def length_Suc_conv)
  obtain k1 where k1: "syncOnce s (Some snap) ch keys (k\<lparr>ko_filter_prog := [?p]\<rparr>) = Some k1"
    "k' = k1\<lparr>ko_filter_cfg := (ko_filter_cfg k1)[0 := 1]\<rparr>"
    using assms(6) q by (auto simp: startFilters_def Let_def split: option.splits)
  have same: "same_but_verdicts (k\<lparr>ko_filter_prog := [?p]\<rparr>) k1" by (rule sync_same [OF k1(1)])
  then have kk: "k1\<lparr>ko_cgroup_verdict := Map.empty\<rparr> = k\<lparr>ko_filter_prog := [?p], ko_cgroup_verdict := Map.empty\<rparr>"
    by (simp add: same_but_verdicts_def)
  have cfg: "ko_filter_cfg k1 = [0]" "ko_filter_prog k1 = [?p]" "ko_events k1 = ko_events k"
    using arg_cong [OF kk, of ko_filter_cfg] arg_cong [OF kk, of ko_filter_prog] arg_cong [OF kk, of ko_events] t(1) by simp_all
  have "state_ok (k\<lparr>ko_filter_prog := [?p], ko_cgroup_verdict := Map.empty\<rparr>)"
    using ok prog_ok_set [OF assms(1)] by (simp add: state_ok_def)
  then have "state_ok k1" unfolding kk [symmetric] by (simp add: state_ok_def)
  then have sk: "state_ok k'" by (simp add: k1(2) state_ok_def)
  have "verdicts_exact (world_attrs W) (set_atoms s) (k\<lparr>ko_filter_prog := [?p]\<rparr>)"
    using t(2) by (simp add: verdicts_exact_def lru_entries_iff)
  from node.syncOnce_exact [OF k1(1) this assms(4)] assms(5)
  have "verdicts_exact (world_attrs W) (set_atoms s) k'" by (simp add: snapshot_of_def k1(2) verdicts_exact_def)
  moreover have "list_all (pending_ok eval s (world_attrs W)) (ko_events k')"
  proof -
    have "unat (of_nat (length (set_names s)) :: u16) \<le> 32" using good_set_names(2) [OF assms(1)] by (simp add: unat_of_nat)
    then have "\<not> KO_FILTER_UNFILTERED < of_nat (length (set_names s))" by (auto simp: word_less_nat_alt KO_FILTER_UNFILTERED_def)
    with t(3) cfg(3) show ?thesis by (auto simp: k1(2) list_all_iff pending_ok_def)
  qed
  ultimately show ?thesis using sk cfg assms(4) by (simp add: agent_inv_def start_ustate_def loaded_def k1(2))
qed

lemma agent_invariant:
  assumes "agent eval s verify W u" and g: "good_set eval s"
  shows "agent_inv eval s W u"
  using assms(1)
proof (induction rule: agent.induct)
  case (agent_start h k c snap ch keys k')
  then show ?case by (intro start_inv [OF g])
next
  case (agent_kernel u env t)
  then show ?case
    using run_tp_ok [of "u_kernel u" env t] run_tp_pending [OF g, of "u_kernel u" "world_attrs W" env t]
    by (simp add: agent_inv_def run_tp_loaded verdicts_exact_def run_tp_verdicts)
next
  case (agent_consume u w e es lru u')
  let ?u = "u\<lparr>u_kernel := (u_kernel u)\<lparr>ko_events := es\<rparr>\<rparr>"
  have inv: "agent_inv eval s W u" by (rule agent_consume)
  have ok: "event_ok e" "state_ok (u_kernel ?u)" "loaded s (u_kernel ?u)" "pending_ok eval s (world_attrs W) e"
    "list_all (pending_ok eval s (world_attrs W)) es"
    using inv agent_consume(3) prog_ok_set [OF g] by (simp_all add: agent_inv_def state_ok_def loaded_def)
  obtain u1 where u1: "handle_record eval (Some Attrs) (Some s) verify w lru (event_bytes e) ?u = Some u1"
    "u_sent u1 = u_sent ?u @ (case Evaluate eval s (filter_event (world_attrs W (e_cgroup_id e)) e) of None \<Rightarrow> [] | Some i \<Rightarrow> [sent_event s e i])"
    "u_mismatches u1 = u_mismatches ?u" "cache_of W (u_src u1)" "verdicts_exact (world_attrs W) (set_atoms s) (u_kernel u1)"
    "same_but_verdicts (u_kernel ?u) (u_kernel u1)"
    using handle_record_exact [OF g event_ok_widths [OF ok(1)] agent_consume(2), of ?u verify lru] inv ok(4)
    by (auto simp: agent_inv_def verdicts_exact_def)
  have "u' = u1" using u1(1) agent_consume(4) by simp
  with u1(2-5) same_but_verdictsD [OF u1(6)] inv ok show ?case
    by (auto simp: agent_inv_def split: option.splits)
next
  case (agent_sync u snap ch keys k')
  then show ?case
    using same_but_verdictsD [OF sync_same [OF agent_sync(3)]] node.syncOnce_exact [OF agent_sync(3), of W "u_src u"]
    by (simp add: agent_inv_def snapshot_of_def)
next
  case (agent_refresh u w c)
  have "sync_map w = sync_map W" using agent_refresh(2) by (auto simp: same_world_def sync_map_def fun_eq_iff split: option.split)
  with agent_refresh show ?case by (simp add: agent_inv_def cache_of_def Sync_def)
qed

subsection \<open>A run\<close>

text \<open>One filter on the round-trip time, and the connection of the example that it matches.\<close>

definition ex_rtt_expr :: expr where
  "ex_rtt_expr = ECall ''_==_'' [EIdent ''ko_rtt_us'', ELit (VInt 100)]"

definition ex_rtt_set :: Set where
  "ex_rtt_set = (let ps = [zeroPred\<lparr>Kind := PredCmp, fldA := FldRTT, fldB := CmpEq, Val := 100\<rparr>] in
     \<lparr>set_names = [''r''], set_asts = [ex_rtt_expr], set_atoms = [], set_preds = [ps], set_flat = flat_loop 0 [(ps, False)], set_userspace = [False]\<rparr>)"

lemma ex_rtt_good: "good_set ref_eval ex_rtt_set"
proof -
  have "Compile True (\<lambda>_. Some ex_rtt_expr) (\<lambda>_. True) [\<lparr>cfg_Name = ''r'', cfg_Expr = []\<rparr>] = Some (Inr ex_rtt_set)"
    by code_simp
  moreover have "list_all faithful (set_asts ex_rtt_set)" "length (set_flat ex_rtt_set) \<le> MaxPreds"
    "list_all (\<lambda>p. Kind p = PredIPSet \<longrightarrow> byte_prefixes p) (set_flat ex_rtt_set)" by code_simp+
  ultimately show ?thesis unfolding good_set_def using ref_eval_laws by blast
qed

definition ex_kernel :: kstate where
  "ex_kernel = init_state\<lparr>ko_filter_prog := [ko_prog_of (BPFProg [''r''] (set_flat ex_rtt_set))], ko_filter_cfg := [1]\<rparr>"

lemma ex_agent: "agent ref_eval ex_rtt_set verify (ex_world 0) (start_ustate ex_kernel (Some new_client))"
proof (rule agent_start [OF exec_init])
  show "startFilters (True, True) (Some ex_rtt_set) (Some []) (\<lambda>_. \<lparr>lru_victims = [], lru_fails = False\<rparr>) [] init_state = Some (Inr ex_kernel)"
    by (simp add: startFilters_def syncOnce_def ex_kernel_def init_state_def ex_rtt_set_def Let_def)
qed (simp_all add: cache_of_def snapshot_of_def)


definition ex_closed :: kstate where
  "ex_closed = run_tp (ex_env 5000000 0) ex_close (run_tp (ex_env 1000000 4242) (Inet_sock_set_state 1 7 2) ex_kernel)"

definition ex_closed_event :: conn_event_t where
  "ex_closed_event = make_event (ex_env 5000000 0) 5000000 1 (connect_ctx (ex_env 1000000 4242)) CONN_EVT_CLOSED AF_INET 0x1234 0x01bb
     \<lparr>sa_local = [10, 0, 0, 5] @ replicate 12 0, sa_remote = [172, 17, 0, 2] @ replicate 12 0\<rparr> 0"

lemma ex_closed_events: "ko_events ex_closed = [ex_closed_event]"
  by code_simp

lemma ex_same_world: "same_world (ex_world 0) (ex_world 10000000000)"
  by (simp add: same_world_def ex_world_def minSyncInterval_def)

lemma ex_evaluates: "Evaluate ref_eval ex_rtt_set (filter_event A ex_closed_event) = Some 0"
proof -
  have "ev_RTTUS (filter_event A ex_closed_event) = 100"
    by (simp add: filter_event_def ex_closed_event_def make_event_def fill_addrs_def ex_sock_def Let_def)
  then show ?thesis
    by (simp add: Evaluate_def ex_rtt_set_def ex_rtt_expr_def activation_def apply_op_def cmpOps_def cel_compare_def Let_def)
qed




subsection \<open>When a container starts\<close>

text \<open>The example connection, slow, in the cgroup 77 of a pod in the namespace default.\<close>

definition ex_slow_event :: conn_event_t where
  "ex_slow_event = ex_closed_event\<lparr>e_rtt_us := 6000, e_cgroup_id := 77, e_filter_idx := KO_FILTER_UNDECIDED\<rparr>"

definition ex_young_cache :: Client where
  "ex_young_cache = \<lparr>byCgroup = Map.empty, lastSync = 10000000000\<rparr>"

lemma ex_plain_evaluates:
  "Evaluate ref_eval ex_plain (filter_event A ex_slow_event) = (if attr_Namespace A = ''default'' then Some 0 else None)"
proof -
  have "ev_RTTUS (filter_event A ex_slow_event) = 6000" "ev_Namespace (filter_event A ex_slow_event) = attr_Namespace A"
    by (simp_all add: filter_event_def ex_slow_event_def)
  then show ?thesis
    by (simp add: Evaluate_def ex_plain_def ex_parse_def activation_def apply_op_def cmpOps_def cel_compare_def Let_def)
qed

text \<open>The verdict of a container that has just started is wrong until the next sync. The filter asks for slow connections of the
  namespace default, the container is in that namespace, and its event matches; but the cache is one second old
  and does not know the container, so the loop drops the event and stores the
  verdict of a cgroup without attributes, and from then on the kernel drops the container's
  events itself.\<close>

theorem young_container_dropped:
  "attr_Namespace (world_attrs (ex_world 11000000000) 77) = ''default'' \<and>
   Evaluate ref_eval ex_plain (filter_event (world_attrs (ex_world 11000000000) 77) ex_slow_event) = Some 0 \<and>
   (\<exists>u. resolveFilter ref_eval (Some Attrs) ex_plain (ex_world 11000000000) \<lparr>lru_victims = [], lru_fails = False\<rparr>
      ex_slow_event (start_ustate init_state (Some ex_young_cache)) = Some (None, u) \<and>
      ko_filter_eval (Some 1) (Some (ko_prog_of (BPFProg (set_names ex_plain) (set_flat ex_plain))))
        (ko_cgroup_verdict (u_kernel u)) (ex_args\<lparr>g_cgroup_id := 77, g_rtt_us := 6000\<rparr>) = KO_FILTER_DROP)"
proof (intro conjI)
  let ?u = "start_ustate init_state (Some ex_young_cache)"
    and ?u' = "(start_ustate init_state (Some ex_young_cache))\<lparr>u_kernel := init_state\<lparr>ko_cgroup_verdict := [77 \<mapsto> 0]\<rparr>\<rparr>"
  have m: "VerdictMask (set_atoms ex_plain) no_attrs = Some 0" by code_simp
  have none: "Evaluate ref_eval ex_plain (filter_event no_attrs ex_slow_event) = None"
    unfolding ex_plain_evaluates by (simp add: no_attrs_def)
  have id: "e_cgroup_id ex_slow_event = 77" by (simp add: ex_slow_event_def)
  have "Attrs (ex_world 11000000000) 77 (Some ex_young_cache) = ((no_attrs, True), Some ex_young_cache)"
    by (rule Attrs_rate_limited) (simp_all add: ex_young_cache_def ex_world_def minSyncInterval_def)
  then have "resolveFilter ref_eval (Some Attrs) ex_plain (ex_world 11000000000) \<lparr>lru_victims = [], lru_fails = False\<rparr>
      ex_slow_event ?u = Some (None, ?u')"
    by (simp add: resolveFilter_def m none id start_ustate_def store_verdict_def lru_update_def init_state_def Let_def)
  moreover have "ko_filter_eval (Some 1) (Some (ko_prog_of (BPFProg (set_names ex_plain) (set_flat ex_plain))))
        [77 \<mapsto> 0] (ex_args\<lparr>g_cgroup_id := 77, g_rtt_us := 6000\<rparr>) = KO_FILTER_DROP"
    by code_simp
  ultimately show "\<exists>u. resolveFilter ref_eval (Some Attrs) ex_plain (ex_world 11000000000) \<lparr>lru_victims = [], lru_fails = False\<rparr>
      ex_slow_event ?u = Some (None, u) \<and>
      ko_filter_eval (Some 1) (Some (ko_prog_of (BPFProg (set_names ex_plain) (set_flat ex_plain))))
        (ko_cgroup_verdict (u_kernel u)) (ex_args\<lparr>g_cgroup_id := 77, g_rtt_us := 6000\<rparr>) = KO_FILTER_DROP"
    by (intro exI [of _ ?u']) simp
  show ns: "attr_Namespace (world_attrs (ex_world 11000000000) 77) = ''default''" by code_simp
  then show "Evaluate ref_eval ex_plain (filter_event (world_attrs (ex_world 11000000000) 77) ex_slow_event) = Some 0"
    unfolding ex_plain_evaluates by simp
qed

end
