(* ===== verification/Node_Settle.thy ===== *)
theory Node_Settle
  imports Node_Agent
begin

text \<open>
  The agent on a node whose containers change. Every lookup, refresh and sync sees the world of its moment, so that the cache and the verdict map
  may be out of date (\<open>dyn\<close>). Once the containers stay as they are, one refresh of the cache and one complete
  verdict sync after it are enough: from then on the verdict map is exact, and every event that the kernel
  produces after the sync is sent with the filter that exact evaluation selects.
\<close>

subsection \<open>A complete sync repairs the verdict map\<close>

lemma sync_updates_live:
  assumes "sync_updates as ch snap k = Some (b, k1)" and "\<And>i. \<not> lru_fails (ch i)" and "list_all (\<lambda>(i, a). a = attrs i) snap"
    and "\<And>i m. i \<in> S \<Longrightarrow> ko_cgroup_verdict k i = Some m \<Longrightarrow> VerdictMask as (attrs i) = Some m"
  shows "b \<and> (\<forall>i m. ko_cgroup_verdict k1 i = Some m \<longrightarrow>
    (if i \<in> S \<union> fst ` set snap then VerdictMask as (attrs i) = Some m else ko_cgroup_verdict k i = Some m))"
  using assms
proof (induction as ch snap k arbitrary: S rule: sync_updates.induct)
  case (1 as ch k)
  then show ?case by auto
next
  case (2 as ch i a rest k)
  obtain m where m: "VerdictMask as a = Some m" using "2.prems"(1) by (auto split: option.splits)
  let ?k = "store_verdict (ch i) i m k"
  have k1: "sync_updates as ch rest ?k = Some (b, k1)" using "2.prems"(1,2) m by (simp add: Let_def)
  have st: "ko_cgroup_verdict ?k j = Some v \<Longrightarrow> j = i \<and> v = m \<or> j \<noteq> i \<and> ko_cgroup_verdict k j = Some v" for j v
    using "2.prems"(2) by (auto simp: store_verdict_def lru_update_def Let_def split: if_splits)
  have a: "VerdictMask as (attrs i) = Some m" "list_all (\<lambda>(i, a). a = attrs i) rest" using m "2.prems"(3) by simp_all
  have pre: "VerdictMask as (attrs j) = Some v" if "j \<in> insert i S" "ko_cgroup_verdict ?k j = Some v" for j v
    using st [OF that(2)] that(1) a(1) "2.prems"(4) by auto
  have "b \<and> (\<forall>j v. ko_cgroup_verdict k1 j = Some v \<longrightarrow>
      (if j \<in> insert i S \<union> fst ` set rest then VerdictMask as (attrs j) = Some v else ko_cgroup_verdict ?k j = Some v))"
    by (rule "2.IH" [OF m refl _ k1 "2.prems"(2) a(2) pre]) (use "2.prems"(2) in simp)
  then show ?case using st by (auto split: if_splits)
qed

lemma sync_deletes_verdicts:
  "ko_cgroup_verdict (sync_deletes live keys k) i = (if i \<in> set keys \<and> i \<notin> live then None else ko_cgroup_verdict k i)"
  by (induction keys arbitrary: k) (auto simp: hash_delete_def)

definition complete_sync :: "(u64 \<Rightarrow> lru_choice) \<Rightarrow> u64 list \<Rightarrow> (u64 \<times> CgroupAttrs) list \<Rightarrow> kstate \<Rightarrow> bool" where
  "complete_sync ch keys snap k \<longleftrightarrow> (\<forall>i. \<not> lru_fails (ch i)) \<and> dom (ko_cgroup_verdict k) \<subseteq> set keys \<union> fst ` set snap"

lemma complete_sync_exact:
  assumes "syncOnce s (Some snap) ch keys k = Some k'" and "complete_sync ch keys snap k" and "list_all (\<lambda>(i, a). a = attrs i) snap"
  shows "verdicts_exact attrs (set_atoms s) k'"
proof -
  obtain b k1 where k1: "sync_updates (set_atoms s) ch snap k = Some (b, k1)"
    using assms(1) by (auto simp: syncOnce_def split: option.splits)
  note l = sync_updates_live [OF k1 _ assms(3), of "{}"]
  have b: b and v: "\<And>i m. ko_cgroup_verdict k1 i = Some m \<Longrightarrow>
      (if i \<in> fst ` set snap then VerdictMask (set_atoms s) (attrs i) = Some m else ko_cgroup_verdict k i = Some m)"
    using l assms(2) by (auto simp: complete_sync_def)
  have k': "k' = sync_deletes (fst ` set snap) keys k1" using assms(1) k1 b by (simp add: syncOnce_def)
  have "VerdictMask (set_atoms s) (attrs i) = Some m" if "ko_cgroup_verdict k' i = Some m" for i m
  proof -
    have i: "ko_cgroup_verdict k1 i = Some m" "i \<in> set keys \<Longrightarrow> i \<in> fst ` set snap"
      using that by (auto simp: k' sync_deletes_verdicts split: if_splits)
    then have "i \<in> fst ` set snap" using v [of i m] assms(2) by (auto simp: complete_sync_def split: if_splits)
    with v [OF i(1)] show ?thesis by simp
  qed
  then show ?thesis by (simp add: verdicts_exact_def lru_entries_iff)
qed

subsection \<open>Records that were decided before\<close>

lemma resolveFilter_keeps:
  "resolveFilter eval (Some src) s w ch raw u = Some (m, u') \<Longrightarrow>
     same_but_verdicts (u_kernel u) (u_kernel u') \<and> u_src u' = snd (src w (e_cgroup_id raw) (u_src u))"
  by (auto simp: resolveFilter_def Let_def store_verdict_def split_def split: option.splits if_splits)

lemma verify_keeps:
  "verifyBpfDecision eval (Some src) s w ch raw i u = Some u' \<Longrightarrow>
     same_but_verdicts (u_kernel u) (u_kernel u') \<and> u_src u' = snd (src w (e_cgroup_id raw) (u_src u))"
  by (auto simp: verifyBpfDecision_def dest!: resolveFilter_keeps split: option.splits)

lemma handle_record_keeps:
  assumes "handle_record eval (Some src) (Some s) verify w ch bs u = Some u'"
  shows "same_but_verdicts (u_kernel u) (u_kernel u') \<and> (u_src u' = u_src u \<or> (\<exists>i. u_src u' = snd (src w i (u_src u))))"
  using assms
  by (auto simp: handle_record_def deliver_def Let_def dest!: resolveFilter_keeps verify_keeps
      split: option.splits if_splits prod.splits)

text \<open>The cache and the verdict map agree with the world.\<close>

definition tracks :: "world \<Rightarrow> Set \<Rightarrow> Client option ustate \<Rightarrow> bool" where
  "tracks W s u \<longleftrightarrow> cache_of W (u_src u) \<and> verdicts_exact (world_attrs W) (set_atoms s) (u_kernel u)"

lemma tracks_counters [simp]:
  "tracks W s (u\<lparr>u_events_total := n\<rparr>) = tracks W s u" "tracks W s (u\<lparr>u_decode_errors := n\<rparr>) = tracks W s u"
  "tracks W s (u\<lparr>u_passed_bpf := n\<rparr>) = tracks W s u" "tracks W s (u\<lparr>u_passed_userspace := n\<rparr>) = tracks W s u"
  "tracks W s (u\<lparr>u_dropped_userspace := n\<rparr>) = tracks W s u" "tracks W s (u\<lparr>u_mismatches := n\<rparr>) = tracks W s u"
  "tracks W s (deliver e u) = tracks W s u"
  by (simp_all add: tracks_def deliver_def)

lemma resolve_tracks:
  assumes "good_set eval s" and "same_world W w" and "resolveFilter eval (Some Attrs) s w ch raw u = Some (m, u')"
  shows "tracks W s u \<longrightarrow> tracks W s u'"
proof
  assume "tracks W s u"
  then have u: "cache_of W (u_src u)" "verdicts_exact (world_attrs W) (set_atoms s) (u_kernel u)" by (simp_all add: tracks_def)
  obtain v where v: "VerdictMask (set_atoms s) (world_attrs W (e_cgroup_id raw)) = Some v" using good_set_mask [OF assms(1)] by blast
  show "tracks W s u'"
    using node.resolveFilter_exact [OF assms(2) u(1) v, of eval ch] assms(3) node.Attrs_keeps [OF assms(2) u(1)]
      store_verdict_exact [OF u(2) v] by (auto simp: tracks_def)
qed

lemma handle_record_tracks:
  assumes "good_set eval s" and "same_world W w" and "handle_record eval (Some Attrs) (Some s) verify w ch bs u = Some u'"
  shows "tracks W s u \<longrightarrow> tracks W s u'"
proof -
  have v: "tracks W s v \<longrightarrow> tracks W s v'" if "verifyBpfDecision eval (Some Attrs) s w ch raw i v = Some v'" for raw i v v'
    using that by (auto simp: verifyBpfDecision_def dest!: resolve_tracks [OF assms(1,2)] split: option.splits)
  from assms(3) show ?thesis
    by (auto simp: handle_record_def Let_def dest!: resolve_tracks [OF assms(1,2)] v split: option.splits if_splits prod.splits)
qed

subsection \<open>A node that changes\<close>

inductive dyn :: "cel_eval \<Rightarrow> Set \<Rightarrow> bool \<Rightarrow> Client option ustate \<Rightarrow> bool" for eval s verify where
  dyn_start: "exec h k \<Longrightarrow> list_all is_trace h \<Longrightarrow> snapshot_of (Some c) snap \<Longrightarrow>
    startFilters (True, True) (Some s) (Some snap) ch keys k = Some (Inr k') \<Longrightarrow>
    dyn eval s verify (start_ustate k' (Some c))"
| dyn_kernel: "dyn eval s verify u \<Longrightarrow> env_ok env \<Longrightarrow> dyn eval s verify (u\<lparr>u_kernel := run_tp env t (u_kernel u)\<rparr>)"
| dyn_consume: "dyn eval s verify u \<Longrightarrow> ko_events (u_kernel u) = e # es \<Longrightarrow>
    handle_record eval (Some Attrs) (Some s) verify w ch (event_bytes e)
      (u\<lparr>u_kernel := (u_kernel u)\<lparr>ko_events := es\<rparr>\<rparr>) = Some u' \<Longrightarrow> dyn eval s verify u'"
| dyn_sync: "dyn eval s verify u \<Longrightarrow> snapshot_of src snap \<Longrightarrow> syncOnce s (Some snap) ch keys (u_kernel u) = Some k' \<Longrightarrow>
    dyn eval s verify (u\<lparr>u_kernel := k'\<rparr>)"
| dyn_refresh: "dyn eval s verify u \<Longrightarrow> u_src u = Some c \<Longrightarrow> dyn eval s verify (u\<lparr>u_src := Some (Sync w c)\<rparr>)"

lemma dyn_ok:
  assumes "dyn eval s verify u" and g: "good_set eval s"
  shows "state_ok (u_kernel u) \<and> loaded s (u_kernel u)"
  using assms(1)
proof (induction rule: dyn.induct)
  case (dyn_start h k c snap ch keys k')
  let ?p = "ko_prog_of (BPFProg (set_names s) (set_flat s))"
  have ok: "state_ok k" "ko_filter_cfg k = [0]" using exec_state_ok [OF dyn_start(1)] trace_only [OF dyn_start(1,2)] by simp_all
  then obtain q where q: "ko_filter_prog k = [q]" by (auto simp: state_ok_def length_Suc_conv)
  obtain k1 where k1: "syncOnce s (Some snap) ch keys (k\<lparr>ko_filter_prog := [?p]\<rparr>) = Some k1"
    "k' = k1\<lparr>ko_filter_cfg := (ko_filter_cfg k1)[0 := 1]\<rparr>"
    using dyn_start(4) q by (auto simp: startFilters_def Let_def split: option.splits)
  have same: "same_but_verdicts (k\<lparr>ko_filter_prog := [?p], ko_filter_cfg := [1]\<rparr>) k'"
    using sync_same [OF k1(1)] ok(2) unfolding same_but_verdicts_def k1(2) by (cases k1; cases k) simp
  have "state_ok (k\<lparr>ko_filter_prog := [?p], ko_filter_cfg := [1]\<rparr>)" by (rule store_state_ok [OF ok(1) prog_ok_set [OF g]])
  then show ?case using same_but_verdictsD(2,3) [OF same] by (simp add: start_ustate_def loaded_def)
next
  case (dyn_kernel u env t)
  then show ?case using run_tp_ok [of "u_kernel u" env t] by (simp add: run_tp_loaded)
next
  case (dyn_consume u e es w ch u')
  then have "state_ok ((u_kernel u)\<lparr>ko_events := es\<rparr>)" "loaded s ((u_kernel u)\<lparr>ko_events := es\<rparr>)"
    using prog_ok_set [OF g] by (simp_all add: state_ok_def loaded_def)
  then show ?case using handle_record_keeps [OF dyn_consume(3)] same_but_verdictsD(2,3) by fastforce
next
  case (dyn_sync u snap ch keys k')
  then show ?case using same_but_verdictsD(2,3) [OF sync_same [OF dyn_sync(3)]] by simp
qed simp

subsection \<open>After the containers have settled\<close>

text \<open>\<open>settled n done sent u\<close>: in the world \<open>W\<close> a complete verdict sync has run on a refreshed cache; \<open>n\<close> events in the ring buffer are older than
  this sync, \<open>done\<close> are the newer ones that the loop has handled, and \<open>sent\<close> is what it sent of them.\<close>

inductive settled ::
    "cel_eval \<Rightarrow> Set \<Rightarrow> bool \<Rightarrow> world \<Rightarrow> nat \<Rightarrow> conn_event_t list \<Rightarrow> ConnEvent list \<Rightarrow> Client option ustate \<Rightarrow> bool"
  for eval s verify W where
  settled_start: "dyn eval s verify u \<Longrightarrow> u_src u = Some c \<Longrightarrow> byCgroup c = sync_map W \<Longrightarrow> snapshot_of (u_src u) snap \<Longrightarrow>
    complete_sync ch keys snap (u_kernel u) \<Longrightarrow> syncOnce s (Some snap) ch keys (u_kernel u) = Some k' \<Longrightarrow>
    settled eval s verify W (length (ko_events k')) [] [] (u\<lparr>u_kernel := k'\<rparr>)"
| settled_kernel: "settled eval s verify W n es sent u \<Longrightarrow> env_ok env \<Longrightarrow>
    settled eval s verify W n es sent (u\<lparr>u_kernel := run_tp env t (u_kernel u)\<rparr>)"
| settled_old: "settled eval s verify W (Suc n) es sent u \<Longrightarrow> same_world W w \<Longrightarrow> ko_events (u_kernel u) = e # rest \<Longrightarrow>
    handle_record eval (Some Attrs) (Some s) verify w ch (event_bytes e)
      (u\<lparr>u_kernel := (u_kernel u)\<lparr>ko_events := rest\<rparr>\<rparr>) = Some u' \<Longrightarrow>
    settled eval s verify W n es sent u'"
| settled_new: "settled eval s verify W 0 es sent u \<Longrightarrow> same_world W w \<Longrightarrow> ko_events (u_kernel u) = e # rest \<Longrightarrow>
    handle_record eval (Some Attrs) (Some s) verify w ch (event_bytes e)
      (u\<lparr>u_kernel := (u_kernel u)\<lparr>ko_events := rest\<rparr>\<rparr>) = Some u' \<Longrightarrow>
    settled eval s verify W 0 (es @ [e]) (sent @ drop (length (u_sent u)) (u_sent u')) u'"
| settled_sync: "settled eval s verify W n es sent u \<Longrightarrow> snapshot_of (u_src u) snap \<Longrightarrow>
    syncOnce s (Some snap) ch keys (u_kernel u) = Some k' \<Longrightarrow> settled eval s verify W n es sent (u\<lparr>u_kernel := k'\<rparr>)"
| settled_refresh: "settled eval s verify W n es sent u \<Longrightarrow> same_world W w \<Longrightarrow> u_src u = Some c \<Longrightarrow>
    settled eval s verify W n es sent (u\<lparr>u_src := Some (Sync w c)\<rparr>)"

definition exact_sent :: "cel_eval \<Rightarrow> Set \<Rightarrow> world \<Rightarrow> conn_event_t \<Rightarrow> ConnEvent list" where
  "exact_sent eval s W e = (case Evaluate eval s (filter_event (world_attrs W (e_cgroup_id e)) e) of None \<Rightarrow> [] | Some i \<Rightarrow> [sent_event s e i])"

definition settled_inv :: "cel_eval \<Rightarrow> Set \<Rightarrow> world \<Rightarrow> nat \<Rightarrow> conn_event_t list \<Rightarrow> ConnEvent list \<Rightarrow> Client option ustate \<Rightarrow> bool" where
  "settled_inv eval s W n es sent u \<longleftrightarrow> state_ok (u_kernel u) \<and> loaded s (u_kernel u) \<and> tracks W s u \<and>
     n \<le> length (ko_events (u_kernel u)) \<and> list_all (pending_ok eval s (world_attrs W)) (drop n (ko_events (u_kernel u))) \<and>
     list_all event_ok es \<and> sent = concat (map (exact_sent eval s W) es)"

lemma settled_consume:
  assumes g: "good_set eval s" and inv: "settled_inv eval s W n es sent u" and w: "same_world W w" and ev: "ko_events (u_kernel u) = e # rest"
    and u': "handle_record eval (Some Attrs) (Some s) verify w ch (event_bytes e) (u\<lparr>u_kernel := (u_kernel u)\<lparr>ko_events := rest\<rparr>\<rparr>) = Some u'"
  shows "state_ok (u_kernel u') \<and> loaded s (u_kernel u') \<and> tracks W s u' \<and> ko_events (u_kernel u') = rest \<and> event_ok e"
    and "n = 0 \<Longrightarrow> u_sent u' = u_sent u @ exact_sent eval s W e"
proof -
  let ?u = "u\<lparr>u_kernel := (u_kernel u)\<lparr>ko_events := rest\<rparr>\<rparr>"
  have ok: "event_ok e" "state_ok (u_kernel ?u)" "loaded s (u_kernel ?u)" "tracks W s ?u"
    using inv ev prog_ok_set [OF g] by (simp_all add: settled_inv_def state_ok_def loaded_def tracks_def verdicts_exact_def)
  have same: "same_but_verdicts (u_kernel ?u) (u_kernel u')" using handle_record_keeps [OF u'] by simp
  show "state_ok (u_kernel u') \<and> loaded s (u_kernel u') \<and> tracks W s u' \<and> ko_events (u_kernel u') = rest \<and> event_ok e"
    using same_but_verdictsD [OF same] handle_record_tracks [OF g w u'] ok by simp
  assume "n = 0"
  then have "pending_ok eval s (world_attrs W) e" using inv ev by (simp add: settled_inv_def)
  then show "u_sent u' = u_sent u @ exact_sent eval s W e"
    using handle_record_exact [OF g event_ok_widths [OF ok(1)] w, of ?u verify ch] ok(4) u'
    by (auto simp: tracks_def exact_sent_def)
qed

lemma settled_invariant:
  assumes "settled eval s verify W n es sent u" and g: "good_set eval s"
  shows "settled_inv eval s W n es sent u"
  using assms(1)
proof (induction rule: settled.induct)
  case (settled_start u c snap ch keys k')
  have c: "cache_of W (u_src u)" using settled_start(2,3) by (simp add: cache_of_def)
  then have "list_all (\<lambda>(i, a). a = world_attrs W i) snap"
    using settled_start(4) node.Snapshot_exact [OF c] by (auto simp: snapshot_of_def list_all_iff)
  from complete_sync_exact [OF settled_start(6,5) this] c same_but_verdictsD(2,3) [OF sync_same [OF settled_start(6)]]
    dyn_ok [OF settled_start(1) g]
  show ?case by (simp add: settled_inv_def tracks_def)
next
  case (settled_kernel n es sent u env t)
  have "tracks W s (u\<lparr>u_kernel := run_tp env t (u_kernel u)\<rparr>)"
    using settled_kernel.IH by (simp add: settled_inv_def tracks_def verdicts_exact_def run_tp_verdicts)
  moreover have "ko_events (run_tp env t (u_kernel u)) = ko_events (u_kernel u) \<or>
      (\<exists>e. ko_events (run_tp env t (u_kernel u)) = ko_events (u_kernel u) @ [e] \<and> pending_ok eval s (world_attrs W) e)"
    using settled_kernel.IH by (intro run_tp_event_pending [OF g _ _ settled_kernel.hyps(2)]) (simp_all add: settled_inv_def tracks_def)
  ultimately show ?case
    using settled_kernel.IH run_tp_ok [of "u_kernel u" env t] settled_kernel.hyps(2) by (auto simp: settled_inv_def run_tp_loaded)
next
  case (settled_old n es sent u w e rest ch u')
  from settled_consume(1) [OF g settled_old.IH settled_old.hyps(2-4)] settled_old.IH settled_old.hyps(3)
  show ?case by (simp add: settled_inv_def)
next
  case (settled_new es sent u w e rest ch u')
  note c = settled_consume [OF g settled_new.IH settled_new.hyps(2-4)]
  from c(1) c(2) [OF refl] settled_new.IH settled_new.hyps(3) show ?case by (simp add: settled_inv_def)
next
  case (settled_sync n es sent u snap ch keys k')
  have "cache_of W (u_src u)" "verdicts_exact (world_attrs W) (set_atoms s) (u_kernel u)"
    using settled_sync.IH by (simp_all add: settled_inv_def tracks_def)
  then have "verdicts_exact (world_attrs W) (set_atoms s) k'"
    using node.syncOnce_exact [OF settled_sync.hyps(3)] settled_sync.hyps(2) by (simp add: snapshot_of_def)
  then show ?case
    using settled_sync.IH same_but_verdictsD [OF sync_same [OF settled_sync.hyps(3)]] by (simp add: settled_inv_def tracks_def)
next
  case (settled_refresh n es sent u w c)
  have "sync_map w = sync_map W" using settled_refresh(2) by (auto simp: same_world_def sync_map_def fun_eq_iff split: option.split)
  with settled_refresh show ?case by (simp add: settled_inv_def tracks_def cache_of_def Sync_def)
qed



end
