(* ===== verification/Node_Timed.thy ===== *)
theory Node_Timed
  imports Node_Settle
begin

text \<open>
  How long the agent may act on containers that are gone. The cache is refreshed by the loop of \<^verbatim>\<open>Client.Run\<close> (\<^verbatim>\<open>pkg/kontext/kontext.go\<close>), the
  verdict map by \<^verbatim>\<open>syncVerdicts\<close> (\<^verbatim>\<open>pkg/tracer/cel.go\<close>), each on a ticker of its own, and by lookups that miss. \<open>timed\<close> adds to the steps of
  \<open>dyn\<close> a clock and the two loops: a refresh reads the world while it runs and replaces the cache when it is done, a verdict sync takes its
  snapshot when it starts and applies it when it is done, and another refresh may finish in between. Times are in nanoseconds.
\<close>

subsection \<open>Loops on a ticker\<close>

text \<open>A loop waits for a tick that is due, or has been running its body since some time on some data.\<close>

datatype 'a phase = Idle int | Busy int 'a

definition resyncInterval :: int where
  "resyncInterval = 30 * 1000000000"

definition verdictInterval :: int where
  "verdictInterval = 30 * 1000000000"

text \<open>A ticker drops ticks while one is pending: after the tick that was received at \<open>t\<close>, the next one that the loop receives is the first after \<open>t\<close>.\<close>

definition next_tick :: "int \<Rightarrow> int \<Rightarrow> int \<Rightarrow> int" where
  "next_tick period created t = created + period * ((t - created) div period + 1)"

text \<open>The end of a body that ran from \<open>start\<close> to \<open>now\<close>. \<^verbatim>\<open>Client.Run\<close> refreshes once before it makes its ticker; \<^verbatim>\<open>syncVerdicts\<close> makes it first.\<close>

definition resync_done :: "int option \<Rightarrow> int \<Rightarrow> int \<Rightarrow> int option \<times> unit phase" where
  "resync_done created start now =
     (case created of
        None \<Rightarrow> (Some now, Idle (now + resyncInterval))
      | Some t0 \<Rightarrow> (Some t0, Idle (max now (next_tick resyncInterval t0 start))))"

definition verdicts_done :: "int \<Rightarrow> int \<Rightarrow> int \<Rightarrow> 'a phase" where
  "verdicts_done created start now = Idle (max now (next_tick verdictInterval created start))"

lemma next_tick_bounds: "0 < period \<Longrightarrow> t < next_tick period created t \<and> next_tick period created t \<le> t + period"
proof -
  assume p: "0 < period"
  have "t - created = period * ((t - created) div period) + (t - created) mod period" by simp
  moreover have "0 \<le> (t - created) mod period" "(t - created) mod period < period" using p by simp_all
  ultimately show ?thesis unfolding next_tick_def distrib_left by linarith
qed

subsection \<open>The agent with a clock\<close>

text \<open>Bounds on what the machine does: how late a due loop starts, how long a refresh and a verdict sync take.\<close>

record timing =
  tm_latency :: int
  tm_sync :: int
  tm_verdict :: int

definition timing_ok :: "timing \<Rightarrow> bool" where
  "timing_ok tm \<longleftrightarrow> 0 \<le> tm_latency tm \<and> 0 \<le> tm_sync tm \<and> 0 \<le> tm_verdict tm \<and> tm_verdict tm \<le> verdictInterval"

definition on_time :: "int \<Rightarrow> int \<Rightarrow> int \<Rightarrow> 'a phase \<Rightarrow> bool" where
  "on_time latency dur now p \<longleftrightarrow> (case p of Idle due \<Rightarrow> now \<le> due + latency | Busy start _ \<Rightarrow> now \<le> start + dur)"

definition loop_wf :: "int \<Rightarrow> int \<Rightarrow> 'a phase \<Rightarrow> bool" where
  "loop_wf period now p \<longleftrightarrow> (case p of Idle due \<Rightarrow> due \<le> now + period | Busy start _ \<Rightarrow> start \<le> now)"

type_synonym snapshot = "(u64 \<times> CgroupAttrs) list"

record tstate =
  ts_now :: int
  ts_ticker :: "int option"
  ts_resync :: "unit phase"
  ts_vticker :: int
  ts_verdicts :: "snapshot phase"
  ts_agent :: "Client option ustate"

text \<open>From \<open>T\<close> on, which is not before the start of the tracer, the containers are those of \<open>W\<close>: a refresh that starts later sees them, and so does every lookup that ends later than a refresh may take.\<close>

inductive timed :: "cel_eval \<Rightarrow> Set \<Rightarrow> bool \<Rightarrow> timing \<Rightarrow> world \<Rightarrow> int \<Rightarrow> tstate \<Rightarrow> bool" for eval s verify tm W T where
  timed_start: "exec h k \<Longrightarrow> list_all is_trace h \<Longrightarrow> snapshot_of (Some c) snap \<Longrightarrow>
    startFilters (True, True) (Some s) (Some snap) ch keys k = Some (Inr k') \<Longrightarrow>
    loop_wf resyncInterval now p \<Longrightarrow> on_time (tm_latency tm) (tm_sync tm) now p \<Longrightarrow> now \<le> T \<Longrightarrow>
    timed eval s verify tm W T \<lparr>ts_now = now, ts_ticker = created, ts_resync = p, ts_vticker = now,
      ts_verdicts = Idle (next_tick verdictInterval now now), ts_agent = start_ustate k' (Some c)\<rparr>"
| timed_pass: "timed eval s verify tm W T st \<Longrightarrow> ts_now st \<le> now \<Longrightarrow> on_time (tm_latency tm) (tm_sync tm) now (ts_resync st) \<Longrightarrow>
    on_time (tm_latency tm) (tm_verdict tm) now (ts_verdicts st) \<Longrightarrow> timed eval s verify tm W T (st\<lparr>ts_now := now\<rparr>)"
| timed_resync: "timed eval s verify tm W T st \<Longrightarrow> ts_resync st = Idle due \<Longrightarrow> due \<le> ts_now st \<Longrightarrow>
    timed eval s verify tm W T (st\<lparr>ts_resync := Busy (ts_now st) ()\<rparr>)"
| timed_resynced: "timed eval s verify tm W T st \<Longrightarrow> ts_resync st = Busy start () \<Longrightarrow> (T \<le> start \<longrightarrow> same_world W w) \<Longrightarrow>
    u_src (ts_agent st) = Some c \<Longrightarrow> resync_done (ts_ticker st) start (ts_now st) = (ticker, p) \<Longrightarrow>
    timed eval s verify tm W T (st\<lparr>ts_ticker := ticker, ts_resync := p, ts_agent := (ts_agent st)\<lparr>u_src := Some (Sync w c)\<rparr>\<rparr>)"
| timed_verdicts: "timed eval s verify tm W T st \<Longrightarrow> ts_verdicts st = Idle due \<Longrightarrow> due \<le> ts_now st \<Longrightarrow>
    snapshot_of (u_src (ts_agent st)) snap \<Longrightarrow> timed eval s verify tm W T (st\<lparr>ts_verdicts := Busy (ts_now st) snap\<rparr>)"
| timed_verdicts_done: "timed eval s verify tm W T st \<Longrightarrow> ts_verdicts st = Busy start snap \<Longrightarrow>
    complete_sync ch keys snap (u_kernel (ts_agent st)) \<Longrightarrow> syncOnce s (Some snap) ch keys (u_kernel (ts_agent st)) = Some k' \<Longrightarrow>
    timed eval s verify tm W T (st\<lparr>ts_verdicts := verdicts_done (ts_vticker st) start (ts_now st), ts_agent := (ts_agent st)\<lparr>u_kernel := k'\<rparr>\<rparr>)"
| timed_kernel: "timed eval s verify tm W T st \<Longrightarrow> env_ok env \<Longrightarrow>
    timed eval s verify tm W T (st\<lparr>ts_agent := (ts_agent st)\<lparr>u_kernel := run_tp env t (u_kernel (ts_agent st))\<rparr>\<rparr>)"
| timed_consume: "timed eval s verify tm W T st \<Longrightarrow> (T + tm_sync tm \<le> ts_now st \<longrightarrow> same_world W w) \<Longrightarrow>
    ko_events (u_kernel (ts_agent st)) = e # es \<Longrightarrow>
    handle_record eval (Some Attrs) (Some s) verify w ch (event_bytes e)
      ((ts_agent st)\<lparr>u_kernel := (u_kernel (ts_agent st))\<lparr>ko_events := es\<rparr>\<rparr>) = Some u' \<Longrightarrow>
    timed eval s verify tm W T (st\<lparr>ts_agent := u'\<rparr>)"
| timed_push: "timed eval s verify tm W T st \<Longrightarrow> (T + tm_sync tm \<le> ts_now st \<longrightarrow> same_world W w) \<Longrightarrow>
    u_src (ts_agent st) = Some c \<Longrightarrow>
    timed eval s verify tm W T (st\<lparr>ts_agent := (ts_agent st)\<lparr>u_src := Some (snd (GetContainerInfo w i c))\<rparr>\<rparr>)"

subsection \<open>Every state is one of the untimed agent\<close>

lemma lookup_cases: "snd (GetContainerInfo w i c) = c \<or> snd (GetContainerInfo w i c) = Sync w c"
  by (cases "syncs w i c") (simp_all add: GetContainerInfo_cases)

lemma Attrs_source: "\<exists>c'. snd (Attrs w i (Some c)) = Some c' \<and> (c' = c \<or> c' = Sync w c)"
  using lookup_cases [of w i c] by (cases "GetContainerInfo w i c") (auto simp: Attrs_def split: option.split)

lemma handle_record_source:
  assumes "handle_record eval (Some Attrs) (Some s) verify w ch bs u = Some u'" and "u_src u = Some c"
  shows "\<exists>c'. u_src u' = Some c' \<and> (c' = c \<or> c' = Sync w c)"
  using handle_record_keeps [OF assms(1)] Attrs_source assms(2) by metis

lemma timed_dyn:
  "timed eval s verify tm W T st \<Longrightarrow> dyn eval s verify (ts_agent st) \<and> (\<exists>c. u_src (ts_agent st) = Some c) \<and>
     (\<forall>start snap. ts_verdicts st = Busy start snap \<longrightarrow> (\<exists>src. snapshot_of src snap))"
proof (induction rule: timed.induct)
  case (timed_start h k c snap ch keys k' now p created)
  then show ?case using dyn_start by (fastforce simp: start_ustate_def)
next
  case (timed_consume st w e es ch u')
  then obtain c where c: "u_src (ts_agent st) = Some c" by blast
  have "dyn eval s verify u'" by (rule dyn_consume [OF conjunct1 [OF timed_consume.IH] timed_consume.hyps(3,4)])
  with handle_record_source [OF timed_consume.hyps(4)] c timed_consume.IH show ?case by fastforce
next
  case (timed_push st w c i)
  have "(ts_agent st)\<lparr>u_src := Some c\<rparr> = ts_agent st" using timed_push.hyps(3) by simp
  then have "dyn eval s verify ((ts_agent st)\<lparr>u_src := Some (snd (GetContainerInfo w i c))\<rparr>)"
    using lookup_cases [of w i c] dyn_refresh [of eval s verify "ts_agent st" c w] timed_push by metis
  with timed_push.IH show ?case by simp
qed (auto intro: dyn.intros simp: verdicts_done_def)

subsection \<open>Deadlines\<close>

definition fresh :: "timing \<Rightarrow> world \<Rightarrow> int \<Rightarrow> tstate \<Rightarrow> bool" where
  "fresh tm W T st \<longleftrightarrow> T + tm_sync tm \<le> ts_now st \<and> (\<exists>c. u_src (ts_agent st) = Some c \<and> byCgroup c = sync_map W)"

definition exact_snapshot :: "world \<Rightarrow> snapshot \<Rightarrow> bool" where
  "exact_snapshot W snap \<longleftrightarrow> list_all (\<lambda>(i, a). a = world_attrs W i) snap"

definition caught_up :: "Set \<Rightarrow> timing \<Rightarrow> world \<Rightarrow> int \<Rightarrow> tstate \<Rightarrow> bool" where
  "caught_up s tm W T st \<longleftrightarrow> fresh tm W T st \<and> verdicts_exact (world_attrs W) (set_atoms s) (u_kernel (ts_agent st)) \<and>
     (case ts_verdicts st of Idle _ \<Rightarrow> True | Busy _ snap \<Rightarrow> exact_snapshot W snap)"

text \<open>The latest time of the refresh that makes the cache fresh.\<close>

definition fresh_by :: "timing \<Rightarrow> int \<Rightarrow> int" where
  "fresh_by tm T = T + resyncInterval + 2 * tm_sync tm + tm_latency tm"

definition loops_ok :: "timing \<Rightarrow> tstate \<Rightarrow> bool" where
  "loops_ok tm st \<longleftrightarrow>
     loop_wf resyncInterval (ts_now st) (ts_resync st) \<and> on_time (tm_latency tm) (tm_sync tm) (ts_now st) (ts_resync st) \<and>
     loop_wf verdictInterval (ts_now st) (ts_verdicts st) \<and> on_time (tm_latency tm) (tm_verdict tm) (ts_now st) (ts_verdicts st)"

definition resync_due :: "timing \<Rightarrow> int \<Rightarrow> tstate \<Rightarrow> bool" where
  "resync_due tm T st \<longleftrightarrow> (T + tm_sync tm \<le> ts_now st \<longrightarrow>
     (case ts_resync st of
        Idle due \<Rightarrow> due \<le> T + tm_sync tm + resyncInterval
      | Busy start _ \<Rightarrow> start \<le> T + tm_sync tm + resyncInterval + tm_latency tm))"

definition verdicts_due :: "timing \<Rightarrow> world \<Rightarrow> int \<Rightarrow> tstate \<Rightarrow> bool" where
  "verdicts_due tm W T st \<longleftrightarrow>
     (case ts_verdicts st of
        Idle due \<Rightarrow> due \<le> fresh_by tm T + verdictInterval
      | Busy start snap \<Rightarrow> start \<le> fresh_by tm T \<or> start \<le> fresh_by tm T + verdictInterval + tm_latency tm \<and> exact_snapshot W snap)"

definition timed_inv :: "Set \<Rightarrow> timing \<Rightarrow> world \<Rightarrow> int \<Rightarrow> tstate \<Rightarrow> bool" where
  "timed_inv s tm W T st \<longleftrightarrow> loops_ok tm st \<and>
     (if fresh tm W T st then caught_up s tm W T st \<or> verdicts_due tm W T st else resync_due tm T st)"

lemma loops_ok_time [simp]: "timing_ok tm \<Longrightarrow> loops_ok tm st \<Longrightarrow> resync_due tm T st \<Longrightarrow> ts_now st \<le> fresh_by tm T"
  by (cases "ts_resync st") (auto simp: loops_ok_def on_time_def resync_due_def fresh_by_def timing_ok_def resyncInterval_def)

text \<open>A cache that becomes fresh does so in time.\<close>

lemma becomes_fresh:
  assumes "timing_ok tm" and "timed_inv s tm W T st" and "\<not> fresh tm W T st" and "ts_verdicts st' = ts_verdicts st"
  shows "verdicts_due tm W T st'"
proof -
  have "ts_now st \<le> fresh_by tm T" using assms(1-3) by (simp add: timed_inv_def)
  then show ?thesis using assms(2,4)
    by (cases "ts_verdicts st") (auto simp: timed_inv_def verdicts_due_def loops_ok_def loop_wf_def)
qed

lemma same_sync_map: "same_world W w \<Longrightarrow> sync_map w = sync_map W"
  by (auto simp: same_world_def sync_map_def fun_eq_iff split: option.split)

lemma fresh_cache: "fresh tm W T st \<Longrightarrow> cache_of W (u_src (ts_agent st))"
  by (auto simp: fresh_def cache_of_def)

text \<open>Steps of the agent that leave the clock and the loops alone.\<close>

lemma agent_step:
  assumes "timing_ok tm" and "timed_inv s tm W T st" and "fresh tm W T st \<Longrightarrow> fresh tm W T (st\<lparr>ts_agent := u\<rparr>)"
    and "caught_up s tm W T st \<Longrightarrow> verdicts_exact (world_attrs W) (set_atoms s) (u_kernel u)"
  shows "timed_inv s tm W T (st\<lparr>ts_agent := u\<rparr>)"
proof -
  have same: "loops_ok tm (st\<lparr>ts_agent := u\<rparr>) = loops_ok tm st" "resync_due tm T (st\<lparr>ts_agent := u\<rparr>) = resync_due tm T st"
    "verdicts_due tm W T (st\<lparr>ts_agent := u\<rparr>) = verdicts_due tm W T st"
    by (simp_all add: loops_ok_def resync_due_def verdicts_due_def)
  show ?thesis
  proof (cases "fresh tm W T st")
    case True
    then show ?thesis using assms(2-4) same unfolding timed_inv_def by (auto simp: caught_up_def)
  next
    case False
    then show ?thesis using assms(2) same becomes_fresh [OF assms(1,2) False, of "st\<lparr>ts_agent := u\<rparr>"] unfolding timed_inv_def by auto
  qed
qed

lemma fresh_source:
  assumes "fresh tm W T st" and "T + tm_sync tm \<le> ts_now st \<Longrightarrow> same_world W w" and "u_src (ts_agent st) = Some c"
    and "u_src u = Some c'" and "c' = c \<or> c' = Sync w c"
  shows "fresh tm W T (st\<lparr>ts_agent := u\<rparr>)"
  using assms same_sync_map [of W w] by (auto simp: fresh_def Sync_def)

lemma resync_done_idle:
  assumes "resync_done created start now = (ticker, p)" and "start \<le> now"
  shows "\<exists>due. p = Idle due \<and> now \<le> due \<and> due \<le> now + resyncInterval"
proof (cases created)
  case None
  then show ?thesis using assms by (auto simp: resync_done_def resyncInterval_def)
next
  case (Some t0)
  then show ?thesis using assms next_tick_bounds [of resyncInterval start t0] by (auto simp: resync_done_def resyncInterval_def)
qed

text \<open>Steps of the refresh loop and of the verdict loop.\<close>

lemma resynced_step:
  assumes tm: "timing_ok tm" and inv: "timed_inv s tm W T st" and b: "ts_resync st = Busy start ()" and w: "T \<le> start \<longrightarrow> same_world W w"
    and c: "u_src (ts_agent st) = Some c" and d: "resync_done (ts_ticker st) start (ts_now st) = (ticker, p)"
  shows "timed_inv s tm W T (st\<lparr>ts_ticker := ticker, ts_resync := p, ts_agent := (ts_agent st)\<lparr>u_src := Some (Sync w c)\<rparr>\<rparr>)"
    (is "timed_inv s tm W T ?st")
proof -
  obtain due where p: "p = Idle due" "ts_now st \<le> due" "due \<le> ts_now st + resyncInterval"
    using resync_done_idle [OF d] b inv by (auto simp: timed_inv_def loops_ok_def loop_wf_def)
  have ok: "loops_ok tm ?st" using inv p tm by (auto simp: timed_inv_def loops_ok_def loop_wf_def on_time_def timing_ok_def)
  have fr: "fresh tm W T ?st" if "T + tm_sync tm \<le> ts_now st"
  proof -
    have "ts_now st \<le> start + tm_sync tm" using inv b by (simp add: timed_inv_def loops_ok_def on_time_def)
    then have "same_world W w" using that w by simp
    then show ?thesis using that by (simp add: fresh_def Sync_def same_sync_map)
  qed
  show ?thesis
  proof (cases "fresh tm W T ?st")
    case True
    have "caught_up s tm W T st \<Longrightarrow> caught_up s tm W T ?st" using True by (simp add: caught_up_def)
    moreover have "verdicts_due tm W T st \<Longrightarrow> verdicts_due tm W T ?st" by (simp add: verdicts_due_def)
    moreover have "\<not> fresh tm W T st \<Longrightarrow> verdicts_due tm W T ?st" using becomes_fresh [OF tm inv] by simp
    ultimately show ?thesis using inv True ok by (auto simp: timed_inv_def split: if_split_asm)
  next
    case False
    with fr have "\<not> T + tm_sync tm \<le> ts_now st" by blast
    with False ok show ?thesis by (simp add: timed_inv_def resync_due_def)
  qed
qed

lemma verdicts_start_step:
  assumes tm: "timing_ok tm" and inv: "timed_inv s tm W T st" and i: "ts_verdicts st = Idle due" "due \<le> ts_now st" and sn: "snapshot_of (u_src (ts_agent st)) snap"
  shows "timed_inv s tm W T (st\<lparr>ts_verdicts := Busy (ts_now st) snap\<rparr>)" (is "timed_inv s tm W T ?st")
proof -
  have ok: "loops_ok tm ?st" and t: "ts_now st \<le> due + tm_latency tm"
    using inv i tm by (auto simp: timed_inv_def loops_ok_def loop_wf_def on_time_def timing_ok_def)
  have f: "fresh tm W T ?st = fresh tm W T st" by (simp add: fresh_def)
  have e: "exact_snapshot W snap" if "fresh tm W T st"
    using node.Snapshot_exact [OF fresh_cache [OF that]] sn by (auto simp: exact_snapshot_def snapshot_of_def list_all_iff)
  show ?thesis
  proof (cases "fresh tm W T st")
    case True
    then show ?thesis using inv e [OF True] i t ok f by (auto simp: timed_inv_def caught_up_def verdicts_due_def)
  next
    case False
    then show ?thesis using inv ok f by (simp add: timed_inv_def resync_due_def)
  qed
qed

lemma verdicts_done_step:
  assumes tm: "timing_ok tm" and inv: "timed_inv s tm W T st" and b: "ts_verdicts st = Busy start snap"
    and cs: "complete_sync ch keys snap (u_kernel (ts_agent st))" and so: "syncOnce s (Some snap) ch keys (u_kernel (ts_agent st)) = Some k'"
  shows "timed_inv s tm W T (st\<lparr>ts_verdicts := verdicts_done (ts_vticker st) start (ts_now st), ts_agent := (ts_agent st)\<lparr>u_kernel := k'\<rparr>\<rparr>)"
    (is "timed_inv s tm W T ?st")
proof -
  have st: "start \<le> ts_now st" "ts_now st \<le> start + tm_verdict tm"
    using inv b by (simp_all add: timed_inv_def loops_ok_def loop_wf_def on_time_def)
  obtain due where d: "ts_verdicts ?st = Idle due" "ts_now st \<le> due" "due \<le> ts_now st + verdictInterval" "due \<le> start + verdictInterval"
    using next_tick_bounds [of verdictInterval start "ts_vticker st"] st tm by (auto simp: verdicts_done_def verdictInterval_def timing_ok_def)
  have ok: "loops_ok tm ?st" using inv d tm by (auto simp: timed_inv_def loops_ok_def loop_wf_def on_time_def timing_ok_def)
  have f: "fresh tm W T ?st = fresh tm W T st" by (simp add: fresh_def)
  have e: "caught_up s tm W T ?st" if "fresh tm W T st" "exact_snapshot W snap"
    using complete_sync_exact [OF so cs] that f d(1) by (simp add: caught_up_def exact_snapshot_def)
  show ?thesis
  proof (cases "fresh tm W T st \<and> \<not> exact_snapshot W snap")
    case True
    then have "start \<le> fresh_by tm T" using inv b by (simp add: timed_inv_def caught_up_def verdicts_due_def)
    then show ?thesis using True ok f d(1,4) by (simp add: timed_inv_def verdicts_due_def)
  next
    case False
    then show ?thesis using inv e ok f by (auto simp: timed_inv_def resync_due_def)
  qed
qed

lemma timed_invariant:
  assumes "timed eval s verify tm W T st" and tm: "timing_ok tm" and g: "good_set eval s"
  shows "timed_inv s tm W T st"
  using assms(1)
proof (induction rule: timed.induct)
  case (timed_start h k c snap ch keys k' now p created)
  have "next_tick verdictInterval now now = now + verdictInterval" by (simp add: next_tick_def)
  with timed_start.hyps(5-7) tm show ?case
    by (auto simp: timed_inv_def loops_ok_def loop_wf_def on_time_def verdicts_due_def resync_due_def fresh_by_def timing_ok_def
        verdictInterval_def resyncInterval_def split: phase.splits)
next
  case (timed_pass st now)
  have ok: "loops_ok tm (st\<lparr>ts_now := now\<rparr>)"
    using timed_pass by (auto simp: timed_inv_def loops_ok_def loop_wf_def split: phase.splits)
  show ?case
  proof (cases "fresh tm W T st")
    case True
    then show ?thesis using timed_pass ok
      by (auto simp: timed_inv_def caught_up_def fresh_def verdicts_due_def)
  next
    case False
    moreover have "resync_due tm T (st\<lparr>ts_now := now\<rparr>)" if "resync_due tm T st"
      using that timed_pass.IH tm
      by (cases "ts_resync st") (auto simp: resync_due_def timed_inv_def loops_ok_def loop_wf_def timing_ok_def resyncInterval_def)
    ultimately show ?thesis using timed_pass.IH ok becomes_fresh [OF tm timed_pass.IH False, of "st\<lparr>ts_now := now\<rparr>"]
      by (auto simp: timed_inv_def)
  qed
next
  case (timed_resync st due)
  have f: "fresh tm W T (st\<lparr>ts_resync := Busy (ts_now st) ()\<rparr>) = fresh tm W T st" by (simp add: fresh_def)
  show ?case using timed_resync tm
    by (cases "fresh tm W T st")
      (auto simp: f timed_inv_def loops_ok_def loop_wf_def on_time_def timing_ok_def caught_up_def verdicts_due_def resync_due_def)
next
  case (timed_resynced st start w c ticker p)
  then show ?case by (intro resynced_step [OF tm])
next
  case (timed_verdicts st due snap)
  then show ?case by (intro verdicts_start_step [OF tm])
next
  case (timed_verdicts_done st start snap ch keys k')
  then show ?case by (intro verdicts_done_step [OF tm])
next
  case (timed_kernel st env t)
  show ?case
    by (rule agent_step [OF tm timed_kernel.IH]) (simp_all add: fresh_def caught_up_def verdicts_exact_def run_tp_verdicts)
next
  case (timed_consume st w e es ch u')
  obtain c where c: "u_src (ts_agent st) = Some c" using timed_dyn [OF timed_consume.hyps(1)] by blast
  obtain c' where c': "u_src u' = Some c'" "c' = c \<or> c' = Sync w c" using handle_record_source [OF timed_consume.hyps(4)] c by auto
  show ?case
  proof (rule agent_step [OF tm timed_consume.IH])
    show "fresh tm W T st \<Longrightarrow> fresh tm W T (st\<lparr>ts_agent := u'\<rparr>)"
      using fresh_source [OF _ _ c c'] timed_consume.hyps(2) by blast
    assume u: "caught_up s tm W T st"
    then have "same_world W w" "cache_of W (u_src (ts_agent st))" using timed_consume.hyps(2) by (auto simp: caught_up_def fresh_def cache_of_def)
    then show "verdicts_exact (world_attrs W) (set_atoms s) (u_kernel u')"
      using handle_record_tracks [OF g _ timed_consume.hyps(4), of W] u by (simp add: tracks_def caught_up_def verdicts_exact_def)
  qed
next
  case (timed_push st w c i)
  show ?case
    by (rule agent_step [OF tm timed_push.IH fresh_source [OF _ _ timed_push.hyps(3)]])
      (use timed_push.hyps(2) lookup_cases in \<open>auto simp: caught_up_def\<close>)
qed


text \<open>An agent whose containers change at the moment it starts. It has no cache yet; the refresh loop is in its first refresh.\<close>

definition ex_timing :: timing where
  "ex_timing = \<lparr>tm_latency = 1000000, tm_sync = 500000000, tm_verdict = 100000000\<rparr>"

definition ex_tstate :: "int \<Rightarrow> int option \<Rightarrow> unit phase \<Rightarrow> snapshot phase \<Rightarrow> Client \<Rightarrow> tstate" where
  "ex_tstate now tk p v c = \<lparr>ts_now = now, ts_ticker = tk, ts_resync = p, ts_vticker = 0, ts_verdicts = v, ts_agent = start_ustate ex_kernel (Some c)\<rparr>"

text \<open>Both loops run at the same tick.\<close>

lemma ex_round:
  assumes "timed ref_eval ex_rtt_set True ex_timing (ex_world 0) 0 (ex_tstate t (Some 0) (Idle t) (Idle t) c)" and "t = 30000000000 * k" and "t' = t + 30000000000"
  shows "\<exists>c'. timed ref_eval ex_rtt_set True ex_timing (ex_world 0) 0 (ex_tstate t (Some 0) (Idle t') (Idle t') c')"
proof -
  let ?ch = "\<lambda>_ :: u64. \<lparr>lru_victims = [], lru_fails = False\<rparr>" and ?w = "ex_world 10000000000"
  let ?T = "timed ref_eval ex_rtt_set True ex_timing (ex_world 0) 0" and ?c = "Sync (ex_world 10000000000) c"
  have n: "next_tick 30000000000 0 t = t'" "max t t' = t'" by (simp_all add: next_tick_def assms(2,3))
  have "?T (ex_tstate t (Some 0) (Busy t ()) (Idle t) c)" using timed_resync [OF assms(1), of t] by (simp add: ex_tstate_def)
  from timed_resynced [OF this, of t ?w c "Some 0" "Idle t'"]
  have "?T (ex_tstate t (Some 0) (Idle t') (Idle t) ?c)"
    using ex_same_world by (simp add: ex_tstate_def start_ustate_def resync_done_def resyncInterval_def n)
  from timed_verdicts [OF this, of t "[]"]
  have "?T (ex_tstate t (Some 0) (Idle t') (Busy t []) ?c)" by (simp add: ex_tstate_def snapshot_of_def)
  from timed_verdicts_done [OF this, of t "[]" ?ch "[]" ex_kernel]
  have "?T (ex_tstate t (Some 0) (Idle t') (Idle t') ?c)"
    by (simp add: ex_tstate_def start_ustate_def complete_sync_def syncOnce_def ex_kernel_def init_state_def verdicts_done_def verdictInterval_def n)
  then show ?thesis by blast
qed

lemma ex_wait:
  assumes "timed ref_eval ex_rtt_set True ex_timing (ex_world 0) 0 (ex_tstate now tk (Idle t) (Idle t) c)" and "now \<le> t'" and "t' \<le> t"
  shows "timed ref_eval ex_rtt_set True ex_timing (ex_world 0) 0 (ex_tstate t' tk (Idle t) (Idle t) c)"
  using timed_pass [OF assms(1), of t'] assms(2,3) by (simp add: ex_tstate_def on_time_def ex_timing_def)


end
