(* ===== verification/Exporters.thy ===== *)
theory Exporters
  imports Node_Source "HOL-Library.Sublist"
begin

text \<open>
  Delivery: the exporters of \<^verbatim>\<open>pkg/exporters\<close>, built from the configuration, each a bounded queue that \<^verbatim>\<open>Push\<close> fills
  without blocking and \<^verbatim>\<open>Run\<close> drains, and \<^verbatim>\<open>push\<close> of the node agent, which attaches the container and hands the
  event to every exporter. What an exporter has logged is kept as the events it has written a line for; \<open>logEvent\<close> gives the
  fields of a line, whose layout is the logging library's.
\<close>

record export_event =
  x_event :: ConnEvent
  x_container :: "ContainerInfo option"

record StdoutExporter =
  x_queue :: "export_event list"
  x_logged :: "export_event list"

definition queueSize :: nat where
  "queueSize = 1024"

definition NewStdoutExporter :: StdoutExporter where
  "NewStdoutExporter = \<lparr>x_queue = [], x_logged = []\<rparr>"

definition Push :: "export_event \<Rightarrow> StdoutExporter \<Rightarrow> StdoutExporter" where
  "Push ev x = (if length (x_queue x) < queueSize then x\<lparr>x_queue := x_queue x @ [ev]\<rparr> else x)"

text \<open>An iteration of \<^verbatim>\<open>Run\<close> that receives an event; with an empty queue it waits.\<close>

definition run_once :: "StdoutExporter \<Rightarrow> StdoutExporter" where
  "run_once x = (case x_queue x of [] \<Rightarrow> x | ev # q \<Rightarrow> x\<lparr>x_queue := q, x_logged := x_logged x @ [ev]\<rparr>)"

text \<open>The fields of a line. \<open>strerror\<close> is the text of an error number (\<^verbatim>\<open>syscall.Errno.Error\<close>), a field value is an event type, a
  string or a number.\<close>

datatype field_val = FType u16 | FStr string | FNum nat

definition addr_field :: "bytes option \<Rightarrow> u16 \<Rightarrow> string" where
  "addr_field ip port = (case ip of None \<Rightarrow> [] | Some b \<Rightarrow> JoinHostPort (IP_String b) (decimal (unat port)))"

definition ErrnoString :: "(u32 \<Rightarrow> string) \<Rightarrow> u32 \<Rightarrow> string" where
  "ErrnoString strerror errno = (if errno = 0 then ''aborted locally'' else strerror errno)"

definition logEvent :: "(u32 \<Rightarrow> string) \<Rightarrow> export_event \<Rightarrow> (string \<times> field_val) list" where
  "logEvent strerror x =
     (let ev = x_event x in
      [(''ko_type'', FType (ce_Type ev)), (''ko_comm'', FStr (ce_Comm ev)), (''ko_pid'', FNum (unat (ce_Pid ev))),
       (''ko_cgroup_id'', FNum (unat (ce_CgroupID ev))),
       (''ko_local_addr'', FStr (addr_field (ce_LocalIP ev) (ce_LocalPort ev))),
       (''ko_remote_addr'', FStr (addr_field (ce_RemoteIP ev) (ce_RemotePort ev))),
       (''ko_life_us'', FNum (unat (ce_LifeUS ev))), (''ko_rtt_us'', FNum (unat (ce_RTTUS ev))),
       (''ko_retransmits'', FNum (unat (ce_Retransmits ev))), (''ko_segs_out'', FNum (unat (ce_SegsOut ev)))] @
      (if ce_Errno ev \<noteq> 0 then [(''ko_error'', FStr (ErrnoString strerror (ce_Errno ev)))] else []) @
      (if ce_FilterName ev \<noteq> [] then [(''ko_filter'', FStr (ce_FilterName ev))] else []) @
      (if ce_Type ev = EvtProbe then
         [(''ko_snd_cwnd'', FNum (unat (ce_SndCwnd ev))), (''ko_snd_ssthresh'', FNum (unat (ce_SndSsthresh ev))),
          (''ko_snd_wnd'', FNum (unat (ce_SndWnd ev))), (''ko_rcv_wnd'', FNum (unat (ce_RcvWnd ev)))]
       else []) @
      (case x_container x of
         None \<Rightarrow> []
       | Some c \<Rightarrow>
           [(''ko_runtime'', FStr (ci_Runtime c)), (''ko_container_id'', FStr (ci_ContainerID c)),
            (''ko_container'', FStr (ci_ContainerName c)), (''ko_pod'', FStr (ci_PodName c)),
            (''ko_namespace'', FStr (ci_PodNamespace c))]))"

fun Build :: "string list \<Rightarrow> string + StdoutExporter list" where
  "Build [] = Inr []"
| "Build (name # names) =
     (if name = ''stdout'' then (case Build names of Inl e \<Rightarrow> Inl e | Inr xs \<Rightarrow> Inr (NewStdoutExporter # xs))
      else Inl name)"

text \<open>\<^verbatim>\<open>push\<close> of the node agent: cgroup 0 and a disabled container context leave the container out.\<close>

definition push :: "world \<Rightarrow> ConnEvent \<Rightarrow> Client option \<times> StdoutExporter list \<Rightarrow> Client option \<times> StdoutExporter list" where
  "push w event = (\<lambda>(kctx, xs).
     let (info, kctx') =
       (case kctx of
          None \<Rightarrow> (None, None)
        | Some c \<Rightarrow>
            if ce_CgroupID event = 0 then (None, Some c)
            else (let (i, c') = GetContainerInfo w (ce_CgroupID event) c in (i, Some c')))
     in (kctx', map (Push \<lparr>x_event = event, x_container = info\<rparr>) xs))"

subsection \<open>Lines\<close>

text \<open>The remote endpoint of a line can be read back: it splits into a host that parses to the remote address of the event and
  the printed port.\<close>

lemma logged_endpoint_parses:
  assumes "ce_RemoteIP (x_event x) = Some ip" and "length ip \<in> {4, 16}"
  shows "\<exists>t h. map_of (logEvent strerror x) ''ko_remote_addr'' = Some (FStr t) \<and>
    SplitHostPort t = Some (h, decimal (unat (ce_RemotePort (x_event x)))) \<and> ParseAddr h = Some (addr_of_ip ip)"
  using hostport_roundtrip [OF assms(2)] ParseAddr_IP_String [OF assms(2)] assms(1)
  by (simp add: logEvent_def Let_def addr_field_def)

text \<open>No line has two fields of the same name.\<close>

lemma logged_fields_distinct: "distinct (map fst (logEvent strerror x))"
  by (cases "x_container x"; cases "ce_Errno (x_event x) = 0"; cases "ce_FilterName (x_event x) = []";
      cases "ce_Type (x_event x) = EvtProbe") (simp_all add: logEvent_def Let_def)

subsection \<open>Delivery in order\<close>

text \<open>\<open>exporter ps n x\<close>: after the pushes \<open>ps\<close>, oldest first, \<open>n\<close> of them into a full queue, and any number of
  iterations of \<^verbatim>\<open>Run\<close> in between, the exporter is \<open>x\<close>.\<close>

inductive exporter :: "export_event list \<Rightarrow> nat \<Rightarrow> StdoutExporter \<Rightarrow> bool" where
  exporter_new: "exporter [] 0 NewStdoutExporter"
| exporter_push: "exporter ps n x \<Longrightarrow> exporter (ps @ [ev]) (if length (x_queue x) < queueSize then n else Suc n) (Push ev x)"
| exporter_run: "exporter ps n x \<Longrightarrow> exporter ps n (run_once x)"

lemma run_once_content: "x_logged (run_once x) @ x_queue (run_once x) = x_logged x @ x_queue x"
  by (simp add: run_once_def split: list.split)

lemma run_once_length: "length (x_queue (run_once x)) = length (x_queue x) - 1"
  by (simp add: run_once_def split: list.split)

lemma exporter_content:
  assumes "exporter ps n x"
  shows "subseq (x_logged x @ x_queue x) ps \<and> length (x_queue x) \<le> queueSize \<and> length (x_logged x @ x_queue x) + n = length ps"
  using assms
proof (induction rule: exporter.induct)
  case exporter_new
  then show ?case by (simp add: NewStdoutExporter_def)
next
  case (exporter_push ps n x ev)
  then show ?case
    using list_emb_append_mono [of "(=)" "x_logged x @ x_queue x" ps "[ev]" "[ev]"] subseq_rev_drop_many [of "x_logged x @ x_queue x" ps "[ev]"]
    by (auto simp: Push_def)
next
  case (exporter_run ps n x)
  then show ?case using run_once_content [of x] run_once_length [of x] by (metis diff_le_self le_trans)
qed

text \<open>An exporter delivers in order and loses only what finds its queue full. What has been logged, followed by what is
  queued, is a subsequence of what was pushed; the queue never holds more than 1024 events; the
  events missing are exactly as many as were pushed into a full queue, so without such a push
  nothing is missing.\<close>

theorem exporter_fifo:
  assumes "exporter ps n x"
  shows "subseq (x_logged x @ x_queue x) ps \<and> length (x_queue x) \<le> 1024 \<and>
    length (x_logged x @ x_queue x) + n = length ps \<and> (n = 0 \<longrightarrow> x_logged x @ x_queue x = ps)"
proof -
  note c = exporter_content [OF assms]
  then have "n = 0 \<Longrightarrow> x_logged x @ x_queue x = ps" by (auto simp: subseq_same_length)
  with c show ?thesis by (simp add: queueSize_def)
qed

definition ex_export :: "u32 \<Rightarrow> export_event" where
  "ex_export p = \<lparr>x_event = (decodeConnEvent zero_event)\<lparr>ce_Pid := p\<rparr>, x_container = None\<rparr>"

theorem exporter_fifo_witness:
  "x_logged (run_once (Push (ex_export 2) (Push (ex_export 1) NewStdoutExporter))) @
     x_queue (run_once (Push (ex_export 2) (Push (ex_export 1) NewStdoutExporter))) = [ex_export 1, ex_export 2]"
proof -
  have "exporter ([] @ [ex_export 1]) 0 (Push (ex_export 1) NewStdoutExporter)"
    using exporter_push [OF exporter_new, of "ex_export 1"] by (simp add: NewStdoutExporter_def queueSize_def)
  from exporter_push [OF this, of "ex_export 2"]
  have "exporter [ex_export 1, ex_export 2] 0 (Push (ex_export 2) (Push (ex_export 1) NewStdoutExporter))"
    by (simp add: NewStdoutExporter_def Push_def queueSize_def)
  from exporter_fifo [OF exporter_run [OF this]] show ?thesis by simp
qed

text \<open>A queued event is delivered. However full the queue is, as many iterations of \<^verbatim>\<open>Run\<close> as it holds events log all
  of them, in order, whatever is pushed afterwards.\<close>

theorem exporter_drains:
  "x_queue ((run_once ^^ length (x_queue x)) x) = [] \<and>
   x_logged ((run_once ^^ length (x_queue x)) x) = x_logged x @ x_queue x"
proof -
  have "x_queue ((run_once ^^ k) x) = drop k (x_queue x) \<and> x_logged ((run_once ^^ k) x) = x_logged x @ take k (x_queue x)"
    if "k \<le> length (x_queue x)" for k
    using that
  proof (induction k)
    case (Suc k)
    then have "drop k (x_queue x) = x_queue x ! k # drop (Suc k) (x_queue x)" by (simp add: Cons_nth_drop_Suc)
    with Suc show ?case by (simp add: run_once_def take_Suc_conv_app_nth)
  qed simp
  then show ?thesis by simp
qed

text \<open>A bad configuration fails at startup. \<^verbatim>\<open>Build\<close> gives one empty exporter for every configured name when all are known, and
  otherwise the error names the first unknown one.\<close>

theorem Build_rejects_unknown:
  "Build names = (case find (\<lambda>n. n \<noteq> ''stdout'') names of
     None \<Rightarrow> Inr (replicate (length names) NewStdoutExporter) | Some n \<Rightarrow> Inl n)"
  by (induction names) (auto split: option.splits)

text \<open>The container that goes with an event. While the containers of the node do not change, every exporter receives
  the event with the container of its cgroup as the cgroup file system and the container runtime
  describe it, and with none when it has none.\<close>

theorem pushed_container_exact:
  assumes "same_world W w" and "cache_of W kctx" and "ce_CgroupID event \<noteq> 0"
  shows "snd (push w event (kctx, xs)) =
      map (Push \<lparr>x_event = event, x_container = sync_map W (ce_CgroupID event)\<rparr>) xs \<and>
    cache_of W (fst (push w event (kctx, xs)))"
proof -
  obtain c where c: "kctx = Some c" using assms(2) by (auto simp: cache_of_def split: option.splits)
  from GetContainerInfo_world [OF assms(1), of c "ce_CgroupID event"] assms(2) c
  show ?thesis using assms(3) by (auto simp: push_def Let_def split_def cache_of_def)
qed

theorem pushed_container_exact_witness:
  "snd (push (ex_world 10000000000) ((decodeConnEvent zero_event)\<lparr>ce_CgroupID := 77\<rparr>) (Some new_client, [NewStdoutExporter])) =
     [Push \<lparr>x_event = (decodeConnEvent zero_event)\<lparr>ce_CgroupID := 77\<rparr>, x_container = sync_map (ex_world 0) 77\<rparr> NewStdoutExporter]"
proof -
  have "same_world (ex_world 0) (ex_world 10000000000)" "cache_of (ex_world 0) (Some new_client)"
    by (simp_all add: same_world_def ex_world_def minSyncInterval_def cache_of_def)
  from pushed_container_exact [OF this, of "(decodeConnEvent zero_event)\<lparr>ce_CgroupID := 77\<rparr>" "[NewStdoutExporter]"]
  show ?thesis by simp
qed

end
