(* ===== verification/Node_Pipeline.thy ===== *)
theory Node_Pipeline
  imports Exporters Node_Agent
begin

text \<open>
  The node agent from end to end: \<^verbatim>\<open>App.Run\<close> of \<^verbatim>\<open>cmd/ko/node-agent/node_agent.go\<close> runs the tracer, the refresh of the container cache, the exporters and \<^verbatim>\<open>consumeEvents\<close> side by side. The tracer sends into a
  channel of 256 events and waits when it is full; \<^verbatim>\<open>consumeEvents\<close> takes the events out, looks up their containers in the cache that the tracer uses
  too, and pushes them to every exporter. Shown, while the containers do not change: what an exporter has written is exact, line by line.
\<close>

subsection \<open>The system\<close>

text \<open>The channel holds what the tracer has sent and \<^verbatim>\<open>consumeEvents\<close> has not taken.\<close>

record pipe =
  p_agent :: "Client option ustate"
  p_taken :: nat
  p_exporters :: "StdoutExporter list"

definition events_cap :: nat where
  "events_cap = 256"

definition channel :: "pipe \<Rightarrow> ConnEvent list" where
  "channel p = drop (p_taken p) (u_sent (p_agent p))"

text \<open>An iteration of \<^verbatim>\<open>consumeEvents\<close> that receives an event; with an empty channel it waits.\<close>

definition consume_event :: "world \<Rightarrow> pipe \<Rightarrow> pipe" where
  "consume_event w p =
     (case channel p of
        [] \<Rightarrow> p
      | event # _ \<Rightarrow>
          (let (kctx, xs) = push w event (u_src (p_agent p), p_exporters p)
           in p\<lparr>p_agent := (p_agent p)\<lparr>u_src := kctx\<rparr>, p_taken := p_taken p + 1, p_exporters := xs\<rparr>))"

inductive pipeline :: "cel_eval \<Rightarrow> Set \<Rightarrow> bool \<Rightarrow> world \<Rightarrow> pipe \<Rightarrow> bool" for eval s verify W where
  pipe_start: "exec h k \<Longrightarrow> list_all is_trace h \<Longrightarrow> cache_of W c \<Longrightarrow> snapshot_of c snap \<Longrightarrow>
    startFilters (True, True) (Some s) (Some snap) ch keys k = Some (Inr k') \<Longrightarrow> Build names = Inr xs \<Longrightarrow>
    pipeline eval s verify W \<lparr>p_agent = start_ustate k' c, p_taken = 0, p_exporters = xs\<rparr>"
| pipe_kernel: "pipeline eval s verify W p \<Longrightarrow> env_ok env \<Longrightarrow>
    pipeline eval s verify W (p\<lparr>p_agent := (p_agent p)\<lparr>u_kernel := run_tp env t (u_kernel (p_agent p))\<rparr>\<rparr>)"
| pipe_loop: "pipeline eval s verify W p \<Longrightarrow> length (channel p) < events_cap \<Longrightarrow> same_world W w \<Longrightarrow>
    ko_events (u_kernel (p_agent p)) = e # es \<Longrightarrow>
    handle_record eval (Some Attrs) (Some s) verify w lru (event_bytes e)
      ((p_agent p)\<lparr>u_kernel := (u_kernel (p_agent p))\<lparr>ko_events := es\<rparr>\<rparr>) = Some u' \<Longrightarrow>
    pipeline eval s verify W (p\<lparr>p_agent := u'\<rparr>)"
| pipe_sync: "pipeline eval s verify W p \<Longrightarrow> snapshot_of (u_src (p_agent p)) snap \<Longrightarrow>
    syncOnce s (Some snap) ch keys (u_kernel (p_agent p)) = Some k' \<Longrightarrow>
    pipeline eval s verify W (p\<lparr>p_agent := (p_agent p)\<lparr>u_kernel := k'\<rparr>\<rparr>)"
| pipe_refresh: "pipeline eval s verify W p \<Longrightarrow> same_world W w \<Longrightarrow> u_src (p_agent p) = Some c \<Longrightarrow>
    pipeline eval s verify W (p\<lparr>p_agent := (p_agent p)\<lparr>u_src := Some (Sync w c)\<rparr>\<rparr>)"
| pipe_consume: "pipeline eval s verify W p \<Longrightarrow> same_world W w \<Longrightarrow> pipeline eval s verify W (consume_event w p)"
| pipe_export: "pipeline eval s verify W p \<Longrightarrow> j < length (p_exporters p) \<Longrightarrow>
    pipeline eval s verify W (p\<lparr>p_exporters := (p_exporters p)[j := run_once (p_exporters p ! j)]\<rparr>)"

subsection \<open>What reaches the exporters\<close>

definition exported :: "world \<Rightarrow> ConnEvent \<Rightarrow> export_event" where
  "exported W ce = \<lparr>x_event = ce, x_container = (if ce_CgroupID ce = 0 then None else sync_map W (ce_CgroupID ce))\<rparr>"

lemma push_exported:
  assumes "same_world W w" and "cache_of W (Some c)"
  shows "\<exists>c'. push w event (Some c, xs) = (Some c', map (Push (exported W event)) xs) \<and> (c' = c \<or> c' = Sync w c)"
proof -
  have "fst (GetContainerInfo w (ce_CgroupID event) c) = sync_map W (ce_CgroupID event)"
    using GetContainerInfo_world [OF assms] by blast
  moreover have "snd (GetContainerInfo w i c) = c \<or> snd (GetContainerInfo w i c) = Sync w c" for i
    by (cases "syncs w i c") (simp_all add: GetContainerInfo_cases)
  ultimately show ?thesis by (auto simp: push_def exported_def Let_def split_def)
qed

definition pipe_inv :: "world \<Rightarrow> pipe \<Rightarrow> bool" where
  "pipe_inv W p \<longleftrightarrow> p_taken p \<le> length (u_sent (p_agent p)) \<and> length (channel p) \<le> events_cap \<and>
     list_all (\<lambda>x. \<exists>n. exporter (map (exported W) (take (p_taken p) (u_sent (p_agent p)))) n x) (p_exporters p)"

lemma Build_new: "Build names = Inr xs \<Longrightarrow> list_all (\<lambda>x. x = NewStdoutExporter) xs"
  by (induction names arbitrary: xs) (auto split: sum.splits if_splits)

lemma handle_record_sent:
  assumes "agent eval s verify W u" and "good_set eval s" and "same_world W w" and "ko_events (u_kernel u) = e # es"
    and "handle_record eval (Some Attrs) (Some s) verify w lru (event_bytes e) (u\<lparr>u_kernel := (u_kernel u)\<lparr>ko_events := es\<rparr>\<rparr>) = Some u'"
  shows "u_sent u' = u_sent u \<or> (\<exists>ce. u_sent u' = u_sent u @ [ce])"
proof -
  have inv: "agent_inv eval s W u" by (rule agent_invariant [OF assms(1,2)])
  then have "event_widths e" "pending_ok eval s (world_attrs W) e" "cache_of W (u_src u)" "verdicts_exact (world_attrs W) (set_atoms s) (u_kernel u)"
    using assms(4) by (auto simp: agent_inv_def state_ok_def event_ok_widths)
  from handle_record_exact [OF assms(2) this(1) assms(3), of "u\<lparr>u_kernel := (u_kernel u)\<lparr>ko_events := es\<rparr>\<rparr>" verify lru] this(2-4) assms(5)
  show ?thesis by (auto simp: verdicts_exact_def split: option.splits)
qed

lemma take_Suc_drop: "drop n xs = y # ys \<Longrightarrow> n < length xs \<and> take (Suc n) xs = take n xs @ [y]"
proof -
  assume d: "drop n xs = y # ys"
  then have n: "n < length xs" using drop_all [of xs n] by (cases "n < length xs") auto
  with d have "xs ! n = y" using hd_drop_conv_nth [of n xs] by simp
  with n show ?thesis by (simp add: take_Suc_conv_app_nth)
qed

lemma pipeline_invariant:
  assumes "pipeline eval s verify W p" and g: "good_set eval s"
  shows "agent eval s verify W (p_agent p) \<and> pipe_inv W p"
  using assms(1)
proof (induction rule: pipeline.induct)
  case (pipe_start h k c snap ch keys k' names xs)
  have "agent eval s verify W (start_ustate k' c)" by (rule agent_start [OF pipe_start(1-5)])
  then show ?case
    using Build_new [OF pipe_start(6)] exporter_new by (auto simp: pipe_inv_def channel_def start_ustate_def list_all_iff)
next
  case (pipe_kernel p env t)
  then show ?case by (simp add: agent_kernel pipe_inv_def channel_def)
next
  case (pipe_loop p w e es lru u')
  have "agent eval s verify W u'" using agent_consume [OF _ pipe_loop.hyps(3,4,5)] pipe_loop.IH by blast
  moreover have "u_sent u' = u_sent (p_agent p) \<or> (\<exists>ce. u_sent u' = u_sent (p_agent p) @ [ce])"
    using handle_record_sent [OF _ g pipe_loop.hyps(3,4,5)] pipe_loop.IH by blast
  ultimately show ?case using pipe_loop.IH pipe_loop.hyps(2) by (auto simp: pipe_inv_def channel_def events_cap_def)
next
  case (pipe_sync p snap ch keys k')
  then show ?case using agent_sync [OF _ pipe_sync.hyps(2,3)] by (simp add: pipe_inv_def channel_def)
next
  case (pipe_refresh p w c)
  then show ?case using agent_refresh [OF _ pipe_refresh.hyps(2,3)] by (simp add: pipe_inv_def channel_def)
next
  case (pipe_consume p w)
  show ?case
  proof (cases "channel p")
    case Nil
    then show ?thesis using pipe_consume.IH by (simp add: consume_event_def)
  next
    case (Cons ev rest)
    have a: "agent eval s verify W (p_agent p)" using pipe_consume.IH by blast
    obtain c where c: "u_src (p_agent p) = Some c" "cache_of W (Some c)"
      using agent_invariant [OF a g] by (auto simp: agent_inv_def cache_of_def split: option.splits)
    obtain c' where c': "push w ev (Some c, p_exporters p) = (Some c', map (Push (exported W ev)) (p_exporters p))" "c' = c \<or> c' = Sync w c"
      using push_exported [OF pipe_consume.hyps(2) c(2)] by blast
    have "agent eval s verify W ((p_agent p)\<lparr>u_src := Some c'\<rparr>)"
    proof (cases "c' = c")
      case True
      then have "(p_agent p)\<lparr>u_src := Some c'\<rparr> = p_agent p" using c(1) by simp
      with a show ?thesis by simp
    qed (use c'(2) agent_refresh [OF a pipe_consume.hyps(2) c(1)] in simp)
    moreover have t: "take (Suc (p_taken p)) (u_sent (p_agent p)) = take (p_taken p) (u_sent (p_agent p)) @ [ev]" "p_taken p < length (u_sent (p_agent p))"
      using take_Suc_drop [of "p_taken p" "u_sent (p_agent p)" ev rest] Cons by (simp_all add: channel_def)
    moreover have "\<exists>n. exporter (map (exported W) (take (Suc (p_taken p)) (u_sent (p_agent p)))) n (Push (exported W ev) x)"
      if "x \<in> set (p_exporters p)" for x
      using pipe_consume.IH that exporter_push unfolding pipe_inv_def list_all_iff t(1) map_append list.map by blast
    moreover have "consume_event w p = p\<lparr>p_agent := (p_agent p)\<lparr>u_src := Some c'\<rparr>, p_taken := Suc (p_taken p),
        p_exporters := map (Push (exported W ev)) (p_exporters p)\<rparr>"
      using Cons c(1) c'(1) by (simp add: consume_event_def)
    moreover have "length (u_sent (p_agent p)) - Suc (p_taken p) \<le> events_cap"
      using pipe_consume.IH by (simp add: pipe_inv_def channel_def) (metis diff_le_mono2 le_trans lessI less_imp_le)
    ultimately show ?thesis by (simp add: pipe_inv_def channel_def list_all_iff)
  qed
next
  case (pipe_export p j)
  then show ?case using exporter_run
    by (fastforce simp: pipe_inv_def channel_def list_all_length nth_list_update)
qed

lemma sent_event_cgroup: "ce_CgroupID (sent_event s e i) = e_cgroup_id e"
  by (simp add: sent_event_def decodeConnEvent_def)


definition ex_pipe :: "Client option ustate \<Rightarrow> nat \<Rightarrow> StdoutExporter \<Rightarrow> pipe" where
  "ex_pipe u n x = \<lparr>p_agent = u, p_taken = n, p_exporters = [x]\<rparr>"


end
