(* ===== verification/Drop_Metrics.thy ===== *)
theory Drop_Metrics
  imports Ko_Exec
begin

text \<open>
  The export of the kernel's drop counters (\<^verbatim>\<open>trackFilterDrops\<close> and \<^verbatim>\<open>trackRingbufDrops\<close> of \<^verbatim>\<open>pkg/tracer\<close>, which differ in the
  map and the metric only): every tick sums the per-CPU values of a counter and adds the growth since
  the largest sum seen to the metric.
\<close>

record drop_track =
  dt_last :: u64
  dt_metric :: nat

text \<open>One tick; \<open>None\<close> for the values is a failing lookup, which ends the loop.\<close>

definition sum_vals :: "u64 list \<Rightarrow> u64" where
  "sum_vals vals = foldl (+) 0 vals"

definition track_tick :: "u64 list \<Rightarrow> drop_track \<Rightarrow> drop_track" where
  "track_tick vals d =
     (let total = sum_vals vals in
      if dt_last d < total then \<lparr>dt_last = total, dt_metric = dt_metric d + unat (total - dt_last d)\<rparr> else d)"

fun track_drops :: "u64 list option list \<Rightarrow> drop_track \<Rightarrow> drop_track" where
  "track_drops [] d = d"
| "track_drops (None # ts) d = d"
| "track_drops (Some vals # ts) d = track_drops ts (track_tick vals d)"

text \<open>The values a lookup of the per-CPU array returns, one for each of \<open>n\<close> processors.\<close>

definition percpu_vals :: "nat \<Rightarrow> percpu \<Rightarrow> u64 list" where
  "percpu_vals n m = map (\<lambda>c. m c ! 0) [0..<n]"

lemma track_tick_metric:
  "dt_metric d = unat (dt_last d) \<Longrightarrow> dt_metric (track_tick vals d) = unat (dt_last (track_tick vals d)) \<and>
     dt_last (track_tick vals d) = max (dt_last d) (sum_vals vals)"
proof (cases "dt_last d < sum_vals vals")
  case True
  moreover assume "dt_metric d = unat (dt_last d)"
  ultimately show ?thesis
    by (simp add: track_tick_def Let_def max_def less_imp_le unat_sub word_le_nat_alt word_less_nat_alt)
next
  case False
  moreover assume "dt_metric d = unat (dt_last d)"
  ultimately show ?thesis by (simp add: track_tick_def Let_def max_def)
qed

text \<open>A drop that the kernel counts on one of the processors raises the sum by one.\<close>

lemma sum_vals_append: "sum_vals (xs @ ys) = sum_vals xs + sum_vals ys"
proof -
  have "foldl (+) z ys = z + foldl (+) 0 ys" for z :: u64
    by (induction ys arbitrary: z) (simp, metis (no_types, opaque_lifting) add.assoc add_0 foldl_Cons)
  from this [of "foldl (+) 0 xs"] show ?thesis by (simp add: sum_vals_def)
qed

lemma percpu_incr_sum:
  assumes "\<And>i. length (m i) = 1" and "c < n"
  shows "sum_vals (percpu_vals n (percpu_incr c m)) = sum_vals (percpu_vals n m) + 1"
proof -
  have inc: "percpu_incr c m = m(c := [m c ! 0 + 1])"
    using assms(1) [of c] by (auto simp: percpu_incr_def array_lookup_def length_Suc_conv)
  have "[0..<n] = [0..<c] @ c # [Suc c..<n]" using assms(2) by (metis less_imp_add_positive less_or_eq_imp_le upt_add_eq_append upt_conv_Cons le0)
  moreover have "map (\<lambda>i. (if i = c then v else m i) ! 0) [0..<c] = map (\<lambda>i. m i ! 0) [0..<c]"
    "map (\<lambda>i. (if i = c then v else m i) ! 0) [Suc c..<n] = map (\<lambda>i. m i ! 0) [Suc c..<n]" for v
    by simp_all
  moreover have "sum_vals (x # xs) = x + sum_vals xs" for x xs
    using sum_vals_append [of "[x]" xs] by (simp add: sum_vals_def)
  ultimately show ?thesis by (simp add: percpu_vals_def inc sum_vals_append del: map_eq_conv)
qed

lemma track_drops_metric:
  "dt_metric d = unat (dt_last d) \<Longrightarrow> None \<notin> set ts \<Longrightarrow>
     dt_metric (track_drops ts d) = unat (dt_last (track_drops ts d)) \<and>
     dt_last (track_drops ts d) = foldl max (dt_last d) (map (sum_vals \<circ> the) ts)"
proof (induction ts d rule: track_drops.induct)
  case (3 vals ts d)
  then show ?case using track_tick_metric [of d vals] by simp
qed auto



end
