(* ===== verification/Prog_Stats.thy ===== *)
theory Prog_Stats
  imports Ko_Prelude
begin

text \<open>
  The statistics of the BPF programs of the node (\<^verbatim>\<open>pkg/tracer/progstats.go\<close>): the walk over the program ids
  (\<open>snapshotProgStats\<close>), which ends because the kernel hands out increasing ids, and the loop that turns the growth between two
  walks into counters (\<open>trackProgStats\<close>). The system calls behind \<^verbatim>\<open>github.com/cilium/ebpf\<close> are a parameter.
\<close>

subsection \<open>The walk over the programs\<close>

text \<open>\<^verbatim>\<open>Runtime\<close> is a \<^verbatim>\<open>time.Duration\<close>, a signed 64-bit integer; \<^verbatim>\<open>RunCount\<close> is unsigned.\<close>

record progSample =
  ps_Name :: string
  ps_Tag :: string
  ps_Type :: string
  ps_Runtime :: "64 word"
  ps_RunCount :: u64

datatype next_id = NextID u32 | ErrNotExist | NextErr

text \<open>The answers of the kernel during one walk. The first argument counts the iterations: programs come and go
  while the walk runs. \<open>wk_open\<close> is \<open>None\<close> if the program cannot be opened; of its pair, either component is
  \<open>None\<close> if \<^verbatim>\<open>Info\<close> or \<^verbatim>\<open>Stats\<close> fails.\<close>

record prog_walk =
  wk_next :: "nat \<Rightarrow> u32 \<Rightarrow> next_id"
  wk_open :: "nat \<Rightarrow> u32 \<Rightarrow> ((string \<times> string \<times> string) option \<times> (64 word \<times> u64) option) option"

definition prog_sample :: "((string \<times> string \<times> string) option \<times> (64 word \<times> u64) option) option \<Rightarrow> progSample option" where
  "prog_sample r = (case r of
       Some (Some (name, tag, ty), Some (rt, n)) \<Rightarrow>
         Some \<lparr>ps_Name = name, ps_Tag = tag, ps_Type = ty, ps_Runtime = rt, ps_RunCount = n\<rparr>
     | _ \<Rightarrow> None)"

partial_function (option) snapshot_loop ::
    "prog_walk \<Rightarrow> nat \<Rightarrow> u32 \<Rightarrow> (u32 \<rightharpoonup> progSample) \<Rightarrow> (unit + (u32 \<rightharpoonup> progSample)) option" where
  [code]: "snapshot_loop w k i samples =
     (case wk_next w k i of
        ErrNotExist \<Rightarrow> Some (Inr samples)
      | NextErr \<Rightarrow> Some (Inl ())
      | NextID j \<Rightarrow>
          (case prog_sample (wk_open w k j) of
             None \<Rightarrow> snapshot_loop w (Suc k) j samples
           | Some s \<Rightarrow> snapshot_loop w (Suc k) j (samples(j \<mapsto> s))))"

definition snapshotProgStats :: "prog_walk \<Rightarrow> (unit + (u32 \<rightharpoonup> progSample)) option" where
  "snapshotProgStats w = snapshot_loop w 0 0 Map.empty"

text \<open>\<^verbatim>\<open>BPF_PROG_GET_NEXT_ID\<close> returns an id above the one it is given.\<close>

definition ids_increase :: "prog_walk \<Rightarrow> bool" where
  "ids_increase w \<longleftrightarrow> (\<forall>k i j. wk_next w k i = NextID j \<longrightarrow> i < j)"

lemma ids_increaseD: "ids_increase w \<Longrightarrow> wk_next w k i = NextID j \<Longrightarrow> i < j"
  by (simp add: ids_increase_def)

lemma walk_induct [consumes 1, case_names step]:
  assumes "ids_increase w" and step: "\<And>k i. (\<And>j. wk_next w k i = NextID j \<Longrightarrow> P (Suc k) j) \<Longrightarrow> P k i"
  shows "P k i"
proof (induction "2 ^ 32 - unat i" arbitrary: k i rule: less_induct)
  case less
  have "2 ^ 32 - unat j < 2 ^ 32 - unat i" if "i < j" for j
    using that unsigned_less [of j, where 'a = nat] by (simp add: word_less_nat_alt)
  then show ?case using less ids_increaseD [OF assms(1)] by (metis step)
qed

lemma snapshot_loop_returns: "ids_increase w \<Longrightarrow> \<exists>r. snapshot_loop w k i samples = Some r"
proof (induction k i arbitrary: samples rule: walk_induct)
  case (step k i)
  then show ?case
    by (cases "wk_next w k i"; subst snapshot_loop.simps) (simp_all split: option.split)
qed

lemma snapshot_loop_cases:
  assumes "snapshot_loop w k i samples = Some (Inr m)"
  obtains "wk_next w k i = ErrNotExist" "m = samples"
  | n where "wk_next w k i = NextID n"
      "snapshot_loop w (Suc k) n (case prog_sample (wk_open w k n) of None \<Rightarrow> samples | Some s \<Rightarrow> samples(n \<mapsto> s)) = Some (Inr m)"
  using assms by (subst (asm) snapshot_loop.simps) (auto split: next_id.splits option.splits)

text \<open>Every sample was read of an enumerated program, and a program that is loaded during the whole walk is passed.\<close>

definition read_in_walk :: "prog_walk \<Rightarrow> u32 \<Rightarrow> progSample \<Rightarrow> bool" where
  "read_in_walk w j s \<longleftrightarrow> (\<exists>k i. wk_next w k i = NextID j \<and> prog_sample (wk_open w k j) = Some s)"

definition resident :: "prog_walk \<Rightarrow> u32 \<Rightarrow> bool" where
  "resident w j \<longleftrightarrow> (\<forall>k i. i < j \<longrightarrow> (\<exists>n\<le>j. wk_next w k i = NextID n))"

lemma snapshot_loop_sound:
  "ids_increase w \<Longrightarrow> snapshot_loop w k i samples = Some (Inr m) \<Longrightarrow> m j = Some s \<Longrightarrow> samples j = Some s \<or> read_in_walk w j s"
proof (induction k i arbitrary: samples rule: walk_induct)
  case (step k i)
  from step.prems(1) show ?case
  proof (cases rule: snapshot_loop_cases)
    case (2 n)
    from step.IH [OF 2 step.prems(2)] 2(1) show ?thesis
      by (auto simp: read_in_walk_def split: option.splits if_splits)
  qed (use step.prems in simp)
qed

lemma snapshot_loop_past:
  assumes "ids_increase w"
  shows "snapshot_loop w k i samples = Some (Inr m) \<Longrightarrow> j \<le> i \<Longrightarrow> m j = samples j"
  using assms
proof (induction k i arbitrary: samples rule: walk_induct)
  case (step k i)
  from step.prems(1) show ?case
  proof (cases rule: snapshot_loop_cases)
    case (2 n)
    from step.IH [OF 2] ids_increaseD [OF assms 2(1)] step.prems(2) show ?thesis
      by (auto split: option.splits)
  qed simp
qed

lemma snapshot_loop_resident:
  assumes "ids_increase w" and j: "resident w j"
  shows "snapshot_loop w k i samples = Some (Inr m) \<Longrightarrow> i < j \<Longrightarrow> samples j = None \<Longrightarrow> \<exists>k. m j = prog_sample (wk_open w k j)"
  using assms(1)
proof (induction k i arbitrary: samples rule: walk_induct)
  case (step k i)
  obtain n where n: "n \<le> j" "wk_next w k i = NextID n" "i < n"
    using j step.prems(2) assms(1) unfolding resident_def ids_increase_def by metis
  let ?S = "case prog_sample (wk_open w k n) of None \<Rightarrow> samples | Some s \<Rightarrow> samples(n \<mapsto> s)"
  have l: "snapshot_loop w (Suc k) n ?S = Some (Inr m)"
    using step.prems(1) by (cases rule: snapshot_loop_cases) (simp_all add: n(2))
  show ?case
  proof (cases "n = j")
    case True
    with snapshot_loop_past [OF assms(1) l, of j] step.prems(3) show ?thesis
      by (intro exI [of _ k]) (simp split: option.splits)
  next
    case False
    with n(1) step.prems(3) show ?thesis
      by (intro step.IH [OF n(2) l]) (auto split: option.splits)
  qed
qed

text \<open>C36: the walk over the programs of the node ends, whatever programs are loaded and unloaded meanwhile, because ids increase.
  When it succeeds, every sample is one that was read of an enumerated program, and a program that is loaded
  during the whole walk has the sample that was read of it (none only if reading failed).\<close>

theorem snapshot_returns_exact:
  assumes "ids_increase w"
  shows "\<exists>r. snapshotProgStats w = Some r \<and>
    (\<forall>m. r = Inr m \<longrightarrow> (\<forall>j s. m j = Some s \<longrightarrow> read_in_walk w j s) \<and>
       (\<forall>j. 0 < j \<and> resident w j \<longrightarrow> (\<exists>k. m j = prog_sample (wk_open w k j))))"
proof -
  obtain r where r: "snapshot_loop w 0 0 Map.empty = Some r" using snapshot_loop_returns [OF assms] by blast
  show ?thesis
  proof (intro exI [of _ r] conjI allI impI)
    show "snapshotProgStats w = Some r" using r by (simp add: snapshotProgStats_def)
    show "read_in_walk w j s" if "r = Inr m" "m j = Some s" for m j s
      using snapshot_loop_sound [OF assms r [unfolded that(1)] that(2)] by simp
    show "\<exists>k. m j = prog_sample (wk_open w k j)" if "r = Inr m" "0 < j \<and> resident w j" for m j
      using snapshot_loop_resident [OF assms _ r [unfolded that(1)]] that(2) by simp
  qed
qed

subsection \<open>The counters\<close>

type_synonym prog_label = "string \<times> string \<times> string"

text \<open>\<^verbatim>\<open>last\<close>, and the two counter vectors by their label values.\<close>

record prog_track =
  pt_last :: "u32 \<rightharpoonup> progSample"
  pt_runtime :: "prog_label \<Rightarrow> nat"
  pt_runs :: "prog_label \<Rightarrow> nat"

definition labels :: "progSample \<Rightarrow> prog_label" where
  "labels s = (ps_Name s, ps_Tag s, ps_Type s)"

definition add_to :: "prog_label \<Rightarrow> nat \<Rightarrow> (prog_label \<Rightarrow> nat) \<Rightarrow> prog_label \<Rightarrow> nat" where
  "add_to l n m = m(l := m l + n)"

text \<open>The body of the loop over \<^verbatim>\<open>cur\<close>: the difference of two durations is compared with 0 as a signed number, that of two run
  counts as an unsigned one.\<close>

definition track_prog :: "u32 \<Rightarrow> progSample \<Rightarrow> prog_track \<Rightarrow> prog_track" where
  "track_prog i s t =
     (let t2 = (case pt_last t i of
          None \<Rightarrow> t
        | Some prev \<Rightarrow>
            (let dt = ps_Runtime s - ps_Runtime prev;
                 t1 = (if 0 < sint dt then t\<lparr>pt_runtime := add_to (labels s) (nat (sint dt)) (pt_runtime t)\<rparr> else t);
                 dn = ps_RunCount s - ps_RunCount prev
             in if 0 < dn then t1\<lparr>pt_runs := add_to (labels s) (unat dn) (pt_runs t1)\<rparr> else t1))
      in t2\<lparr>pt_last := (pt_last t2)(i \<mapsto> s)\<rparr>)"

fun track_range :: "(u32 \<rightharpoonup> progSample) \<Rightarrow> u32 list \<Rightarrow> prog_track \<Rightarrow> prog_track" where
  "track_range cur [] t = t"
| "track_range cur (i # ids) t = track_range cur ids (case cur i of None \<Rightarrow> t | Some s \<Rightarrow> track_prog i s t)"

text \<open>A round: the loop over \<^verbatim>\<open>cur\<close>, in the order \<open>ids\<close> in which the runtime ranges over the map, and the removal of the
  programs that are gone.\<close>

definition track_round :: "u32 list \<Rightarrow> (u32 \<rightharpoonup> progSample) \<Rightarrow> prog_track \<Rightarrow> prog_track" where
  "track_round ids cur t =
     (let t1 = track_range cur ids t
      in t1\<lparr>pt_last := (\<lambda>i. if cur i = None then None else pt_last t1 i)\<rparr>)"

text \<open>One tick after the other, until a walk fails. A tick that never ends is \<open>None\<close>.\<close>

fun trackProgStats :: "(prog_walk \<times> u32 list) list \<Rightarrow> prog_track \<Rightarrow> prog_track option" where
  "trackProgStats [] t = Some t"
| "trackProgStats ((w, ids) # ws) t =
     (case snapshotProgStats w of
        None \<Rightarrow> None
      | Some (Inl _) \<Rightarrow> Some t
      | Some (Inr cur) \<Rightarrow> trackProgStats ws (track_round ids cur t))"

definition track_init :: prog_track where
  "track_init = \<lparr>pt_last = Map.empty, pt_runtime = (\<lambda>_. 0), pt_runs = (\<lambda>_. 0)\<rparr>"

text \<open>The growth of a program between two rounds, as the loop computes it.\<close>

definition run_growth :: "(u32 \<rightharpoonup> progSample) \<Rightarrow> (u32 \<rightharpoonup> progSample) \<Rightarrow> prog_label \<Rightarrow> u32 \<Rightarrow> nat" where
  "run_growth prev cur l i = (case (prev i, cur i) of
       (Some p, Some s) \<Rightarrow> if labels s = l then unat (ps_RunCount s - ps_RunCount p) else 0 | _ \<Rightarrow> 0)"

definition time_growth :: "(u32 \<rightharpoonup> progSample) \<Rightarrow> (u32 \<rightharpoonup> progSample) \<Rightarrow> prog_label \<Rightarrow> u32 \<Rightarrow> nat" where
  "time_growth prev cur l i = (case (prev i, cur i) of
       (Some p, Some s) \<Rightarrow> if labels s = l then nat (sint (ps_Runtime s - ps_Runtime p)) else 0 | _ \<Rightarrow> 0)"

lemma track_prog_effect:
  "cur i = Some s \<Longrightarrow> pt_last (track_prog i s t) = (pt_last t)(i \<mapsto> s) \<and>
     pt_runs (track_prog i s t) l = pt_runs t l + run_growth (pt_last t) cur l i \<and>
     pt_runtime (track_prog i s t) l = pt_runtime t l + time_growth (pt_last t) cur l i"
  by (auto simp: track_prog_def Let_def add_to_def run_growth_def time_growth_def word_gt_0 split: option.splits)

lemma track_range_effect:
  "distinct ids \<Longrightarrow> set ids \<subseteq> dom cur \<Longrightarrow>
     pt_last (track_range cur ids t) = (\<lambda>i. if i \<in> set ids then cur i else pt_last t i) \<and>
     pt_runs (track_range cur ids t) l = pt_runs t l + (\<Sum>i\<leftarrow>ids. run_growth (pt_last t) cur l i) \<and>
     pt_runtime (track_range cur ids t) l = pt_runtime t l + (\<Sum>i\<leftarrow>ids. time_growth (pt_last t) cur l i)"
proof (induction ids arbitrary: t)
  case (Cons i ids)
  then obtain s where s: "cur i = Some s" by auto
  note e = track_prog_effect [of cur i s t l, OF s]
  have "map (run_growth ((pt_last t)(i \<mapsto> s)) cur l) ids = map (run_growth (pt_last t) cur l) ids"
    "map (time_growth ((pt_last t)(i \<mapsto> s)) cur l) ids = map (time_growth (pt_last t) cur l) ids"
    using Cons.prems(1) by (auto simp: run_growth_def time_growth_def)
  moreover have "(\<lambda>k. if k \<in> set ids then cur k else pt_last (track_prog i s t) k) = (\<lambda>k. if k \<in> set (i # ids) then cur k else pt_last t k)"
    using s e by (simp add: fun_eq_iff)
  ultimately show ?case using Cons.IH [of "track_prog i s t"] Cons.prems e s by (simp add: add.assoc del: map_eq_conv fun_upd_apply)
qed simp

lemma track_round_effect:
  assumes "distinct ids" and "set ids = dom cur"
  shows "pt_last (track_round ids cur t) = cur"
    and "pt_runs (track_round ids cur t) l = pt_runs t l + (\<Sum>i\<in>dom cur. run_growth (pt_last t) cur l i)"
    and "pt_runtime (track_round ids cur t) l = pt_runtime t l + (\<Sum>i\<in>dom cur. time_growth (pt_last t) cur l i)"
proof -
  note e = track_range_effect [OF assms(1), of cur t l]
  show "pt_last (track_round ids cur t) = cur"
    using e assms(2) by (auto simp: track_round_def Let_def fun_eq_iff)
  have "(\<Sum>i\<leftarrow>ids. f i) = (\<Sum>i\<in>dom cur. f i)" for f :: "u32 \<Rightarrow> nat"
    using sum.distinct_set_conv_list [OF assms(1), of f] assms(2) by simp
  with e assms(2) show "pt_runs (track_round ids cur t) l = pt_runs t l + (\<Sum>i\<in>dom cur. run_growth (pt_last t) cur l i)"
    "pt_runtime (track_round ids cur t) l = pt_runtime t l + (\<Sum>i\<in>dom cur. time_growth (pt_last t) cur l i)"
    by (simp_all add: track_round_def Let_def)
qed

text \<open>When the programs with a label are \<open>J\<close> in two successive rounds and their counts do not fall, the label grows by the sum of their
  growth.\<close>

definition labelled :: "prog_label \<Rightarrow> (u32 \<rightharpoonup> progSample) \<Rightarrow> u32 set" where
  "labelled l cur = {i. \<exists>s. cur i = Some s \<and> labels s = l}"

definition grown :: "u32 set \<Rightarrow> (u32 \<rightharpoonup> progSample) \<Rightarrow> (u32 \<rightharpoonup> progSample) \<Rightarrow> bool" where
  "grown J a b \<longleftrightarrow> (\<forall>i\<in>J. ps_RunCount (the (a i)) \<le> ps_RunCount (the (b i)) \<and>
     0 \<le> sint (ps_Runtime (the (a i))) \<and> sint (ps_Runtime (the (a i))) \<le> sint (ps_Runtime (the (b i))))"

lemma grown_sums:
  assumes "grown J a b" and "labelled l a = J" "labelled l b = J" and "finite (dom b)"
  shows "(\<Sum>i\<in>dom b. run_growth a b l i) =
      (\<Sum>i\<in>J. unat (ps_RunCount (the (b i))) - unat (ps_RunCount (the (a i))))"
    and "(\<Sum>i\<in>dom b. time_growth a b l i) =
      (\<Sum>i\<in>J. nat (sint (ps_Runtime (the (b i)))) - nat (sint (ps_Runtime (the (a i)))))"
proof -
  have J: "J \<subseteq> dom b" "\<And>i. i \<in> dom b - J \<Longrightarrow> run_growth a b l i = 0 \<and> time_growth a b l i = 0"
    using assms(3) by (auto simp: labelled_def run_growth_def time_growth_def split: option.splits)
  have sint_diff: "sint (y - x) = sint y - sint x" if "0 \<le> sint x" "sint x \<le> sint y" for x y :: "64 word"
    using that sint_less [of y] by (simp add: sint_word_diff signed_take_bit_int_eq_self)
  have g: "run_growth a b l i = unat (ps_RunCount (the (b i))) - unat (ps_RunCount (the (a i))) \<and>
      time_growth a b l i = nat (sint (ps_Runtime (the (b i)))) - nat (sint (ps_Runtime (the (a i))))" if "i \<in> J" for i
  proof -
    have "i \<in> labelled l a" "i \<in> labelled l b" using that assms(2,3) by simp_all
    then obtain p s where ps: "a i = Some p" "b i = Some s" "labels s = l"
      by (auto simp: labelled_def)
    then have "ps_RunCount p \<le> ps_RunCount s" "0 \<le> sint (ps_Runtime p)" "sint (ps_Runtime p) \<le> sint (ps_Runtime s)"
      using assms(1) that by (force simp: grown_def)+
    with ps show ?thesis by (simp add: run_growth_def time_growth_def unat_sub sint_diff nat_diff_distrib)
  qed
  show "(\<Sum>i\<in>dom b. run_growth a b l i) = (\<Sum>i\<in>J. unat (ps_RunCount (the (b i))) - unat (ps_RunCount (the (a i))))"
    using sum.mono_neutral_right [OF assms(4) J(1), of "run_growth a b l"] J(2) g by simp
  show "(\<Sum>i\<in>dom b. time_growth a b l i) = (\<Sum>i\<in>J. nat (sint (ps_Runtime (the (b i)))) - nat (sint (ps_Runtime (the (a i)))))"
    using sum.mono_neutral_right [OF assms(4) J(1), of "time_growth a b l"] J(2) g by simp
qed

text \<open>Rounds after each other, each with its order and its snapshot.\<close>

fun track_rounds :: "(u32 list \<times> (u32 \<rightharpoonup> progSample)) list \<Rightarrow> prog_track \<Rightarrow> prog_track" where
  "track_rounds [] t = t"
| "track_rounds ((ids, cur) # rs) t = track_rounds rs (track_round ids cur t)"

definition round_ok :: "prog_label \<Rightarrow> u32 set \<Rightarrow> u32 list \<times> (u32 \<rightharpoonup> progSample) \<Rightarrow> bool" where
  "round_ok l J r \<longleftrightarrow> distinct (fst r) \<and> set (fst r) = dom (snd r) \<and> labelled l (snd r) = J"

lemma grown_trans: "grown J a b \<Longrightarrow> grown J b c \<Longrightarrow> grown J a c"
  unfolding grown_def by (meson order_trans)

lemma grown_last: "successively (grown J) (a # xs) \<Longrightarrow> last (a # xs) = a \<or> grown J a (last (a # xs))"
proof (induction xs arbitrary: a)
  case (Cons x xs)
  from Cons.IH [of x] Cons.prems show ?case by (auto split: if_splits dest: grown_trans)
qed simp

lemma sum_telescope:
  fixes f :: "'a \<Rightarrow> nat"
  assumes "\<And>i. i \<in> J \<Longrightarrow> f i \<le> g i" "\<And>i. i \<in> J \<Longrightarrow> g i \<le> h i"
  shows "(\<Sum>i\<in>J. g i - f i) + (\<Sum>i\<in>J. h i - g i) = (\<Sum>i\<in>J. h i - f i)"
  unfolding sum.distrib [symmetric] using assms by (intro sum.cong) (auto simp: le_diff_conv)

lemma track_rounds_telescope:
  assumes "list_all (round_ok l J) rs" and "labelled l (pt_last t) = J" and "successively (grown J) (pt_last t # map snd rs)"
  shows "pt_runs (track_rounds rs t) l = pt_runs t l +
      (\<Sum>i\<in>J. unat (ps_RunCount (the (last (pt_last t # map snd rs) i))) - unat (ps_RunCount (the (pt_last t i)))) \<and>
    pt_runtime (track_rounds rs t) l = pt_runtime t l +
      (\<Sum>i\<in>J. nat (sint (ps_Runtime (the (last (pt_last t # map snd rs) i)))) - nat (sint (ps_Runtime (the (pt_last t i)))))"
  using assms
proof (induction rs arbitrary: t)
  case (Cons r rs)
  obtain ids cur where r: "r = (ids, cur)" by fastforce
  let ?t = "track_round ids cur t" and ?z = "last (cur # map snd rs)"
  have ok: "distinct ids" "set ids = dom cur" "labelled l cur = J" using Cons.prems(1) by (auto simp: r round_ok_def)
  note e = track_round_effect [OF ok(1,2), of t]
  have g: "grown J (pt_last t) cur" and s: "successively (grown J) (cur # map snd rs)"
    using Cons.prems(3) by (simp_all add: r successively_Cons)
  have fin: "finite (dom cur)" using ok(2) by (metis List.finite_set)
  note gs = grown_sums [OF g Cons.prems(2) ok(3) fin]
  have m: "unat (ps_RunCount (the (pt_last t i))) \<le> unat (ps_RunCount (the (cur i)))"
    "unat (ps_RunCount (the (cur i))) \<le> unat (ps_RunCount (the (?z i)))"
    "nat (sint (ps_Runtime (the (pt_last t i)))) \<le> nat (sint (ps_Runtime (the (cur i))))"
    "nat (sint (ps_Runtime (the (cur i)))) \<le> nat (sint (ps_Runtime (the (?z i))))" if "i \<in> J" for i
    using g grown_last [OF s] that by (auto simp: grown_def word_le_nat_alt)
  have IH: "pt_runs (track_rounds rs ?t) l = pt_runs ?t l +
      (\<Sum>i\<in>J. unat (ps_RunCount (the (?z i))) - unat (ps_RunCount (the (cur i))))"
    "pt_runtime (track_rounds rs ?t) l = pt_runtime ?t l +
      (\<Sum>i\<in>J. nat (sint (ps_Runtime (the (?z i)))) - nat (sint (ps_Runtime (the (cur i)))))"
    using Cons.IH [of ?t] Cons.prems(1) ok(3) s by (simp_all add: e(1))
  show ?case
    using IH e(2,3) gs sum_telescope [of J, OF m(1,2)] sum_telescope [of J, OF m(3,4)] by (simp add: r)
qed simp

lemma trackProgStats_rounds:
  "list_all2 (\<lambda>(w, ids) (ids', cur). ids = ids' \<and> snapshotProgStats w = Some (Inr cur)) ws rs \<Longrightarrow>
     trackProgStats ws t = Some (track_rounds rs t)"
  by (induction arbitrary: t rule: list_all2_induct) auto


text \<open>A program whose runs and time grow over two ticks, next to one that cannot be read.\<close>

definition ex_walk :: "64 word \<Rightarrow> u64 \<Rightarrow> prog_walk" where
  "ex_walk rt n = \<lparr>wk_next = (\<lambda>k i. if i < 3 then NextID 3 else if i < 7 then NextID 7 else ErrNotExist),
     wk_open = (\<lambda>k i. if i = 3 then Some (Some (''ko_probe'', ''t'', ''RawTracepoint''), Some (rt, n)) else Some (None, None))\<rparr>"

definition ex_sample :: "64 word \<Rightarrow> u64 \<Rightarrow> progSample" where
  "ex_sample rt n = \<lparr>ps_Name = ''ko_probe'', ps_Tag = ''t'', ps_Type = ''RawTracepoint'', ps_Runtime = rt, ps_RunCount = n\<rparr>"

lemma ex_snapshot: "snapshotProgStats (ex_walk rt n) = Some (Inr [3 \<mapsto> ex_sample rt n])"
proof -
  have "snapshot_loop (ex_walk rt n) (Suc (Suc 0)) 7 m = Some (Inr m)" for m
    by (subst snapshot_loop.simps) (simp add: ex_walk_def)
  then have "snapshot_loop (ex_walk rt n) (Suc 0) 3 m = Some (Inr m)" for m
    by (subst snapshot_loop.simps) (simp add: ex_walk_def prog_sample_def)
  then show ?thesis unfolding snapshotProgStats_def
    by (subst snapshot_loop.simps) (simp add: ex_walk_def prog_sample_def ex_sample_def)
qed


theorem snapshot_returns_exact_witness: "\<exists>m k. snapshotProgStats (ex_walk 100 5) = Some (Inr m) \<and> m 3 = prog_sample (wk_open (ex_walk 100 5) k 3)"
proof -
  have "ids_increase (ex_walk 100 5)" "resident (ex_walk 100 5) 3"
    by (auto simp: ids_increase_def resident_def ex_walk_def split: if_splits)
  then obtain r where "snapshotProgStats (ex_walk 100 5) = Some r"
    "\<And>m. r = Inr m \<Longrightarrow> \<exists>k. m 3 = prog_sample (wk_open (ex_walk 100 5) k 3)"
    using snapshot_returns_exact [of "ex_walk 100 5"] by (auto simp: word_gt_0)
  then show ?thesis using ex_snapshot [of 100 5] by fastforce
qed

text \<open>A run count that falls between two ticks, as when an id is given to another program with the same name, tag and
  type, is added to the counter as a growth of almost \<^verbatim>\<open>2^64\<close> runs: the guard compares the unsigned difference with 0.
  The run time, which is signed, is left alone.\<close>

theorem falling_run_count_wraps:
  "map_option (\<lambda>t. (pt_runs t (''ko_probe'', ''t'', ''RawTracepoint''), pt_runtime t (''ko_probe'', ''t'', ''RawTracepoint'')))
     (trackProgStats [(ex_walk 250 9, [3]), (ex_walk 100 5, [3])] track_init) = Some (2 ^ 64 - 4, 0)"
  by (simp add: ex_snapshot track_round_def track_prog_def add_to_def track_init_def Let_def ex_sample_def labels_def word_gt_0)

end
