(* ===== verification/Kontext_Start.thy ===== *)
theory Kontext_Start
  imports Kontext
begin

text \<open>
  The start and the end of the container cache of \<^verbatim>\<open>pkg/kontext/kontext.go\<close>: \<^verbatim>\<open>New\<close>, which looks for a container runtime behind one of
  several sockets, the copies that \<^verbatim>\<open>LookupAttrs\<close> and \<^verbatim>\<open>AttrsSnapshot\<close> hand out, and \<^verbatim>\<open>Close\<close>. The gRPC library is a parameter: \<open>dial\<close> gives
  the connection to a path, \<open>version\<close> tells whether the runtime behind it answers in time.
\<close>

subsection \<open>Finding a runtime\<close>

datatype conn_error = Connecting string | VersionCheck string
datatype kontext_error = RequiresCgroupV2 | NoneAnswered "string list" "conn_error option"

definition DefaultSockets :: "string list" where
  "DefaultSockets = [''/run/containerd/containerd.sock'', ''/run/k0s/containerd.sock'']"

definition requireCgroupV2 :: "(string \<Rightarrow> bool) \<Rightarrow> kontext_error option" where
  "requireCgroupV2 exists = (if exists ''/sys/fs/cgroup/cgroup.controllers'' then None else Some RequiresCgroupV2)"

text \<open>A client and what closes its connection, and the connections that were closed on the way.\<close>

record 'c kclient =
  kc_cache :: Client
  kc_conn :: "'c option"

fun New_loop ::
    "(string \<Rightarrow> 'c option) \<Rightarrow> ('c \<Rightarrow> bool) \<Rightarrow> string list \<Rightarrow> conn_error option \<Rightarrow> (conn_error option + 'c kclient) \<times> 'c list" where
  "New_loop dial version [] lastErr = (Inl lastErr, [])"
| "New_loop dial version (path # paths) lastErr =
     (case dial path of
        None \<Rightarrow> New_loop dial version paths (Some (Connecting path))
      | Some conn \<Rightarrow>
          if \<not> version conn then
            (case New_loop dial version paths (Some (VersionCheck path)) of (r, closed) \<Rightarrow> (r, conn # closed))
          else (Inr \<lparr>kc_cache = new_client, kc_conn = Some conn\<rparr>, []))"

definition Kontext_New ::
    "(string \<Rightarrow> bool) \<Rightarrow> (string \<Rightarrow> 'c option) \<Rightarrow> ('c \<Rightarrow> bool) \<Rightarrow> string list \<Rightarrow> (kontext_error + 'c kclient) \<times> 'c list" where
  "Kontext_New exists dial version socketPaths =
     (case requireCgroupV2 exists of
        Some e \<Rightarrow> (Inl e, [])
      | None \<Rightarrow>
          (let paths = (if length socketPaths = 0 then DefaultSockets else socketPaths) in
           case New_loop dial version paths None of
             (Inl lastErr, closed) \<Rightarrow> (Inl (NoneAnswered paths lastErr), closed)
           | (Inr c, closed) \<Rightarrow> (Inr c, closed)))"

definition Client_Close :: "'c kclient \<Rightarrow> 'c list" where
  "Client_Close c = (case kc_conn c of Some conn \<Rightarrow> [conn] | None \<Rightarrow> [])"

subsection \<open>Copies of the cache\<close>

definition no_info :: ContainerInfo where
  "no_info = \<lparr>ci_CgroupID = 0, ci_ContainerID = [], ci_Runtime = [], ci_ContainerName = [], ci_PodName = [], ci_PodNamespace = [], ci_PodUID = []\<rparr>"

definition LookupAttrs :: "u64 \<Rightarrow> Client \<Rightarrow> ContainerInfo \<times> bool" where
  "LookupAttrs cgroupID c = (case byCgroup c cgroupID of None \<Rightarrow> (no_info, False) | Some info \<Rightarrow> (info, True))"

text \<open>The loop over the cache visits its entries in some order.\<close>

definition enumerates :: "(u64 \<times> ContainerInfo) list \<Rightarrow> Client \<Rightarrow> bool" where
  "enumerates entries c \<longleftrightarrow> distinct (map fst entries) \<and> (\<forall>i info. (i, info) \<in> set entries \<longleftrightarrow> byCgroup c i = Some info)"

definition Client_AttrsSnapshot :: "(u64 \<times> ContainerInfo) list \<Rightarrow> (u64 \<rightharpoonup> ContainerInfo)" where
  "Client_AttrsSnapshot entries = foldl (\<lambda>out (i, info). out(i \<mapsto> info)) Map.empty entries"

lemma foldl_upd: "foldl (\<lambda>out (i, info). out(i \<mapsto> info)) m entries = m ++ map_of (rev entries)"
  by (induction entries arbitrary: m) (auto simp: map_add_upd_left)

lemma Client_AttrsSnapshot_exact:
  assumes "enumerates entries c"
  shows "Client_AttrsSnapshot entries = byCgroup c"
proof
  fix i
  have d: "distinct (map fst (rev entries))" using assms by (simp add: enumerates_def rev_map [symmetric])
  show "Client_AttrsSnapshot entries i = byCgroup c i"
  proof (cases "byCgroup c i")
    case None
    then have "i \<notin> fst ` set (rev entries)" using assms by (force simp: enumerates_def)
    then show ?thesis using None by (simp add: Client_AttrsSnapshot_def foldl_upd map_of_eq_None_iff)
  next
    case (Some info)
    then have "(i, info) \<in> set (rev entries)" using assms by (simp add: enumerates_def)
    then show ?thesis using Some d by (simp add: Client_AttrsSnapshot_def foldl_upd)
  qed
qed

subsection \<open>Which runtime is chosen\<close>

text \<open>The paths behind which a runtime answers.\<close>

definition answers :: "(string \<Rightarrow> 'c option) \<Rightarrow> ('c \<Rightarrow> bool) \<Rightarrow> string \<Rightarrow> bool" where
  "answers dial version path \<longleftrightarrow> (case dial path of None \<Rightarrow> False | Some conn \<Rightarrow> version conn)"

definition path_error :: "(string \<Rightarrow> 'c option) \<Rightarrow> string \<Rightarrow> conn_error" where
  "path_error dial path = (case dial path of None \<Rightarrow> Connecting path | Some conn \<Rightarrow> VersionCheck path)"

lemma New_loop_none:
  "\<not> list_ex (answers dial version) paths \<Longrightarrow>
     New_loop dial version paths e = (Inl (if paths = [] then e else Some (path_error dial (last paths))), List.map_filter dial paths)"
  by (induction paths arbitrary: e) (auto simp: answers_def path_error_def map_filter_simps split: option.splits if_splits)

lemma New_loop_first:
  "\<not> list_ex (answers dial version) before \<Longrightarrow> answers dial version path \<Longrightarrow>
     New_loop dial version (before @ path # after) e = (Inr \<lparr>kc_cache = new_client, kc_conn = dial path\<rparr>, List.map_filter dial before)"
  by (induction before arbitrary: e) (auto simp: answers_def map_filter_simps split: option.splits if_splits)

text \<open>C33: the container context connects to the first runtime that answers. Without cgroup v2 nothing is dialled; otherwise the configured sockets, or
  the two defaults when none is configured, are tried in order. The client keeps the connection to the first path behind which a runtime answers, and its
  \<^verbatim>\<open>Close\<close> closes it; every connection opened before is closed. When none answers, the error names all paths and
  the failure of the last one, and no connection stays open.\<close>

theorem kontext_finds_runtime:
  "(\<not> exists ''/sys/fs/cgroup/cgroup.controllers'' \<longrightarrow> Kontext_New exists dial version socketPaths = (Inl RequiresCgroupV2, [])) \<and>
   (exists ''/sys/fs/cgroup/cgroup.controllers'' \<longrightarrow>
     (let paths = (if socketPaths = [] then DefaultSockets else socketPaths) in
      (\<not> list_ex (answers dial version) paths \<longrightarrow>
         Kontext_New exists dial version socketPaths =
           (Inl (NoneAnswered paths (Some (path_error dial (last paths)))), List.map_filter dial paths)) \<and>
      (\<forall>before path after. paths = before @ path # after \<and> \<not> list_ex (answers dial version) before \<and> answers dial version path \<longrightarrow>
         (\<exists>c conn. Kontext_New exists dial version socketPaths = (Inr c, List.map_filter dial before) \<and>
            dial path = Some conn \<and> version conn \<and> kc_cache c = new_client \<and> Client_Close c = [conn]))))"
proof -
  let ?paths = "if socketPaths = [] then DefaultSockets else socketPaths"
  have ne: "?paths \<noteq> []" by (simp add: DefaultSockets_def)
  have first: "\<exists>c conn. Kontext_New exists dial version socketPaths = (Inr c, List.map_filter dial before) \<and>
      dial path = Some conn \<and> version conn \<and> kc_cache c = new_client \<and> Client_Close c = [conn]"
    if "exists ''/sys/fs/cgroup/cgroup.controllers''" "?paths = before @ path # after" "\<not> list_ex (answers dial version) before" "answers dial version path"
    for before path after
  proof -
    note a = that
    obtain conn where conn: "dial path = Some conn" "version conn" using a(4) by (auto simp: answers_def split: option.splits)
    from New_loop_first [OF a(3,4), of after None] a(1,2) conn show ?thesis
      by (auto simp: Kontext_New_def requireCgroupV2_def Client_Close_def Let_def)
  qed
  have none: "Kontext_New exists dial version socketPaths = (Inl (NoneAnswered ?paths (Some (path_error dial (last ?paths)))), List.map_filter dial ?paths)"
    if "exists ''/sys/fs/cgroup/cgroup.controllers''" "\<not> list_ex (answers dial version) ?paths"
    using New_loop_none [OF that(2), of None] ne that(1) by (simp add: Kontext_New_def requireCgroupV2_def Let_def)
  have "Kontext_New exists dial version socketPaths = (Inl RequiresCgroupV2, [])" if "\<not> exists ''/sys/fs/cgroup/cgroup.controllers''"
    using that by (simp add: Kontext_New_def requireCgroupV2_def)
  with first none show ?thesis unfolding Let_def by blast
qed

text \<open>Both default sockets exist and only the second one is answered.\<close>

theorem kontext_finds_runtime_witness:
  "\<exists>c. Kontext_New (\<lambda>_. True) Some (\<lambda>conn. conn = ''/run/k0s/containerd.sock'') [] = (Inr c, [''/run/containerd/containerd.sock'']) \<and>
     Client_Close c = [''/run/k0s/containerd.sock'']"
proof -
  let ?v = "\<lambda>conn. conn = ''/run/k0s/containerd.sock''"
  have "\<not> list_ex (answers Some ?v) [''/run/containerd/containerd.sock'']" "answers Some ?v ''/run/k0s/containerd.sock''"
    by (simp_all add: answers_def)
  moreover have "DefaultSockets = [''/run/containerd/containerd.sock''] @ ''/run/k0s/containerd.sock'' # []" by (simp add: DefaultSockets_def)
  ultimately obtain c conn where "Kontext_New (\<lambda>_. True) Some ?v [] = (Inr c, List.map_filter Some [''/run/containerd/containerd.sock''])"
    "?v conn" "Client_Close c = [conn]"
    using kontext_finds_runtime [of "\<lambda>_. True" Some ?v "[]"] unfolding Let_def by metis
  then show ?thesis by (auto simp: map_filter_simps)
qed

end
