(* ===== verification/Tracer_Run.thy ===== *)
theory Tracer_Run
  imports Exporters Tracer_Props Node_Agent Kontext_Start
begin

text \<open>
  The start of the agent and the event loop as a whole: the configuration (\<^verbatim>\<open>pkg/config/config.go\<close>), what \<^verbatim>\<open>run\<close> of the node
  agent makes of it, \<^verbatim>\<open>initFilters\<close>, and \<^verbatim>\<open>Tracer.Run\<close> from the first check to its return, with the resources it opens and
  the deferred calls that close them. The YAML decoder, the file system, the BPF loader and the
  runtime connection are parameters; each step of the start may fail.
\<close>

subsection \<open>The configuration\<close>

record CelFilter =
  cf_Name :: string
  cf_Expr :: string

record Filter =
  fl_Cel :: "CelFilter list"
  fl_Verify :: bool

record agent_config =
  ac_Exporters :: "string list"
  ac_SocketPaths :: "string list"
  ac_Filters :: Filter
  ac_MetricsAddr :: string

datatype config_error = ReadingConfig | ParsingConfig

definition Default :: agent_config where
  "Default = \<lparr>ac_Exporters = [''stdout''], ac_SocketPaths = [], ac_Filters = \<lparr>fl_Cel = [], fl_Verify = False\<rparr>, ac_MetricsAddr = []\<rparr>"

text \<open>\<open>decode\<close> is the YAML decoder, \<open>readFile\<close> the file system.\<close>

definition Parse :: "(bytes \<Rightarrow> agent_config option) \<Rightarrow> bytes \<Rightarrow> config_error + agent_config" where
  "Parse decode data = (case decode data of None \<Rightarrow> Inl ParsingConfig | Some cfg \<Rightarrow> Inr cfg)"

definition Load :: "(string \<Rightarrow> bytes option) \<Rightarrow> (bytes \<Rightarrow> agent_config option) \<Rightarrow> string \<Rightarrow> config_error + agent_config" where
  "Load readFile decode path =
     (if path = [] then Inr Default
      else case readFile path of None \<Rightarrow> Inl ReadingConfig | Some data \<Rightarrow> Parse decode data)"

text \<open>What the node agent is built of: the exporters, the container context if the runtime answers, and the filters.\<close>

datatype agent_error = BadConfig config_error | UnknownExporter string

record app =
  app_exporters :: "StdoutExporter list"
  app_kontext :: "Client option"
  app_filter :: Filter
  app_metricsAddr :: string

definition node_run ::
    "(string \<Rightarrow> bytes option) \<Rightarrow> (bytes \<Rightarrow> agent_config option) \<Rightarrow> (string \<Rightarrow> bool) \<Rightarrow> (string \<Rightarrow> 'c option) \<Rightarrow> ('c \<Rightarrow> bool) \<Rightarrow> string \<Rightarrow> agent_error + app" where
  "node_run readFile decode exists dial version path =
     (case Load readFile decode path of
        Inl e \<Rightarrow> Inl (BadConfig e)
      | Inr cfg \<Rightarrow>
          (case Build (ac_Exporters cfg) of
             Inl name \<Rightarrow> Inl (UnknownExporter name)
           | Inr exps \<Rightarrow>
               Inr \<lparr>app_exporters = exps, app_kontext = (case Kontext_New exists dial version (ac_SocketPaths cfg) of
                     (Inl e, _) \<Rightarrow> None | (Inr c, _) \<Rightarrow> Some (kc_cache c)),
                 app_filter = ac_Filters cfg, app_metricsAddr = ac_MetricsAddr cfg\<rparr>))"

subsection \<open>Starting the tracer\<close>

definition initFilters ::
    "bool \<Rightarrow> (string \<Rightarrow> expr option) \<Rightarrow> (expr \<Rightarrow> bool) \<Rightarrow> Filter \<Rightarrow> (compile_error + Set option) option" where
  "initFilters envok parse program_ok f =
     (if fl_Cel f = [] then Some (Inr None)
      else map_option (map_sum id Some)
        (Compile envok parse program_ok (map (\<lambda>c. \<lparr>cfg_Name = cf_Name c, cfg_Expr = cf_Expr c\<rparr>) (fl_Cel f))))"

text \<open>What the start may find on the machine, step by step.\<close>

record machine =
  mc_linux :: bool
  mc_memlock :: bool
  mc_spec :: bool
  mc_objects :: bool
  mc_attach :: "string \<Rightarrow> bool"
  mc_reader :: bool
  mc_stats :: bool
  mc_stores :: "bool \<times> bool"

datatype run_error =
    NotLinux
  | CompileFilters compile_error
  | RemoveMemlock
  | LoadSpec
  | LoadObjects
  | AttachTracepoint string
  | OpenReader
  | StartFilters start_error
  | ReadRingbuf

text \<open>Resources that are open, and the deferred closes, newest first.\<close>

datatype resource = Objects | Link string | Reader | StopDrops | ProgStats

record resources =
  rs_open :: "resource list"
  rs_defers :: "resource list"

definition acquire :: "resource \<Rightarrow> resources \<Rightarrow> resources" where
  "acquire r s = s\<lparr>rs_open := r # rs_open s\<rparr>"

definition defer_close :: "resource \<Rightarrow> resources \<Rightarrow> resources" where
  "defer_close r s = s\<lparr>rs_defers := r # rs_defers s\<rparr>"

definition return_from :: "resources \<Rightarrow> resources" where
  "return_from s = \<lparr>rs_open = fold remove1 (rs_defers s) (rs_open s), rs_defers = []\<rparr>"

definition raw_tracepoints :: "string list" where
  "raw_tracepoints = [''inet_sock_set_state'', ''tcp_retransmit_skb'', ''tcp_probe'', ''tcp_destroy_sock'']"

fun attach_all :: "machine \<Rightarrow> string list \<Rightarrow> resources \<Rightarrow> string option \<times> resources" where
  "attach_all mc [] s = (None, s)"
| "attach_all mc (name # names) s =
     (if mc_attach mc name then attach_all mc names (defer_close (Link name) (acquire (Link name) s)) else (Some name, s))"

datatype started = Failed run_error resources | Listening "Set option" kstate resources

text \<open>\<^verbatim>\<open>Run\<close> up to the loop. The kernel state \<open>k\<close> is the one that \<^verbatim>\<open>startFilters\<close> finds: the programs are attached before. \<open>None\<close> is a panic.\<close>

definition Run_start ::
    "bool \<Rightarrow> (string \<Rightarrow> expr option) \<Rightarrow> (expr \<Rightarrow> bool) \<Rightarrow> machine \<Rightarrow> Filter \<Rightarrow> (u64 \<times> CgroupAttrs) list option \<Rightarrow>
       (u64 \<Rightarrow> lru_choice) \<Rightarrow> u64 list \<Rightarrow> kstate \<Rightarrow> started option" where
  "Run_start envok parse program_ok mc f snapshot ch keys k =
     (let s0 = \<lparr>rs_open = [], rs_defers = []\<rparr>; fail = (\<lambda>e s. Some (Failed e (return_from s))) in
      if \<not> mc_linux mc then fail NotLinux s0
      else case initFilters envok parse program_ok f of
        None \<Rightarrow> None
      | Some (Inl e) \<Rightarrow> fail (CompileFilters e) s0
      | Some (Inr filterSet) \<Rightarrow>
          if \<not> mc_memlock mc then fail RemoveMemlock s0
          else if \<not> mc_spec mc then fail LoadSpec s0
          else if \<not> mc_objects mc then fail LoadObjects s0
          else (case attach_all mc raw_tracepoints (defer_close Objects (acquire Objects s0)) of
              (Some name, s1) \<Rightarrow> fail (AttachTracepoint name) s1
            | (None, s1) \<Rightarrow>
                if \<not> mc_reader mc then fail OpenReader s1
                else (let s2 = defer_close StopDrops (acquire StopDrops (defer_close Reader (acquire Reader s1)));
                          s3 = (if mc_stats mc then defer_close ProgStats (acquire ProgStats s2) else s2)
                      in case startFilters (mc_stores mc) filterSet snapshot ch keys k of
                           None \<Rightarrow> None
                         | Some (Inl e) \<Rightarrow> fail (StartFilters e) s3
                         | Some (Inr k') \<Rightarrow> Some (Listening filterSet k' s3))))"

subsection \<open>The loop\<close>

text \<open>What \<^verbatim>\<open>rd.Read\<close> returns. A record comes with the world that its lookups see, and with whether the \<^verbatim>\<open>select\<close> around the
  send to the events channel takes the branch of the finished context.\<close>

datatype 'w reader_result = Rec bytes 'w lru_choice bool | ErrClosed | ReadErr

datatype loop_end = Waiting | Stopped | ReadFailed

fun run_loop ::
    "cel_eval \<Rightarrow> ('w, 's) attrs_op option \<Rightarrow> Set option \<Rightarrow> bool \<Rightarrow> 'w reader_result list \<Rightarrow> 's ustate \<Rightarrow> (loop_end \<times> 's ustate) option" where
  "run_loop eval src fs verify [] u = Some (Waiting, u)"
| "run_loop eval src fs verify (ErrClosed # rs) u = Some (Stopped, u)"
| "run_loop eval src fs verify (ReadErr # rs) u = Some (ReadFailed, u)"
| "run_loop eval src fs verify (Rec record w ch done # rs) u =
     (case handle_record eval src fs verify w ch record u of
        None \<Rightarrow> None
      | Some u' \<Rightarrow>
          if done \<and> u_sent u' \<noteq> u_sent u then Some (Stopped, u'\<lparr>u_sent := u_sent u\<rparr>)
          else run_loop eval src fs verify rs u')"

datatype 's run_state = Returned "run_error option" resources | Running "'s ustate" resources

definition Run ::
    "bool \<Rightarrow> (string \<Rightarrow> expr option) \<Rightarrow> (expr \<Rightarrow> bool) \<Rightarrow> cel_eval \<Rightarrow> ('w, 's) attrs_op option \<Rightarrow> machine \<Rightarrow> Filter \<Rightarrow>
       (u64 \<times> CgroupAttrs) list option \<Rightarrow> (u64 \<Rightarrow> lru_choice) \<Rightarrow> u64 list \<Rightarrow> kstate \<Rightarrow> 's \<Rightarrow> 'w reader_result list \<Rightarrow> 's run_state option" where
  "Run envok parse program_ok eval src mc f snapshot ch keys k c rs =
     (case Run_start envok parse program_ok mc f snapshot ch keys k of
        None \<Rightarrow> None
      | Some (Failed e r) \<Rightarrow> Some (Returned (Some e) r)
      | Some (Listening fs k' r) \<Rightarrow>
          map_option (\<lambda>(e, u). case e of
              Waiting \<Rightarrow> Running u r
            | Stopped \<Rightarrow> Returned None (return_from r)
            | ReadFailed \<Rightarrow> Returned (Some ReadRingbuf) (return_from r))
            (run_loop eval src fs (fl_Verify f) rs (start_ustate k' c)))"

subsection \<open>Resources\<close>

lemma resource_sel [simp]:
  "rs_open (acquire r s) = r # rs_open s" "rs_defers (acquire r s) = rs_defers s"
  "rs_open (defer_close r s) = rs_open s" "rs_defers (defer_close r s) = r # rs_defers s"
  by (simp_all add: acquire_def defer_close_def)

lemma return_from_balanced: "rs_open s = rs_defers s \<Longrightarrow> return_from s = \<lparr>rs_open = [], rs_defers = []\<rparr>"
proof -
  have "fold remove1 xs xs = []" for xs :: "resource list" by (induction xs) simp_all
  then show "rs_open s = rs_defers s \<Longrightarrow> return_from s = \<lparr>rs_open = [], rs_defers = []\<rparr>" by (simp add: return_from_def)
qed

lemma attach_all_resources:
  "attach_all mc names s = (r, s') \<Longrightarrow> rs_open s = rs_defers s \<Longrightarrow>
     rs_open s' = rs_defers s' \<and> (r = None \<longrightarrow> rs_defers s' = map Link (rev names) @ rs_defers s)"
proof (induction names arbitrary: s)
  case (Cons a names)
  from Cons.IH [of "defer_close (Link a) (acquire (Link a) s)"] Cons.prems show ?case by (auto split: if_splits)
qed simp

lemma attach_all_ok: "fst (attach_all mc names s) = None \<longleftrightarrow> list_all (mc_attach mc) names"
  by (induction names arbitrary: s) auto

definition open_while_running :: "machine \<Rightarrow> resource list" where
  "open_while_running mc = (if mc_stats mc then [ProgStats] else []) @ [StopDrops, Reader] @ map Link (rev raw_tracepoints) @ [Objects]"

lemma Run_start_resources:
  "Run_start envok parse program_ok mc f snapshot ch keys k = Some r \<Longrightarrow>
     (case r of Failed e s \<Rightarrow> s = \<lparr>rs_open = [], rs_defers = []\<rparr>
      | Listening fs k' s \<Rightarrow> rs_open s = rs_defers s \<and> rs_open s = open_while_running mc)"
proof -
  obtain q s1 where a: "attach_all mc raw_tracepoints (defer_close Objects (acquire Objects \<lparr>rs_open = [], rs_defers = []\<rparr>)) = (q, s1)"
    by fastforce
  have o: "rs_open s1 = rs_defers s1" "q = None \<Longrightarrow> rs_defers s1 = map Link (rev raw_tracepoints) @ [Objects]"
    using attach_all_resources [OF a] by simp_all
  note b = return_from_balanced
  assume "Run_start envok parse program_ok mc f snapshot ch keys k = Some r"
  with o show ?thesis
    by (auto simp: Run_start_def Let_def a b open_while_running_def split: if_splits option.splits sum.splits)
qed

lemma Run_start_succeeds:
  "(\<exists>fs k' s. Run_start envok parse program_ok mc f snapshot ch keys k = Some (Listening fs k' s)) \<longleftrightarrow>
     mc_linux mc \<and> mc_memlock mc \<and> mc_spec mc \<and> mc_objects mc \<and> list_all (mc_attach mc) raw_tracepoints \<and> mc_reader mc \<and>
     (\<exists>fs k'. initFilters envok parse program_ok f = Some (Inr fs) \<and> startFilters (mc_stores mc) fs snapshot ch keys k = Some (Inr k'))"
proof -
  obtain q s1 where a: "attach_all mc raw_tracepoints (defer_close Objects (acquire Objects \<lparr>rs_open = [], rs_defers = []\<rparr>)) = (q, s1)"
    by fastforce
  then have q: "q = None \<longleftrightarrow> list_all (mc_attach mc) raw_tracepoints"
    using attach_all_ok [of mc raw_tracepoints "defer_close Objects (acquire Objects \<lparr>rs_open = [], rs_defers = []\<rparr>)"] by simp
  show ?thesis
    by (auto simp: Run_start_def Let_def a q [symmetric] split: option.splits sum.splits)
qed

text \<open>C16: \<^verbatim>\<open>Run\<close> starts all or nothing and leaves nothing behind. The loop is reached if and only if the filters compile, every step of the
  start succeeds and the stores of \<^verbatim>\<open>startFilters\<close> do. Whatever step fails, and however the loop ends, the objects, the four links,
  the ring-buffer reader, the channel of the counters and the statistics handle are closed when
  \<^verbatim>\<open>Run\<close> returns; while the loop runs exactly these are open.\<close>

theorem Run_closes_what_it_opens:
  "((\<exists>fs k' s. Run_start envok parse program_ok mc f snapshot ch keys k = Some (Listening fs k' s)) \<longleftrightarrow>
     mc_linux mc \<and> mc_memlock mc \<and> mc_spec mc \<and> mc_objects mc \<and> list_all (mc_attach mc) raw_tracepoints \<and> mc_reader mc \<and>
     (\<exists>fs k'. initFilters envok parse program_ok f = Some (Inr fs) \<and> startFilters (mc_stores mc) fs snapshot ch keys k = Some (Inr k'))) \<and>
   (case Run envok parse program_ok eval src mc f snapshot ch keys k c rs of
     None \<Rightarrow> True
   | Some (Returned e s) \<Rightarrow> rs_open s = []
   | Some (Running u s) \<Rightarrow> rs_open s = open_while_running mc)"
proof (rule conjI [OF Run_start_succeeds])
  show "case Run envok parse program_ok eval src mc f snapshot ch keys k c rs of
     None \<Rightarrow> True
   | Some (Returned e s) \<Rightarrow> rs_open s = []
   | Some (Running u s) \<Rightarrow> rs_open s = open_while_running mc"
  proof (cases "Run_start envok parse program_ok mc f snapshot ch keys k")
    case (Some st)
    show ?thesis
    proof (cases st)
      case (Listening fs k' s)
      then have o: "rs_open s = rs_defers s" "rs_open s = open_while_running mc"
        using Run_start_resources [OF Some] by auto
      from return_from_balanced [OF o(1)] o(2) show ?thesis
        by (auto simp: Run_def Some Listening split: option.split loop_end.split)
    qed (use Run_start_resources [OF Some] in \<open>simp add: Run_def Some\<close>)
  qed (simp add: Run_def)
qed

subsection \<open>Accounting in the loop\<close>

text \<open>What one record does to the counters: it is a decoding error, dropped, or passed to the channel.\<close>

definition accounted :: "'s ustate \<Rightarrow> bool" where
  "accounted u \<longleftrightarrow> u_events_total u = u_decode_errors u + u_passed_bpf u + u_passed_userspace u + u_dropped_userspace u \<and>
     length (u_sent u) = u_passed_bpf u + u_passed_userspace u \<and>
     (\<forall>name. u_matched u name = length (filter (\<lambda>e. ce_FilterName e = name) (u_sent u)))"

lemma resolveFilter_counters:
  "resolveFilter eval src s w ch raw u = Some (m, u') \<Longrightarrow>
     \<exists>k c. u' = u\<lparr>u_kernel := k, u_src := c\<rparr> \<and> (\<exists>ev. m = Evaluate eval s ev)"
  by (cases u) (auto simp: resolveFilter_def Let_def split: option.splits prod.splits if_splits)

lemma verify_counters:
  "verifyBpfDecision eval src s w ch raw i u = Some u' \<Longrightarrow> \<exists>k c n. u' = u\<lparr>u_kernel := k, u_src := c, u_mismatches := n\<rparr>"
  by (cases u) (auto simp: verifyBpfDecision_def dest!: resolveFilter_counters split: option.splits)

lemma accounted_record:
  assumes "accounted u" and "handle_record eval src fs verify w ch bs u = Some u'"
  shows "accounted u' \<and> u_events_total u' = u_events_total u + 1"
  using assms
  by (auto simp: handle_record_def Let_def accounted_def deliver_def
      dest!: resolveFilter_counters verify_counters split: option.splits if_splits prod.splits)

lemma resolve_returns:
  assumes "good_set eval s"
  shows "\<exists>m u'. resolveFilter eval src s w ch raw u = Some (m, u')"
proof -
  obtain A known st where "(case src of None \<Rightarrow> ((no_attrs, True), u_src u) | Some op \<Rightarrow> op w (e_cgroup_id raw) (u_src u)) =
      ((A, known), st)" by (metis prod.exhaust)
  with good_set_mask [OF assms, of A] show ?thesis by (auto simp: resolveFilter_def Let_def)
qed

lemma names_index:
  assumes "good_set eval s"
  shows "(i :: u16) < of_nat (length (set_names s)) \<Longrightarrow> \<exists>x. go_idx (set_names s) (unat i) = Some x"
    and "Evaluate eval s ev = Some j \<Longrightarrow> \<exists>x. go_idx (set_names s) j = Some x"
proof -
  assume "i < of_nat (length (set_names s))"
  then have "unat i < length (set_names s)" by (metis le_unat_uoi nat_less_le order_less_imp_le linorder_not_le word_less_nat_alt unat_of_nat mod_less_eq_dividend order.strict_trans2)
  then show "\<exists>x. go_idx (set_names s) (unat i) = Some x" by simp
next
  assume "Evaluate eval s ev = Some j"
  from Evaluate_bound [OF this] good_set_names(3) [OF assms] show "\<exists>x. go_idx (set_names s) j = Some x" by simp
qed

lemma handle_record_returns:
  assumes "\<And>s. fs = Some s \<Longrightarrow> good_set eval s"
  shows "\<exists>u'. handle_record eval src fs verify w ch bs u = Some u'"
proof (cases "\<exists>raw s. read_event bs = Some raw \<and> fs = Some s")
  case True
  then obtain raw s where r: "read_event bs = Some raw" "fs = Some s" by blast
  have g: "good_set eval s" using assms r(2) by simp
  have ver: "\<exists>u'. verifyBpfDecision eval src s w ch raw i v = Some u'" for i v
    using resolve_returns [OF g, of src w ch raw v] by (auto simp: verifyBpfDecision_def)
  obtain m v where mv: "resolveFilter eval src s w ch raw (u\<lparr>u_events_total := u_events_total u + 1\<rparr>) = Some (m, v)"
    using resolve_returns [OF g, of src w ch raw] by metis
  obtain ev where ev: "m = Evaluate eval s ev" using resolveFilter_counters [OF mv] by blast
  show ?thesis
  proof (cases "ce_FilterIdx (decodeConnEvent raw) < of_nat (length (set_names s))")
    case True
    with names_index(1) [OF g True] ver show ?thesis by (auto simp: handle_record_def Let_def r)
  next
    case False
    show ?thesis
    proof (cases "Evaluate eval s ev")
      case (Some j)
      then obtain x where "go_idx (set_names s) j = Some x" using names_index(2) [OF g] by blast
      with False mv ev Some show ?thesis by (simp add: handle_record_def Let_def r)
    qed (use False mv ev in \<open>simp add: handle_record_def Let_def r\<close>)
  qed
qed (auto simp: handle_record_def Let_def split: option.splits)


subsection \<open>The default configuration\<close>

lemma handle_record_no_filters:
  "\<exists>u'. handle_record eval src None verify w ch bs u = Some u' \<and> u_sent u' = u_sent u"
  by (cases "read_event bs") (simp_all add: handle_record_def Let_def)

lemma run_loop_no_filters: "\<exists>e v. run_loop eval src None verify rs u = Some (e, v) \<and> u_sent v = u_sent u"
proof (induction rs arbitrary: u)
  case (Cons r rs)
  show ?case
  proof (cases r)
    case (Rec bs w ch d)
    obtain u' where u: "handle_record eval src None verify w ch bs u = Some u'" "u_sent u' = u_sent u"
      using handle_record_no_filters by metis
    with Cons.IH [of u'] show ?thesis by (simp add: Rec)
  qed simp_all
qed simp

text \<open>C28: the agent without a configuration file. Its configuration has the stdout exporter and no filters, so that, whatever the tracepoints
  did since the programs were attached, the loop sends nothing, and once filtering is switched on the kernel
  produces nothing: the ring buffer only drains.\<close>

theorem default_agent_is_silent:
  assumes "node_run readFile decode exists dial version [] = Inr a" and "exec h k" and "list_all is_trace h"
    and "Run_start envok parse program_ok mc (app_filter a) snapshot ch keys k = Some (Listening fs k' r)"
    and "list_all keeps_filter xs"
  shows "app_exporters a = [NewStdoutExporter] \<and> (\<exists>n. ko_events (run xs k') = drop n (ko_events k')) \<and>
    (\<exists>e u. run_loop eval src fs (fl_Verify (app_filter a)) rs (start_ustate k' c) = Some (e, u) \<and> u_sent u = [])"
proof -
  have a: "app_exporters a = [NewStdoutExporter]" "fl_Cel (app_filter a) = []"
    using assms(1) by (auto simp: node_run_def Load_def Default_def)
  then have fs: "fs = None" "startFilters (mc_stores mc) None snapshot ch keys k = Some (Inr k')"
    using assms(4) by (auto simp: Run_start_def initFilters_def Let_def split: if_splits option.splits sum.splits prod.splits)
  have "ko_filter_prog k = [zero_prog] \<and> ko_filter_cfg k = [0]"
    using assms(2,3)
  proof (induction rule: exec.induct)
    case (exec_step h s x)
    then show ?case by (cases x) (auto simp: run_tp_keeps_filter)
  qed (simp add: init_state_def)
  then have "ko_filter_prog k' = [zero_prog]" "ko_filter_cfg k' = [1]"
    using fs(2) by (auto simp: startFilters_def Let_def split: if_splits)
  then have "\<exists>n. ko_events (run xs k') = drop n (ko_events k')"
    using no_filters_no_events [of k' 1 zero_prog xs] assms(5) by (simp add: zero_prog_def)
  with a(1) fs(1) run_loop_no_filters [of eval src _ rs "start_ustate k' c"] show ?thesis by (simp add: start_ustate_def)
qed

definition ex_machine :: machine where
  "ex_machine = \<lparr>mc_linux = True, mc_memlock = True, mc_spec = True, mc_objects = True, mc_attach = (\<lambda>_. True), mc_reader = True,
     mc_stats = False, mc_stores = (True, True)\<rparr>"

theorem default_agent_is_silent_witness:
  "ko_events (run [Trace (ex_env 5000000 0) ex_close] (ex_tracked\<lparr>ko_filter_cfg := [1]\<rparr>)) = []"
proof -
  let ?a = "\<lparr>app_exporters = [NewStdoutExporter], app_kontext = None, app_filter = \<lparr>fl_Cel = [], fl_Verify = False\<rparr>, app_metricsAddr = []\<rparr>"
  let ?s = "\<lparr>rs_open = [StopDrops, Reader] @ map Link (rev raw_tracepoints) @ [Objects],
    rs_defers = [StopDrops, Reader] @ map Link (rev raw_tracepoints) @ [Objects]\<rparr>"
  have a: "node_run (\<lambda>_. None) (\<lambda>_. None) (\<lambda>_. False) Some (\<lambda>_ :: string. True) [] = Inr ?a"
    by (simp add: node_run_def Load_def Default_def Kontext_New_def requireCgroupV2_def)
  have b: "list_all is_trace [ex_established, ex_connect]" by (simp add: ex_established_def ex_connect_def)
  have c: "Run_start True (\<lambda>_. None) (\<lambda>_. True) ex_machine (app_filter ?a) None (\<lambda>_. \<lparr>lru_victims = [], lru_fails = False\<rparr>) [] ex_tracked =
      Some (Listening None (ex_tracked\<lparr>ko_filter_cfg := [1]\<rparr>) ?s)"
    by (simp add: Run_start_def ex_machine_def initFilters_def startFilters_def Let_def raw_tracepoints_def acquire_def defer_close_def)
  have d: "list_all keeps_filter [Trace (ex_env 5000000 0) ex_close]" by simp
  from default_agent_is_silent [OF a ex_tracked_exec b c d, of ref_eval "Some Attrs" "[]" None] show ?thesis
    by (simp del: run.simps)
qed


end
