(* ===== verification/Lru_Elems.thy ===== *)
theory Lru_Elems
  imports Bpf_Helpers
begin

text \<open>
  A hash map as the programs on several processors share it: a lookup returns a pointer to an
  element, later reads and writes go through the pointer, and meanwhile another processor may
  unlink the element, or evict it and fill it for another key. The map is an index from keys to
  elements and the memory of the elements. The locale \<open>pointer_map\<close> is what a program may rely on
  when it holds a pointer; \<open>elem_abs\<close> is the map of theory \<open>Bpf_Helpers\<close> behind the elements.
\<close>

record 'v elems =
  el_idx :: "u64 \<rightharpoonup> nat"
  el_val :: "nat \<Rightarrow> 'v"

definition elem_lookup :: "'v elems \<Rightarrow> u64 \<Rightarrow> nat option" where
  "elem_lookup m k = el_idx m k"

definition elem_deref :: "'v elems \<Rightarrow> nat \<Rightarrow> 'v" where
  "elem_deref m p = el_val m p"

definition elem_write :: "nat \<Rightarrow> 'v \<Rightarrow> 'v elems \<Rightarrow> 'v elems" where
  "elem_write p v m = m\<lparr>el_val := (el_val m)(p := v)\<rparr>"

definition elem_delete :: "u64 \<Rightarrow> 'v elems \<Rightarrow> 'v elems" where
  "elem_delete k m = m\<lparr>el_idx := (el_idx m)(k := None)\<rparr>"

text \<open>An update fills an element that the kernel chooses and links it under the key. The element is
  a free one, or was linked under a key that the update evicts.\<close>

definition evict :: "lru_choice \<Rightarrow> (u64 \<rightharpoonup> nat) \<Rightarrow> (u64 \<rightharpoonup> nat)" where
  "evict ch idx = (\<lambda>x. if x \<in> set (lru_victims ch) then None else idx x)"

definition elem_update :: "lru_choice \<Rightarrow> nat \<Rightarrow> u64 \<Rightarrow> 'v \<Rightarrow> 'v elems \<Rightarrow> 'v elems" where
  "elem_update ch el k v m =
     (if lru_fails ch then m\<lparr>el_idx := evict ch (el_idx m)\<rparr>
      else m\<lparr>el_idx := (evict ch (el_idx m))(k \<mapsto> el), el_val := (el_val m)(el := v)\<rparr>)"

definition elem_free :: "lru_choice \<Rightarrow> nat \<Rightarrow> 'v elems \<Rightarrow> bool" where
  "elem_free ch el m \<longleftrightarrow> (\<forall>k. el_idx m k = Some el \<longrightarrow> k \<in> set (lru_victims ch))"

lemmas elem_defs = elem_lookup_def elem_deref_def elem_write_def elem_delete_def elem_update_def evict_def

definition elem_abs :: "'v elems \<Rightarrow> (u64 \<rightharpoonup> 'v)" where
  "elem_abs m = (\<lambda>k. map_option (el_val m) (el_idx m k))"

text \<open>No element is linked twice.\<close>

definition elem_inj :: "'v elems \<Rightarrow> bool" where
  "elem_inj m \<longleftrightarrow> (\<forall>j k p. el_idx m j = Some p \<longrightarrow> el_idx m k = Some p \<longrightarrow> j = k)"

definition no_elems :: "'v \<Rightarrow> 'v elems" where
  "no_elems z = \<lparr>el_idx = Map.empty, el_val = (\<lambda>_. z)\<rparr>"

subsection \<open>What holding a pointer guarantees\<close>

locale pointer_map =
  fixes lookup :: "'m \<Rightarrow> 'k \<Rightarrow> 'p option"
    and deref :: "'m \<Rightarrow> 'p \<Rightarrow> 'v"
    and put :: "'p \<Rightarrow> 'v \<Rightarrow> 'm \<Rightarrow> 'm"
    and update :: "'c \<Rightarrow> 'p \<Rightarrow> 'k \<Rightarrow> 'v \<Rightarrow> 'm \<Rightarrow> 'm"
    and delete :: "'k \<Rightarrow> 'm \<Rightarrow> 'm"
    and free :: "'c \<Rightarrow> 'p \<Rightarrow> 'm \<Rightarrow> bool"
  assumes deref_write: "deref (put p v m) q = (if q = p then v else deref m q)"
    and deref_update: "q \<noteq> p \<Longrightarrow> deref (update c p k v m) q = deref m q"
    and deref_delete: "deref (delete k m) q = deref m q"
    and lookup_write: "lookup (put p v m) j = lookup m j"
    and lookup_update: "free c p m \<Longrightarrow> lookup (update c p k v m) j = Some q \<Longrightarrow>
      j = k \<and> q = p \<and> deref (update c p k v m) q = v \<or> q \<noteq> p \<and> lookup m j = Some q"
    and lookup_delete: "lookup (delete k m) j = Some q \<Longrightarrow> lookup m j = Some q"
begin

text \<open>A property of every linked element.\<close>

definition linked :: "('k \<Rightarrow> 'v \<Rightarrow> bool) \<Rightarrow> 'm \<Rightarrow> bool" where
  "linked Q m \<longleftrightarrow> (\<forall>k p. lookup m k = Some p \<longrightarrow> Q k (deref m p))"

lemma linkedD: "linked Q m \<Longrightarrow> lookup m k = Some p \<Longrightarrow> Q k (deref m p)"
  by (simp add: linked_def)

lemma linked_update: "linked Q m \<Longrightarrow> free c p m \<Longrightarrow> Q k v \<Longrightarrow> linked Q (update c p k v m)"
  unfolding linked_def by (metis deref_update lookup_update)

lemma linked_delete: "linked Q m \<Longrightarrow> linked Q (delete k m)"
  unfolding linked_def by (metis deref_delete lookup_delete)

lemma linked_write: "linked Q m \<Longrightarrow> (\<And>k. Q k (deref m p) \<Longrightarrow> Q k v) \<Longrightarrow> linked Q (put p v m)"
  unfolding linked_def by (metis deref_write lookup_write)

lemma linked_mono: "linked Q m \<Longrightarrow> (\<And>k v. Q k v \<Longrightarrow> R k v) \<Longrightarrow> linked R m"
  by (simp add: linked_def)

end

interpretation pm: pointer_map elem_lookup elem_deref elem_write elem_update elem_delete elem_free
  by unfold_locales (auto simp: elem_defs elem_free_def split: if_splits)

subsection \<open>The map behind the elements\<close>

lemma elem_abs_lookup: "elem_abs m k = map_option (elem_deref m) (elem_lookup m k)"
  by (auto simp: elem_abs_def elem_defs map_option_case split: option.split)

lemma elem_abs_update: "elem_free ch el m \<Longrightarrow> elem_abs (elem_update ch el k v m) = lru_update ch k v (elem_abs m)"
  by (auto simp: elem_abs_def elem_defs elem_free_def lru_update_def fun_eq_iff Let_def map_option_case split: option.split)

lemma elem_abs_delete: "elem_abs (elem_delete k m) = hash_delete k (elem_abs m)"
  by (auto simp: elem_abs_def elem_defs hash_delete_def)

lemma elem_abs_write:
  "elem_inj m \<Longrightarrow> elem_lookup m k = Some p \<Longrightarrow> elem_abs (elem_write p v m) = hash_store k v (elem_abs m)"
  by (auto simp: elem_abs_def elem_defs elem_inj_def hash_store_def fun_eq_iff map_option_case split: option.split)

text \<open>A write through a pointer whose element is no longer linked is lost.\<close>

lemma elem_abs_write_unlinked: "(\<And>k. elem_lookup m k \<noteq> Some p) \<Longrightarrow> elem_abs (elem_write p v m) = elem_abs m"
  by (auto simp: elem_abs_def elem_defs fun_eq_iff map_option_case split: option.split)

lemma elem_inj_update: "elem_inj m \<Longrightarrow> elem_free ch el m \<Longrightarrow> elem_inj (elem_update ch el k v m)"
  by (auto simp: elem_inj_def elem_defs elem_free_def split: if_splits)

lemma elem_inj_delete: "elem_inj m \<Longrightarrow> elem_inj (elem_delete k m)"
  by (auto simp: elem_inj_def elem_defs split: if_splits)

lemma elem_inj_write [simp]: "elem_inj (elem_write p v m) = elem_inj m"
  by (simp add: elem_inj_def elem_defs)

lemma no_elems [simp]: "elem_inj (no_elems z)" "elem_abs (no_elems z) = Map.empty" "elem_lookup (no_elems z) k = None"
  by (auto simp: elem_inj_def elem_abs_def no_elems_def elem_defs)

end
