(* ===== verification/Ko_Smp.thy ===== *)
theory Ko_Smp
  imports Ko_Exec Lru_Elems
begin

text \<open>
  The handlers of \<^verbatim>\<open>pkg/tracer/c/tracer.bpf.c\<close> as they run on several processors at once: each
  access to a BPF map or to the ring buffer is a step of its own, and between two steps of one
  handler any other handler, or userspace, may take steps. A \<open>pc\<close> is a place between two such
  accesses, with the local variables that are live there. Lookups in the hash maps return
  pointers (theory \<open>Lru_Elems\<close>); a reserved record of the ring buffer is visible to the reader only
  after it is submitted, in the order of the reservations. The copy of one map value is one step.

  The theory shows that a handler finishes after a bounded number of its own steps whatever the
  others do, and that a handler that runs undisturbed has the effect of theory \<open>Ko_Tracer\<close>.
\<close>

subsection \<open>Shared memory and local states\<close>

record shared =
  sh_ctx :: "conn_ctx_t elems"
  sh_verdict :: "u64 elems"
  sh_prog :: "ko_prog list"
  sh_cfg :: "u64 list"
  sh_filter_drops :: percpu
  sh_ringbuf_drops :: percpu
  sh_ring :: "(nat \<times> conn_event_t option) list"
  sh_ticket :: nat

text \<open>The arguments and local variables of a running \<^verbatim>\<open>submit_conn_evt\<close>.\<close>

record submission =
  su_now :: u64
  su_ctx :: conn_ctx_t
  su_type :: u16
  su_family :: u16
  su_sport :: u16
  su_dport :: u16
  su_addrs :: sock_addrs

datatype pc =
    Enter                              \<comment> \<open>before the first access\<close>
  | Limit nat                          \<comment> \<open>\<open>ko_probe\<close>: reads the time of the last sample\<close>
  | Stamp nat                          \<comment> \<open>\<open>ko_probe\<close>: stores the time of this sample\<close>
  | Copy nat                           \<comment> \<open>copies the context behind the pointer\<close>
  | Untrack conn_ctx_t u16             \<comment> \<open>deletes the context of an ended connection\<close>
  | Eval submission                    \<comment> \<open>\<open>ko_filter_eval\<close>: reads the switch\<close>
  | Header submission                  \<comment> \<open>\<open>ko_filter_eval\<close>: reads the number of filters\<close>
  | Walk submission nat tri            \<comment> \<open>\<open>ko_filter_eval\<close>: predicate \<open>k\<close>\<close>
  | Verdict submission nat tri nat     \<comment> \<open>\<open>ko_filter_eval\<close>: holds a pointer to the verdict\<close>
  | Count_filter_drop                  \<comment> \<open>reads the counter\<close>
  | Store_filter_drop u64              \<comment> \<open>writes the counter\<close>
  | Reserve submission u16             \<comment> \<open>reserves a record\<close>
  | Count_ring_drop
  | Store_ring_drop u64
  | Fill nat conn_event_t              \<comment> \<open>submits the record\<close>

record thread =
  th_env :: kenv
  th_tp :: tracepoint
  th_elem :: nat                       \<comment> \<open>the element an update of the context map fills\<close>
  th_pc :: pc

subsection \<open>The steps of the filter walk\<close>

definition sub_args :: "kenv \<Rightarrow> u64 \<Rightarrow> submission \<Rightarrow> ko_args" where
  "sub_args env sk su = filter_args env (su_now su) sk (su_ctx su) (su_type su) (su_family su) (su_addrs su)"

definition answered :: "submission \<Rightarrow> u16 \<Rightarrow> pc" where
  "answered su code = (if code = KO_FILTER_DROP then Count_filter_drop else Reserve su code)"

definition eval_step :: "submission \<Rightarrow> shared \<Rightarrow> pc" where
  "eval_step su m =
     (case array_lookup (sh_cfg m) 0 of
        None \<Rightarrow> answered su KO_FILTER_UNFILTERED
      | Some c \<Rightarrow> if c = 0 then answered su KO_FILTER_UNFILTERED else Header su)"

definition header_step :: "submission \<Rightarrow> shared \<Rightarrow> pc" where
  "header_step su m =
     (case array_lookup (sh_prog m) 0 of
        None \<Rightarrow> answered su KO_FILTER_UNFILTERED
      | Some pr \<Rightarrow> if nfilters pr = 0 then answered su KO_FILTER_DROP else Walk su 0 KO_TRI_TRUE)"

text \<open>Where the walk goes on after a predicate.\<close>

definition walked :: "submission \<Rightarrow> nat \<Rightarrow> u16 + tri \<Rightarrow> pc" where
  "walked su k r = (case r of Inl code \<Rightarrow> answered su code | Inr res \<Rightarrow> Walk su (Suc k) res)"

definition filter_walk_step :: "kenv \<Rightarrow> u64 \<Rightarrow> submission \<Rightarrow> nat \<Rightarrow> tri \<Rightarrow> shared \<Rightarrow> pc" where
  "filter_walk_step env sk su k res m =
     (let pr = sh_prog m ! 0; g = sub_args env sk su in
      if k \<ge> KO_MAX_PREDS \<or> k \<ge> unat (npreds pr) then answered su KO_FILTER_DROP
      else if p_kind (preds pr ! k) = KO_PRED_ATTR then
        (case elem_lookup (sh_verdict m) (g_cgroup_id g) of
           None \<Rightarrow> walked su k (ko_pred_step None g (preds pr ! k) res)
         | Some p \<Rightarrow> Verdict su k res p)
      else walked su k (ko_pred_step None g (preds pr ! k) res))"

definition verdict_step :: "kenv \<Rightarrow> u64 \<Rightarrow> submission \<Rightarrow> nat \<Rightarrow> tri \<Rightarrow> nat \<Rightarrow> shared \<Rightarrow> pc" where
  "verdict_step env sk su k res p m =
     walked su k (ko_pred_step (Some (elem_deref (sh_verdict m) p)) (sub_args env sk su) (preds (sh_prog m ! 0) ! k) res)"

subsection \<open>The steps of a submission\<close>

definition counter_store :: "nat \<Rightarrow> u64 \<Rightarrow> percpu \<Rightarrow> percpu" where
  "counter_store c v m = m(c := (m c)[0 := v + 1])"

definition reserve_step :: "kenv \<Rightarrow> u64 \<Rightarrow> submission \<Rightarrow> u16 \<Rightarrow> shared \<Rightarrow> pc \<times> shared" where
  "reserve_step env sk su code m =
     (if \<not> ringbuf_room env then (Count_ring_drop, m)
      else (Fill (sh_ticket m) (make_event env (su_now su) sk (su_ctx su) (su_type su) (su_family su)
                   (su_sport su) (su_dport su) (su_addrs su) code),
            m\<lparr>sh_ring := sh_ring m @ [(sh_ticket m, None)], sh_ticket := sh_ticket m + 1\<rparr>))"

definition ring_submit :: "nat \<Rightarrow> conn_event_t \<Rightarrow> (nat \<times> conn_event_t option) list \<Rightarrow> (nat \<times> conn_event_t option) list" where
  "ring_submit t e = map (\<lambda>(i, x). if i = t then (i, Some e) else (i, x))"

subsection \<open>The steps of the handlers\<close>

definition submission_of :: "kenv \<Rightarrow> nat \<Rightarrow> conn_ctx_t \<Rightarrow> u16 \<Rightarrow> u16 \<times> u16 \<times> u16 \<times> sock_addrs \<Rightarrow> submission" where
  "submission_of env n c ty ep =
     (case ep of (family, sport, dport, a) \<Rightarrow>
        \<lparr>su_now = ktime env n, su_ctx = c, su_type = ty, su_family = family, su_sport = sport, su_dport = dport, su_addrs = a\<rparr>)"

definition sock_state_enter :: "kenv \<Rightarrow> nat \<Rightarrow> u64 \<Rightarrow> u64 \<Rightarrow> u64 \<Rightarrow> shared \<Rightarrow> pc option \<times> shared" where
  "sock_state_enter env el skaddr arg1 arg2 m =
     (let oldstate = ucast arg1 :: u32; newstate = ucast arg2 :: u32; sk = socks env skaddr in
      if sk_protocol sk \<noteq> IPPROTO_TCP then (None, m)
      else case sock_read_endpoints sk of
        None \<Rightarrow> (None, m)
      | Some ep \<Rightarrow>
          if newstate = TCP_SYN_SENT \<and> oldstate \<noteq> TCP_SYN_SENT then
            (None, m\<lparr>sh_ctx := elem_update (lru_of env) el skaddr (connect_ctx env) (sh_ctx m)\<rparr>)
          else (map_option Copy (elem_lookup (sh_ctx m) skaddr), m))"

definition sock_state_copied :: "u64 \<Rightarrow> u64 \<Rightarrow> conn_ctx_t \<Rightarrow> pc option" where
  "sock_state_copied arg1 arg2 cctx =
     (let oldstate = ucast arg1 :: u32; newstate = ucast arg2 :: u32 in
      if oldstate = TCP_ESTABLISHED then Some (Untrack cctx CONN_EVT_CLOSED)
      else if oldstate \<noteq> TCP_SYN_SENT then None
      else if newstate = TCP_ESTABLISHED then None
      else Some (Untrack cctx CONN_EVT_CONNECT_FAILED))"

fun enter_step :: "kenv \<Rightarrow> nat \<Rightarrow> tracepoint \<Rightarrow> shared \<Rightarrow> pc option \<times> shared" where
  "enter_step env el (Inet_sock_set_state sk o1 n1) m = sock_state_enter env el sk o1 n1 m"
| "enter_step env el (Tcp_retransmit_skb sk) m = (map_option Copy (elem_lookup (sh_ctx m) sk), m)"
| "enter_step env el (Tcp_probe sk) m = (map_option Limit (elem_lookup (sh_ctx m) sk), m)"
| "enter_step env el (Tcp_destroy_sock sk) m = (None, m\<lparr>sh_ctx := elem_delete sk (sh_ctx m)\<rparr>)"

text \<open>\<open>limit_step\<close> and \<open>stamp_step\<close> are the two accesses of \<^verbatim>\<open>ko_probe\<close> through the pointer: the
  read of \<^verbatim>\<open>last_probe_ns\<close> and the store to it.\<close>

definition limit_step :: "kenv \<Rightarrow> nat \<Rightarrow> shared \<Rightarrow> pc option" where
  "limit_step env p m =
     (if ktime env 0 - c_last_probe_ns (elem_deref (sh_ctx m) p) < KO_PROBE_MIN_INTERVAL_NS then None else Some (Stamp p))"

definition stamp_step :: "kenv \<Rightarrow> nat \<Rightarrow> shared \<Rightarrow> shared" where
  "stamp_step env p m =
     m\<lparr>sh_ctx := elem_write p ((elem_deref (sh_ctx m) p)\<lparr>c_last_probe_ns := ktime env 0\<rparr>) (sh_ctx m)\<rparr>"

fun copied :: "kenv \<Rightarrow> tracepoint \<Rightarrow> conn_ctx_t \<Rightarrow> pc option" where
  "copied env (Inet_sock_set_state sk o1 n1) c = sock_state_copied o1 n1 c"
| "copied env (Tcp_retransmit_skb sk) c =
     map_option (\<lambda>ep. Eval (submission_of env 0 c CONN_EVT_RETRANSMIT ep)) (sock_read_endpoints (socks env sk))"
| "copied env (Tcp_probe sk) c =
     map_option (\<lambda>ep. Eval (submission_of env 1 c CONN_EVT_PROBE ep)) (sock_read_endpoints (socks env sk))"
| "copied env (Tcp_destroy_sock sk) c = None"

fun step :: "kenv \<Rightarrow> nat \<Rightarrow> tracepoint \<Rightarrow> pc \<Rightarrow> shared \<Rightarrow> pc option \<times> shared" where
  "step env el t Enter m = enter_step env el t m"
| "step env el t (Limit p) m = (limit_step env p m, m)"
| "step env el t (Stamp p) m = (Some (Copy p), stamp_step env p m)"
| "step env el t (Copy p) m = (copied env t (elem_deref (sh_ctx m) p), m)"
| "step env el t (Untrack c ty) m =
     (map_option (\<lambda>ep. Eval (submission_of env 0 c ty ep)) (sock_read_endpoints (socks env (tp_sock t))),
      m\<lparr>sh_ctx := elem_delete (tp_sock t) (sh_ctx m)\<rparr>)"
| "step env el t (Eval su) m = (Some (eval_step su m), m)"
| "step env el t (Header su) m = (Some (header_step su m), m)"
| "step env el t (Walk su k res) m = (Some (filter_walk_step env (tp_sock t) su k res m), m)"
| "step env el t (Verdict su k res p) m = (Some (verdict_step env (tp_sock t) su k res p m), m)"
| "step env el t Count_filter_drop m = (map_option Store_filter_drop (array_lookup (sh_filter_drops m (cpu env)) 0), m)"
| "step env el t (Store_filter_drop v) m = (None, m\<lparr>sh_filter_drops := counter_store (cpu env) v (sh_filter_drops m)\<rparr>)"
| "step env el t (Reserve su code) m = (case reserve_step env (tp_sock t) su code m of (p, m') \<Rightarrow> (Some p, m'))"
| "step env el t Count_ring_drop m = (map_option Store_ring_drop (array_lookup (sh_ringbuf_drops m (cpu env)) 0), m)"
| "step env el t (Store_ring_drop v) m = (None, m\<lparr>sh_ringbuf_drops := counter_store (cpu env) v (sh_ringbuf_drops m)\<rparr>)"
| "step env el t (Fill i e) m = (None, m\<lparr>sh_ring := ring_submit i e (sh_ring m)\<rparr>)"

subsection \<open>Handlers finish\<close>

text \<open>How many steps a handler can still take from a place.\<close>

fun rank :: "pc \<Rightarrow> nat" where
  "rank Enter = 77"
| "rank (Limit p) = 76"
| "rank (Stamp p) = 75"
| "rank (Copy p) = 74"
| "rank (Untrack c ty) = 73"
| "rank (Eval su) = 72"
| "rank (Header su) = 71"
| "rank (Walk su k res) = (if k < 32 then 6 + 2 * (32 - k) else 4)"
| "rank (Verdict su k res p) = (if k < 32 then 5 + 2 * (32 - k) else 5)"
| "rank (Reserve su code) = 3"
| "rank Count_filter_drop = 2"
| "rank Count_ring_drop = 2"
| "rank (Store_filter_drop v) = 1"
| "rank (Store_ring_drop v) = 1"
| "rank (Fill i e) = 1"

lemma rank_pos: "0 < rank p"
  by (cases p) auto

lemma rank_answered [simp]: "3 < n \<Longrightarrow> rank (answered su code) < n"
  by (simp add: answered_def)

lemma rank_walked: "rank (walked su k r) < (if k < 32 then 5 + 2 * (32 - k) else 5)"
  by (auto simp: walked_def split: sum.split)

lemma filter_walk_step_rank: "rank (filter_walk_step env sk su k res m) < rank (Walk su k res)"
proof -
  have w: "rank (walked su k r) < rank (Walk su k res)" if "k < 32" for r
    using rank_walked [of su k r] that by simp
  have "rank (answered su code) < rank (Walk su k res)" for code by simp
  with w show ?thesis by (auto simp: filter_walk_step_def Let_def split: option.split)
qed

lemma copied_cases:
  "copied env t c = Some p \<Longrightarrow> (\<exists>ty. p = Untrack c ty) \<or> (\<exists>su. p = Eval su \<and> su_ctx su = c)"
  by (cases t) (auto simp: sock_state_copied_def submission_of_def Let_def split: if_splits)

lemma step_rank: "step env el t p m = (Some p', m') \<Longrightarrow> rank p' < rank p"
proof (cases p)
  case Enter
  moreover assume "step env el t p m = (Some p', m')"
  ultimately show ?thesis by (cases t) (auto simp: sock_state_enter_def Let_def split: if_splits option.splits)
next
  case (Copy q)
  moreover assume "step env el t p m = (Some p', m')"
  ultimately show ?thesis by (auto dest!: copied_cases)
next
  case (Eval su)
  moreover assume "step env el t p m = (Some p', m')"
  ultimately show ?thesis by (auto simp: eval_step_def split: option.split)
next
  case (Header su)
  moreover assume "step env el t p m = (Some p', m')"
  ultimately show ?thesis by (auto simp: header_step_def split: option.split)
next
  case (Walk su k res)
  moreover assume "step env el t p m = (Some p', m')"
  ultimately show ?thesis using filter_walk_step_rank [of env "tp_sock t" su k res m] by auto
next
  case (Verdict su k res q)
  moreover assume "step env el t p m = (Some p', m')"
  ultimately show ?thesis using rank_walked [of su k] by (auto simp: verdict_step_def)
qed (auto simp: limit_step_def reserve_step_def split: if_splits)

text \<open>A handler in a changing memory: \<open>ms n\<close> is the memory that its \<open>n\<close>-th step finds.\<close>

fun run_in :: "kenv \<Rightarrow> nat \<Rightarrow> tracepoint \<Rightarrow> (nat \<Rightarrow> shared) \<Rightarrow> nat \<Rightarrow> pc option" where
  "run_in env el t ms 0 = Some Enter"
| "run_in env el t ms (Suc n) = (case run_in env el t ms n of None \<Rightarrow> None | Some p \<Rightarrow> fst (step env el t p (ms n)))"

lemma run_in_rank: "run_in env el t ms n = Some p \<Longrightarrow> rank p + n \<le> 77"
proof (induction n arbitrary: p)
  case 0
  then show ?case by auto
next
  case (Suc n)
  then obtain q where q: "run_in env el t ms n = Some q" "fst (step env el t q (ms n)) = Some p"
    by (auto split: option.splits)
  have "rank p < rank q" using q(2) by (intro step_rank [of env el t q "ms n" p "snd (step env el t q (ms n))"]) (simp add: prod_eq_iff)
  with Suc.IH [OF q(1)] show ?case by simp
qed

subsection \<open>A handler that runs undisturbed\<close>

function solo :: "kenv \<Rightarrow> nat \<Rightarrow> tracepoint \<Rightarrow> pc \<Rightarrow> shared \<Rightarrow> shared" where
  "solo env el t p m = (case step env el t p m of (None, m') \<Rightarrow> m' | (Some p', m') \<Rightarrow> solo env el t p' m')"
  by auto
termination
  by (relation "measure (\<lambda>(env, el, t, p, m). rank p)") (auto intro: step_rank [OF sym])

declare solo.simps [simp del]


text \<open>The state of theory \<open>Ko_Tracer\<close> behind a shared memory: the values of the linked elements and the
  submitted records.\<close>

definition committed :: "(nat \<times> conn_event_t option) list \<Rightarrow> conn_event_t list" where
  "committed r = List.map_filter snd r"

definition smp_abs :: "shared \<Rightarrow> kstate" where
  "smp_abs m = \<lparr>ko_sock_ctx = elem_abs (sh_ctx m), ko_events = committed (sh_ring m), ko_filter_prog = sh_prog m,
     ko_filter_cfg = sh_cfg m, ko_cgroup_verdict = elem_abs (sh_verdict m), ko_filter_drops = sh_filter_drops m,
     ko_ringbuf_drops = sh_ringbuf_drops m\<rparr>"

definition ring_ok :: "shared \<Rightarrow> bool" where
  "ring_ok m \<longleftrightarrow> (\<forall>(i, x) \<in> set (sh_ring m). i < sh_ticket m)"

lemma smp_abs_sel [simp]:
  "ko_sock_ctx (smp_abs m) = elem_abs (sh_ctx m)" "ko_events (smp_abs m) = committed (sh_ring m)"
  "ko_filter_prog (smp_abs m) = sh_prog m" "ko_filter_cfg (smp_abs m) = sh_cfg m"
  "ko_cgroup_verdict (smp_abs m) = elem_abs (sh_verdict m)" "ko_filter_drops (smp_abs m) = sh_filter_drops m"
  "ko_ringbuf_drops (smp_abs m) = sh_ringbuf_drops m"
  by (simp_all add: smp_abs_def)

lemma smp_abs_update [simp]:
  "smp_abs (m\<lparr>sh_ctx := x\<rparr>) = (smp_abs m)\<lparr>ko_sock_ctx := elem_abs x\<rparr>"
  "smp_abs (m\<lparr>sh_filter_drops := d\<rparr>) = (smp_abs m)\<lparr>ko_filter_drops := d\<rparr>"
  "smp_abs (m\<lparr>sh_ringbuf_drops := d\<rparr>) = (smp_abs m)\<lparr>ko_ringbuf_drops := d\<rparr>"
  "smp_abs (m\<lparr>sh_ring := r, sh_ticket := n\<rparr>) = (smp_abs m)\<lparr>ko_events := committed r\<rparr>"
  "smp_abs (m\<lparr>sh_ring := r\<rparr>) = (smp_abs m)\<lparr>ko_events := committed r\<rparr>"
  by (simp_all add: smp_abs_def)

lemma committed_simps [simp]:
  "committed [] = []" "committed ((i, None) # r) = committed r" "committed ((i, Some e) # r) = e # committed r"
  "committed (r @ s) = committed r @ committed s"
  by (simp_all add: committed_def List.map_filter_def)

lemma committed_submit: "\<forall>(i, x) \<in> set r. i < t \<Longrightarrow> ring_submit t e r = r"
  unfolding ring_submit_def by (rule map_idI) auto

lemma solo_count:
  "solo env el t Count_filter_drop m = m\<lparr>sh_filter_drops := percpu_incr (cpu env) (sh_filter_drops m)\<rparr>"
  "solo env el t Count_ring_drop m = m\<lparr>sh_ringbuf_drops := percpu_incr (cpu env) (sh_ringbuf_drops m)\<rparr>"
  by (subst solo.simps, auto simp: solo.simps [of _ _ _ "Store_filter_drop _"] solo.simps [of _ _ _ "Store_ring_drop _"]
      percpu_incr_def counter_store_def split: option.split)+

lemma solo_reserve:
  assumes "ring_ok m" and "ringbuf_room env"
  shows "smp_abs (solo env el t (Reserve su code) m) = (smp_abs m)\<lparr>ko_events := ko_events (smp_abs m) @
      [make_event env (su_now su) (tp_sock t) (su_ctx su) (su_type su) (su_family su) (su_sport su) (su_dport su) (su_addrs su) code]\<rparr>"
proof -
  have "ring_submit (sh_ticket m) e (sh_ring m @ [(sh_ticket m, None)]) = sh_ring m @ [(sh_ticket m, Some e)]" for e
    using assms(1) committed_submit [of "sh_ring m" "sh_ticket m" e] by (simp add: ring_ok_def ring_submit_def)
  with assms(2) show ?thesis
    by (subst solo.simps) (simp add: reserve_step_def solo.simps [of _ _ _ "Fill _ _"])
qed

lemma solo_answered:
  assumes "ring_ok m"
  shows "smp_abs (solo env el t (answered su code) m) =
    (if code = KO_FILTER_DROP then ko_count_filter_drop (cpu env) (smp_abs m)
     else if \<not> ringbuf_room env then (smp_abs m)\<lparr>ko_ringbuf_drops := percpu_incr (cpu env) (ko_ringbuf_drops (smp_abs m))\<rparr>
     else (smp_abs m)\<lparr>ko_events := ko_events (smp_abs m) @
       [make_event env (su_now su) (tp_sock t) (su_ctx su) (su_type su) (su_family su) (su_sport su) (su_dport su) (su_addrs su) code]\<rparr>)"
proof (cases "code = KO_FILTER_DROP")
  case True
  then show ?thesis by (simp add: answered_def solo_count ko_count_filter_drop_def)
next
  case False
  show ?thesis
  proof (cases "ringbuf_room env")
    case True
    with False show ?thesis by (simp add: answered_def solo_reserve [OF assms])
  next
    case full: False
    with False show ?thesis
      by (subst solo.simps [of env el t "answered su code"]) (simp add: answered_def reserve_step_def solo_count)
  qed
qed

lemma ko_pred_step_known: "p_kind p \<noteq> KO_PRED_ATTR \<Longrightarrow> ko_pred_step v g p r = ko_pred_step None g p r"
  by (simp add: ko_pred_step_def)

lemma solo_walk:
  "solo env el t (Walk su k res) m = solo env el t (answered su
     (ko_filter_loop (elem_abs (sh_verdict m) (g_cgroup_id (sub_args env (tp_sock t) su))) (sub_args env (tp_sock t) su)
        (sh_prog m ! 0) [k..<KO_MAX_PREDS] res)) m"
proof (induction "32 - k" arbitrary: k res)
  case 0
  then show ?case by (subst solo.simps) (simp add: filter_walk_step_def Let_def)
next
  case (Suc d)
  let ?g = "sub_args env (tp_sock t) su" and ?pr = "sh_prog m ! 0"
  let ?v = "elem_abs (sh_verdict m) (g_cgroup_id ?g)" and ?p = "preds (sh_prog m ! 0) ! k"
  have k: "k < 32" and "d = 32 - Suc k" using Suc.hyps(2) by auto
  note IH = Suc.hyps(1) [OF this(2)]
  show ?case
  proof (cases "k < unat (npreds ?pr)")
    case False
    with k show ?thesis by (subst solo.simps) (simp add: filter_walk_step_def Let_def upt_conv_Cons)
  next
    case True
    have go: "solo env el t (walked su k r) m = solo env el t (answered su
        (case r of Inl c \<Rightarrow> c | Inr res' \<Rightarrow> ko_filter_loop ?v ?g ?pr [Suc k..<32] res')) m" for r
      by (simp add: walked_def IH split: sum.split)
    have "solo env el t (Walk su k res) m = solo env el t (walked su k (ko_pred_step ?v ?g ?p res)) m"
    proof (cases "p_kind ?p = KO_PRED_ATTR")
      case True
      with k \<open>k < unat (npreds ?pr)\<close> show ?thesis
        by (subst solo.simps) (auto simp: filter_walk_step_def Let_def elem_abs_lookup verdict_step_def
            solo.simps [of _ _ _ "Verdict _ _ _ _"] split: option.split)
    next
      case False
      with k \<open>k < unat (npreds ?pr)\<close> show ?thesis
        by (subst solo.simps) (simp add: filter_walk_step_def Let_def ko_pred_step_known [of ?p ?v])
    qed
    with True k show ?thesis by (simp add: go upt_conv_Cons cong: sum.case_cong)
  qed
qed

lemma solo_eval:
  "solo env el t (Eval su) m = solo env el t (answered su
     (ko_filter_eval (array_lookup (sh_cfg m) 0) (array_lookup (sh_prog m) 0) (elem_abs (sh_verdict m)) (sub_args env (tp_sock t) su))) m"
proof -
  have "solo env el t (Header su) m = solo env el t (answered su
     (ko_filter_eval (Some c) (array_lookup (sh_prog m) 0) (elem_abs (sh_verdict m)) (sub_args env (tp_sock t) su))) m" if "c \<noteq> 0" for c
    using that by (subst solo.simps)
      (auto simp: header_step_def ko_filter_eval_def solo_walk array_lookup_def split: if_splits)
  then show ?thesis
    by (subst solo.simps) (auto simp: eval_step_def ko_filter_eval_def [of None] ko_filter_eval_def [of "Some 0"] split: option.split)
qed

lemma solo_submit:
  assumes "ring_ok m"
  shows "smp_abs (solo env el t (Eval (submission_of env n c ty (fam, sp, dp, a))) m) =
    submit_conn_evt env (ktime env n) (tp_sock t) c ty fam sp dp a (smp_abs m)"
  by (simp add: solo_eval solo_answered [OF assms] submit_conn_evt_def submission_of_def sub_args_def Let_def)

lemma ring_ok_ctx [simp]: "ring_ok (m\<lparr>sh_ctx := x\<rparr>) = ring_ok m"
  by (simp add: ring_ok_def)

lemma solo_untrack:
  assumes "ring_ok m" and "sock_read_endpoints (socks env (tp_sock t)) = Some (fam, sp, dp, a)"
  shows "smp_abs (solo env el t (Untrack c ty) m) = submit_conn_evt env (ktime env 0) (tp_sock t) c ty fam sp dp a
    ((smp_abs m)\<lparr>ko_sock_ctx := hash_delete (tp_sock t) (ko_sock_ctx (smp_abs m))\<rparr>)"
  using assms by (subst solo.simps) (simp add: solo_submit elem_abs_delete)

text \<open>The choice of the element that an update fills is one the kernel can make.\<close>

definition elem_choice_ok :: "kenv \<Rightarrow> nat \<Rightarrow> tracepoint \<Rightarrow> shared \<Rightarrow> bool" where
  "elem_choice_ok env el t m \<longleftrightarrow> (connects (tp_sock t) (Trace env t) \<longrightarrow> elem_free (lru_of env) el (sh_ctx m))"

lemma solo_sock_state:
  assumes "ring_ok m" and "elem_choice_ok env el (Inet_sock_set_state sk o1 n1) m"
  shows "smp_abs (solo env el (Inet_sock_set_state sk o1 n1) Enter m) = ko_sock_state env sk o1 n1 (smp_abs m)"
proof (cases "sk_protocol (socks env sk) = IPPROTO_TCP \<and> sock_read_endpoints (socks env sk) \<noteq> None")
  case False
  then show ?thesis
    by (subst solo.simps) (cases "sock_read_endpoints (socks env sk)", simp_all add: sock_state_enter_def ko_sock_state_def Let_def)
next
  case True
  then obtain fam sp dp a where ep: "sk_protocol (socks env sk) = IPPROTO_TCP"
    "sock_read_endpoints (socks env sk) = Some (fam, sp, dp, a)" by auto
  let ?t = "Inet_sock_set_state sk o1 n1"
  have copy: "smp_abs (solo env el ?t (Copy p) m) = ko_sock_state env sk o1 n1 (smp_abs m)"
    if "elem_lookup (sh_ctx m) sk = Some p" and "\<not> ((ucast n1 :: u32) = TCP_SYN_SENT \<and> (ucast o1 :: u32) \<noteq> TCP_SYN_SENT)" for p
    using that ep assms(1)
    by (subst solo.simps) (auto simp: sock_state_copied_def ko_sock_state_def Let_def hash_lookup_def elem_abs_lookup
        solo_untrack)
  show ?thesis
  proof (cases "connects sk (Trace env ?t)")
    case True
    then have "elem_free (lru_of env) el (sh_ctx m)" using assms(2) by (simp add: elem_choice_ok_def)
    with True ep show ?thesis
      by (subst solo.simps) (auto simp: sock_state_enter_def ko_sock_state_def Let_def elem_abs_update)
  next
    case False
    then have nc: "\<not> ((ucast n1 :: u32) = TCP_SYN_SENT \<and> (ucast o1 :: u32) \<noteq> TCP_SYN_SENT)" using ep by auto
    show ?thesis
    proof (cases "elem_lookup (sh_ctx m) sk")
      case None
      with nc ep show ?thesis
        by (subst solo.simps) (auto simp: sock_state_enter_def ko_sock_state_def Let_def hash_lookup_def elem_abs_lookup)
    next
      case (Some p)
      have "solo env el ?t Enter m = solo env el ?t (Copy p) m"
        using Some nc ep by (subst solo.simps) (auto simp: sock_state_enter_def Let_def)
      with copy [OF Some nc] show ?thesis by simp
    qed
  qed
qed

lemma solo_retransmit:
  assumes "ring_ok m"
  shows "smp_abs (solo env el (Tcp_retransmit_skb sk) Enter m) = ko_retransmit env sk (smp_abs m)"
proof (cases "elem_lookup (sh_ctx m) sk")
  case None
  then show ?thesis by (subst solo.simps) (simp add: ko_retransmit_def hash_lookup_def elem_abs_lookup)
next
  case (Some p)
  then show ?thesis
    by (subst solo.simps) (auto simp: ko_retransmit_def hash_lookup_def elem_abs_lookup
        solo.simps [of _ _ _ "Copy p"] solo_submit [OF assms] split: option.split)
qed

lemma solo_probe:
  assumes "ring_ok m" and "elem_inj (sh_ctx m)"
  shows "smp_abs (solo env el (Tcp_probe sk) Enter m) = ko_probe env sk (smp_abs m)"
proof (cases "elem_lookup (sh_ctx m) sk")
  case None
  then show ?thesis by (subst solo.simps) (simp add: ko_probe_def hash_lookup_def elem_abs_lookup)
next
  case (Some p)
  let ?c = "elem_deref (sh_ctx m) p"
  let ?m = "stamp_step env p m" and ?c' = "?c\<lparr>c_last_probe_ns := ktime env 0\<rparr>"
  have m': "smp_abs ?m = (smp_abs m)\<lparr>ko_sock_ctx := hash_store sk ?c' (elem_abs (sh_ctx m))\<rparr>" "ring_ok ?m"
    "elem_deref (sh_ctx ?m) p = ?c'"
    using assms by (simp_all add: stamp_step_def elem_abs_write [OF assms(2) Some] pm.deref_write)
  have enter: "solo env el (Tcp_probe sk) Enter m = solo env el (Tcp_probe sk) (Limit p) m"
    using Some by (subst solo.simps) simp
  have copy: "smp_abs (solo env el (Tcp_probe sk) (Copy p) ?m) =
      (case sock_read_endpoints (socks env sk) of None \<Rightarrow> smp_abs ?m
       | Some (fam, sp, dp, a) \<Rightarrow> submit_conn_evt env (ktime env 1) sk ?c' CONN_EVT_PROBE fam sp dp a (smp_abs ?m))"
    by (subst solo.simps) (auto simp: m'(3) solo_submit [OF m'(2)] split: option.split)
  show ?thesis
  proof (cases "ktime env 0 - c_last_probe_ns ?c < KO_PROBE_MIN_INTERVAL_NS")
    case True
    with Some show ?thesis unfolding enter
      by (subst solo.simps) (simp add: limit_step_def ko_probe_def hash_lookup_def elem_abs_lookup)
  next
    case False
    have "solo env el (Tcp_probe sk) (Limit p) m = solo env el (Tcp_probe sk) (Copy p) ?m"
      using False by (subst solo.simps) (simp add: limit_step_def solo.simps [of _ _ _ "Stamp p"])
    with False Some copy show ?thesis unfolding enter
      by (simp add: ko_probe_def hash_lookup_def elem_abs_lookup m'(1) Let_def split: option.split)
  qed
qed

lemma solo_run_tp:
  assumes "ring_ok m" and "elem_inj (sh_ctx m)" and "elem_choice_ok env el t m"
  shows "smp_abs (solo env el t Enter m) = run_tp env t (smp_abs m)"
proof (cases t)
  case (Tcp_destroy_sock sk)
  then show ?thesis by (subst solo.simps) (simp add: ko_destroy_sock_def elem_abs_delete)
qed (use assms in \<open>simp_all add: solo_sock_state solo_retransmit solo_probe\<close>)

end
