(* ===== verification/Smp_Exec.thy ===== *)
theory Smp_Exec
  imports Ko_Smp
begin

text \<open>
  Executions on several processors: handlers start at any time, any handler in flight takes the
  next step, and userspace stores programs, switches and verdicts and reads the ring buffer in
  between. While userspace stores a program its element may hold anything (\<open>Tear\<close>). What is assumed
  of the kernel beyond this (which handlers may overlap, which elements are reused) is a guard on
  the steps, so that each theorem names the assumption it needs. The locale \<open>interference_free\<close> is the proof
  rule for invariants: a property of the memory and one of every handler in flight, which the
  steps of the handler itself and the steps of all others keep.
\<close>

subsection \<open>Configurations and steps\<close>

record config =
  cf_threads :: "nat \<rightharpoonup> thread"
  cf_mem :: shared

datatype label = Spawn nat thread | Run nat | Op user_op nat | Tear ko_prog

fun ring_read :: "(nat \<times> conn_event_t option) list \<Rightarrow> (nat \<times> conn_event_t option) list" where
  "ring_read ((i, Some e) # r) = r"
| "ring_read r = r"

text \<open>The operations of userspace; \<open>el\<close> is the element that the update of a verdict fills.\<close>

fun user_step :: "user_op \<Rightarrow> nat \<Rightarrow> shared \<Rightarrow> shared" where
  "user_step (Store_prog p) el m = m\<lparr>sh_prog := (sh_prog m)[0 := p]\<rparr>"
| "user_step (Store_cfg v) el m = m\<lparr>sh_cfg := (sh_cfg m)[0 := v]\<rparr>"
| "user_step (Store_verdict ch k v) el m = m\<lparr>sh_verdict := elem_update ch el k v (sh_verdict m)\<rparr>"
| "user_step (Delete_verdict k) el m = m\<lparr>sh_verdict := elem_delete k (sh_verdict m)\<rparr>"
| "user_step Read_event el m = m\<lparr>sh_ring := ring_read (sh_ring m)\<rparr>"

definition thread_step :: "thread \<Rightarrow> shared \<Rightarrow> pc option \<times> shared" where
  "thread_step th m = step (th_env th) (th_elem th) (th_tp th) (th_pc th) m"

fun do_label :: "label \<Rightarrow> config \<Rightarrow> config" where
  "do_label (Spawn i th) c = c\<lparr>cf_threads := (cf_threads c)(i \<mapsto> th)\<rparr>"
| "do_label (Run i) c =
     (case cf_threads c i of
        None \<Rightarrow> c
      | Some th \<Rightarrow> (case thread_step th (cf_mem c) of (p, m) \<Rightarrow>
          \<lparr>cf_threads = (cf_threads c)(i := map_option (\<lambda>q. th\<lparr>th_pc := q\<rparr>) p), cf_mem = m\<rparr>))"
| "do_label (Op u el) c = c\<lparr>cf_mem := user_step u el (cf_mem c)\<rparr>"
| "do_label (Tear p) c = c\<lparr>cf_mem := (cf_mem c)\<lparr>sh_prog := (sh_prog (cf_mem c))[0 := p]\<rparr>\<rparr>"

fun verdict_choice_ok :: "user_op \<Rightarrow> nat \<Rightarrow> shared \<Rightarrow> bool" where
  "verdict_choice_ok (Store_verdict ch k v) el m = elem_free ch el (sh_verdict m)"
| "verdict_choice_ok u el m = True"

fun enabled :: "label \<Rightarrow> config \<Rightarrow> bool" where
  "enabled (Spawn i th) c \<longleftrightarrow> cf_threads c i = None \<and> th_pc th = Enter \<and> env_ok (th_env th)"
| "enabled (Run i) c \<longleftrightarrow> (\<exists>th. cf_threads c i = Some th \<and>
     (th_pc th = Enter \<longrightarrow> elem_choice_ok (th_env th) (th_elem th) (th_tp th) (cf_mem c)))"
| "enabled (Op u el) c \<longleftrightarrow> action_ok (User u) \<and> verdict_choice_ok u el (cf_mem c)"
| "enabled (Tear p) c \<longleftrightarrow> prog_ok p"

definition init_shared :: shared where
  "init_shared = \<lparr>sh_ctx = no_elems \<lparr>c_cgroup_id = 0, c_start_ts = 0, c_pid = 0, c_comm = replicate 16 0, c_last_probe_ns = 0\<rparr>,
     sh_verdict = no_elems 0, sh_prog = [zero_prog], sh_cfg = [0], sh_filter_drops = (\<lambda>_. [0]), sh_ringbuf_drops = (\<lambda>_. [0]),
     sh_ring = [], sh_ticket = 0\<rparr>"

definition init_config :: config where
  "init_config = \<lparr>cf_threads = Map.empty, cf_mem = init_shared\<rparr>"

lemma smp_abs_init: "smp_abs init_shared = init_state"
  by (simp add: smp_abs_def init_shared_def init_state_def)

text \<open>\<open>smp G h c\<close>: the labels \<open>h\<close>, newest first, lead from the initial configuration to \<open>c\<close>, and every
  step satisfied the guard \<open>G\<close>.\<close>

inductive smp :: "(config \<Rightarrow> label \<Rightarrow> bool) \<Rightarrow> label list \<Rightarrow> config \<Rightarrow> bool" for G where
  smp_init: "smp G [] init_config"
| smp_step: "smp G h c \<Longrightarrow> enabled l c \<Longrightarrow> G c l \<Longrightarrow> smp G (l # h) (do_label l c)"

fun replay :: "label list \<Rightarrow> config" where
  "replay [] = init_config"
| "replay (l # h) = do_label l (replay h)"

lemma smp_replay: "smp G h c \<Longrightarrow> replay h = c"
  by (induction rule: smp.induct) simp_all

text \<open>How many steps of an execution satisfy \<open>P\<close>.\<close>

fun count_steps :: "(config \<Rightarrow> label \<Rightarrow> bool) \<Rightarrow> label list \<Rightarrow> nat" where
  "count_steps P [] = 0"
| "count_steps P (l # h) = count_steps P h + (if P (replay h) l then 1 else 0)"

lemma smp_guard_mono: "smp G h c \<Longrightarrow> (\<And>c l. G c l \<Longrightarrow> G' c l) \<Longrightarrow> smp G' h c"
  by (induction rule: smp.induct) (simp_all add: smp.intros)

text \<open>What holds in every reachable configuration may be assumed in the guard.\<close>

lemma smp_strengthen:
  assumes "smp G h c" and "\<And>h c. smp G h c \<Longrightarrow> P c"
  shows "smp (\<lambda>c l. G c l \<and> P c) h c"
  using assms(1)
proof (induction rule: smp.induct)
  case smp_init
  show ?case by (rule smp.smp_init)
next
  case (smp_step h c l)
  then show ?case using assms(2) by (intro smp.smp_step) auto
qed

subsection \<open>The proof rule\<close>

fun acts_on :: "label \<Rightarrow> nat option" where
  "acts_on (Spawn i th) = Some i"
| "acts_on (Run i) = Some i"
| "acts_on l = None"

locale interference_free =
  fixes G :: "config \<Rightarrow> label \<Rightarrow> bool"
    and I :: "label list \<Rightarrow> shared \<Rightarrow> bool"
    and J :: "label list \<Rightarrow> shared \<Rightarrow> thread \<Rightarrow> bool"
  assumes init: "I [] init_shared"
    and mem: "enabled l c \<Longrightarrow> G c l \<Longrightarrow> I h (cf_mem c) \<Longrightarrow> (\<And>i th. cf_threads c i = Some th \<Longrightarrow> J h (cf_mem c) th) \<Longrightarrow>
      I (l # h) (cf_mem (do_label l c))"
    and start: "th_pc th = Enter \<Longrightarrow> env_ok (th_env th) \<Longrightarrow> J (Spawn i th # h) m th"
    and own: "enabled (Run i) c \<Longrightarrow> G c (Run i) \<Longrightarrow> I h (cf_mem c) \<Longrightarrow> cf_threads c i = Some th \<Longrightarrow> J h (cf_mem c) th \<Longrightarrow>
      thread_step th (cf_mem c) = (Some p, m) \<Longrightarrow> J (Run i # h) m (th\<lparr>th_pc := p\<rparr>)"
    and others: "enabled l c \<Longrightarrow> G c l \<Longrightarrow> I h (cf_mem c) \<Longrightarrow> cf_threads c j = Some th \<Longrightarrow> J h (cf_mem c) th \<Longrightarrow>
      acts_on l \<noteq> Some j \<Longrightarrow> I (l # h) (cf_mem (do_label l c)) \<Longrightarrow> J (l # h) (cf_mem (do_label l c)) th"
begin

lemma invariant:
  assumes "smp G h c"
  shows "I h (cf_mem c) \<and> (\<forall>i th. cf_threads c i = Some th \<longrightarrow> J h (cf_mem c) th)"
  using assms
proof (induction rule: smp.induct)
  case smp_init
  show ?case by (simp add: init_config_def init)
next
  case (smp_step h c l)
  then have inv: "I h (cf_mem c)" "\<And>i th. cf_threads c i = Some th \<Longrightarrow> J h (cf_mem c) th" by blast+
  note st = smp_step.hyps(2,3)
  have m: "I (l # h) (cf_mem (do_label l c))" by (rule mem [OF st inv(1)]) (rule inv(2))
  have "J (l # h) (cf_mem (do_label l c)) th" if th: "cf_threads (do_label l c) i = Some th" for i th
  proof (cases "acts_on l = Some i")
    case True
    then consider th' where "l = Spawn i th'" | "l = Run i" by (cases l) auto
    then show ?thesis
    proof cases
      case 1
      with th st(1) start show ?thesis by auto
    next
      case 2
      with st(1) obtain th0 where th0: "cf_threads c i = Some th0" by auto
      obtain p m where s: "thread_step th0 (cf_mem c) = (p, m)" by fastforce
      with 2 th th0 obtain q where q: "p = Some q" "th = th0\<lparr>th_pc := q\<rparr>" "cf_mem (do_label l c) = m" by auto
      with own [of i c h th0 q m] st inv th0 s 2 show ?thesis by auto
    qed
  next
    case False
    have "cf_threads c i = Some th"
      using th False by (cases l) (auto split: option.splits prod.splits if_splits)
    with others [OF st inv(1) _ inv(2) False m] show ?thesis by blast
  qed
  with m show ?case by blast
qed

lemma smp_mem: "smp G h c \<Longrightarrow> I h (cf_mem c)"
  by (simp add: invariant)

lemma smp_thread: "smp G h c \<Longrightarrow> cf_threads c i = Some th \<Longrightarrow> J h (cf_mem c) th"
  by (simp add: invariant)

end

end
