(* ===== verification/Smp_Flow.thy ===== *)
theory Smp_Flow
  imports Smp_Exec
begin

text \<open>
  What one step of a handler does to each part of the shared memory, and how the local variables of
  a place depend on those of the place before: the case distinctions that the invariants over
  executions share.
\<close>

subsection \<open>Local variables\<close>

fun pc_sub :: "pc \<Rightarrow> submission option" where
  "pc_sub (Eval su) = Some su"
| "pc_sub (Header su) = Some su"
| "pc_sub (Walk su k res) = Some su"
| "pc_sub (Verdict su k res p) = Some su"
| "pc_sub (Reserve su code) = Some su"
| "pc_sub _ = None"

text \<open>The context a handler works with: behind its pointer, or its copy.\<close>

fun pc_ctx :: "shared \<Rightarrow> pc \<Rightarrow> conn_ctx_t option" where
  "pc_ctx m (Limit p) = Some (elem_deref (sh_ctx m) p)"
| "pc_ctx m (Stamp p) = Some (elem_deref (sh_ctx m) p)"
| "pc_ctx m (Copy p) = Some (elem_deref (sh_ctx m) p)"
| "pc_ctx m (Untrack c ty) = Some c"
| "pc_ctx m p = map_option su_ctx (pc_sub p)"

fun pc_type :: "pc \<Rightarrow> u16 option" where
  "pc_type (Untrack c ty) = Some ty"
| "pc_type p = map_option su_type (pc_sub p)"

text \<open>The pointers a handler holds.\<close>

fun held_ctx :: "pc \<Rightarrow> nat set" where
  "held_ctx (Limit p) = {p}"
| "held_ctx (Stamp p) = {p}"
| "held_ctx (Copy p) = {p}"
| "held_ctx _ = {}"

fun held_verdict :: "pc \<Rightarrow> nat set" where
  "held_verdict (Verdict su k res p) = {p}"
| "held_verdict _ = {}"

lemma submission_of_sel [simp]:
  "su_ctx (submission_of env n c ty ep) = c" "su_type (submission_of env n c ty ep) = ty"
  "su_now (submission_of env n c ty ep) = ktime env n"
  by (simp_all add: submission_of_def split: prod.split)

lemma pc_answered [simp]:
  "pc_sub (answered su code) = (if code = KO_FILTER_DROP then None else Some su)"
  "answered su code \<noteq> Verdict su' k res p" "answered su code \<noteq> Walk su' k res" "answered su code \<noteq> Header su'"
  "answered su code \<noteq> Untrack c ty" "answered su code \<noteq> Copy p" "answered su code \<noteq> Limit p" "answered su code \<noteq> Stamp p"
  "answered su code \<noteq> Fill i e"
  by (simp_all add: answered_def)

lemma pc_walked_sub: "pc_sub (walked su k r) = Some su' \<Longrightarrow> su' = su"
  by (auto simp: walked_def split: sum.splits if_splits)

lemma walk_pcs [simp]: "pc_ctx m (walked su k r) = map_option su_ctx (pc_sub (walked su k r))"
  by (auto simp: walked_def answered_def split: sum.split)

subsection \<open>Effects on memory\<close>

lemma step_frame:
  assumes "thread_step th m = (p, m')"
  shows "sh_verdict m' = sh_verdict m" and "sh_prog m' = sh_prog m" and "sh_cfg m' = sh_cfg m"
  using assms
  by (cases "th_pc th"; cases "th_tp th"; auto simp: thread_step_def sock_state_enter_def stamp_step_def reserve_step_def Let_def
      split: if_splits option.splits)+

lemma step_ctx:
  assumes "thread_step th m = (p, m')"
  obtains (same) "sh_ctx m' = sh_ctx m"
  | (connect) "th_pc th = Enter" "connects (tp_sock (th_tp th)) (Trace (th_env th) (th_tp th))"
      "sh_ctx m' = elem_update (lru_of (th_env th)) (th_elem th) (tp_sock (th_tp th)) (connect_ctx (th_env th)) (sh_ctx m)" "p = None"
  | (delete) "sh_ctx m' = elem_delete (tp_sock (th_tp th)) (sh_ctx m)"
  | (stamp) q where "th_pc th = Stamp q"
      "sh_ctx m' = elem_write q ((elem_deref (sh_ctx m) q)\<lparr>c_last_probe_ns := ktime (th_env th) 0\<rparr>) (sh_ctx m)" "p = Some (Copy q)"
proof (cases "th_pc th")
  case Enter
  with assms show ?thesis
    by (cases "th_tp th") (auto simp: thread_step_def sock_state_enter_def Let_def
        intro: same connect delete split: if_splits option.splits)
next
  case (Stamp q)
  with assms show ?thesis by (auto simp: thread_step_def stamp_step_def intro: stamp)
next
  case (Untrack c ty)
  with assms show ?thesis by (auto simp: thread_step_def intro: delete)
qed (use assms same in \<open>auto simp: thread_step_def reserve_step_def split: if_splits\<close>)

lemma step_ring:
  assumes "thread_step th m = (p, m')"
  obtains (same) "sh_ring m' = sh_ring m" "sh_ticket m' = sh_ticket m"
  | (reserve) su code where "th_pc th = Reserve su code" "sh_ring m' = sh_ring m @ [(sh_ticket m, None)]" "sh_ticket m' = sh_ticket m + 1"
      "p = Some (Fill (sh_ticket m) (make_event (th_env th) (su_now su) (tp_sock (th_tp th)) (su_ctx su) (su_type su) (su_family su)
        (su_sport su) (su_dport su) (su_addrs su) code))"
  | (fill) i e where "th_pc th = Fill i e" "sh_ring m' = ring_submit i e (sh_ring m)" "sh_ticket m' = sh_ticket m" "p = None"
proof (cases "th_pc th")
  case Enter
  with assms show ?thesis
    by (cases "th_tp th") (auto simp: thread_step_def sock_state_enter_def Let_def intro: same split: if_splits option.splits)
next
  case (Reserve su code)
  with assms show ?thesis
    by (auto simp: thread_step_def reserve_step_def intro: same reserve split: if_splits)
qed (use assms same fill in \<open>auto simp: thread_step_def stamp_step_def\<close>)

lemma step_to_fill:
  assumes "thread_step th m = (Some (Fill i e), m')"
  obtains su code where "th_pc th = Reserve su code"
    "e = make_event (th_env th) (su_now su) (tp_sock (th_tp th)) (su_ctx su) (su_type su) (su_family su)
        (su_sport su) (su_dport su) (su_addrs su) code"
proof (cases "th_pc th")
  case Enter
  with assms show ?thesis
    by (cases "th_tp th") (auto simp: thread_step_def sock_state_enter_def Let_def split: if_splits option.splits)
next
  case (Copy p)
  with assms show ?thesis by (auto simp: thread_step_def dest!: copied_cases)
next
  case (Walk su k res)
  with assms show ?thesis
    by (auto simp: thread_step_def filter_walk_step_def walked_def Let_def split: if_splits option.splits sum.splits dest!: sym [of "Fill i e"])
next
  case (Verdict su k res p)
  with assms show ?thesis
    by (auto simp: thread_step_def verdict_step_def walked_def split: sum.splits dest!: sym [of "Fill i e"])
qed (use assms that in \<open>auto simp: thread_step_def limit_step_def eval_step_def header_step_def reserve_step_def
    split: if_splits option.splits dest!: sym [of "Fill i e"]\<close>)

lemma committed_ring_submit: "e' \<in> set (committed (ring_submit i e r)) \<Longrightarrow> e' = e \<or> e' \<in> set (committed r)"
proof (induction r)
  case Nil
  then show ?case by (simp add: ring_submit_def)
next
  case (Cons x r)
  then show ?case by (cases x; cases "snd x") (auto simp: ring_submit_def split: if_splits)
qed

lemma committed_ring_read: "e \<in> set (committed (ring_read r)) \<Longrightarrow> e \<in> set (committed r)"
  by (induction r rule: ring_read.induct) auto

lemma user_step_ctx [simp]: "sh_ctx (user_step u el m) = sh_ctx m"
  by (cases u) simp_all

lemma user_step_committed: "e \<in> set (committed (sh_ring (user_step u el m))) \<Longrightarrow> e \<in> set (committed (sh_ring m))"
  by (cases u) (auto dest: committed_ring_read)

lemma step_committed:
  assumes "thread_step th m = (p, m')" and "e \<in> set (committed (sh_ring m'))"
  shows "e \<in> set (committed (sh_ring m)) \<or> (\<exists>i. th_pc th = Fill i e)"
  using assms(1)
proof (cases rule: step_ring)
  case (fill i e')
  with assms(2) committed_ring_submit [of e i e' "sh_ring m"] show ?thesis by auto
qed (use assms(2) in simp_all)

subsection \<open>The flow of local variables\<close>

lemma step_sub:
  assumes "thread_step th m = (Some p, m')" and "pc_sub p = Some su"
  obtains (old) "pc_sub (th_pc th) = Some su"
  | (new) n c ty ep where "su = submission_of (th_env th) n c ty ep" "pc_ctx m (th_pc th) = Some c"
      "sock_read_endpoints (socks (th_env th) (tp_sock (th_tp th))) = Some ep"
      "pc_type (th_pc th) = Some ty \<or> ty \<in> tp_types (th_tp th)"
proof (cases "th_pc th")
  case Enter
  with assms show ?thesis
    by (cases "th_tp th") (auto simp: thread_step_def sock_state_enter_def Let_def split: if_splits option.splits)
next
  case (Copy q)
  show ?thesis
  proof (cases "th_tp th")
    case (Inet_sock_set_state sk o1 n1)
    with Copy assms show ?thesis by (auto simp: thread_step_def sock_state_copied_def Let_def split: if_splits)
  next
    case (Tcp_retransmit_skb sk)
    with Copy assms obtain ep where "sock_read_endpoints (socks (th_env th) sk) = Some ep"
      "su = submission_of (th_env th) 0 (elem_deref (sh_ctx m) q) CONN_EVT_RETRANSMIT ep"
      by (fastforce simp: thread_step_def)
    with Copy Tcp_retransmit_skb show ?thesis by (intro new [of 0 "elem_deref (sh_ctx m) q" CONN_EVT_RETRANSMIT ep]) simp_all
  next
    case (Tcp_probe sk)
    with Copy assms obtain ep where "sock_read_endpoints (socks (th_env th) sk) = Some ep"
      "su = submission_of (th_env th) 1 (elem_deref (sh_ctx m) q) CONN_EVT_PROBE ep"
      by (fastforce simp: thread_step_def)
    with Copy Tcp_probe show ?thesis by (intro new [of 1 "elem_deref (sh_ctx m) q" CONN_EVT_PROBE ep]) simp_all
  qed (use Copy assms in \<open>auto simp: thread_step_def\<close>)
next
  case (Untrack c ty)
  with assms obtain ep where "sock_read_endpoints (socks (th_env th) (tp_sock (th_tp th))) = Some ep"
    "su = submission_of (th_env th) 0 c ty ep" by (fastforce simp: thread_step_def)
  with Untrack show ?thesis by (intro new [of 0 c ty ep]) simp_all
next
  case (Walk su' k res)
  with assms pc_walked_sub [of su' k _ su] show ?thesis
    by (intro old) (auto simp: thread_step_def filter_walk_step_def Let_def split: if_splits option.splits)
next
  case (Verdict su' k res q)
  with assms pc_walked_sub [of su' k _ su] show ?thesis
    by (intro old) (auto simp: thread_step_def verdict_step_def)
qed (use assms old in \<open>auto simp: thread_step_def limit_step_def eval_step_def header_step_def reserve_step_def
    split: if_splits option.splits\<close>)

lemma sub_ctx: "pc_sub p = Some su \<Longrightarrow> pc_ctx m p = Some (su_ctx su)"
  by (cases p) auto

lemma sub_type: "pc_sub p = Some su \<Longrightarrow> pc_type p = Some (su_type su)"
  by (cases p) auto

lemma pc_ctx_cases:
  assumes "pc_ctx m p = Some c"
  obtains (pointer) q where "held_ctx p = {q}" "c = elem_deref (sh_ctx m) q" | (untrack) ty where "p = Untrack c ty"
  | (sub) su where "pc_sub p = Some su" "c = su_ctx su"
  using assms by (cases p) auto

text \<open>A handler gets its context from the map, and then keeps it up to the time of the last sample.\<close>

lemma step_pc_ctx:
  assumes "thread_step th m = (Some p, m')" and "pc_ctx m' p = Some c"
  obtains (looked_up) q where "th_pc th = Enter" "elem_lookup (sh_ctx m) (tp_sock (th_tp th)) = Some q" "c = elem_deref (sh_ctx m) q"
  | (kept) c0 where "pc_ctx m (th_pc th) = Some c0" "c\<lparr>c_last_probe_ns := 0\<rparr> = c0\<lparr>c_last_probe_ns := 0\<rparr>"
proof (cases "pc_sub p")
  case (Some su)
  with assms(2) have c: "c = su_ctx su" by (simp add: sub_ctx)
  from assms(1) Some show ?thesis
  proof (cases rule: step_sub)
    case old
    with c show ?thesis by (intro kept) (auto simp: sub_ctx)
  next
    case new
    with c show ?thesis by (intro kept) auto
  qed
next
  case None
  show ?thesis
  proof (cases "th_pc th")
    case Enter
    with assms show ?thesis
      by (cases "th_tp th") (auto simp: thread_step_def sock_state_enter_def Let_def intro: looked_up split: if_splits option.splits)
  next
    case (Limit q)
    with assms show ?thesis by (intro kept) (auto simp: thread_step_def limit_step_def split: if_splits)
  next
    case (Stamp q)
    with assms show ?thesis by (intro kept [of "elem_deref (sh_ctx m) q"]) (auto simp: thread_step_def stamp_step_def pm.deref_write)
  next
    case (Copy q)
    with assms None show ?thesis
      by (intro kept) (auto simp: thread_step_def dest!: copied_cases)
  next
    case (Walk su k res)
    with assms None show ?thesis
      by (auto simp: thread_step_def filter_walk_step_def answered_def Let_def split: if_splits option.splits)
  next
    case (Verdict su k res q)
    with assms None show ?thesis by (auto simp: thread_step_def verdict_step_def)
  qed (use assms None in \<open>auto simp: thread_step_def eval_step_def header_step_def reserve_step_def answered_def
      split: if_splits option.splits\<close>)
qed

lemma step_pc_type:
  assumes "thread_step th m = (Some p, m')" and "pc_type p = Some ty"
  shows "pc_type (th_pc th) = Some ty \<or> ty \<in> tp_types (th_tp th)"
proof (cases "pc_sub p")
  case (Some su)
  from assms(1) Some show ?thesis
  proof (cases rule: step_sub)
    case old
    with Some assms(2) show ?thesis by (auto simp: sub_type)
  next
    case new
    with Some assms(2) show ?thesis by (auto simp: sub_type)
  qed
next
  case None
  with assms(2) obtain c where p: "p = Untrack c ty" by (cases p) auto
  then obtain q where "th_pc th = Copy q"
    using assms(1)
    by (cases "th_pc th"; cases "th_tp th") (auto simp: thread_step_def sock_state_enter_def limit_step_def eval_step_def
        header_step_def filter_walk_step_def verdict_step_def walked_def reserve_step_def answered_def Let_def
        split: if_splits option.splits sum.splits)
  with p assms(1) show ?thesis
    by (cases "th_tp th") (auto simp: thread_step_def sock_state_copied_def Let_def split: if_splits)
qed

end
