(* ===== verification/Smp_Attr.thy ===== *)
theory Smp_Attr
  imports Smp_Flow
begin

text \<open>
  Attribution on several processors: as long as no update fills a context element that a handler still
  reads, the context a handler works with, and so the event it submits, comes from a connect of
  its own socket.
\<close>

subsection \<open>Attribution\<close>

text \<open>The context was captured by a handler that saw a connect of the socket.\<close>

definition captured :: "label list \<Rightarrow> u64 \<Rightarrow> conn_ctx_t \<Rightarrow> bool" where
  "captured h k c \<longleftrightarrow> (\<exists>i th. Spawn i th \<in> set h \<and> tp_sock (th_tp th) = k \<and>
     connects k (Trace (th_env th) (th_tp th)) \<and> c\<lparr>c_last_probe_ns := 0\<rparr> = connect_ctx (th_env th))"

definition attributed :: "label list \<Rightarrow> conn_event_t \<Rightarrow> bool" where
  "attributed h e \<longleftrightarrow> (\<exists>i th j cth. Spawn i th \<in> set h \<and> Spawn j cth \<in> set h \<and> tp_sock (th_tp cth) = tp_sock (th_tp th) \<and>
     connects (tp_sock (th_tp cth)) (Trace (th_env cth) (th_tp cth)) \<and>
     e_pid e = ucast (drop_bit 32 (current_pid_tgid (th_env cth))) \<and> e_comm e = current_comm (th_env cth) \<and>
     e_life_us e = (e_ts e - ktime (th_env cth) 0) div 1000 \<and> e_type e \<in> tp_types (th_tp th) \<and>
     (\<exists>n. e_ts e = ktime (th_env th) n) \<and>
     (\<exists>a. sock_read_endpoints (socks (th_env th) (tp_sock (th_tp th))) = Some (e_family e, e_local_port e, e_remote_port e, a)))"

text \<open>The time and the endpoints of a submission are those that its handler read from its socket.\<close>

definition sub_from :: "thread \<Rightarrow> submission \<Rightarrow> bool" where
  "sub_from th su \<longleftrightarrow> (\<exists>n. su_now su = ktime (th_env th) n) \<and>
     sock_read_endpoints (socks (th_env th) (tp_sock (th_tp th))) = Some (su_family su, su_sport su, su_dport su, su_addrs su)"

lemma sub_from_pc [simp]: "sub_from (th\<lparr>th_pc := p\<rparr>) su = sub_from th su"
  by (simp add: sub_from_def)

text \<open>An update does not fill an element that another handler still reads.\<close>

definition no_ctx_reuse :: "config \<Rightarrow> label \<Rightarrow> bool" where
  "no_ctx_reuse c l \<longleftrightarrow> (\<forall>i th. l = Run i \<longrightarrow> cf_threads c i = Some th \<longrightarrow> th_pc th = Enter \<longrightarrow>
     connects (tp_sock (th_tp th)) (Trace (th_env th) (th_tp th)) \<longrightarrow>
     (\<forall>j th'. cf_threads c j = Some th' \<longrightarrow> th_elem th \<notin> held_ctx (th_pc th')))"

lemma captured_mono: "captured h k c \<Longrightarrow> captured (l # h) k c"
  unfolding captured_def by (metis list.set_intros(2))

lemma captured_probe: "c\<lparr>c_last_probe_ns := 0\<rparr> = c0\<lparr>c_last_probe_ns := 0\<rparr> \<Longrightarrow> captured h k c0 \<Longrightarrow> captured h k c"
  by (simp add: captured_def)

lemma attributed_mono: "attributed h e \<Longrightarrow> attributed (l # h) e"
  unfolding attributed_def by (metis list.set_intros(2))

definition spawned :: "label list \<Rightarrow> thread \<Rightarrow> bool" where
  "spawned h th \<longleftrightarrow> (\<exists>i. Spawn i (th\<lparr>th_pc := Enter\<rparr>) \<in> set h)"

lemma spawned_mono: "spawned h th \<Longrightarrow> spawned (l # h) th"
  unfolding spawned_def by (metis list.set_intros(2))

lemma make_event_attributed:
  assumes "spawned h th" and "captured h (tp_sock (th_tp th)) c" and "su_type su \<in> tp_types (th_tp th)" and "sub_from th su"
  shows "attributed h (make_event (th_env th) (su_now su) (tp_sock (th_tp th)) c (su_type su) (su_family su) (su_sport su) (su_dport su) (su_addrs su) code)"
proof -
  obtain i where i: "Spawn i (th\<lparr>th_pc := Enter\<rparr>) \<in> set h" using assms(1) by (auto simp: spawned_def)
  obtain j cth where j: "Spawn j cth \<in> set h" "tp_sock (th_tp cth) = tp_sock (th_tp th)"
    "connects (tp_sock (th_tp th)) (Trace (th_env cth) (th_tp cth))" "c\<lparr>c_last_probe_ns := 0\<rparr> = connect_ctx (th_env cth)"
    using assms(2) by (auto simp: captured_def)
  have "c_pid c = ucast (drop_bit 32 (current_pid_tgid (th_env cth)))" "c_comm c = current_comm (th_env cth)"
    "c_start_ts c = ktime (th_env cth) 0"
    using j(4) by (cases c; simp add: connect_ctx_def)+
  with i j assms(3,4) show ?thesis unfolding attributed_def sub_from_def
    by (intro exI [of _ i] exI [of _ "th\<lparr>th_pc := Enter\<rparr>"] exI [of _ j] exI [of _ cth])
      (simp add: make_event_def fill_addrs_def attr_resolve_def Let_def)
qed

definition attr_mem :: "label list \<Rightarrow> shared \<Rightarrow> bool" where
  "attr_mem h m \<longleftrightarrow> pm.linked (captured h) (sh_ctx m) \<and> (\<forall>e \<in> set (committed (sh_ring m)). attributed h e)"

definition attr_thread :: "label list \<Rightarrow> shared \<Rightarrow> thread \<Rightarrow> bool" where
  "attr_thread h m th \<longleftrightarrow> spawned h th \<and> (\<forall>c. pc_ctx m (th_pc th) = Some c \<longrightarrow> captured h (tp_sock (th_tp th)) c) \<and>
     (\<forall>ty. pc_type (th_pc th) = Some ty \<longrightarrow> ty \<in> tp_types (th_tp th)) \<and>
     (\<forall>su. pc_sub (th_pc th) = Some su \<longrightarrow> sub_from th su) \<and> (\<forall>i e. th_pc th = Fill i e \<longrightarrow> attributed h e)"

lemma attr_step_mem:
  assumes "enabled (Run i) c" and "cf_threads c i = Some th" and "attr_mem h (cf_mem c)" and "attr_thread h (cf_mem c) th"
    and s: "thread_step th (cf_mem c) = (p, m)"
  shows "attr_mem (l # h) m"
proof -
  have lk: "pm.linked (captured (l # h)) (sh_ctx (cf_mem c))"
    using assms(3) captured_mono by (auto simp: attr_mem_def intro: pm.linked_mono)
  have "pm.linked (captured (l # h)) (sh_ctx m)"
    using s
  proof (cases rule: step_ctx)
    case connect
    have "elem_free (lru_of (th_env th)) (th_elem th) (sh_ctx (cf_mem c))"
      using assms(1,2) connect(1,2) by (auto simp: elem_choice_ok_def)
    moreover have "captured (l # h) (tp_sock (th_tp th)) (connect_ctx (th_env th))"
    proof -
      obtain j where "Spawn j (th\<lparr>th_pc := Enter\<rparr>) \<in> set h" using assms(4) by (auto simp: attr_thread_def spawned_def)
      then have "captured h (tp_sock (th_tp th)) (connect_ctx (th_env th))"
        using connect(2) unfolding captured_def
        by (intro exI [of _ j] exI [of _ "th\<lparr>th_pc := Enter\<rparr>"]) (simp add: connect_ctx_def)
      then show ?thesis by (rule captured_mono)
    qed
    ultimately show ?thesis unfolding connect(3) by (intro pm.linked_update lk)
  next
    case (stamp q)
    show ?thesis unfolding stamp(2) using lk
      by (rule pm.linked_write) (auto intro: captured_probe [rotated])
  qed (use lk in \<open>auto simp: pm.linked_delete\<close>)
  moreover have "attributed (l # h) e" if "e \<in> set (committed (sh_ring m))" for e
    using step_committed [OF s that] assms(3,4) attributed_mono by (auto simp: attr_mem_def attr_thread_def)
  ultimately show ?thesis by (simp add: attr_mem_def)
qed

lemma attr_own:
  assumes "attr_mem h m0" and "attr_thread h m0 th" and s: "thread_step th m0 = (Some p, m)"
  shows "attr_thread (l # h) m (th\<lparr>th_pc := p\<rparr>)"
proof -
  note th = assms(2) [unfolded attr_thread_def]
  have "captured (l # h) (tp_sock (th_tp th)) c" if "pc_ctx m p = Some c" for c
    using s that
  proof (cases rule: step_pc_ctx)
    case (looked_up q)
    with assms(1) have "captured h (tp_sock (th_tp th)) c" by (auto simp: attr_mem_def dest: pm.linkedD)
    then show ?thesis by (rule captured_mono)
  next
    case (kept c0)
    with th show ?thesis by (intro captured_mono captured_probe [of c c0]) auto
  qed
  moreover have "ty \<in> tp_types (th_tp th)" if "pc_type p = Some ty" for ty
    using step_pc_type [OF s that] th by auto
  moreover have "sub_from th su" if "pc_sub p = Some su" for su
    using s that
  proof (cases rule: step_sub)
    case (new n c ty ep)
    then show ?thesis by (cases ep) (auto simp: sub_from_def submission_of_def)
  qed (use th in blast)
  moreover have "attributed (l # h) e" if "p = Fill i e" for i e
    using s unfolding that
  proof (cases rule: step_to_fill)
    case (1 su code)
    with th show ?thesis by (auto intro!: attributed_mono make_event_attributed)
  qed
  ultimately show ?thesis using th by (auto simp: attr_thread_def spawned_mono intro: spawned_def [THEN iffD2])
      (auto simp: spawned_def)
qed

text \<open>What others do to the context that a handler works with.\<close>

lemma attr_others:
  assumes "attr_thread h (cf_mem c) th" and "cf_threads c j = Some th" and "no_ctx_reuse c l" and "acts_on l \<noteq> Some j"
  shows "attr_thread (l # h) (cf_mem (do_label l c)) th"
proof -
  note th = assms(1) [unfolded attr_thread_def]
  have "captured h (tp_sock (th_tp th)) d" if d: "pc_ctx (cf_mem (do_label l c)) (th_pc th) = Some d" for d
    using d
  proof (cases rule: pc_ctx_cases)
    case (pointer q)
    let ?d = "elem_deref (sh_ctx (cf_mem c)) q"
    have "pc_ctx (cf_mem c) (th_pc th) = Some ?d" using pointer(1) by (cases "th_pc th") auto
    with th have cd: "captured h (tp_sock (th_tp th)) ?d" by blast
    have "d\<lparr>c_last_probe_ns := 0\<rparr> = ?d\<lparr>c_last_probe_ns := 0\<rparr>"
    proof (cases l)
      case (Run i)
      show ?thesis
      proof (cases "cf_threads c i")
        case None
        with Run pointer(2) show ?thesis by simp
      next
        case (Some thi)
        obtain p m where s: "thread_step thi (cf_mem c) = (p, m)" by fastforce
        have dm: "d = elem_deref (sh_ctx m) q" using Run Some s pointer(2) by simp
        from s show ?thesis
        proof (cases rule: step_ctx)
          case connect
          have "q \<noteq> th_elem thi" using assms(2,3) Run Some connect(1,2) pointer(1) by (auto simp: no_ctx_reuse_def)
          then show ?thesis by (simp add: dm connect(3) pm.deref_update)
        qed (simp_all add: dm pm.deref_delete pm.deref_write)
      qed
    qed (use pointer(2) in simp_all)
    with cd show ?thesis by (rule captured_probe [rotated])
  next
    case (untrack ty)
    with th show ?thesis by auto
  next
    case (sub su)
    with th show ?thesis by (auto simp: sub_ctx)
  qed
  with th show ?thesis by (auto simp: attr_thread_def spawned_mono captured_mono attributed_mono)
qed

interpretation attr: interference_free no_ctx_reuse attr_mem attr_thread
proof
  show "attr_mem [] init_shared"
    by (simp add: attr_mem_def init_shared_def pm.linked_def)
next
  fix l c h
  assume l: "enabled l c" and "no_ctx_reuse c l" and m: "attr_mem h (cf_mem c)"
    and th: "\<And>i th. cf_threads c i = Some th \<Longrightarrow> attr_thread h (cf_mem c) th"
  have mono: "attr_mem (l # h) m'" if "sh_ctx m' = sh_ctx (cf_mem c)" "set (committed (sh_ring m')) \<subseteq> set (committed (sh_ring (cf_mem c)))" for m'
    using m that captured_mono attributed_mono by (auto simp: attr_mem_def intro: pm.linked_mono)
  show "attr_mem (l # h) (cf_mem (do_label l c))"
  proof (cases l)
    case (Run i)
    with l obtain t where t: "cf_threads c i = Some t" by auto
    obtain p m' where s: "thread_step t (cf_mem c) = (p, m')" by fastforce
    show ?thesis using attr_step_mem [OF _ t m th [OF t] s] l t s Run by simp
  next
    case (Op u el)
    then show ?thesis using user_step_committed by (intro mono) auto
  qed (intro mono; simp)+
next
  fix th i h m
  show "th_pc th = Enter \<Longrightarrow> attr_thread (Spawn i th # h) m th"
    by (cases th) (auto simp: attr_thread_def spawned_def)
next
  fix i c h th p m
  assume "attr_mem h (cf_mem c)" "attr_thread h (cf_mem c) th" "thread_step th (cf_mem c) = (Some p, m)"
  then show "attr_thread (Run i # h) m (th\<lparr>th_pc := p\<rparr>)" by (rule attr_own)
next
  fix l c h j th
  assume "no_ctx_reuse c l" "cf_threads c j = Some th" "attr_thread h (cf_mem c) th" "acts_on l \<noteq> Some j"
  then show "attr_thread (l # h) (cf_mem (do_label l c)) th" using attr_others by blast
qed

end
