(* ===== verification/Smp_Count.thy ===== *)
theory Smp_Count
  imports Smp_Flow
begin

text \<open>
  The drop counters on several processors. A count is a read and a write back; the locale
  \<open>percpu_counter\<close> states the two counters of the tracer once, and shows that no count is lost as long as at most one
  handler is in flight on each processor.
\<close>

subsection \<open>Handlers that exclude each other\<close>

text \<open>\<open>key\<close> is what two handlers must not share while both are in flight: a processor, or a locked socket.\<close>

definition exclusive :: "(thread \<Rightarrow> 'k option) \<Rightarrow> config \<Rightarrow> thread \<Rightarrow> bool" where
  "exclusive key c th \<longleftrightarrow> (\<forall>j th'. cf_threads c j = Some th' \<longrightarrow> key th' = key th \<longrightarrow> key th = None)"

definition on_cpu :: "thread \<Rightarrow> nat option" where
  "on_cpu th = Some (cpu (th_env th))"

fun state_sock :: "tracepoint \<Rightarrow> u64 option" where
  "state_sock (Inet_sock_set_state sk o1 n1) = Some sk"
| "state_sock _ = None"

text \<open>No handler starts on a processor on which another one is in flight.\<close>

definition one_per_cpu :: "config \<Rightarrow> label \<Rightarrow> bool" where
  "one_per_cpu c l \<longleftrightarrow> (\<forall>i th. l = Spawn i th \<longrightarrow> exclusive on_cpu c th)"

text \<open>The state of a socket changes under its lock, so two state handlers of one socket do not overlap.\<close>

definition sock_locked :: "config \<Rightarrow> label \<Rightarrow> bool" where
  "sock_locked c l \<longleftrightarrow> (\<forall>i th. l = Spawn i th \<longrightarrow> exclusive (state_sock \<circ> th_tp) c th)"

lemma do_label_thread:
  assumes "cf_threads (do_label l c) i = Some th"
  shows "(\<exists>th0 p. cf_threads c i = Some th0 \<and> th = th0\<lparr>th_pc := p\<rparr>) \<or> l = Spawn i th"
proof (cases l)
  case (Run j)
  have "\<exists>p. th = th\<lparr>th_pc := p\<rparr>" by (rule exI [of _ "th_pc th"]) simp
  with Run assms show ?thesis by (auto split: option.splits prod.splits if_splits)
qed (use assms in \<open>auto intro: exI [of _ "th_pc th"] split: if_splits\<close>)

lemma smp_unique:
  assumes "smp G h c" and "\<And>th p. key (th\<lparr>th_pc := p\<rparr>) = key th" and "\<And>c i th. G c (Spawn i th) \<Longrightarrow> exclusive key c th"
    and "cf_threads c i = Some a" and "cf_threads c j = Some b" and "key a = key b" and "key a \<noteq> None"
  shows "i = j"
  using assms(1,4-7)
proof (induction arbitrary: i j a b rule: smp.induct)
  case smp_init
  then show ?case by (simp add: init_config_def)
next
  case (smp_step h c l)
  consider a0 b0 p q where "cf_threads c i = Some a0" "a = a0\<lparr>th_pc := p\<rparr>" "cf_threads c j = Some b0" "b = b0\<lparr>th_pc := q\<rparr>"
    | a0 p where "cf_threads c i = Some a0" "a = a0\<lparr>th_pc := p\<rparr>" "l = Spawn j b"
    | b0 q where "l = Spawn i a" "cf_threads c j = Some b0" "b = b0\<lparr>th_pc := q\<rparr>"
    | "l = Spawn i a" "l = Spawn j b"
    using do_label_thread [OF smp_step.prems(1)] do_label_thread [OF smp_step.prems(2)] by metis
  then show ?case
  proof cases
    case 1
    with smp_step.IH [of i a0 j b0] smp_step.prems(3,4) assms(2) show ?thesis by metis
  next
    case 2
    with smp_step.hyps(3) assms(3) [of c j b] smp_step.prems(3,4) show ?thesis
      by (auto simp: exclusive_def assms(2))
  next
    case 3
    with smp_step.hyps(3) assms(3) [of c i a] smp_step.prems(3,4) show ?thesis
      by (auto simp: exclusive_def assms(2))
  qed simp
qed

subsection \<open>The drop counters\<close>

text \<open>A handler on processor \<open>n\<close> decides to count: its step leads to the place \<open>target\<close>.\<close>

definition decides :: "pc \<Rightarrow> nat \<Rightarrow> config \<Rightarrow> label \<Rightarrow> bool" where
  "decides target n c l \<longleftrightarrow> (\<exists>i th. l = Run i \<and> cf_threads c i = Some th \<and> cpu (th_env th) = n \<and>
     fst (thread_step th (cf_mem c)) = Some target)"

definition some_at :: "(pc \<Rightarrow> bool) \<Rightarrow> nat \<Rightarrow> config \<Rightarrow> bool" where
  "some_at P n c \<longleftrightarrow> (\<exists>i th. cf_threads c i = Some th \<and> cpu (th_env th) = n \<and> P (th_pc th))"

lemma one_per_cpu_unique:
  "smp one_per_cpu h c \<Longrightarrow> cf_threads c i = Some a \<Longrightarrow> cf_threads c j = Some b \<Longrightarrow> cpu (th_env a) = cpu (th_env b) \<Longrightarrow> i = j"
  by (rule smp_unique [where G = one_per_cpu and key = on_cpu and a = a and b = b]) (auto simp: on_cpu_def one_per_cpu_def)

text \<open>A counter that is read at the place \<open>count\<close> and written back at \<open>store v\<close>.\<close>

locale percpu_counter =
  fixes counter :: "shared \<Rightarrow> percpu" and count :: pc and store :: "u64 \<Rightarrow> pc"
  assumes initial: "counter init_shared = (\<lambda>_. [0])"
    and user: "counter (user_step u el m) = counter m"
    and tear: "counter (m\<lparr>sh_prog := pr\<rparr>) = counter m"
    and enter: "count \<noteq> Enter" "store v \<noteq> Enter"
    and distinct: "count \<noteq> store v" "store v = store w \<longleftrightarrow> v = w"
    and read: "th_pc th = count \<Longrightarrow> thread_step th m = (map_option store (array_lookup (counter m (cpu (th_env th))) 0), m)"
    and written: "th_pc th = store v \<Longrightarrow> thread_step th m = (p, m') \<Longrightarrow>
      p = None \<and> counter m' = counter_store (cpu (th_env th)) v (counter m)"
    and elsewhere: "th_pc th \<noteq> count \<Longrightarrow> (\<And>v. th_pc th \<noteq> store v) \<Longrightarrow> thread_step th m = (p, m') \<Longrightarrow>
      counter m' = counter m \<and> p \<noteq> Some (store w)"
begin

definition busy :: "pc \<Rightarrow> bool" where
  "busy p \<longleftrightarrow> p = count \<or> (\<exists>v. p = store v)"

definition counted :: "label list \<Rightarrow> config \<Rightarrow> nat \<Rightarrow> bool" where
  "counted h c n \<longleftrightarrow> (\<exists>v. counter (cf_mem c) n = [v] \<and>
     of_nat (count_steps (decides count n) h) = v + (if some_at busy n c then 1 else 0) \<and>
     (\<forall>i th w. cf_threads c i = Some th \<and> cpu (th_env th) = n \<and> th_pc th = store w \<longrightarrow> w = v))"

text \<open>A step of another processor, or of userspace, does not concern the counter of \<open>n\<close>.\<close>

lemma counted_frame:
  assumes "counted h c n" and "counter (cf_mem (do_label l c)) n = counter (cf_mem c) n" and "\<not> decides count n (replay h) l"
    and "\<And>i th. cpu (th_env th) = n \<Longrightarrow> busy (th_pc th) \<Longrightarrow> cf_threads (do_label l c) i = Some th \<longleftrightarrow> cf_threads c i = Some th"
  shows "counted (l # h) (do_label l c) n"
proof -
  have "some_at busy n (do_label l c) = some_at busy n c" using assms(4) by (auto simp: some_at_def)
  moreover have "cf_threads c i = Some th" if "cf_threads (do_label l c) i = Some th" "cpu (th_env th) = n" "th_pc th = store w" for i th w
    using assms(4) [of th i] that by (auto simp: busy_def)
  ultimately show ?thesis using assms(1-3) by (fastforce simp: counted_def)
qed

lemma counted_run:
  assumes s: "smp one_per_cpu h c" and i: "cf_threads c i = Some th" and n: "cpu (th_env th) = n" and IH: "counted h c n"
  shows "counted (Run i # h) (do_label (Run i) c) n"
proof -
  obtain p m where st: "thread_step th (cf_mem c) = (p, m)" by fastforce
  have only: "j = i" if "cf_threads c j = Some th'" "cpu (th_env th') = n" for j th'
    using one_per_cpu_unique [OF s that(1) i] that(2) n by simp
  obtain v where v: "counter (cf_mem c) n = [v]"
    "of_nat (count_steps (decides count n) h) = v + (if some_at busy n c then 1 else 0)" "\<And>w. th_pc th = store w \<Longrightarrow> w = v"
    using IH i n by (auto simp: counted_def)
  have b: "some_at busy n c = busy (th_pc th)" using only i n by (fastforce simp: some_at_def)
  let ?c = "do_label (Run i) c"
  have c': "cf_mem ?c = m" "cf_threads ?c = (cf_threads c)(i := map_option (\<lambda>q. th\<lparr>th_pc := q\<rparr>) p)" using i st by simp_all
  have b': "some_at busy n ?c = (case p of None \<Rightarrow> False | Some q \<Rightarrow> busy q)"
    using only n unfolding some_at_def c' by (fastforce split: option.splits if_splits)
  have d: "decides count n (replay h) (Run i) = (p = Some count)"
    using i n st by (auto simp: decides_def smp_replay [OF s])
  have w: "w = v'" if "counter m n = [v']" "p = Some (store w) \<Longrightarrow> w = v'" "cf_threads ?c j = Some th'" "cpu (th_env th') = n" "th_pc th' = store w" for j th' w v'
    using that only [of j th'] unfolding c'(2) by (auto split: if_splits)
  consider "th_pc th = count" | u where "th_pc th = store u" | "\<not> busy (th_pc th)" by (auto simp: busy_def)
  then show ?thesis
  proof cases
    case 1
    then have p: "p = Some (store v)" "m = cf_mem c" using read [OF 1, of "cf_mem c"] st v(1) n by (auto simp: array_lookup_def)
    then have "count_steps (decides count n) (Run i # h) = count_steps (decides count n) h" using d distinct(1) by auto
    with v b b' 1 p c'(1) w [of v] show ?thesis unfolding counted_def by (auto simp: busy_def distinct)
  next
    case 2
    then have p: "p = None" "counter m n = [v + 1]" using written [OF 2 st] v(1) v(3) [OF 2] n by (auto simp: counter_store_def)
    with v b b' 2 d c'(1) w [of "v + 1"] show ?thesis unfolding counted_def by (auto simp: busy_def)
  next
    case 3
    then have p: "counter m n = [v]" "p \<noteq> Some (store u)" for u using elsewhere [OF _ _ st] v(1) by (auto simp: busy_def)
    have "count_steps (decides count n) (Run i # h) = count_steps (decides count n) h + (case p of None \<Rightarrow> 0 | Some q \<Rightarrow> if busy q then 1 else 0)"
      using d p(2) by (auto simp: busy_def split: option.split)
    with v b b' 3 p c'(1) w [of v] show ?thesis unfolding counted_def by (auto split: option.splits)
  qed
qed

lemma counter_exact: "smp one_per_cpu h c \<Longrightarrow> counted h c n"
proof (induction rule: smp.induct)
  case smp_init
  then show ?case by (simp add: counted_def init_config_def initial some_at_def)
next
  case (smp_step h c l)
  show ?case
  proof (cases l)
    case (Run i)
    with smp_step.hyps(2) obtain th where i: "cf_threads c i = Some th" by auto
    obtain p m where st: "thread_step th (cf_mem c) = (p, m)" by fastforce
    show ?thesis
    proof (cases "cpu (th_env th) = n")
      case True
      with counted_run [OF smp_step.hyps(1) i True smp_step.IH] Run show ?thesis by simp
    next
      case False
      have "counter m n = counter (cf_mem c) n"
        using elsewhere [OF _ _ st] read [of th "cf_mem c"] written [OF _ st] st False
        by (cases "th_pc th = count \<or> (\<exists>v. th_pc th = store v)") (auto simp: counter_store_def)
      with False i st Run smp_replay [OF smp_step.hyps(1)] show ?thesis
        by (intro counted_frame [OF smp_step.IH]) (auto simp: decides_def)
    qed
  next
    case (Spawn i th)
    with smp_step.hyps(2) enter show ?thesis
      by (intro counted_frame [OF smp_step.IH]) (auto simp: decides_def busy_def)
  next
    case (Op u el)
    then show ?thesis by (intro counted_frame [OF smp_step.IH]) (auto simp: decides_def user)
  next
    case (Tear pr)
    then show ?thesis by (intro counted_frame [OF smp_step.IH]) (auto simp: decides_def tear)
  qed
qed

end

lemma to_store_drop:
  assumes "thread_step th m = (Some p, m')"
  shows "p = Store_filter_drop v \<Longrightarrow> th_pc th = Count_filter_drop" and "p = Store_ring_drop v \<Longrightarrow> th_pc th = Count_ring_drop"
  using assms
  by (cases "th_pc th"; cases "th_tp th"; auto simp: thread_step_def sock_state_enter_def limit_step_def eval_step_def
      sock_state_copied_def header_step_def filter_walk_step_def verdict_step_def walked_def reserve_step_def answered_def Let_def
      split: if_splits option.splits sum.splits)+

lemma step_drops:
  assumes "thread_step th m = (p, m')"
  shows "(\<And>v. th_pc th \<noteq> Store_filter_drop v) \<Longrightarrow> sh_filter_drops m' = sh_filter_drops m"
    and "(\<And>v. th_pc th \<noteq> Store_ring_drop v) \<Longrightarrow> sh_ringbuf_drops m' = sh_ringbuf_drops m"
  using assms
  by (cases "th_pc th"; cases "th_tp th"; auto simp: thread_step_def sock_state_enter_def stamp_step_def reserve_step_def Let_def
      split: if_splits option.splits)+

interpretation fd: percpu_counter sh_filter_drops Count_filter_drop Store_filter_drop
proof
  show "sh_filter_drops (user_step u el m) = sh_filter_drops m" for u el m by (cases u) simp_all
next
  fix th m p m' w
  assume o: "th_pc th \<noteq> Count_filter_drop" "\<And>v. th_pc th \<noteq> Store_filter_drop v" and s: "thread_step th m = (p, m')"
  show "sh_filter_drops m' = sh_filter_drops m \<and> p \<noteq> Some (Store_filter_drop w)"
    using step_drops(1) [OF s o(2)] to_store_drop(1) [of th m "Store_filter_drop w" m' w] s o(1) by auto
qed (auto simp: init_shared_def thread_step_def)

interpretation rd: percpu_counter sh_ringbuf_drops Count_ring_drop Store_ring_drop
proof
  show "sh_ringbuf_drops (user_step u el m) = sh_ringbuf_drops m" for u el m by (cases u) simp_all
next
  fix th m p m' w
  assume o: "th_pc th \<noteq> Count_ring_drop" "\<And>v. th_pc th \<noteq> Store_ring_drop v" and s: "thread_step th m = (p, m')"
  show "sh_ringbuf_drops m' = sh_ringbuf_drops m \<and> p \<noteq> Some (Store_ring_drop w)"
    using step_drops(2) [OF s o(2)] to_store_drop(2) [of th m "Store_ring_drop w" m' w] s o(1) by auto
qed (auto simp: init_shared_def thread_step_def)

end
