(* ===== verification/Smp_End.thy ===== *)
theory Smp_End
  imports Smp_Count
begin

text \<open>
  The end of a connection on several processors: the lookup of the context and its deletion are separate
  steps, so it takes the lock under which the state of a socket changes to report an end only once.
\<close>

subsection \<open>The end of a connection\<close>

definition connects_on :: "u64 \<Rightarrow> config \<Rightarrow> label \<Rightarrow> bool" where
  "connects_on a c l \<longleftrightarrow> (\<exists>i th. l = Run i \<and> cf_threads c i = Some th \<and> th_pc th = Enter \<and>
     connects a (Trace (th_env th) (th_tp th)))"

definition ends_on :: "u64 \<Rightarrow> config \<Rightarrow> label \<Rightarrow> bool" where
  "ends_on a c l \<longleftrightarrow> (\<exists>i th d ty. l = Run i \<and> cf_threads c i = Some th \<and> th_pc th = Untrack d ty \<and> tp_sock (th_tp th) = a)"

text \<open>A state handler of the socket has looked its context up and not yet deleted it.\<close>

fun ending :: "pc \<Rightarrow> bool" where
  "ending (Copy p) = True"
| "ending (Untrack d ty) = True"
| "ending _ = False"

definition some_ending :: "u64 \<Rightarrow> config \<Rightarrow> bool" where
  "some_ending a c \<longleftrightarrow> (\<exists>i th. cf_threads c i = Some th \<and> state_sock (th_tp th) = Some a \<and> ending (th_pc th))"

definition may_end :: "u64 \<Rightarrow> config \<Rightarrow> bool" where
  "may_end a c \<longleftrightarrow> elem_lookup (sh_ctx (cf_mem c)) a \<noteq> None \<or> some_ending a c"

lemma state_sock_tp: "state_sock t = Some a \<Longrightarrow> tp_sock t = a"
  by (cases t) auto

lemma untrack_is_state:
  assumes "smp G h c" and "cf_threads c i = Some th" and "th_pc th = Untrack d ty"
  shows "state_sock (th_tp th) = Some (tp_sock (th_tp th))"
  using assms
proof (induction arbitrary: th d ty rule: smp.induct)
  case smp_init
  then show ?case by (simp add: init_config_def)
next
  case (smp_step h c l)
  show ?case
  proof (cases "\<exists>j th0. l = Run j \<and> j = i \<and> cf_threads c j = Some th0")
    case True
    then obtain th0 where l: "l = Run i" and th0: "cf_threads c i = Some th0" by auto
    obtain p m where s: "thread_step th0 (cf_mem c) = (p, m)" by fastforce
    with l th0 smp_step.prems have p: "p = Some (Untrack d ty)" "th = th0\<lparr>th_pc := Untrack d ty\<rparr>" by auto
    then obtain q where "th_pc th0 = Copy q"
      using s by (cases "th_pc th0"; cases "th_tp th0") (auto simp: thread_step_def sock_state_enter_def limit_step_def eval_step_def
        header_step_def filter_walk_step_def verdict_step_def walked_def reserve_step_def answered_def Let_def
        split: if_splits option.splits sum.splits)
    with p s show ?thesis by (cases "th_tp th0") (auto simp: thread_step_def)
  next
    case False
    then have "cf_threads c i = Some th"
      using smp_step.prems smp_step.hyps(2) by (cases l) (auto split: option.splits prod.splits if_splits)
    with smp_step.IH smp_step.prems(2) show ?thesis by blast
  qed
qed

lemma sock_locked_unique:
  "smp sock_locked h c \<Longrightarrow> cf_threads c i = Some x \<Longrightarrow> cf_threads c j = Some y \<Longrightarrow> state_sock (th_tp x) = Some a \<Longrightarrow>
     state_sock (th_tp y) = Some a \<Longrightarrow> i = j"
  by (rule smp_unique [where G = sock_locked and key = "state_sock \<circ> th_tp" and a = x and b = y]) (auto simp: sock_locked_def)

text \<open>A step links the context of a socket only when it connects it, and a handler comes to end a
  connection only when its context is linked.\<close>

lemma step_links:
  assumes "thread_step th m = (p, m')" and "elem_lookup (sh_ctx m') a \<noteq> None" and "elem_lookup (sh_ctx m) a = None"
  shows "th_pc th = Enter \<and> connects a (Trace (th_env th) (th_tp th))"
  using assms(1)
proof (cases rule: step_ctx)
  case connect
  with assms(2,3) have "tp_sock (th_tp th) = a" by (auto simp: elem_defs split: if_splits)
  with connect show ?thesis by simp
next
  case delete
  with assms(2,3) show ?thesis by (auto simp: elem_defs split: if_splits)
qed (use assms(2,3) in \<open>simp_all add: pm.lookup_write\<close>)

lemma step_ending:
  assumes "thread_step th m = (Some p, m')" and "ending p" and "state_sock (th_tp th) = Some a"
  shows "ending (th_pc th) \<and> th_pc th \<noteq> Untrack d ty \<or> elem_lookup (sh_ctx m) a \<noteq> None \<or> (\<exists>q. th_pc th = Stamp q)"
  using assms
  by (cases "th_pc th"; cases "th_tp th") (auto simp: thread_step_def sock_state_enter_def limit_step_def eval_step_def
      sock_state_copied_def header_step_def filter_walk_step_def verdict_step_def walked_def reserve_step_def answered_def Let_def
      split: if_splits option.splits sum.splits)

lemma state_no_stamp:
  assumes "smp G h c" and "cf_threads c i = Some th" and "state_sock (th_tp th) = Some a"
  shows "th_pc th \<noteq> Stamp q \<and> th_pc th \<noteq> Limit q"
  using assms
proof (induction arbitrary: th q rule: smp.induct)
  case smp_init
  then show ?case by (simp add: init_config_def)
next
  case (smp_step h c l)
  show ?case
  proof (cases "\<exists>th0. l = Run i \<and> cf_threads c i = Some th0")
    case True
    then obtain th0 where l: "l = Run i" and th0: "cf_threads c i = Some th0" by auto
    obtain p m where s: "thread_step th0 (cf_mem c) = (p, m)" by fastforce
    with l th0 smp_step.prems obtain q' where p: "p = Some q'" "th = th0\<lparr>th_pc := q'\<rparr>" by auto
    with smp_step.prems have "state_sock (th_tp th0) = Some a" by simp
    moreover from this smp_step.IH [OF th0] have "th_pc th0 \<noteq> Stamp r \<and> th_pc th0 \<noteq> Limit r" for r by blast
    ultimately show ?thesis using s p
      by (cases "th_pc th0"; cases "th_tp th0") (auto simp: thread_step_def sock_state_enter_def eval_step_def
          sock_state_copied_def header_step_def filter_walk_step_def verdict_step_def walked_def reserve_step_def answered_def Let_def
          split: if_splits option.splits sum.splits)
  next
    case False
    then have "cf_threads c i = Some th \<or> th_pc th = Enter"
      using smp_step.prems smp_step.hyps(2) by (cases l) (auto split: option.splits prod.splits if_splits)
    with smp_step.IH smp_step.prems(2) show ?thesis by auto
  qed
qed

lemma may_end_run:
  assumes s: "smp sock_locked h c" and i: "cf_threads c i = Some th" and "may_end a (do_label (Run i) c)"
  shows "connects_on a c (Run i) \<or> may_end a c \<and> \<not> ends_on a c (Run i)"
proof -
  obtain p m where st: "thread_step th (cf_mem c) = (p, m)" by fastforce
  let ?c = "do_label (Run i) c"
  have c': "cf_mem ?c = m" "cf_threads ?c = (cf_threads c)(i := map_option (\<lambda>q. th\<lparr>th_pc := q\<rparr>) p)" using i st by simp_all
  show ?thesis
  proof (cases "ends_on a c (Run i)")
    case False
    consider "elem_lookup (sh_ctx m) a \<noteq> None" | "some_ending a ?c" using assms(3) unfolding may_end_def c'(1) by blast
    then have "connects_on a c (Run i) \<or> may_end a c"
    proof cases
      case 1
      then show ?thesis using step_links [OF st, of a] i by (auto simp: may_end_def connects_on_def)
    next
      case 2
      then obtain j th' where j: "cf_threads ?c j = Some th'" "state_sock (th_tp th') = Some a" "ending (th_pc th')"
        by (auto simp: some_ending_def)
      show ?thesis
      proof (cases "j = i")
        case True
        with j obtain q where q: "p = Some q" "ending q" "state_sock (th_tp th) = Some a" unfolding c'(2) by auto
        have "ending (th_pc th) \<or> elem_lookup (sh_ctx (cf_mem c)) a \<noteq> None"
          using step_ending [of th "cf_mem c" q m a] st q state_no_stamp [OF s i q(3)] by auto
        with i q(3) show ?thesis by (auto simp: may_end_def some_ending_def)
      next
        case False
        with j show ?thesis unfolding c'(2) by (auto simp: may_end_def some_ending_def)
      qed
    qed
    with False show ?thesis by blast
  next
    case True
    then obtain d ty where u: "th_pc th = Untrack d ty" "tp_sock (th_tp th) = a" using i by (auto simp: ends_on_def)
    have ss: "state_sock (th_tp th) = Some a" using untrack_is_state [OF s i u(1)] u(2) by simp
    have m: "sh_ctx m = elem_delete a (sh_ctx (cf_mem c))" and p: "\<And>q. p = Some q \<Longrightarrow> \<not> ending q"
      using st u by (auto simp: thread_step_def)
    have "\<not> some_ending a ?c"
      using sock_locked_unique [OF s i _ ss] p unfolding some_ending_def c'(2) by (auto split: if_splits)
    moreover have "elem_lookup (sh_ctx m) a = None" by (simp add: m elem_defs)
    ultimately have "\<not> may_end a ?c" unfolding may_end_def c'(1) by blast
    with assms(3) show ?thesis by blast
  qed
qed

lemma ends_bound:
  "smp sock_locked h c \<Longrightarrow>
     count_steps (ends_on a) h + (if may_end a c then 1 else 0) \<le> count_steps (connects_on a) h"
proof (induction rule: smp.induct)
  case smp_init
  show ?case by (simp add: may_end_def some_ending_def init_config_def init_shared_def)
next
  case (smp_step h c l)
  note r = smp_replay [OF smp_step.hyps(1)]
  show ?case
  proof (cases l)
    case (Run i)
    with smp_step.hyps(2) obtain th where i: "cf_threads c i = Some th" by auto
    have nb: "\<not> (ends_on a c (Run i) \<and> connects_on a c (Run i))" using i by (auto simp: ends_on_def connects_on_def)
    have e: "may_end a c" if en: "ends_on a c (Run i)"
    proof -
      obtain d ty where u: "th_pc th = Untrack d ty" "tp_sock (th_tp th) = a" using en i by (auto simp: ends_on_def)
      with untrack_is_state [OF smp_step.hyps(1) i u(1)] i have "some_ending a c" unfolding some_ending_def by fastforce
      then show ?thesis by (simp add: may_end_def)
    qed
    from smp_step.IH may_end_run [OF smp_step.hyps(1) i, of a] nb e Run r show ?thesis
      by (auto split: if_splits)
  next
    case (Spawn i th)
    have "may_end a (do_label l c) \<Longrightarrow> may_end a c"
      using Spawn smp_step.hyps(2) by (auto simp: may_end_def some_ending_def split: if_splits)
    with smp_step.IH Spawn show ?thesis by (auto simp: ends_on_def connects_on_def)
  next
    case (Op u el)
    with smp_step.IH show ?thesis by (auto simp: ends_on_def connects_on_def may_end_def some_ending_def)
  next
    case (Tear pr)
    with smp_step.IH show ?thesis by (auto simp: ends_on_def connects_on_def may_end_def some_ending_def)
  qed
qed

end
