(* ===== verification/Smp_Props.thy ===== *)
theory Smp_Props
  imports Smp_Attr Smp_End Ko_Example
begin

text \<open>
  The properties of the handlers on several processors: handlers finish, undisturbed handlers behave as
  theory \<open>Ko_Tracer\<close> says, events are attributed to the connecting process unless a context element is
  reused under a handler that still reads it, the drop counters are exact unless handlers nest on one
  processor, and a connection ends once as long as the state transitions of one socket do not overlap.
  For each assumption an execution shows what goes wrong without it.
\<close>

text \<open>C26: handlers finish. Whatever the other processors do to the maps between its steps, a handler ends after at most
  77 accesses to shared memory.\<close>

theorem handler_wait_free: "run_in env el t ms 77 = None"
proof (cases "run_in env el t ms 77")
  case (Some p)
  then show ?thesis using run_in_rank [OF Some] rank_pos [of p] by simp
qed

text \<open>C15: a handler that runs without interruption, access by access, changes the maps and the ring buffer exactly as
  the handler of theory \<open>Ko_Tracer\<close> does in one go, for every choice of element the kernel can make.\<close>

theorem undisturbed_handler_refines:
  assumes "ring_ok m" and "elem_inj (sh_ctx m)" and "elem_choice_ok env el t m"
  shows "smp_abs (solo env el t Enter m) = run_tp env t (smp_abs m)"
  using assms by (rule solo_run_tp)

lemma init_shared_ok: "ring_ok init_shared" "elem_inj (sh_ctx init_shared)" "elem_free ch el (sh_ctx init_shared)"
  by (simp_all add: ring_ok_def init_shared_def elem_free_def no_elems_def elem_inj_def)

theorem undisturbed_handler_refines_witness:
  "smp_abs (solo (ex_env 1000000 4242) 0 (Inet_sock_set_state 1 7 2) Enter init_shared) =
     init_state\<lparr>ko_sock_ctx := [1 \<mapsto> connect_ctx (ex_env 1000000 4242)]\<rparr>"
  using undisturbed_handler_refines [OF init_shared_ok(1,2), of "ex_env 1000000 4242" 0 "Inet_sock_set_state 1 7 2"]
  by (simp add: elem_choice_ok_def init_shared_ok(3) smp_abs_init ko_sock_state_def Let_def map_defs TCP_SYN_SENT_def init_state_def)

subsection \<open>A schedule\<close>

definition ex_cpu_env :: "nat \<Rightarrow> u64 \<Rightarrow> u64 \<Rightarrow> kenv" where
  "ex_cpu_env n t pid = (ex_env t pid)\<lparr>cpu := n\<rparr>"

definition ex_thread :: "nat \<Rightarrow> u64 \<Rightarrow> u64 \<Rightarrow> nat \<Rightarrow> tracepoint \<Rightarrow> thread" where
  "ex_thread n t pid el tp = \<lparr>th_env = ex_cpu_env n t pid, th_tp = tp, th_elem = el, th_pc = Enter\<rparr>"


lemma ex_cpu_env_sel [simp]:
  "socks (ex_cpu_env n t pid) sk = ex_sock" "ktime (ex_cpu_env n t pid) k = t" "cpu (ex_cpu_env n t pid) = n"
  "ringbuf_room (ex_cpu_env n t pid)" "lru_of (ex_cpu_env n t pid) = \<lparr>lru_victims = [], lru_fails = False\<rparr>" "env_ok (ex_cpu_env n t pid)"
  using ex_env_ok [of t pid] by (simp_all add: ex_cpu_env_def env_ok_def)

fun valid :: "label list \<Rightarrow> bool" where
  "valid [] = True"
| "valid (l # h) = (valid h \<and> enabled l (replay h))"

lemma valid_smp: "valid h \<Longrightarrow> smp (\<lambda>_ _. True) h (replay h)"
  by (induction h) (auto intro: smp.intros)

text \<open>Two connections, then filtering without a filter is switched on and both sockets retransmit, on
  the processors \<open>n\<close> and \<open>n'\<close>.\<close>

definition ex_drops :: "nat \<Rightarrow> nat \<Rightarrow> label list" where
  "ex_drops n n' = rev [Spawn 0 (ex_thread n 1 1 0 (Inet_sock_set_state 1 7 2)), Run 0,
     Spawn 0 (ex_thread n 2 2 1 (Inet_sock_set_state 2 7 2)), Run 0, Op (Store_cfg 1) 0,
     Spawn 0 (ex_thread n 3 0 0 (Tcp_retransmit_skb 1)), Spawn 1 (ex_thread n' 3 0 0 (Tcp_retransmit_skb 2)),
     Run 0, Run 0, Run 0, Run 0, Run 1, Run 1, Run 1, Run 1, Run 0, Run 1, Run 0, Run 1]"

lemmas ex_run = ex_thread_def init_config_def init_shared_def thread_step_def sock_state_enter_def sock_state_copied_def
  elem_choice_ok_def elem_free_def elem_defs no_elems_def submission_of_def eval_step_def header_step_def array_lookup_def zero_prog_def
  answered_def reserve_step_def ring_submit_def counter_store_def Let_def TCP_SYN_SENT_def TCP_ESTABLISHED_def

lemma ex_drops_valid: "valid (ex_drops n n')"
  unfolding ex_drops_def by (simp add: ex_run)

lemma ex_drops_end:
  "cf_threads (replay (ex_drops n n')) = Map.empty"
  "sh_filter_drops (cf_mem (replay (ex_drops n n'))) = (if n = n' then (\<lambda>_. [0])(n := [1]) else (\<lambda>_. [0])(n := [1], n' := [1]))"
  unfolding ex_drops_def by (auto simp add: ex_run)

lemma ex_drops_decisions: "count_steps (decides Count_filter_drop k) (ex_drops n n') = (if n = k then 1 else 0) + (if n' = k then 1 else 0)"
  unfolding ex_drops_def by (simp add: ex_run decides_def)

subsection \<open>The drop counters\<close>

fun counting_filter_drop :: "pc \<Rightarrow> bool" where
  "counting_filter_drop Count_filter_drop = True"
| "counting_filter_drop (Store_filter_drop v) = True"
| "counting_filter_drop _ = False"

fun counting_ring_drop :: "pc \<Rightarrow> bool" where
  "counting_ring_drop Count_ring_drop = True"
| "counting_ring_drop (Store_ring_drop v) = True"
| "counting_ring_drop _ = False"

lemma busy_counting: "fd.busy = counting_filter_drop" "rd.busy = counting_ring_drop"
proof -
  show "fd.busy = counting_filter_drop"
  proof
    show "fd.busy p = counting_filter_drop p" for p by (cases p) (auto simp: fd.busy_def)
  qed
  show "rd.busy = counting_ring_drop"
  proof
    show "rd.busy p = counting_ring_drop p" for p by (cases p) (auto simp: rd.busy_def)
  qed
qed

text \<open>C25: no drop is lost between the processors. When at most one handler is in flight on each processor,
  then however the handlers interleave, the two drop counters of a processor are the number of events that
  its handlers have decided to drop, because no filter matches or the ring buffer is full, less the one that a
  handler in flight is just counting.\<close>

theorem drop_counters_exact:
  assumes "smp one_per_cpu h c"
  shows "\<exists>v w. sh_filter_drops (cf_mem c) n = [v] \<and> sh_ringbuf_drops (cf_mem c) n = [w] \<and>
    of_nat (count_steps (decides Count_filter_drop n) h) = v + (if some_at counting_filter_drop n c then 1 else 0) \<and>
    of_nat (count_steps (decides Count_ring_drop n) h) = w + (if some_at counting_ring_drop n c then 1 else 0)"
  using fd.counter_exact [OF assms, of n] rd.counter_exact [OF assms, of n]
  unfolding fd.counted_def rd.counted_def busy_counting by blast

fun obeys :: "(config \<Rightarrow> label \<Rightarrow> bool) \<Rightarrow> label list \<Rightarrow> bool" where
  "obeys G [] = True"
| "obeys G (l # h) = (obeys G h \<and> G (replay h) l)"

lemma valid_obeys_smp: "valid h \<Longrightarrow> obeys G h \<Longrightarrow> smp G h (replay h)"
  by (induction h) (auto intro: smp.intros)

theorem drop_counters_exact_witness:
  "smp one_per_cpu (ex_drops 0 1) (replay (ex_drops 0 1)) \<and> sh_filter_drops (cf_mem (replay (ex_drops 0 1))) 0 = [1] \<and>
   count_steps (decides Count_filter_drop 0) (ex_drops 0 1) = 1"
proof -
  have "obeys one_per_cpu (ex_drops 0 1)"
    unfolding ex_drops_def by (simp add: ex_run one_per_cpu_def exclusive_def on_cpu_def)
  then have s: "smp one_per_cpu (ex_drops 0 1) (replay (ex_drops 0 1))" by (rule valid_obeys_smp [OF ex_drops_valid])
  have "\<not> some_at counting_filter_drop 0 (replay (ex_drops 0 1))" by (simp add: some_at_def ex_drops_end)
  with drop_counters_exact [OF s, of 0] s show ?thesis by (auto simp: ex_drops_decisions)
qed

text \<open>Two handlers that nest on one processor, as when an interrupt arrives between the read and the write of the
  counter, count one drop for two.\<close>

theorem nested_handlers_lose_a_drop:
  "smp (\<lambda>_ _. True) (ex_drops 0 0) (replay (ex_drops 0 0)) \<and> cf_threads (replay (ex_drops 0 0)) = Map.empty \<and>
   sh_filter_drops (cf_mem (replay (ex_drops 0 0))) 0 = [1] \<and> count_steps (decides Count_filter_drop 0) (ex_drops 0 0) = 2"
  by (simp add: valid_smp ex_drops_valid ex_drops_end ex_drops_decisions)

subsection \<open>Attribution\<close>

text \<open>C13: attribution on several processors. As long as the kernel does not reuse a context element that a handler still
  reads, every event in the ring buffer carries the pid, the command name and the start of the connection of a task that connected
  the socket the event is about, however the handlers interleave.\<close>

theorem smp_events_attributed:
  assumes "smp no_ctx_reuse h c" and "e \<in> set (committed (sh_ring (cf_mem c)))"
  shows "\<exists>i th j cth. Spawn i th \<in> set h \<and> Spawn j cth \<in> set h \<and> tp_sock (th_tp cth) = tp_sock (th_tp th) \<and>
     connects (tp_sock (th_tp cth)) (Trace (th_env cth) (th_tp cth)) \<and>
     e_pid e = ucast (drop_bit 32 (current_pid_tgid (th_env cth))) \<and> e_comm e = current_comm (th_env cth) \<and>
     e_life_us e = (e_ts e - ktime (th_env cth) 0) div 1000 \<and> e_type e \<in> tp_types (th_tp th) \<and>
     (\<exists>n. e_ts e = ktime (th_env th) n) \<and>
     (\<exists>a. sock_read_endpoints (socks (th_env th) (tp_sock (th_tp th))) = Some (e_family e, e_local_port e, e_remote_port e, a))"
  using attr.smp_mem [OF assms(1)] assms(2) by (simp add: attr_mem_def attributed_def)

text \<open>A connection of process 4242 is closed on processor 0 while process 7 connects another socket on processor 1. The update fills
  the element \<open>el\<close> and evicts the sockets \<open>vs\<close>.\<close>

definition ex_race :: "nat \<Rightarrow> u64 list \<Rightarrow> label list" where
  "ex_race el vs = rev [Spawn 0 (ex_thread 0 1000000 4242 0 (Inet_sock_set_state 1 7 2)), Run 0,
     Spawn 0 (ex_thread 0 5000000 0 0 (Inet_sock_set_state 1 1 4)), Run 0,
     Spawn 1 ((ex_thread 1 4000000 7 el (Inet_sock_set_state 2 7 2))\<lparr>th_env := (ex_cpu_env 1 4000000 7)\<lparr>lru_of := \<lparr>lru_victims = vs, lru_fails = False\<rparr>\<rparr>\<rparr>),
     Run 1, Run 0, Run 0, Run 0, Run 0, Run 0]"

lemma ex_race_env: "env_ok ((ex_cpu_env n t pid)\<lparr>lru_of := ch\<rparr>)"
  using ex_cpu_env_sel(6) [of n t pid] by (simp add: env_ok_def)

lemma ex_race_valid: "valid (ex_race 1 [])" "valid (ex_race 0 [1])"
  unfolding ex_race_def by (simp_all add: ex_run ex_race_env)

lemma ex_pid: "e_pid (make_event env now sk c ty fam sp dp a j) = c_pid c"
  by (simp add: make_event_def fill_addrs_def attr_resolve_def Let_def)

lemma ex_race_events:
  "map e_pid (committed (sh_ring (cf_mem (replay (ex_race 1 []))))) = [4242]"
  "map e_pid (committed (sh_ring (cf_mem (replay (ex_race 0 [1]))))) = [7]"
  unfolding ex_race_def by (simp_all add: ex_run ex_pid connect_ctx_def ex_cpu_env_def)


theorem smp_events_attributed_witness:
  "\<exists>e. e \<in> set (committed (sh_ring (cf_mem (replay (ex_race 1 []))))) \<and> e_pid e = 4242 \<and>
     (\<exists>j cth. Spawn j cth \<in> set (ex_race 1 []) \<and> e_life_us e = (e_ts e - ktime (th_env cth) 0) div 1000)"
proof -
  have "obeys no_ctx_reuse (ex_race 1 [])"
    unfolding ex_race_def by (simp add: ex_run no_ctx_reuse_def)
  then have s: "smp no_ctx_reuse (ex_race 1 []) (replay (ex_race 1 []))" by (rule valid_obeys_smp [OF ex_race_valid(1)])
  obtain e where e: "e \<in> set (committed (sh_ring (cf_mem (replay (ex_race 1 [])))))" "e_pid e = 4242"
    using ex_race_events(1) by (auto simp: map_eq_Cons_conv)
  from smp_events_attributed [OF s e(1)] e show ?thesis by blast
qed

text \<open>When the update evicts the socket that is being closed and fills its element, between the lookup and the copy of the
  closing handler, the connection of process 4242 is reported as one of process 7, which never
  connected that socket.\<close>

theorem reused_element_misattributes:
  "smp (\<lambda>_ _. True) (ex_race 0 [1]) (replay (ex_race 0 [1])) \<and>
   (\<exists>e. committed (sh_ring (cf_mem (replay (ex_race 0 [1])))) = [e] \<and> e_pid e = 7 \<and> e_type e = CONN_EVT_CLOSED \<and>
     \<not> attributed (ex_race 0 [1]) e)"
proof (intro conjI)
  show "smp (\<lambda>_ _. True) (ex_race 0 [1]) (replay (ex_race 0 [1]))" by (rule valid_smp [OF ex_race_valid(2)])
  obtain e where e: "committed (sh_ring (cf_mem (replay (ex_race 0 [1])))) = [e]" "e_pid e = 7"
    using ex_race_events(2) by (auto simp: map_eq_Cons_conv)
  have ty: "e_type e = CONN_EVT_CLOSED" "e_life_us e = (e_ts e - 4000000) div 1000" "e_ts e = 5000000"
    using e(1) unfolding ex_race_def
    by (auto simp: ex_run connect_ctx_def make_event_def fill_addrs_def ex_cpu_env_def)
  have "\<not> attributed (ex_race 0 [1]) e"
    unfolding attributed_def ex_race_def
    by (auto simp: ex_thread_def ty e(2) ex_cpu_env_def conn_evt)
  with e ty show "\<exists>e. committed (sh_ring (cf_mem (replay (ex_race 0 [1])))) = [e] \<and> e_pid e = 7 \<and> e_type e = CONN_EVT_CLOSED \<and>
     \<not> attributed (ex_race 0 [1]) e" by blast
qed

subsection \<open>The end of a connection\<close>

text \<open>C14: a connection ends once. When the state transitions of one socket do not overlap, then however all other handlers
  interleave, a socket is reported closed or failed at most as often as it connected.\<close>

theorem smp_one_end_per_connect:
  assumes "smp sock_locked h c"
  shows "count_steps (ends_on a) h \<le> count_steps (connects_on a) h"
  using ends_bound [OF assms, of a] by simp

text \<open>Two transitions of one socket; the second starts before the first, if \<open>overlap\<close>, has deleted the context.\<close>

definition ex_ends :: "bool \<Rightarrow> label list" where
  "ex_ends overlap = rev ([Spawn 0 (ex_thread 0 1000000 4242 0 (Inet_sock_set_state 1 7 2)), Run 0,
     Spawn 0 (ex_thread 0 5000000 0 0 (Inet_sock_set_state 1 1 4)), Run 0] @
     (if overlap then [Spawn 1 (ex_thread 1 5000000 0 0 (Inet_sock_set_state 1 1 4)), Run 1, Run 0, Run 1, Run 0, Run 1] else [Run 0, Run 0]))"

lemma ex_ends_valid: "valid (ex_ends overlap)"
  unfolding ex_ends_def by (cases overlap) (simp_all add: ex_run)

lemma ex_ends_counts:
  "count_steps (ends_on 1) (ex_ends overlap) = (if overlap then 2 else 1)" "count_steps (connects_on 1) (ex_ends overlap) = 1"
  unfolding ex_ends_def by (cases overlap; simp add: ex_run ends_on_def connects_on_def)+

theorem smp_one_end_per_connect_witness:
  "smp sock_locked (ex_ends False) (replay (ex_ends False)) \<and>
   count_steps (ends_on 1) (ex_ends False) = 1 \<and> count_steps (ends_on 1) (ex_ends False) \<le> count_steps (connects_on 1) (ex_ends False)"
proof -
  have "obeys sock_locked (ex_ends False)"
    unfolding ex_ends_def by (simp add: ex_run sock_locked_def exclusive_def)
  then have s: "smp sock_locked (ex_ends False) (replay (ex_ends False))" by (rule valid_obeys_smp [OF ex_ends_valid])
  from smp_one_end_per_connect [OF s, of 1] s show ?thesis by (simp add: ex_ends_counts)
qed

text \<open>Two overlapping transitions both find the context and report the one connection closed twice.\<close>

theorem overlapping_transitions_end_twice:
  "smp (\<lambda>_ _. True) (ex_ends True) (replay (ex_ends True)) \<and>
   count_steps (ends_on 1) (ex_ends True) = 2 \<and> count_steps (connects_on 1) (ex_ends True) = 1"
  by (simp add: valid_smp ex_ends_valid ex_ends_counts)

end
