(* ===== verification/Smp_Agent.thy ===== *)
theory Smp_Agent
  imports Smp_Flow Node_Agent
begin

text \<open>
  Filtering on several processors. One walk of a filter program looks the verdict of the cgroup up once for
  every attribute predicate, and userspace may store or delete the verdict in between, so the lookups of one
  walk need not agree. As long as every stored verdict is the mask of the container's attributes, and
  the program is stored before filtering is switched on, the answer of such a walk is still
  undecided or the one of exact evaluation.
\<close>

subsection \<open>A walk whose lookups disagree\<close>

lemma pred_step_mono:
  assumes "tri_le r r'" and "v = None \<or> v = Some m"
  shows "case ko_pred_step v g p r of
      Inl code \<Rightarrow> code = KO_FILTER_UNDECIDED \<or> ko_pred_step (Some m) g p r' = Inl code
    | Inr r2 \<Rightarrow> \<exists>r2'. ko_pred_step (Some m) g p r' = Inr r2' \<and> tri_le r2 r2'"
  using assms by (cases r; cases r') (auto simp: ko_pred_step_def tri_le_def)

text \<open>The rest of the walk, with the verdict known, still leads to the answer \<open>ans\<close>.\<close>

definition on_track :: "u64 \<Rightarrow> ko_args \<Rightarrow> ko_prog \<Rightarrow> u16 \<Rightarrow> nat \<Rightarrow> tri \<Rightarrow> bool" where
  "on_track vm g prog ans k r \<longleftrightarrow> (\<exists>r'. tri_le r r' \<and> ko_filter_loop (Some vm) g prog [k..<KO_MAX_PREDS] r' = ans)"

lemma on_track_step:
  assumes "on_track vm g prog ans k r" and "k < KO_MAX_PREDS" and "k < unat (npreds prog)" and "v = None \<or> v = Some vm"
  shows "case ko_pred_step v g (preds prog ! k) r of
      Inl code \<Rightarrow> code = KO_FILTER_UNDECIDED \<or> code = ans
    | Inr r2 \<Rightarrow> on_track vm g prog ans (Suc k) r2"
proof -
  obtain r' where r': "tri_le r r'" "ko_filter_loop (Some vm) g prog [k..<32] r' = ans"
    using assms(1) by (auto simp: on_track_def)
  then have "(case ko_pred_step (Some vm) g (preds prog ! k) r' of Inl c \<Rightarrow> c
      | Inr r2 \<Rightarrow> ko_filter_loop (Some vm) g prog [Suc k..<32] r2) = ans"
    using assms(2,3) by (simp add: upt_conv_Cons)
  with pred_step_mono [OF r'(1) assms(4), of g "preds prog ! k"] show ?thesis
    by (fastforce simp: on_track_def split: sum.splits)
qed

lemma on_track_end: "on_track vm g prog ans k r \<Longrightarrow> k \<ge> KO_MAX_PREDS \<or> k \<ge> unat (npreds prog) \<Longrightarrow> ans = KO_FILTER_DROP"
  by (cases "k < KO_MAX_PREDS") (auto simp: on_track_def upt_conv_Cons)

lemma on_track_start:
  "nfilters prog \<noteq> 0 \<Longrightarrow> on_track vm g prog (ko_filter_eval (Some 1) (Some prog) [g_cgroup_id g \<mapsto> vm] g) 0 KO_TRI_TRUE"
  by (auto simp: on_track_def ko_filter_eval_def tri_le_def)

subsection \<open>Publishing the program\<close>

definition filter_prog :: "Set \<Rightarrow> ko_prog" where
  "filter_prog s = ko_prog_of (BPFProg (set_names s) (set_flat s))"

text \<open>The order in which \<^verbatim>\<open>startFilters\<close> stores the program and the switch, and the verdicts that
  \<^verbatim>\<open>syncOnce\<close> and \<^verbatim>\<open>resolveFilter\<close> store. The update of a verdict does not fill an element that a handler is about to read.\<close>

fun publishes :: "Set \<Rightarrow> (u64 \<Rightarrow> CgroupAttrs) \<Rightarrow> config \<Rightarrow> label \<Rightarrow> bool" where
  "publishes s A c (Tear p) \<longleftrightarrow> sh_cfg (cf_mem c) = [0]"
| "publishes s A c (Op (Store_prog p) el) \<longleftrightarrow> sh_cfg (cf_mem c) = [0]"
| "publishes s A c (Op (Store_cfg v) el) \<longleftrightarrow> v = 1 \<and> sh_prog (cf_mem c) = [filter_prog s]"
| "publishes s A c (Op (Store_verdict ch k v) el) \<longleftrightarrow> VerdictMask (set_atoms s) (A k) = Some v \<and>
     (\<forall>j th. cf_threads c j = Some th \<longrightarrow> el \<notin> held_verdict (th_pc th))"
| "publishes s A c _ \<longleftrightarrow> True"

definition switched_on :: "Set \<Rightarrow> shared \<Rightarrow> bool" where
  "switched_on s m \<longleftrightarrow> sh_cfg m = [1] \<and> sh_prog m = [filter_prog s]"

subsection \<open>The invariant\<close>

abbreviation conn_types :: "u16 set" where
  "conn_types \<equiv> {CONN_EVT_CONNECT_FAILED, CONN_EVT_CLOSED, CONN_EVT_RETRANSMIT, CONN_EVT_PROBE}"

definition sub_ok :: "submission \<Rightarrow> bool" where
  "sub_ok su \<longleftrightarrow> ctx_ok 0 (su_ctx su) \<and> (su_family su = AF_INET \<or> su_family su = AF_INET6) \<and> addrs_ok (su_addrs su) \<and> su_type su \<in> conn_types"

abbreviation sub_event :: "thread \<Rightarrow> submission \<Rightarrow> u16 \<Rightarrow> conn_event_t" where
  "sub_event th su code \<equiv> make_event (th_env th) (su_now su) (tp_sock (th_tp th)) (su_ctx su) (su_type su) (su_family su)
     (su_sport su) (su_dport su) (su_addrs su) code"

abbreviation thread_args :: "thread \<Rightarrow> submission \<Rightarrow> ko_args" where
  "thread_args th su \<equiv> sub_args (th_env th) (tp_sock (th_tp th)) su"

text \<open>The answer of a walk that finds the mask at every lookup.\<close>

definition mask_answer :: "Set \<Rightarrow> u64 \<Rightarrow> ko_args \<Rightarrow> u16" where
  "mask_answer s vm g = ko_filter_eval (Some 1) (Some (filter_prog s)) [g_cgroup_id g \<mapsto> vm] g"

definition code_ok :: "Set \<Rightarrow> (u64 \<Rightarrow> CgroupAttrs) \<Rightarrow> thread \<Rightarrow> submission \<Rightarrow> u16 \<Rightarrow> bool" where
  "code_ok s A th su code \<longleftrightarrow> code = KO_FILTER_UNFILTERED \<or> code = KO_FILTER_UNDECIDED \<or>
     (\<exists>vm. VerdictMask (set_atoms s) (A (g_cgroup_id (thread_args th su))) = Some vm \<and> code = mask_answer s vm (thread_args th su))"

definition walking :: "Set \<Rightarrow> (u64 \<Rightarrow> CgroupAttrs) \<Rightarrow> thread \<Rightarrow> submission \<Rightarrow> nat \<Rightarrow> tri \<Rightarrow> bool" where
  "walking s A th su k r \<longleftrightarrow> (\<exists>vm. VerdictMask (set_atoms s) (A (g_cgroup_id (thread_args th su))) = Some vm \<and>
     on_track vm (thread_args th su) (filter_prog s) (mask_answer s vm (thread_args th su)) k r)"

fun place_ok :: "Set \<Rightarrow> (u64 \<Rightarrow> CgroupAttrs) \<Rightarrow> (conn_event_t \<Rightarrow> bool) \<Rightarrow> shared \<Rightarrow> thread \<Rightarrow> pc \<Rightarrow> bool" where
  "place_ok s A P m th (Header su) \<longleftrightarrow> switched_on s m"
| "place_ok s A P m th (Walk su k r) \<longleftrightarrow> switched_on s m \<and> walking s A th su k r"
| "place_ok s A P m th (Verdict su k r p) \<longleftrightarrow> switched_on s m \<and> walking s A th su k r \<and>
     k < KO_MAX_PREDS \<and> k < unat (npreds (filter_prog s)) \<and>
     VerdictMask (set_atoms s) (A (g_cgroup_id (thread_args th su))) = Some (elem_deref (sh_verdict m) p)"
| "place_ok s A P m th (Reserve su code) \<longleftrightarrow> code_ok s A th su code \<and> code \<noteq> KO_FILTER_DROP"
| "place_ok s A P m th (Fill i e) \<longleftrightarrow> P e"
| "place_ok s A P m th _ \<longleftrightarrow> True"

definition smp_mem_ok :: "Set \<Rightarrow> (u64 \<Rightarrow> CgroupAttrs) \<Rightarrow> (conn_event_t \<Rightarrow> bool) \<Rightarrow> label list \<Rightarrow> shared \<Rightarrow> bool" where
  "smp_mem_ok s A P h m \<longleftrightarrow> (sh_cfg m = [0] \<or> switched_on s m) \<and> length (sh_prog m) = 1 \<and>
     pm.linked (\<lambda>k v. VerdictMask (set_atoms s) (A k) = Some v) (sh_verdict m) \<and>
     (\<forall>p. ctx_ok 0 (elem_deref (sh_ctx m) p)) \<and> (\<forall>e \<in> set (committed (sh_ring m)). P e)"

definition smp_thread_ok :: "Set \<Rightarrow> (u64 \<Rightarrow> CgroupAttrs) \<Rightarrow> (conn_event_t \<Rightarrow> bool) \<Rightarrow> label list \<Rightarrow> shared \<Rightarrow> thread \<Rightarrow> bool" where
  "smp_thread_ok s A P h m th \<longleftrightarrow> env_ok (th_env th) \<and> (\<forall>c. pc_ctx m (th_pc th) = Some c \<longrightarrow> ctx_ok 0 c) \<and>
     (\<forall>ty. pc_type (th_pc th) = Some ty \<longrightarrow> ty \<in> conn_types) \<and> (\<forall>su. pc_sub (th_pc th) = Some su \<longrightarrow> sub_ok su) \<and>
     place_ok s A P m th (th_pc th)"

lemma ctx_ok_elems:
  assumes "thread_step th m = (p, m')" and "env_ok (th_env th)" and "\<forall>p. ctx_ok 0 (elem_deref (sh_ctx m) p)"
  shows "ctx_ok 0 (elem_deref (sh_ctx m') q)"
  using assms(1)
proof (cases rule: step_ctx)
  case connect
  have "ctx_ok 0 (connect_ctx (th_env th))" using assms(2) by (simp add: ctx_ok_def connect_ctx_def env_ok_def)
  with assms(3) show ?thesis by (auto simp: connect(3) elem_defs)
next
  case (stamp r)
  with assms(3) show ?thesis by (auto simp: pm.deref_write ctx_ok_def)
qed (use assms(3) in \<open>simp_all add: pm.deref_delete\<close>)

lemma answered_ok: "code_ok s A th su code \<Longrightarrow> place_ok s A P m th (answered su code)"
  by (simp add: answered_def)

lemma walked_ok:
  assumes "switched_on s m" and "walking s A th su k r" and "k < KO_MAX_PREDS" and "k < unat (npreds (filter_prog s))"
    and "v = None \<or> v = VerdictMask (set_atoms s) (A (g_cgroup_id (thread_args th su)))"
  shows "place_ok s A P m th (walked su k (ko_pred_step v (thread_args th su) (preds (filter_prog s) ! k) r))"
proof -
  obtain vm where vm: "VerdictMask (set_atoms s) (A (g_cgroup_id (thread_args th su))) = Some vm"
    and t: "on_track vm (thread_args th su) (filter_prog s) (mask_answer s vm (thread_args th su)) k r"
    using assms(2) by (auto simp: walking_def)
  from on_track_step [OF t assms(3,4), of v] assms(5) vm
  have "case ko_pred_step v (thread_args th su) (preds (filter_prog s) ! k) r of
      Inl code \<Rightarrow> code_ok s A th su code | Inr r2 \<Rightarrow> walking s A th su (Suc k) r2"
    by (auto simp: code_ok_def walking_def split: sum.splits)
  with assms(1) show ?thesis by (auto simp: walked_def answered_ok split: sum.splits)
qed

text \<open>The masks of all attributes exist.\<close>

definition masks_exist :: "Set \<Rightarrow> bool" where
  "masks_exist s \<longleftrightarrow> (\<forall>A. VerdictMask (set_atoms s) A \<noteq> None)"

lemma place_own:
  assumes "masks_exist s" and "smp_mem_ok s A P h m" and "place_ok s A P m th (th_pc th)" and st: "thread_step th m = (Some p, m')"
    and fill: "\<And>i e. p = Fill i e \<Longrightarrow> P e"
  shows "place_ok s A P m' (th\<lparr>th_pc := p\<rparr>) p"
proof -
  have same: "place_ok s A P m' (th\<lparr>th_pc := p\<rparr>) p = place_ok s A P m th p"
    using step_frame [OF st] by (cases p) (simp_all add: switched_on_def walking_def code_ok_def)
  have unf: "code_ok s A th su KO_FILTER_UNFILTERED" for su by (simp add: code_ok_def)
  show ?thesis unfolding same
  proof (cases "th_pc th")
    case (Eval su)
    then have "p = eval_step su m" using st by (auto simp: thread_step_def)
    with assms(2) show "place_ok s A P m th p"
      by (auto simp: eval_step_def smp_mem_ok_def switched_on_def array_lookup_def answered_ok unf)
  next
    case (Header su)
    then have p: "p = header_step su m" and on: "switched_on s m" using st assms(3) by (auto simp: thread_step_def)
    obtain vm where vm: "VerdictMask (set_atoms s) (A (g_cgroup_id (thread_args th su))) = Some vm"
      using assms(1) by (auto simp: masks_exist_def)
    show "place_ok s A P m th p"
    proof (cases "nfilters (filter_prog s) = 0")
      case True
      with on p show ?thesis by (simp add: header_step_def switched_on_def array_lookup_def answered_def)
    next
      case False
      with on_track_start [OF False, of vm "thread_args th su"] vm have "walking s A th su 0 KO_TRI_TRUE"
        by (auto simp: walking_def mask_answer_def)
      with on p False show ?thesis by (simp add: header_step_def switched_on_def array_lookup_def)
    qed
  next
    case (Walk su k r)
    then have p: "p = filter_walk_step (th_env th) (tp_sock (th_tp th)) su k r m" and on: "switched_on s m" and w: "walking s A th su k r"
      using st assms(3) by (auto simp: thread_step_def)
    have pr: "sh_prog m ! 0 = filter_prog s" using on by (simp add: switched_on_def)
    show "place_ok s A P m th p"
    proof (cases "k \<ge> KO_MAX_PREDS \<or> k \<ge> unat (npreds (filter_prog s))")
      case True
      then have "p = answered su KO_FILTER_DROP" by (auto simp: p filter_walk_step_def pr Let_def)
      then show ?thesis by (simp add: answered_def)
    next
      case False
      then have k: "k < KO_MAX_PREDS" "k < unat (npreds (filter_prog s))" by auto
      have none: "place_ok s A P m th (walked su k (ko_pred_step None (thread_args th su) (preds (filter_prog s) ! k) r))"
        by (rule walked_ok [OF on w k]) simp
      show ?thesis
      proof (cases "elem_lookup (sh_verdict m) (g_cgroup_id (thread_args th su))")
        case None
        with False none show ?thesis by (simp add: p filter_walk_step_def pr Let_def)
      next
        case (Some q)
        have "VerdictMask (set_atoms s) (A (g_cgroup_id (thread_args th su))) = Some (elem_deref (sh_verdict m) q)"
          using pm.linkedD [OF _ Some] assms(2) by (auto simp: smp_mem_ok_def)
        with False Some none on w k show ?thesis by (simp add: p filter_walk_step_def pr Let_def)
      qed
    qed
  next
    case (Verdict su k r q)
    then have p: "p = verdict_step (th_env th) (tp_sock (th_tp th)) su k r q m" and v: "place_ok s A P m th (Verdict su k r q)"
      using st assms(3) by (auto simp: thread_step_def)
    then have "sh_prog m ! 0 = filter_prog s" by (simp add: switched_on_def)
    with v walked_ok [of s m A th su k r "Some (elem_deref (sh_verdict m) q)" P] show "place_ok s A P m th p"
      by (simp add: p verdict_step_def)
  next
    case (Reserve su code)
    with st fill show "place_ok s A P m th p" by (auto simp: thread_step_def reserve_step_def split: if_splits)
  next
    case Enter
    with st show "place_ok s A P m th p"
      by (cases "th_tp th") (auto simp: thread_step_def sock_state_enter_def Let_def split: if_splits option.splits)
  next
    case (Copy q)
    with st show "place_ok s A P m th p" by (auto simp: thread_step_def dest!: copied_cases)
  qed (use st in \<open>auto simp: thread_step_def limit_step_def split: if_splits\<close>)
qed


lemma thread_own:
  assumes "masks_exist s" and I: "smp_mem_ok s A P h m" and J: "smp_thread_ok s A P h m th" and st: "thread_step th m = (Some p, m')"
    and fill: "\<And>su code. sub_ok su \<Longrightarrow> code_ok s A th su code \<Longrightarrow> code \<noteq> KO_FILTER_DROP \<Longrightarrow> P (sub_event th su code)"
  shows "smp_thread_ok s A P h' m' (th\<lparr>th_pc := p\<rparr>)"
proof -
  note th = J [unfolded smp_thread_ok_def]
  have ctx: "ctx_ok 0 c" if "pc_ctx m' p = Some c" for c
    using st that
  proof (cases rule: step_pc_ctx)
    case (looked_up q)
    with I show ?thesis by (simp add: smp_mem_ok_def)
  next
    case (kept c0)
    with th have "ctx_ok 0 c0" by blast
    moreover have "c_comm c = c_comm c0" using arg_cong [OF kept(2), of c_comm] by simp
    ultimately show ?thesis by (simp add: ctx_ok_def)
  qed
  have ty: "ty \<in> conn_types" if "pc_type p = Some ty" for ty
    using step_pc_type [OF st that] th tp_types_conn [of "th_tp th"] by auto
  have sub: "sub_ok su" if su: "pc_sub p = Some su" for su
    using st su
  proof (cases rule: step_sub)
    case (new n c ty ep)
    have "sock_ok (socks (th_env th) (tp_sock (th_tp th)))" using th by (simp add: env_ok_def)
    with new(3) have "su_family su = AF_INET \<or> su_family su = AF_INET6" "addrs_ok (su_addrs su)"
      by (cases ep; auto simp: new(1) submission_of_def elim: sock_read_endpoints_SomeE)+
    with ctx [of "su_ctx su"] ty [of "su_type su"] su show ?thesis by (simp add: sub_ok_def sub_ctx sub_type)
  qed (use th in blast)
  have "P e" if "p = Fill i e" for i e
    using st unfolding that
  proof (cases rule: step_to_fill)
    case (1 su code)
    with th fill [of su code] show ?thesis by simp
  qed
  with place_own [OF assms(1) I _ st] th ctx ty sub show ?thesis by (simp add: smp_thread_ok_def)
qed

lemma thread_others:
  assumes "enabled l c" and "publishes s A c l" and I: "smp_mem_ok s A P h (cf_mem c)" and "cf_threads c j = Some th"
    and J: "smp_thread_ok s A P h (cf_mem c) th" and I': "smp_mem_ok s A P h' (cf_mem (do_label l c))"
  shows "smp_thread_ok s A P h' (cf_mem (do_label l c)) th"
proof -
  let ?m = "cf_mem c" and ?m' = "cf_mem (do_label l c)"
  note th = J [unfolded smp_thread_ok_def]
  have frame: "sh_verdict ?m' = sh_verdict ?m \<and> sh_prog ?m' = sh_prog ?m \<and> sh_cfg ?m' = sh_cfg ?m" if "\<And>u el. l \<noteq> Op u el" "\<And>p. l \<noteq> Tear p"
    using that assms(1) by (cases l) (auto dest: step_frame split: prod.split)
  have on: "switched_on s ?m'" if "switched_on s ?m"
  proof (cases l)
    case (Op u el)
    with that assms(2) show ?thesis by (cases u) (auto simp: switched_on_def)
  next
    case (Tear p)
    with that assms(2) show ?thesis by (simp add: switched_on_def)
  qed (use that frame in \<open>auto simp: switched_on_def\<close>)
  have "elem_deref (sh_verdict ?m') p = elem_deref (sh_verdict ?m) p" if "p \<in> held_verdict (th_pc th)" for p
  proof (cases l)
    case (Op u el)
    with that assms(2,4) show ?thesis
      by (cases u) (auto simp: pm.deref_delete intro!: pm.deref_update)
  qed (use frame in \<open>auto simp del: do_label.simps(2)\<close>)
  with th on have "place_ok s A P ?m' th (th_pc th)" by (cases "th_pc th") auto
  moreover have "ctx_ok 0 d" if "pc_ctx ?m' (th_pc th) = Some d" for d
    using that
  proof (cases rule: pc_ctx_cases)
    case (pointer q)
    with I' show ?thesis by (simp add: smp_mem_ok_def)
  next
    case (untrack ty)
    with th show ?thesis by simp
  next
    case (sub su)
    with th show ?thesis by (simp add: sub_ctx)
  qed
  ultimately show ?thesis using th by (simp add: smp_thread_ok_def)
qed

lemma mem_step:
  assumes "enabled l c" and "publishes s A c l" and I: "smp_mem_ok s A P h (cf_mem c)"
    and J: "\<And>i th. cf_threads c i = Some th \<Longrightarrow> smp_thread_ok s A P h (cf_mem c) th"
  shows "smp_mem_ok s A P h' (cf_mem (do_label l c))"
proof (cases l)
  case (Spawn i th)
  with I show ?thesis by (simp add: smp_mem_ok_def)
next
  case (Run i)
  with assms(1) obtain th where i: "cf_threads c i = Some th" by auto
  obtain p m where st: "thread_step th (cf_mem c) = (p, m)" by fastforce
  note th = J [OF i, unfolded smp_thread_ok_def]
  have "P e" if "e \<in> set (committed (sh_ring m))" for e
    using step_committed [OF st that] I th by (auto simp: smp_mem_ok_def)
  with I step_frame [OF st] ctx_ok_elems [OF st] th Run i st show ?thesis by (simp add: smp_mem_ok_def switched_on_def)
next
  case (Op u el)
  with I assms(1,2) show ?thesis
    by (cases u) (auto simp: smp_mem_ok_def switched_on_def pm.linked_update pm.linked_delete length_Suc_conv dest: committed_ring_read)
next
  case (Tear p)
  with I assms(2) show ?thesis by (auto simp: smp_mem_ok_def switched_on_def)
qed

lemma filtering_interference_free:
  assumes "masks_exist s" and "\<And>th su code. sub_ok su \<Longrightarrow> code_ok s A th su code \<Longrightarrow> code \<noteq> KO_FILTER_DROP \<Longrightarrow> P (sub_event th su code)"
  shows "interference_free (publishes s A) (smp_mem_ok s A P) (smp_thread_ok s A P)"
proof
  show "smp_mem_ok s A P [] init_shared"
    by (simp add: smp_mem_ok_def init_shared_def pm.linked_def elem_defs no_elems_def ctx_ok_def)
next
  show "smp_thread_ok s A P (Spawn i th # h) m th" if "th_pc th = Enter" "env_ok (th_env th)" for th i h m
    using that by (simp add: smp_thread_ok_def)
next
  fix i c h th p m
  assume "smp_mem_ok s A P h (cf_mem c)" "smp_thread_ok s A P h (cf_mem c) th" "thread_step th (cf_mem c) = (Some p, m)"
  then show "smp_thread_ok s A P (Run i # h) m (th\<lparr>th_pc := p\<rparr>)" by (rule thread_own [OF assms(1)]) (rule assms(2))
next
  fix l c h
  assume "enabled l c" "publishes s A c l" "smp_mem_ok s A P h (cf_mem c)"
    and "\<And>i th. cf_threads c i = Some th \<Longrightarrow> smp_thread_ok s A P h (cf_mem c) th"
  then show "smp_mem_ok s A P (l # h) (cf_mem (do_label l c))" by (rule mem_step)
next
  fix l c h j th
  assume "enabled l c" "publishes s A c l" "smp_mem_ok s A P h (cf_mem c)" "cf_threads c j = Some th" "smp_thread_ok s A P h (cf_mem c) th"
    "smp_mem_ok s A P (l # h) (cf_mem (do_label l c))"
  then show "smp_thread_ok s A P (l # h) (cf_mem (do_label l c)) th" by (rule thread_others)
qed


subsection \<open>Answers are exact\<close>

lemma good_masks: "good_set eval s \<Longrightarrow> masks_exist s"
  using good_set_mask by (fastforce simp: masks_exist_def)

lemma mask_answer_exact:
  assumes "good_set eval s" and "sub_ok su" and vm: "VerdictMask (set_atoms s) (A (g_cgroup_id (thread_args th su))) = Some vm"
  defines "e \<equiv> sub_event th su 0"
  shows "mask_answer s vm (thread_args th su) \<in> {KO_FILTER_UNDECIDED, answer_code (Evaluate eval s (filter_event (A (e_cgroup_id e)) e))}"
proof -
  let ?k = "init_state\<lparr>ko_filter_cfg := [1], ko_filter_prog := [filter_prog s], ko_cgroup_verdict := [g_cgroup_id (thread_args th su) \<mapsto> vm]\<rparr>"
  have k: "loaded s ?k" "verdicts_exact A (set_atoms s) ?k"
    using vm by (auto simp: loaded_def filter_prog_def verdicts_exact_def lru_entries_iff)
  have su: "su_family su = AF_INET \<or> su_family su = AF_INET6" "addrs_ok (su_addrs su)" "su_type su < 64"
    using assms(2) conn_evt_less [of "su_type su"] by (auto simp: sub_ok_def)
  have "mask_answer s vm (thread_args th su) =
      filter_verdict (th_env th) (su_now su) (tp_sock (th_tp th)) (su_ctx su) (su_type su) (su_family su) (su_addrs su) ?k"
    by (simp add: mask_answer_def sub_args_def array_lookup_def)
  with submitted_verdict [OF assms(1) k su, of e "th_env th" "su_now su" "tp_sock (th_tp th)" "su_ctx su" "su_sport su" "su_dport su"]
  show ?thesis by (simp add: e_def)
qed

lemma sub_event_exact:
  assumes "good_set eval s" and "sub_ok su" and "code_ok s A th su code" and "code \<noteq> KO_FILTER_DROP"
  shows "event_ok (sub_event th su code) \<and> pending_ok eval s A (sub_event th su code)"
proof
  show "event_ok (sub_event th su code)"
    using assms(2,4) by (intro make_event_ok) (auto simp: sub_ok_def ctx_ok_def)
  let ?e = "sub_event th su code"
  have ev: "filter_event X ?e = filter_event X (sub_event th su 0)" "e_cgroup_id ?e = e_cgroup_id (sub_event th su 0)" for X
    by (simp_all add: filter_event_make [of _ _ _ _ _ _ _ _ _ _ code] make_event_cgroup)
  consider "code = KO_FILTER_UNFILTERED" | "code \<in> {KO_FILTER_UNDECIDED, answer_code (Evaluate eval s (filter_event (A (e_cgroup_id ?e)) ?e))}"
    using assms(3) mask_answer_exact [OF assms(1,2), of A th] unfolding ev by (auto simp: code_ok_def)
  then show "pending_ok eval s A ?e"
  proof cases
    case 1
    have "unat (of_nat (length (set_names s)) :: u16) \<le> 32" using good_set_names(2) [OF assms(1)] by (simp add: unat_of_nat)
    then have "\<not> KO_FILTER_UNFILTERED < (of_nat (length (set_names s)) :: u16)" by (auto simp: word_less_nat_alt KO_FILTER_UNFILTERED_def)
    with 1 show ?thesis by (simp add: pending_ok_def)
  next
    case 2
    then show ?thesis by (intro answer_pending [OF assms(1)]) simp
  qed
qed

definition exact_event :: "cel_eval \<Rightarrow> Set \<Rightarrow> (u64 \<Rightarrow> CgroupAttrs) \<Rightarrow> conn_event_t \<Rightarrow> bool" where
  "exact_event eval s A e \<longleftrightarrow> event_ok e \<and> pending_ok eval s A e"

lemma smp_filtering:
  assumes "smp (publishes s A) h c" and "good_set eval s"
  shows "smp_mem_ok s A (exact_event eval s A) h (cf_mem c)"
    and "cf_threads c i = Some th \<Longrightarrow> smp_thread_ok s A (exact_event eval s A) h (cf_mem c) th"
proof -
  have f: "interference_free (publishes s A) (smp_mem_ok s A (exact_event eval s A)) (smp_thread_ok s A (exact_event eval s A))"
    by (rule filtering_interference_free [OF good_masks [OF assms(2)]]) (simp add: exact_event_def sub_event_exact [OF assms(2)])
  show "smp_mem_ok s A (exact_event eval s A) h (cf_mem c)"
    by (rule interference_free.smp_mem [OF f assms(1)])
  show "cf_threads c i = Some th \<Longrightarrow> smp_thread_ok s A (exact_event eval s A) h (cf_mem c) th"
    by (rule interference_free.smp_thread [OF f assms(1)])
qed

lemma answered_drop [simp]: "answered su code = Count_filter_drop \<longleftrightarrow> code = KO_FILTER_DROP"
  by (simp add: answered_def)

lemma walked_drop [simp]: "walked su k r = Count_filter_drop \<longleftrightarrow> r = Inl KO_FILTER_DROP"
  by (simp add: walked_def split: sum.split)

lemma walking_drop:
  assumes "walking s A th su k r" and "k < KO_MAX_PREDS" and "k < unat (npreds (filter_prog s))"
    and "v = None \<or> v = VerdictMask (set_atoms s) (A (g_cgroup_id (thread_args th su)))"
    and "ko_pred_step v (thread_args th su) (preds (filter_prog s) ! k) r = Inl KO_FILTER_DROP"
  shows "\<exists>vm. VerdictMask (set_atoms s) (A (g_cgroup_id (thread_args th su))) = Some vm \<and> mask_answer s vm (thread_args th su) = KO_FILTER_DROP"
proof -
  obtain vm where vm: "VerdictMask (set_atoms s) (A (g_cgroup_id (thread_args th su))) = Some vm"
    "on_track vm (thread_args th su) (filter_prog s) (mask_answer s vm (thread_args th su)) k r"
    using assms(1) by (auto simp: walking_def)
  with on_track_step [OF vm(2) assms(2,3), of v] assms(4,5) show ?thesis by auto
qed

lemma decided_drop:
  assumes "masks_exist s" and J: "smp_thread_ok s A P h m th" and st: "thread_step th m = (Some Count_filter_drop, m')"
  shows "\<exists>su vm. pc_sub (th_pc th) = Some su \<and> sub_ok su \<and>
    VerdictMask (set_atoms s) (A (g_cgroup_id (thread_args th su))) = Some vm \<and> mask_answer s vm (thread_args th su) = KO_FILTER_DROP"
proof -
  note th = J [unfolded smp_thread_ok_def]
  show ?thesis
  proof (cases "th_pc th")
    case (Header su)
    with th st have "nfilters (filter_prog s) = 0"
      by (auto simp: thread_step_def header_step_def switched_on_def array_lookup_def split: if_splits)
    moreover obtain vm where "VerdictMask (set_atoms s) (A (g_cgroup_id (thread_args th su))) = Some vm"
      using assms(1) by (auto simp: masks_exist_def)
    ultimately show ?thesis using th Header by (auto simp: mask_answer_def ko_filter_eval_def)
  next
    case (Walk su k r)
    with th have pr: "sh_prog m ! 0 = filter_prog s" and w: "walking s A th su k r" by (simp_all add: switched_on_def)
    show ?thesis
    proof (cases "k \<ge> KO_MAX_PREDS \<or> k \<ge> unat (npreds (filter_prog s))")
      case True
      with w on_track_end Walk th show ?thesis by (fastforce simp: walking_def)
    next
      case False
      with st Walk pr have "ko_pred_step None (thread_args th su) (preds (filter_prog s) ! k) r = Inl KO_FILTER_DROP"
        by (auto simp: thread_step_def filter_walk_step_def Let_def split: if_splits option.splits)
      with walking_drop [OF w, of None] False Walk th show ?thesis by auto
    qed
  next
    case (Verdict su k r q)
    with th have "sh_prog m ! 0 = filter_prog s" and w: "walking s A th su k r" by (simp_all add: switched_on_def)
    with st Verdict have "ko_pred_step (Some (elem_deref (sh_verdict m) q)) (thread_args th su) (preds (filter_prog s) ! k) r = Inl KO_FILTER_DROP"
      by (auto simp: thread_step_def verdict_step_def)
    with walking_drop [OF w, of "Some (elem_deref (sh_verdict m) q)"] Verdict th show ?thesis by auto
  next
    case Enter
    with st show ?thesis
      by (cases "th_tp th") (auto simp: thread_step_def sock_state_enter_def Let_def split: if_splits option.splits)
  next
    case (Copy q)
    with st show ?thesis by (auto simp: thread_step_def dest!: copied_cases)
  qed (use st in \<open>auto simp: thread_step_def limit_step_def eval_step_def reserve_step_def split: if_splits option.splits\<close>)
qed

subsection \<open>A schedule\<close>

text \<open>A handler that takes \<open>n\<close> steps in a row and does not connect.\<close>

fun runnable :: "nat \<Rightarrow> nat \<Rightarrow> config \<Rightarrow> bool" where
  "runnable i 0 c = True"
| "runnable i (Suc n) c =
     (case cf_threads c i of
        None \<Rightarrow> False
      | Some th \<Rightarrow> \<not> connects (tp_sock (th_tp th)) (Trace (th_env th) (th_tp th)) \<and> runnable i n (do_label (Run i) c))"

fun steps_of :: "nat \<Rightarrow> nat \<Rightarrow> config \<Rightarrow> config" where
  "steps_of i 0 c = c"
| "steps_of i (Suc n) c = steps_of i n (do_label (Run i) c)"

lemma smp_runnable:
  "smp G h c \<Longrightarrow> (\<And>c. G c (Run i)) \<Longrightarrow> runnable i n c \<Longrightarrow> smp G (replicate n (Run i) @ h) (steps_of i n c)"
proof (induction n arbitrary: h c)
  case 0
  then show ?case by simp
next
  case (Suc n)
  from Suc.prems obtain th where th: "cf_threads c i = Some th" "\<not> connects (tp_sock (th_tp th)) (Trace (th_env th) (th_tp th))"
    "runnable i n (do_label (Run i) c)" by (auto split: option.splits)
  have "smp G (Run i # h) (do_label (Run i) c)"
    using Suc.prems(1,2) th by (intro smp.smp_step) (auto simp: elem_choice_ok_def)
  from Suc.IH [OF this Suc.prems(2) th(3)] show ?case by (simp add: replicate_app_Cons_same)
qed

definition ex_connecting :: thread where
  "ex_connecting = \<lparr>th_env = ex_env 1000000 4242, th_tp = Inet_sock_set_state 1 7 2, th_elem = 0, th_pc = Enter\<rparr>"

definition ex_closing :: thread where
  "ex_closing = \<lparr>th_env = ex_env 5000000 0, th_tp = ex_close, th_elem = 0, th_pc = Enter\<rparr>"

text \<open>The program of \<open>ex_rtt_set\<close> is stored over a torn one, filtering is switched on, and the connection of the example
  is opened and about to be closed.\<close>

definition ex_smp_history :: "label list" where
  "ex_smp_history = [Spawn 0 ex_closing, Run 0, Spawn 0 ex_connecting, Op (Store_cfg 1) 0,
     Op (Store_prog (filter_prog ex_rtt_set)) 0, Tear zero_prog]"

definition ex_smp :: config where
  "ex_smp = \<lparr>cf_threads = [0 \<mapsto> ex_closing], cf_mem = init_shared\<lparr>sh_prog := [filter_prog ex_rtt_set], sh_cfg := [1],
     sh_ctx := elem_update \<lparr>lru_victims = [], lru_fails = False\<rparr> 0 1 (connect_ctx (ex_env 1000000 4242)) (sh_ctx init_shared)\<rparr>\<rparr>"

definition ex_smp_drop :: config where
  "ex_smp_drop = ex_smp\<lparr>cf_threads := [0 \<mapsto> ex_closing\<lparr>th_env := (ex_env 5000000 0)\<lparr>socks := (\<lambda>_. ex_sock\<lparr>srtt_us := 0\<rparr>)\<rparr>\<rparr>]\<rparr>"

lemma ex_smp_before:
  "smp (publishes ex_rtt_set A) (tl ex_smp_history) (ex_smp\<lparr>cf_threads := Map.empty\<rparr>)"
proof -
  let ?G = "publishes ex_rtt_set A" and ?p = "filter_prog ex_rtt_set"
  have ok: "prog_ok zero_prog" "prog_ok ?p"
    using init_state_ok prog_ok_set [OF ex_rtt_good] by (simp_all add: state_ok_def init_state_def filter_prog_def)
  have 1: "smp ?G [Tear zero_prog] init_config"
    using smp_step [OF smp_init [of ?G], of "Tear zero_prog"] ok(1) by (simp add: init_config_def init_shared_def)
  have 2: "smp ?G [Op (Store_prog ?p) 0, Tear zero_prog] (init_config\<lparr>cf_mem := init_shared\<lparr>sh_prog := [?p]\<rparr>\<rparr>)"
    using smp_step [OF 1, of "Op (Store_prog ?p) 0"] ok(2) by (simp add: init_config_def init_shared_def)
  have 3: "smp ?G [Op (Store_cfg 1) 0, Op (Store_prog ?p) 0, Tear zero_prog]
      (init_config\<lparr>cf_mem := init_shared\<lparr>sh_prog := [?p], sh_cfg := [1]\<rparr>\<rparr>)"
    using smp_step [OF 2, of "Op (Store_cfg 1) 0"] by (simp add: init_config_def init_shared_def)
  let ?c = "\<lparr>cf_threads = [0 \<mapsto> ex_connecting], cf_mem = init_shared\<lparr>sh_prog := [?p], sh_cfg := [1]\<rparr>\<rparr>"
  have 4: "smp ?G (Spawn 0 ex_connecting # [Op (Store_cfg 1) 0, Op (Store_prog ?p) 0, Tear zero_prog]) ?c"
    using smp_step [OF 3, of "Spawn 0 ex_connecting"] by (simp add: init_config_def ex_connecting_def)
  have "enabled (Run 0) ?c"
    by (simp add: ex_connecting_def elem_choice_ok_def elem_free_def init_shared_def no_elems_def)
  from smp_step [OF 4 this] show ?thesis
    by (simp add: ex_smp_history_def ex_smp_def thread_step_def ex_connecting_def sock_state_enter_def Let_def TCP_SYN_SENT_def)
qed

lemma ex_smp_reached:
  "smp (publishes ex_rtt_set A) ex_smp_history ex_smp"
  "smp (publishes ex_rtt_set A) (Spawn 0 (the (cf_threads ex_smp_drop 0)) # tl ex_smp_history) ex_smp_drop"
proof -
  show "smp (publishes ex_rtt_set A) ex_smp_history ex_smp"
    using smp_step [OF ex_smp_before, of "Spawn 0 ex_closing" A] by (simp add: ex_smp_def ex_closing_def ex_smp_history_def)
  have "env_ok ((ex_env 5000000 0)\<lparr>socks := \<lambda>_. ex_sock\<lparr>srtt_us := 0\<rparr>\<rparr>)" by (simp add: env_ok_def sock_ok_def ex_sock_def)
  then show "smp (publishes ex_rtt_set A) (Spawn 0 (the (cf_threads ex_smp_drop 0)) # tl ex_smp_history) ex_smp_drop"
    using smp_step [OF ex_smp_before, of "Spawn 0 (the (cf_threads ex_smp_drop 0))" A] by (simp add: ex_smp_drop_def ex_smp_def ex_closing_def)
qed

lemma ex_smp_runs: "runnable 0 9 ex_smp" "committed (sh_ring (cf_mem (steps_of 0 9 ex_smp))) = [ex_closed_event]"
  by code_simp+

lemma ex_smp_drop_runs:
  "runnable 0 7 ex_smp_drop"
  "map_option (\<lambda>th. fst (thread_step th (cf_mem (steps_of 0 7 ex_smp_drop)))) (cf_threads (steps_of 0 7 ex_smp_drop) 0) = Some (Some Count_filter_drop)"
  by code_simp+

subsection \<open>The properties\<close>





end
