(* ===== verification/Spec2Isabelle.thy ===== *)
theory Spec2Isabelle
  imports Tracer_Props Filter_Props Core_Read Core_Task Core_Macro Core_Bitfield Ko_Maps Bpf_Macro Bpf_Iter Bpf_Tracing Compile_Exact Node_Agent
    Node_Settle Node_Timed Exporters Node_Pipeline Drop_Metrics Prog_Stats Kontext_Start Tracer_Run Node_Group Smp_Props Smp_Agent
begin

text \<open>
  Verification of ko, a tracer of TCP connections for Kubernetes nodes. All file names below are under \<^verbatim>\<open>src/\<close>.

  \<^bold>\<open>The program.\<close> Four eBPF programs (\<^verbatim>\<open>pkg/tracer/c/tracer.bpf.c\<close>) run on the raw tracepoints of the TCP
  stack. \<^verbatim>\<open>ko_sock_state\<close> remembers who connects a socket in the LRU map \<^verbatim>\<open>ko_sock_ctx\<close> and reports failed and closed
  connections, \<^verbatim>\<open>ko_retransmit\<close> and \<^verbatim>\<open>ko_probe\<close> report retransmits and rate-limited samples, \<^verbatim>\<open>ko_sock_destroy\<close> forgets the
  socket. Before an event enters the ring buffer, a predicate stream stored by the agent is walked: the answer is
  a filter index, drop, or undecided. The agent, written in Go, compiles the filters of the configuration, which
  are CEL expressions, into that stream (\<^verbatim>\<open>pkg/filter/compile.go\<close>), keeps for every cgroup the verdict of the attribute
  atoms in the map \<^verbatim>\<open>ko_cgroup_verdict\<close> (\<^verbatim>\<open>pkg/tracer/cel.go\<close>), reads the ring buffer, evaluates what the kernel left
  undecided (\<^verbatim>\<open>pkg/tracer/tracer.go\<close>), resolves cgroups to containers (\<^verbatim>\<open>pkg/kontext/kontext.go\<close>) and hands events to the
  exporters (\<^verbatim>\<open>pkg/exporters\<close>).

  \<^bold>\<open>Foundations.\<close>
  \<^item> \<open>Ko_Prelude\<close>: machine integers, little-endian loads and stores, shared lemmas and collections.
  \<^item> \<open>Bpf_Helpers\<close>: the map helpers and the macros of \<^verbatim>\<open>bpf_endian.h\<close>. The locale \<open>lossy_map\<close> is what the tracer may
    assume of an LRU map; it is interpreted on the model of the helpers.
  \<^item> \<open>C_Layout\<close>, \<open>Vmlinux\<close>, \<open>Core_Read\<close>: sizes and offsets of C types, the kernel records of \<^verbatim>\<open>vmlinux.h\<close> that the tracer
    reads or must not read, and the reader macros of \<^verbatim>\<open>bpf_core_read.h\<close> on a byte memory. Shown: every read of the tracer
    reads exactly the member it names, inside its record; the casts between socket types are sound; mini-sockets
    end before the fields that are only read of full sockets; the endpoint reader returns ports in host order
    and addresses in network order.
  \<^item> \<open>Core_Macro\<close>, \<open>Core_Bitfield\<close>: the variadic expansion of the reader macros and the bit-field readers. Shown: up to ten accessors expand
    into reads that chase the pointers as the reader of \<open>Core_Read\<close> does, and both bit-field readers return the bits of the
    field. \<open>Core_Task\<close>: the helpers of the current task on \<^verbatim>\<open>task_struct\<close>. Shown: the pid and the command name that userspace decodes are
    those bytes of the connecting task.
  \<^item> \<open>Bpf_Proto\<close>, \<open>Ko_Maps\<close>: the helper prototypes of \<^verbatim>\<open>bpf_helper_defs.h\<close>, the enumerations of \<^verbatim>\<open>vmlinux.h\<close>, the map
    declarations and the helper calls of the tracer. Shown: the numbers agree, the arities are respected, the maps are valid.
  \<^item> \<open>Bpf_Macro\<close>, \<open>Bpf_Iter\<close>: the macros of \<^verbatim>\<open>bpf_helpers.h\<close>. Shown: what a map declaration says can be read back from the types of its members, the print macros
    pass their arguments in order to the right helper, and the loops over kernel iterators end, stay in range and destroy the iterator.
    \<open>Pt_Regs\<close>, \<open>Bpf_Tracing\<close>: the register tables of all architectures and the argument macros of \<^verbatim>\<open>bpf_tracing.h\<close>. Shown: programs get the
    registers or array elements of their declared arguments, and more arguments than there are places are rejected.
  \<^item> \<open>Ko_Abi\<close>: the bytes of \<^verbatim>\<open>struct conn_event_t\<close> and \<^verbatim>\<open>struct ko_prog\<close> on both sides. Shown: round trips and offsets.

  \<^bold>\<open>The filter.\<close>
  \<^item> \<open>Filter_Spec\<close>: the abstract specification, ordered three-valued conjunctions decided first match first. The locale
    \<open>filter_machine\<close> is the contract of a walker.
  \<^item> \<open>Ko_Filter\<close> (\<^verbatim>\<open>ko_filter_eval\<close>, \<^verbatim>\<open>ko_ip_in_set\<close>) and \<open>Filter_Vm\<close> (\<^verbatim>\<open>pkg/filter/vm.go\<close>, the masks of \<^verbatim>\<open>filter.go\<close>): the two walkers,
    each an interpretation of \<open>filter_machine\<close>. \<open>Filter_Equiv\<close>, \<open>Filter_Props\<close>: they give the same answers on streams of at
    most 32 predicates with whole-byte prefixes, the exact sets of addresses, first match, and that a decision
    made without a verdict stays valid once the verdict is known.
  \<^item> \<open>Go_Netip\<close>, \<open>Go_Net\<close>: parsing, printing and prefix containment of the Go library, with the round trip of printed
    endpoints. \<open>Filter_Env\<close> (\<^verbatim>\<open>pkg/filter/env.go\<close>): the address test of \<open>ip_in\<close>, exact on printed endpoints, and the rewriting
    of \<open>not in\<close>.
  \<^item> \<open>Filter_Compile\<close>: the compiler. \<open>Compile_Wf\<close>, \<open>Compile_Props\<close>: it never panics on checked expressions, its
    streams are well formed and walked alike by both sides.
  \<^item> \<open>Cel_Semantics\<close>, \<open>Compile_Sound\<close>, \<open>Compile_Exact\<close>: exact evaluation (\<^verbatim>\<open>Evaluate\<close>, \<^verbatim>\<open>activation\<close>, \<^verbatim>\<open>ipInVal\<close>), the soundness of each function
    of the compiler, and that the decisions of both walkers on a compiled set are those of evaluating the CEL
    programs in order.

  \<^bold>\<open>The tracer and the agent.\<close>
  \<^item> \<open>Ko_Tracer\<close>: maps, ring buffer, attribution and the four handlers; \<open>Ko_Exec\<close>: executions, any sequence of
    tracepoints and userspace operations (\<open>exec\<close>), with the effect of each handler and the invariants; \<open>Ko_Example\<close>: a
    concrete connection; \<open>Tracer_Props\<close>: attribution, accounting of every end of a connection, rate limit of
    samples, and that nothing leaves the kernel against the filter.
  \<^item> \<open>Lru_Elems\<close>, \<open>Ko_Smp\<close>, \<open>Smp_Exec\<close>: the same handlers on several processors. A handler is a sequence of accesses to shared memory, a hash map
    an index of elements behind pointers, the ring buffer a queue of reserved and submitted records; the relation \<open>smp\<close> lets
    any handler in flight, or userspace, take the next step. The locale \<open>interference_free\<close> is the proof rule for invariants,
    \<open>percpu_counter\<close> the contract of a counter, \<open>pointer_map\<close> what a held pointer guarantees; each is interpreted on the
    model. \<open>Smp_Flow\<close>, \<open>Smp_Attr\<close>, \<open>Smp_Count\<close>, \<open>Smp_End\<close> hold the invariants. Shown in \<open>Smp_Props\<close> and \<open>Smp_Agent\<close>: handlers end after a bounded number of
    their own steps; undisturbed they refine \<open>Ko_Tracer\<close>; attribution, the drop counters, one end for each connect, exact filtering
    and justified drops hold in every interleaving, each under the assumption that its theorem names.
  \<^item> \<open>Tracer_User\<close>: decoding, the body of the event loop, resolution in userspace, verification of kernel
    decisions, verdict syncs and the start of filtering. \<open>Kontext\<close>: container ids of cgroup paths, the container cache, its rebuild and
    its rate limit; \<open>Kontext_Start\<close>: \<^verbatim>\<open>kontext.New\<close>, which keeps the connection to the first runtime that answers and no other, and the copies of the cache. \<open>Node_Source\<close>: the locale \<open>attr_source\<close>, the contract of \<^verbatim>\<open>AttrSource\<close> on which the exactness of the verdict
    map rests, interpreted on the source of \<^verbatim>\<open>cmd/ko/node-agent/node_agent.go\<close> with and without a container cache.
  \<^item> \<open>Node_Agent\<close>: the step relation \<open>agent\<close> interleaves tracepoints, the event loop, verdict syncs and cache refreshes.
    Shown: every event sent carries the filter that exact evaluation selects, and every matching event that
    the ring buffer accepts is sent.
  \<^item> \<open>Node_Settle\<close>: the same on a node whose containers change (\<open>dyn\<close>). Shown: one refresh of the cache and one complete verdict sync
    after the last change restore exactness (\<open>settled\<close>). \<open>Node_Timed\<close>: the same with a clock and the two loops on tickers (\<open>timed\<close>), where a refresh and a verdict
    sync take time and overlap. Shown: a minute after the last change, plus the durations that the theorem names, the verdicts are exact.
  \<^item> \<open>Node_Pipeline\<close>: \<^verbatim>\<open>App.Run\<close>, the whole agent with its channel, \<^verbatim>\<open>consumeEvents\<close> and exporters (\<open>pipeline\<close>). Shown: every line that an exporter writes
    is exact and in order, and what is missing found its queue full. \<open>Node_Group\<close>: the goroutines of \<^verbatim>\<open>App.Run\<close> in their error group. Shown: the agent ends on a signal
    or on the first failure, which it returns, and then every goroutine can end.
  \<^item> \<open>Exporters\<close>: the bounded queues, the hand-over and the fields of a line; \<open>Drop_Metrics\<close>: the export of the per-CPU drop counters;
    \<open>Prog_Stats\<close>: the walk over the BPF programs of the node, which ends, and the counters made of it, which are exact.
  \<^item> \<open>Tracer_Run\<close>: the configuration, what the node agent is built of, and \<^verbatim>\<open>Tracer.Run\<close> with every error return and deferred close. Shown: the
    start is all or nothing, nothing stays open, the loop never panics and accounts for every record, and the
    agent without a configuration file reports nothing.

  \<^bold>\<open>Bounds and choices.\<close> No definition uses fuel: the bounded loops of the eBPF programs run over index lists of their
  static bound, the loops of the agent over the lists they range over, and the endless loops are step relations or one
  function per iteration. Which entries an LRU map evicts, whether an update fails and whether the ring buffer
  has room are arguments of each invocation, so theorems hold for all of them. In \<open>exec\<close> and \<open>agent\<close> handlers run one after the
  other; in \<open>smp\<close> they interleave at every access to a map or to the ring buffer, the copy of one map value being one step,
  and a handler takes at most 77 steps: seven outside the filter walk, and two for each of at most 32 predicates and its end.
  The walk over the programs of the node and the loops over kernel iterators are partial functions of option type, shown to return because program ids
  increase and because the iterator is exhausted. The clock of an invocation is a sequence of readings. Machine integers keep their width.

  \<^bold>\<open>Parameters.\<close> The CEL parser and checker are the argument \<open>parse\<close>, the CEL evaluator the argument \<open>eval\<close> with the laws
  \<open>cel_laws\<close> of the language definition, among them that \<open>ip_in\<close> calls its binding. The container
  runtime and the cgroup file system appear as a \<open>world\<close> that each call sees; exactness across the agent is
  stated for a world whose containers do not change, or have stopped changing. What the kernel guarantees about overlapping handlers is a guard on the steps of
  \<open>smp\<close>: \<open>one_per_cpu\<close> (one handler in flight on a processor), \<open>sock_locked\<close> (the transitions of a socket do not overlap), \<open>no_ctx_reuse\<close> (an
  element is not filled anew while a handler holds a pointer to it) and \<open>publishes\<close> (what userspace stores, and in which order).
  In \<open>timed\<close> the delay of a due loop and the durations of a refresh and of a verdict sync are bounded by the record \<open>timing\<close>, a lookup and a record of the event loop are one step,
  and verdict syncs are complete. \<open>num_iterator\<close> is what the kernel promises of its numeric iterator.
  The YAML decoder, the file system, the gRPC connection, the HTTP server, the BPF loader, the system calls behind the program statistics and the relocated
  values of bit-fields are arguments.

  \<^bold>\<open>Known deviations.\<close> Where the code does not do what it means to, a theorem gives the inputs: prefixes that end inside a byte
  (\<open>private_prefix_divergence\<close>), comparisons with the literal on the left (\<open>literal_on_the_left_negated\<close>), negative literals and ordered
  comparisons of the event type (\<open>negative_and_type_order_miscompiled\<close>), streams beyond the array (\<open>oversized_stream_dropped\<close>), colliding atom keys
  (\<open>atom_keys_collide\<close>), prefixes of IPv4-mapped addresses (\<open>mapped_prefix_miscompiled\<close>), containers younger than the cache (\<open>young_container_dropped\<close>), cgroup ids above 32 bits
  (\<open>high_cgroup_ids_unresolved\<close>), handlers nested on one processor (\<open>nested_handlers_lose_a_drop\<close>), context elements reused under a
  pointer (\<open>reused_element_misattributes\<close>) and run counts that fall (\<open>falling_run_count_wraps\<close>). The exactness theorems exclude these inputs by hypotheses that name them.

  \<^bold>\<open>Not modelled.\<close> What the BPF loader does inside a step of the start, logging, the HTTP server of the metrics and the
  command-line library are I/O around third-party code; the cluster agent does nothing. The tracer does not include \<^verbatim>\<open>bpf_tracing.h\<close>, which is modelled as the
  library it is; attributes, compiler barriers and the inline assembly of \<^verbatim>\<open>bpf_helpers.h\<close> have no meaning in the model. The queries of \<^verbatim>\<open>bpf_core_read.h\<close> for types,
  enumerators and fields are compiler built-ins, and the big-endian branch of \<^verbatim>\<open>bpf_endian.h\<close> is not compiled. The rest of \<^verbatim>\<open>vmlinux.h\<close> describes kernel records that the
  tracer does not touch. Weak memory ordering between two accesses of one handler is not modelled: the steps of \<open>smp\<close> are sequentially consistent.
  Delivery after the agent has been told to stop is not: each goroutine then ends on its own, and what is queued is lost.
\<close>

end
